(* ===== verification/Prelude.thy ===== *)
theory Prelude
  imports Main "HOL-Library.Word"
begin

text \<open>
  The vocabulary shared by all theories of the development: the machine types of the Go
  source, the error values of the protocol packages, the two named collections the proofs
  use, and generic facts on lists and words that more than one component needs.

  Go types: \<open>byte\<close> is an 8-bit word, \<open>uint16\<close>, \<open>int32\<close>, \<open>int64\<close>, \<open>uint64\<close> are words of
  their width (\<open>sint\<close> reads the signed ones), \<open>[]byte\<close> and the raw wire \<open>string\<close> are byte
  lists. Go's \<open>int\<close> is \<open>int\<close>, or \<open>nat\<close> where the code only has lengths and offsets.
\<close>

unbundle bit_operations_syntax

type_synonym byte = "8 word"
type_synonym bytes = "byte list"
type_synonym u16 = "16 word"
type_synonym u32 = "32 word"
type_synonym u64 = "64 word"
type_synonym i32 = "32 word"
type_synonym i64 = "64 word"

text \<open>
  A Go \<open>float64\<close> that the code only moves around is kept as its IEEE 754 bit pattern
  (\<open>math.Float64frombits\<close> is then the identity).
\<close>

type_synonym float64 = "64 word"

text \<open>
  Error values. \<open>Wrap s e\<close> is \<open>fmt.Errorf("s: %w", e)\<close>, which keeps \<open>e\<close> reachable for
  \<open>errors.Is\<close> and \<open>errors.As\<close>; \<open>WrapN s args e\<close> is the same with numbers in the message; \<open>Errorf s args\<close> is a message without a wrapped error. The
  named constructors are the sentinels and error types of the packages.
\<close>

datatype err =
    ErrShortBuffer
  | ErrHeaderCRC
  | PayloadCRCError byte byte
  | ErrTooLarge
  | ErrEOF
  | ErrUnexpectedEOF
  | ErrUnknownRecord
  | UnknownRecordError byte nat
  | Wrap string err
  | WrapN string "int list" err
  | Errorf string "int list"
  | OutOfFuel

text \<open>\<open>wire_local\<close> and \<open>buffer_local\<close> collect the introduction rules of the reader
  contracts, \<open>codec_simps\<close>
  the evaluation rules of the readers on concrete input.\<close>

named_theorems wire_local
named_theorems buffer_local
named_theorems codec_simps

subsection \<open>Lists\<close>

lemma drop_eq_append_iff:
  "n \<le> length xs \<Longrightarrow> drop n xs = ys \<longleftrightarrow> xs = take n xs @ ys"
  by (metis append_take_drop_id same_append_eq)

lemma take_Suc_drop_conv: "n < length xs \<Longrightarrow> drop n xs = xs ! n # drop (Suc n) xs"
  by (rule Cons_nth_drop_Suc [symmetric])

lemma takeWhile_append_stop:
  "\<not> P y \<Longrightarrow> (\<forall>x \<in> set xs. P x) \<Longrightarrow> takeWhile P (xs @ y # ys) = xs"
  by (simp add: takeWhile_tail)

subsection \<open>Words\<close>

lemma unat_byte_less: "unat (b :: byte) < 256"
  using unsigned_less [of b] by simp

lemma byte_no_high_bit: "8 \<le> n \<Longrightarrow> \<not> bit (b :: byte) n"
  using bit_imp_le_length [of b n] by auto

lemma unat_u16_less: "unat (w :: u16) < 65536"
  using unsigned_less [of w] by simp

lemma unat_drop_bit_div: "unat (drop_bit n (m :: 'a::len word)) = unat m div 2 ^ n"
  by (simp only: unat_drop_bit_eq) (simp add: drop_bit_eq_div)

lemma unat_of_nat_eq_small: "n < 2 ^ LENGTH('a) \<Longrightarrow> unat (of_nat n :: 'a::len word) = n"
  by (simp add: unat_of_nat)

text \<open>Arithmetic of \<open>int64\<close> that does not overflow.\<close>

lemma sint_i64_range: "- (2 ^ 63) \<le> sint (v :: i64)" "sint (v :: i64) < 2 ^ 63"
  using sint_greater_eq [of v] sint_less [of v] by simp_all

lemma sint_i64_exact:
  assumes "- (2 ^ 63) \<le> k" "k < 2 ^ 63" shows "sint (word_of_int k :: i64) = k"
  using assms by (simp add: signed_of_int signed_take_bit_int_eq_self)

text \<open>The bits of the numerals that occur as masks.\<close>

lemma bit_8_iff: "bit (8 :: 'a::semiring_bit_operations) n \<longleftrightarrow> possible_bit TYPE('a) n \<and> n = 3"
proof -
  have "(8 :: 'a) = 2 ^ 3" by simp
  then show ?thesis by (simp only: bit_exp_iff)
qed

lemma bit_7_iff: "bit (7 :: 'a::ring_bit_operations) n \<longleftrightarrow> possible_bit TYPE('a) n \<and> n < 3"
proof -
  have "(7 :: 'a) = mask 3" by (simp add: mask_eq_exp_minus_1)
  then show ?thesis by (simp only: bit_mask_iff)
qed

lemma bit_15_iff: "bit (15 :: 'a::ring_bit_operations) n \<longleftrightarrow> possible_bit TYPE('a) n \<and> n < 4"
proof -
  have "(15 :: 'a) = mask 4" by (simp add: mask_eq_exp_minus_1)
  then show ?thesis by (simp only: bit_mask_iff)
qed

lemmas bit_numerals = bit_7_iff bit_8_iff bit_15_iff

end
