(* ===== verification/Wire_Codec.thy ===== *)
theory Wire_Codec
  imports Prelude
begin

text \<open>
  The field encodings of \<open>native/wire/codec.go\<close>: \<open>Writer\<close> appends to a byte buffer,
  \<open>Reader\<close> is a buffer with a read offset. A reader operation returns its result or an
  error together with the reader it leaves, so that "the position is unchanged on failure"
  is a statement about the model. The second half of the theory is the interface the other
  components use: the locale \<open>field_codec\<close> (a writer and a reader that invert each other)
  and its interpretations on every field format.
\<close>

subsection \<open>Writer\<close>

definition Writer_Byte :: "bytes \<Rightarrow> byte \<Rightarrow> bytes" where
  "Writer_Byte w v = w @ [v]"

definition Writer_Uint16 :: "bytes \<Rightarrow> u16 \<Rightarrow> bytes" where
  "Writer_Uint16 w v = w @ [ucast (drop_bit 8 v), ucast v]"

text \<open>\<open>indexNUL\<close>: the index of the first NUL, \<open>None\<close> for the code's -1.\<close>

fun indexNUL_from :: "nat \<Rightarrow> bytes \<Rightarrow> nat option" where
  "indexNUL_from i [] = None"
| "indexNUL_from i (c # cs) = (if c = 0 then Some i else indexNUL_from (Suc i) cs)"

definition indexNUL :: "bytes \<Rightarrow> nat option" where
  "indexNUL s = indexNUL_from 0 s"

definition Writer_String :: "bytes \<Rightarrow> bytes \<Rightarrow> nat \<Rightarrow> bytes" where
  "Writer_String w s maxlen =
     (let s = (case indexNUL s of Some i \<Rightarrow> take i s | None \<Rightarrow> s);
          s = (if length s > maxlen then take maxlen s else s)
      in w @ s @ [0])"

definition Writer_Raw :: "bytes \<Rightarrow> bytes \<Rightarrow> bytes" where
  "Writer_Raw w b = w @ b"

text \<open>The loop \<open>for ; m != 0; m >>= 8\<close> of \<open>appendPacked\<close>: the bytes written to \<open>ext\<close>.\<close>

function packed_ext :: "u64 \<Rightarrow> bytes" where
  "packed_ext m = (if m = 0 then [] else ucast m # packed_ext (drop_bit 8 m))"
  by pat_completeness auto
termination
proof (relation "measure unat")
  fix m :: u64
  assume "m \<noteq> 0"
  then have "0 < unat m" by (simp add: unat_gt_0)
  then show "(drop_bit 8 m, m) \<in> measure unat"
    by (simp add: unat_drop_bit_div)
qed simp

declare packed_ext.simps [simp del]

definition minInt32 :: i64 where
  "minInt32 = - 0x80000000"

definition minInt64 :: i64 where
  "minInt64 = - 0x8000000000000000"

text \<open>
  \<open>ext\<close> is an array of eight zero bytes, so the seventh form (\<open>n == 7\<close>, written as eight
  bytes) ends in a zero byte.
\<close>

definition appendPacked :: "bytes \<Rightarrow> i64 \<Rightarrow> bytes" where
  "appendPacked w v =
     (let neg = sint v < 0;
          m = (if neg then (if v = minInt32 \<or> v = minInt64 then 0 else - v) else v);
          head = (if neg then 8 else 0) OR push_bit 4 (ucast (m AND 0xf)) :: byte;
          ext = packed_ext (drop_bit 4 m);
          n = length ext;
          ext8 = ext @ replicate (8 - n) 0;
          count = (if n = 7 \<or> n = 8 then 7 else n);
          n = (if n = 7 then 8 else n)
      in w @ [head OR of_nat count] @ take n ext8)"

definition Writer_Int32 :: "bytes \<Rightarrow> i32 \<Rightarrow> bytes" where
  "Writer_Int32 w v = appendPacked w (scast v)"

definition Writer_Int64 :: "bytes \<Rightarrow> i64 \<Rightarrow> bytes" where
  "Writer_Int64 w v = appendPacked w v"

subsection \<open>Reader\<close>

record Reader =
  rbuf :: bytes
  roff :: nat

type_synonym 'a rd = "Reader \<Rightarrow> (err + 'a) \<times> Reader"

definition NewReader :: "bytes \<Rightarrow> Reader" where
  "NewReader b = \<lparr>rbuf = b, roff = 0\<rparr>"

definition Reader_Len :: "Reader \<Rightarrow> nat" where
  "Reader_Len r = length (rbuf r) - roff r"

definition Reader_Remaining :: "Reader \<Rightarrow> bytes" where
  "Reader_Remaining r = drop (roff r) (rbuf r)"

definition Reader_Skip :: "int \<Rightarrow> unit rd" where
  "Reader_Skip n r =
     (if n < 0 \<or> n > int (Reader_Len r)
      then (Inl (Errorf ''wire: skip %d with %d bytes left'' [n, int (Reader_Len r)]), r)
      else (Inr (), r\<lparr>roff := roff r + nat n\<rparr>))"

definition Reader_Byte :: "byte rd" where
  "Reader_Byte r =
     (if Reader_Len r < 1 then (Inl ErrShortBuffer, r)
      else (Inr (rbuf r ! roff r), r\<lparr>roff := roff r + 1\<rparr>))"

definition be16 :: "byte \<Rightarrow> byte \<Rightarrow> u16" where
  "be16 hi lo = push_bit 8 (ucast hi) OR ucast lo"

definition Reader_Uint16 :: "u16 rd" where
  "Reader_Uint16 r =
     (if Reader_Len r < 2 then (Inl ErrShortBuffer, r)
      else (Inr (be16 (rbuf r ! roff r) (rbuf r ! (roff r + 1))), r\<lparr>roff := roff r + 2\<rparr>))"

definition Reader_Raw :: "int \<Rightarrow> bytes rd" where
  "Reader_Raw n r =
     (if n < 0 \<or> int (Reader_Len r) < n then (Inl ErrShortBuffer, r)
      else (Inr (take (nat n) (drop (roff r) (rbuf r))), r\<lparr>roff := roff r + nat n\<rparr>))"

text \<open>The loop of \<open>Reader.String\<close>: the position of the NUL it stops at.\<close>

function string_end :: "bytes \<Rightarrow> nat \<Rightarrow> nat \<Rightarrow> nat \<Rightarrow> nat option" where
  "string_end buf off maxlen i =
     (if i < length buf \<and> i - off \<le> maxlen
      then (if buf ! i = 0 then Some i else string_end buf off maxlen (i + 1))
      else None)"
  by pat_completeness auto
termination
  by (relation "measure (\<lambda>(buf, off, maxlen, i). length buf - i)") auto

declare string_end.simps [simp del]

definition Reader_String :: "nat \<Rightarrow> bytes rd" where
  "Reader_String maxlen r =
     (case string_end (rbuf r) (roff r) maxlen (roff r) of
        Some i \<Rightarrow> (Inr (take (i - roff r) (drop (roff r) (rbuf r))), r\<lparr>roff := i + 1\<rparr>)
      | None \<Rightarrow> (Inl ErrShortBuffer, r))"

text \<open>\<open>packed_value\<close> is the loop \<open>for i := n; i >= 1; i--\<close>: it folds from the last extra byte.\<close>

definition packed_value :: "bytes \<Rightarrow> u64" where
  "packed_value ext = foldr (\<lambda>b m. push_bit 8 m OR ucast b) ext 0"

definition Reader_packed :: "bool \<Rightarrow> i64 rd" where
  "Reader_packed wide r =
     (if Reader_Len r < 1 then (Inl ErrShortBuffer, r)
      else
        let head = rbuf r ! roff r;
            n = unat (head AND 7);
            n = (if wide \<and> n = 7 then 8 else n)
        in if Reader_Len r < n + 1 then (Inl ErrShortBuffer, r)
           else
             let m = packed_value (take n (drop (roff r + 1) (rbuf r)));
                 m = push_bit 4 m OR ucast (drop_bit 4 head);
                 r' = r\<lparr>roff := roff r + n + 1\<rparr>
             in if head AND 8 \<noteq> 0
                then (if m = 0 then (Inr minInt64, r') else (Inr (- m), r'))
                else (Inr m, r'))"

definition Reader_Int32 :: "i32 rd" where
  "Reader_Int32 r =
     (case Reader_packed False r of
        (Inl e, r') \<Rightarrow> (Inl e, r')
      | (Inr v, r') \<Rightarrow> (Inr (ucast (if v = minInt64 then minInt32 else v)), r'))"

definition Reader_Int64 :: "i64 rd" where
  "Reader_Int64 = Reader_packed True"

subsection \<open>Packed integers: what is written and what is read back\<close>

text \<open>The value of the extra bytes, least significant first.\<close>

fun le_val :: "bytes \<Rightarrow> nat" where
  "le_val [] = 0"
| "le_val (b # bs) = unat b + 256 * le_val bs"

lemma le_val_packed_ext: "le_val (packed_ext m) = unat m"
proof (induction m rule: packed_ext.induct)
  case (1 m)
  show ?case
  proof (cases "m = 0")
    case False
    with 1 have "le_val (packed_ext (drop_bit 8 m)) = unat m div 256"
      by (simp add: unat_drop_bit_div)
    moreover have "unat (ucast m :: byte) = unat m mod 256"
      by (simp add: unsigned_ucast_eq take_bit_eq_mod)
    ultimately show ?thesis using False by (subst packed_ext.simps) simp
  qed (simp add: packed_ext.simps)
qed

lemma le_val_append_zeros: "le_val (bs @ replicate k 0) = le_val bs"
  by (induction bs) (simp_all, induction k, simp_all)

lemma le_val_bound: "le_val bs < 256 ^ length bs"
proof (induction bs)
  case (Cons b bs)
  then have "256 * le_val bs + 256 \<le> 256 * 256 ^ length bs" by simp
  with unat_byte_less [of b] show ?case by simp
qed simp

lemma length_packed_ext: "unat m < 256 ^ k \<Longrightarrow> length (packed_ext m) \<le> k"
proof (induction m arbitrary: k rule: packed_ext.induct)
  case (1 m)
  show ?case
  proof (cases "m = 0")
    case False
    with 1 obtain k' where k: "k = Suc k'"
      by (cases k) (auto simp: unat_eq_0)
    with 1 have "unat (drop_bit 8 m) < 256 ^ k'"
      by (simp add: unat_drop_bit_div less_mult_imp_div_less mult.commute)
    with False 1 k show ?thesis by (subst packed_ext.simps) simp
  qed (simp add: packed_ext.simps)
qed


lemma push_or_add:
  assumes "\<And>n. k \<le> n \<Longrightarrow> \<not> bit b n"
  shows "push_bit k m OR ucast (b :: byte) = push_bit k m + (ucast b :: u64)"
proof (rule disjunctive_add [symmetric])
  fix n
  show "\<not> bit (push_bit k m) n \<or> \<not> bit (ucast b :: u64) n"
    using assms by (cases "n < k") (auto simp: bit_simps)
qed

lemma unat_push_or:
  assumes "\<And>n. k \<le> n \<Longrightarrow> \<not> bit b n" and "2 ^ k * unat m + unat b < 2 ^ 64"
  shows "unat (push_bit k m OR ucast (b :: byte) :: u64) = 2 ^ k * unat m + unat b"
proof -
  have "unat (push_bit k m :: u64) = 2 ^ k * unat m"
    using assms(2) by (simp only: unsigned_push_bit_eq) (simp add: push_bit_eq_mult take_bit_eq_mod mult.commute)
  moreover have "unat (ucast b :: u64) = unat b"
    by (simp add: unsigned_ucast_eq take_bit_nat_eq_self_iff)
      (use unat_byte_less [of b] in simp)
  ultimately show ?thesis
    using assms by (simp add: push_or_add unat_word_ariths)
qed

lemma packed_value_le_val:
  "le_val bs < 2 ^ 64 \<Longrightarrow> unat (packed_value bs) = le_val bs"
proof (induction bs)
  case (Cons b bs)
  from Cons.prems have lt: "2 ^ 8 * le_val bs + unat b < 2 ^ 64" by simp
  hence "unat (packed_value bs) = le_val bs" using Cons.IH by simp
  then show ?case using lt unat_push_or [of 8 b "packed_value bs"] byte_no_high_bit
    by (simp add: packed_value_def)
qed (simp add: packed_value_def)





definition packed_head :: "bool \<Rightarrow> u64 \<Rightarrow> byte \<Rightarrow> byte" where
  "packed_head neg m c = ((if neg then 8 else 0) OR push_bit 4 (ucast (m AND 0xf))) OR c"

lemma bit_packed_head:
  "bit (packed_head neg m c) n \<longleftrightarrow> n < 8 \<and> (bit c n \<or> neg \<and> n = 3 \<or> 4 \<le> n \<and> bit m (n - 4))"
  using bit_imp_le_length [of c n]
  by (auto simp: packed_head_def bit_or_iff bit_push_bit_iff bit_unsigned_iff bit_and_iff bit_numerals)

lemma packed_head_fields:
  assumes c: "\<And>n. 3 \<le> n \<Longrightarrow> \<not> bit c n"
  shows "packed_head neg m c AND 7 = c" and "packed_head neg m c AND 8 \<noteq> 0 \<longleftrightarrow> neg"
    and "drop_bit 4 (packed_head neg m c) = ucast (m AND 0xf)"
proof -
  show "packed_head neg m c AND 7 = c"
    using c by (intro bit_word_eqI)
      (auto simp: bit_and_iff bit_packed_head bit_numerals not_less [symmetric])
  show "drop_bit 4 (packed_head neg m c) = ucast (m AND 0xf)"
    using c by (intro bit_word_eqI)
      (auto simp: bit_packed_head bit_drop_bit_eq bit_unsigned_iff bit_and_iff bit_numerals)
  have "bit (packed_head neg m c AND 8) n \<longleftrightarrow> n = 3 \<and> neg" for n
    using c [of n] by (auto simp: bit_and_iff bit_packed_head bit_numerals)
  then have "packed_head neg m c AND 8 = (if neg then 8 else 0)"
    by (intro bit_word_eqI) (auto simp: bit_numerals)
  then show "packed_head neg m c AND 8 \<noteq> 0 \<longleftrightarrow> neg" by simp
qed

lemma nibble_join: "push_bit 4 (drop_bit 4 m) OR ucast (ucast (m AND 0xf) :: byte) = (m :: u64)"
proof (rule bit_word_eqI)
  fix n assume "n < LENGTH(64)"
  then show "bit (push_bit 4 (drop_bit 4 m) OR ucast (ucast (m AND 0xf) :: byte)) n \<longleftrightarrow> bit m n"
    by (cases "4 \<le> n")
      (auto simp: bit_or_iff bit_and_iff bit_unsigned_iff bit_push_bit_iff bit_drop_bit_eq bit_numerals)
qed

lemma small_count: "n \<le> 7 \<Longrightarrow> 3 \<le> k \<Longrightarrow> \<not> bit (of_nat n :: byte) k"
proof
  assume n: "n \<le> 7" "3 \<le> k" and b: "bit (of_nat n :: byte) k"
  then have "bit n k" by (simp add: bit_simps)
  moreover have "n < 2 ^ k" using n power_increasing [of 3 k "2::nat"] by simp
  ultimately show False by (metis bit_take_bit_iff order_less_irrefl take_bit_nat_eq_self)
qed


lemma Reader_packed_form:
  assumes c: "c \<le> 7" and len: "length ext = (if wide \<and> c = 7 then 8 else c)"
    and val: "le_val ext = unat (drop_bit 4 m)"
    and buf: "rbuf r = pre @ (packed_head neg m (of_nat c) # ext) @ post" and off: "roff r = length pre"
  shows "Reader_packed wide r
    = (Inr (if neg then (if m = 0 then minInt64 else - m) else m),
       r\<lparr>roff := length pre + length ext + 1\<rparr>)"
proof -
  let ?h = "packed_head neg m (of_nat c)"
  have head: "rbuf r ! roff r = ?h" and len1: "\<not> Reader_Len r < 1"
    and len2: "\<not> Reader_Len r < length ext + 1"
    and ext: "take (length ext) (drop (roff r + 1) (rbuf r)) = ext"
    by (simp_all add: buf off Reader_Len_def nth_append)
  have "unat (of_nat c :: byte) = c"
    using c by (simp add: unat_of_nat)
  with packed_head_fields(1) [OF small_count, OF c] len
  have n: "(if wide \<and> unat (?h AND 7) = 7 then 8 else unat (?h AND 7)) = length ext" by simp
  have v: "packed_value ext = drop_bit 4 m"
    by (rule word_unat_eq_iff [THEN iffD2])
      (simp add: packed_value_le_val val unsigned_less [where ?'b = 64, simplified])
  have m: "push_bit 4 (packed_value ext) OR ucast (drop_bit 4 ?h) = m"
    by (simp only: v packed_head_fields(3) [OF small_count, OF c] nibble_join)
  show ?thesis
    unfolding Reader_packed_def Let_def head n ext m
    using len1 len2 packed_head_fields(2) [OF small_count, OF c, of neg m] off
    by (cases neg) simp_all
qed

definition packed_form :: "i64 \<Rightarrow> bytes" where
  "packed_form v = appendPacked [] v"

lemma appendPacked_append: "appendPacked w v = w @ packed_form v"
  by (simp add: appendPacked_def packed_form_def Let_def)

definition magnitude :: "i64 \<Rightarrow> u64" where
  "magnitude v = (if sint v < 0 then (if v = minInt32 \<or> v = minInt64 then 0 else - v) else v)"

lemma packed_form_eq:
  assumes "length (packed_ext (drop_bit 4 (magnitude v))) \<le> 6"
  shows "packed_form v =
    packed_head (sint v < 0) (magnitude v) (of_nat (length (packed_ext (drop_bit 4 (magnitude v)))))
    # packed_ext (drop_bit 4 (magnitude v))"
  using assms by (simp add: packed_form_def appendPacked_def Let_def magnitude_def packed_head_def)

lemma packed_form_eq_long:
  fixes v
  defines "ext \<equiv> packed_ext (drop_bit 4 (magnitude v))"
  assumes "length ext = 7 \<or> length ext = 8"
  shows "packed_form v = packed_head (sint v < 0) (magnitude v) 7 # ext @ replicate (8 - length ext) 0"
  using assms by (auto simp: packed_form_def appendPacked_def Let_def magnitude_def packed_head_def)

lemma length_magnitude_ext: "length (packed_ext (drop_bit 4 (magnitude v))) \<le> 8"
proof (rule length_packed_ext)
  have "unat (magnitude v) < 2 ^ 64" using unsigned_less [of "magnitude v"] by simp
  then show "unat (drop_bit 4 (magnitude v)) < 256 ^ 8"
    by (simp add: unat_drop_bit_div)
qed

lemma Reader_packed_wide:
  assumes buf: "rbuf r = pre @ packed_form v @ post" and off: "roff r = length pre"
  shows "Reader_packed True r = 
    (Inr (if sint v < 0 then (if magnitude v = 0 then minInt64 else - magnitude v) else magnitude v),
     r\<lparr>roff := length pre + length (packed_form v)\<rparr>)"
proof -
  let ?m = "magnitude v"
  let ?ext = "packed_ext (drop_bit 4 ?m)"
  consider (short) "length ?ext \<le> 6" | (long) "length ?ext = 7 \<or> length ?ext = 8"
    using length_magnitude_ext [of v] by linarith
  then show ?thesis
  proof cases
    case short
    then have buf': "rbuf r = pre @ (packed_head (sint v < 0) ?m (of_nat (length ?ext)) # ?ext) @ post"
      and len: "length (packed_form v) = length ?ext + 1"
      using buf by (simp_all add: packed_form_eq)
    show ?thesis
      using Reader_packed_form [OF _ _ _ buf' off, of True] short
      by (simp add: le_val_packed_ext len)
  next
    case long
    let ?e = "?ext @ replicate (8 - length ?ext) 0"
    from long have buf': "rbuf r = pre @ (packed_head (sint v < 0) ?m (of_nat 7) # ?e) @ post"
      and len: "length (packed_form v) = length ?e + 1"
      using buf by (auto simp: packed_form_eq_long)
    show ?thesis
      using Reader_packed_form [OF _ _ _ buf' off, of True] long
      by (auto simp: le_val_packed_ext le_val_append_zeros len)
  qed
qed

lemma Int64_roundtrip:
  assumes "rbuf r = pre @ packed_form v @ post" and "roff r = length pre" and "v \<noteq> minInt32"
  shows "Reader_Int64 r = (Inr v, r\<lparr>roff := length pre + length (packed_form v)\<rparr>)"
  using Reader_packed_wide [OF assms(1,2)] assms(3)
  by (auto simp: Reader_Int64_def magnitude_def)

lemma sint_scast_i32: "sint (scast (v :: i32) :: i64) = sint v"
  by (rule sint_up_scast) (simp add: is_up_def source_size_def target_size_def word_size)

lemma ucast_scast_i32: "ucast (scast (v :: i32) :: i64) = v"
  by (rule bit_word_eqI) (simp add: bit_simps)

lemma minInt_neg: "sint minInt32 < 0" "sint minInt64 < 0"
  by (simp_all add: minInt32_def minInt64_def)


lemma uint_i64: "uint (v :: i64) = sint v mod 2 ^ 64"
  by (simp add: uint_sint take_bit_eq_mod)

lemma uint_neg_i64: "uint (- v :: i64) = (- sint v) mod 2 ^ 64"
proof -
  have "uint (- v) = (- uint v) mod 2 ^ 64" by (simp add: uint_word_ariths)
  then show ?thesis by (simp only: uint_i64 mod_minus_eq)
qed

lemma uint_magnitude_i32: "uint (magnitude (scast (v :: i32))) \<le> 2 ^ 31"
proof -
  have r: "- (2 ^ 31) \<le> sint v" "sint v < 2 ^ 31"
    using sint_range_size [of v] by (simp_all add: word_size)
  have neg: "uint (- scast v :: i64) = (- sint v) mod 2 ^ 64"
    by (simp only: uint_neg_i64 sint_scast_i32)
  have pos: "uint (scast v :: i64) = sint v mod 2 ^ 64"
    by (simp only: uint_i64 sint_scast_i32)
  show ?thesis
    using r by (auto simp: magnitude_def neg pos sint_scast_i32)
qed

lemma length_ext_i32: "length (packed_ext (drop_bit 4 (magnitude (scast (v :: i32))))) \<le> 4"
proof (rule length_packed_ext)
  have "unat (magnitude (scast v)) \<le> 2 ^ 31"
    using nat_mono [OF uint_magnitude_i32 [of v]] by simp
  then show "unat (drop_bit 4 (magnitude (scast v))) < 256 ^ 4"
    by (simp add: unat_drop_bit_div)
qed

lemma Int32_roundtrip:
  assumes buf: "rbuf r = pre @ packed_form (scast v) @ post" and off: "roff r = length pre"
  shows "Reader_Int32 r = (Inr v, r\<lparr>roff := length pre + length (packed_form (scast v))\<rparr>)"
proof -
  let ?v = "scast v :: i64"
  let ?ext = "packed_ext (drop_bit 4 (magnitude ?v))"
  have l: "length ?ext \<le> 4" by (rule length_ext_i32)
  then have f: "packed_form ?v =
      packed_head (sint ?v < 0) (magnitude ?v) (of_nat (length ?ext)) # ?ext"
    by (simp add: packed_form_eq)
  have p: "Reader_packed False r = 
    (Inr (if sint ?v < 0 then (if magnitude ?v = 0 then minInt64 else - magnitude ?v) else magnitude ?v),
     r\<lparr>roff := length pre + length (packed_form ?v)\<rparr>)"
    using Reader_packed_form [OF _ _ _ buf [unfolded f] off, of False] l
    by (simp add: le_val_packed_ext f)
  have ne: "?v \<noteq> minInt64"
    using sint_range_size [of v] sint_scast_i32 [of v] by (auto simp: word_size minInt64_def)
  show ?thesis
  proof (cases "?v = minInt32")
    case True
    then have "v = ucast minInt32" by (metis ucast_scast_i32)
    with True p minInt_neg show ?thesis by (simp add: Reader_Int32_def magnitude_def)
  next
    case False
    have "sint ?v < 0 \<Longrightarrow> ?v \<noteq> 0" by auto
    with False p ne show ?thesis
      by (auto simp: Reader_Int32_def magnitude_def ucast_scast_i32)
  qed
qed

lemma Int64_minInt32: "Reader_Int64 (NewReader (packed_form minInt32)) = (Inr minInt64, \<lparr>rbuf = [8], roff = 1\<rparr>)"
  by (simp add: packed_form_def appendPacked_def minInt32_def minInt64_def packed_ext.simps
   Reader_Int64_def Reader_packed_def NewReader_def Reader_Len_def packed_value_def)

lemma packed_form_length: "1 \<le> length (packed_form v)" "length (packed_form v) \<le> 9"
proof -
 show  "1 \<le> length (packed_form v)" by (simp add: packed_form_def appendPacked_def Let_def)
 show "length (packed_form v) \<le> 9"
   proof (cases "length (packed_ext (drop_bit 4 (magnitude v))) \<le> 6")
     case True then show ?thesis by (simp add: packed_form_eq)
   next
     case False
     then have "length (packed_ext (drop_bit 4 (magnitude v))) = 7 \<or> length (packed_ext (drop_bit 4 (magnitude v))) = 8"
       using length_magnitude_ext [of v] by linarith
     from packed_form_eq_long [OF this] this show ?thesis by auto
   qed
qed

lemma packed_form_i32_length: "length (packed_form (scast (v :: i32))) \<le> 5"
  using length_ext_i32 [of v] by (simp add: packed_form_eq)

subsection \<open>NUL-terminated strings\<close>

lemma indexNUL_from_eq:
  "indexNUL_from i s = (if 0 \<in> set s then Some (i + length (takeWhile (\<lambda>c. c \<noteq> 0) s)) else None)"
  by (induction s arbitrary: i) auto

lemma takeWhile_nul_free: "0 \<notin> set s \<Longrightarrow> takeWhile (\<lambda>c :: byte. c \<noteq> 0) s = s"
  by (induction s) auto

definition cstring :: "bytes \<Rightarrow> nat \<Rightarrow> bytes" where
  "cstring s n = take n (takeWhile (\<lambda>c. c \<noteq> 0) s)"

lemma Writer_String_cstring: "Writer_String w s n = w @ cstring s n @ [0]"
proof -
  have "take (length (takeWhile (\<lambda>c. c \<noteq> 0) s)) s = takeWhile (\<lambda>c. c \<noteq> 0) s"
    by (metis takeWhile_eq_take)
  then show ?thesis
    by (auto simp: takeWhile_nul_free Writer_String_def indexNUL_def indexNUL_from_eq cstring_def Let_def)
qed

lemma cstring_no_nul: "0 \<notin> set (cstring s n)"
  by (auto simp: cstring_def dest!: in_set_takeD set_takeWhileD)

lemma cstring_id: "0 \<notin> set s \<Longrightarrow> length s \<le> n \<Longrightarrow> cstring s n = s"
  by (simp add: cstring_def takeWhile_nul_free)

text \<open>The scan in terms of the unread bytes: the text up to the first NUL.\<close>

lemma string_end_suffix:
  assumes "off \<le> i" "i \<le> length buf"
  shows "string_end buf off n i =
    (let t = takeWhile (\<lambda>c. c \<noteq> 0) (drop i buf) in
     if i + length t < length buf \<and> i + length t - off \<le> n then Some (i + length t) else None)"
  using assms
proof (induction buf off n i rule: string_end.induct)
  case (1 buf off n i)
  show ?case
  proof (cases "i < length buf")
    case True
    then have d: "drop i buf = buf ! i # drop (Suc i) buf" by (rule Cons_nth_drop_Suc [symmetric])
    show ?thesis
    proof (cases "i - off \<le> n \<and> buf ! i \<noteq> 0")
      case True
      with 1 \<open>i < length buf\<close> d show ?thesis
        by (subst string_end.simps) (simp add: Let_def)
    next
      case False
      with 1 \<open>i < length buf\<close> d show ?thesis
        by (subst string_end.simps) (auto simp add: Let_def)
    qed
  qed (use 1 in \<open>simp add: string_end.simps\<close>)
qed

lemma Reader_String_suffix:
  assumes "roff r \<le> length (rbuf r)"
  shows "Reader_String n r =
    (let bs = drop (roff r) (rbuf r); t = takeWhile (\<lambda>c. c \<noteq> 0) bs in
     if length t < length bs \<and> length t \<le> n
     then (Inr t, r\<lparr>roff := roff r + length t + 1\<rparr>) else (Inl ErrShortBuffer, r))"
proof -
  have "take (length (takeWhile (\<lambda>c. c \<noteq> 0) bs)) bs = takeWhile (\<lambda>c. c \<noteq> 0) bs" for bs :: bytes
    by (metis takeWhile_eq_take)
  then show ?thesis
    using assms by (auto simp: Reader_String_def string_end_suffix Let_def)
qed

lemma be16_join: "be16 (ucast (drop_bit 8 v)) (ucast v) = v"
proof (rule bit_word_eqI)
  fix n assume "n < LENGTH(16)"
  then show "bit (be16 (ucast (drop_bit 8 v)) (ucast v)) n = bit v n"
    by (cases "8 \<le> n") (auto simp: be16_def bit_or_iff bit_push_bit_iff bit_unsigned_iff bit_drop_bit_eq)
qed

lemma be16_bytes: "ucast (drop_bit 8 (be16 a b)) = a" "ucast (be16 a b) = b"
  by (rule bit_word_eqI, use byte_no_high_bit [of _ b] in
      \<open>auto simp: be16_def bit_or_iff bit_push_bit_iff bit_unsigned_iff bit_drop_bit_eq\<close>)+

end
