(* ===== verification/Field_Reader.thy ===== *)
theory Field_Reader
  imports Wire_Codec
begin

text \<open>
  How the record decoders are put together from the operations of \<open>wire.Reader\<close>: sequencing
  with early return, the error context of \<open>fmt.Errorf("...: %w", err)\<close>, loops until a
  terminator. The locale \<open>wire_reader\<close> is the contract every decoder keeps and the record
  splitter relies on; \<open>wire_loop\<close> is the contract of a loop body, from which termination
  and the contract of the loop follow; \<open>field_codec\<close> pairs a writer with its reader.
\<close>

subsection \<open>Combinators\<close>

text \<open>\<open>rbind p f\<close> is \<open>v, err := p; if err != nil { return err }; f v\<close>.\<close>

definition rbind :: "'a rd \<Rightarrow> ('a \<Rightarrow> 'b rd) \<Rightarrow> 'b rd" where
  "rbind p f r = (case p r of (Inl e, r') \<Rightarrow> (Inl e, r') | (Inr a, r') \<Rightarrow> f a r')"

definition ret :: "'a \<Rightarrow> 'a rd" where
  "ret a r = (Inr a, r)"

definition fail :: "err \<Rightarrow> 'a rd" where
  "fail e r = (Inl e, r)"

text \<open>\<open>field s p\<close> is a read whose error is returned as \<open>fmt.Errorf("s: %w", err)\<close>.\<close>

definition field :: "string \<Rightarrow> 'a rd \<Rightarrow> 'a rd" where
  "field s p r = (case p r of (Inl e, r') \<Rightarrow> (Inl (Wrap s e), r') | (Inr a, r') \<Rightarrow> (Inr a, r'))"

text \<open>\<open>fmt.Errorf("... %d ...: %w", n, err)\<close> around a read.\<close>

definition fieldN :: "string \<Rightarrow> int list \<Rightarrow> 'a rd \<Rightarrow> 'a rd" where
  "fieldN s args p r = (case p r of (Inl e, r') \<Rightarrow> (Inl (WrapN s args e), r') | (Inr a, r') \<Rightarrow> (Inr a, r'))"

text \<open>\<open>rwhen c d p\<close> is a mask-selected read: \<open>d\<close> (the zero value) when the bit is clear.\<close>

definition rwhen :: "bool \<Rightarrow> 'a \<Rightarrow> 'a rd \<Rightarrow> 'a rd" where
  "rwhen c d p = (if c then p else ret d)"

fun rtimes :: "nat \<Rightarrow> 'a rd \<Rightarrow> 'a list rd" where
  "rtimes 0 p = ret []"
| "rtimes (Suc n) p = rbind p (\<lambda>a. rbind (rtimes n p) (\<lambda>as. ret (a # as)))"

text \<open>
  A \<open>for\<close> loop over a loop state: the body continues with a new state (\<open>Inl\<close>) or leaves the
  loop with a result (\<open>Inr\<close>). The fuel of \<open>rfor\<close> is one more than the unread bytes; by
  \<open>wire_loop\<close> it is never used up by a body that reads at least one byte per round.
\<close>

fun rloop :: "nat \<Rightarrow> ('s \<Rightarrow> ('s + 'a) rd) \<Rightarrow> 's \<Rightarrow> 'a rd" where
  "rloop 0 body s r = (Inl OutOfFuel, r)"
| "rloop (Suc n) body s r =
     (case body s r of
        (Inl e, r') \<Rightarrow> (Inl e, r')
      | (Inr (Inl s'), r') \<Rightarrow> rloop n body s' r'
      | (Inr (Inr a), r') \<Rightarrow> (Inr a, r'))"

definition rfor :: "('s \<Rightarrow> ('s + 'a) rd) \<Rightarrow> 's \<Rightarrow> 'a rd" where
  "rfor body s r = rloop (Suc (Reader_Len r)) body s r"

text \<open>Running a decoder on a record body, and the check \<open>if r.Len() > 0\<close> at its end.\<close>

definition decode_body :: "'a rd \<Rightarrow> bytes \<Rightarrow> err + 'a" where
  "decode_body p body = fst (p (NewReader body))"

definition at_end :: "string \<Rightarrow> unit rd" where
  "at_end s r = (if Reader_Len r > 0 then (Inl (Errorf s [int (Reader_Len r)]), r) else (Inr (), r))"

lemmas combinator_defs = rbind_def ret_def fail_def field_def rwhen_def decode_body_def at_end_def

subsection \<open>The contract of a decoder\<close>

definition valid :: "Reader \<Rightarrow> bool" where
  "valid r \<longleftrightarrow> roff r \<le> length (rbuf r)"

text \<open>More bytes behind the buffer, and bytes before it.\<close>

definition extend :: "bytes \<Rightarrow> Reader \<Rightarrow> Reader" where
  "extend t r = \<lparr>rbuf = rbuf r @ t, roff = roff r\<rparr>"

definition shift :: "bytes \<Rightarrow> Reader \<Rightarrow> Reader" where
  "shift p r = \<lparr>rbuf = p @ rbuf r, roff = length p + roff r\<rparr>"

text \<open>
  \<open>buffer_reader\<close>: the position only moves forward inside an unchanged buffer.
  \<open>wire_reader\<close>: besides, what is read depends on the unread bytes only, and a successful
  read does not depend on the bytes behind the ones it used.
\<close>

locale buffer_reader =
  fixes p :: "'a rd"
  assumes keeps: "valid r \<Longrightarrow> p r = (x, r') \<Longrightarrow> rbuf r' = rbuf r \<and> roff r \<le> roff r' \<and> valid r'"

locale wire_reader = buffer_reader +
  assumes extends: "valid r \<Longrightarrow> p r = (Inr a, r') \<Longrightarrow> p (extend t r) = (Inr a, extend t r')"
    and shifts: "valid r \<Longrightarrow> p r = (x, r') \<Longrightarrow> p (shift b r) = (x, shift b r')"

lemma wire_reader_buffer: "wire_reader p \<Longrightarrow> buffer_reader p"
  by (rule wire_reader.axioms)

lemma wire_keeps:
  "wire_reader p \<Longrightarrow> valid r \<Longrightarrow> p r = (x, r') \<Longrightarrow> rbuf r' = rbuf r \<and> roff r \<le> roff r' \<and> valid r'"
  by (rule buffer_reader.keeps [OF wire_reader_buffer])

text \<open>A decoder that reads at least one byte when it succeeds.\<close>

definition advances :: "'a rd \<Rightarrow> bool" where
  "advances p \<longleftrightarrow> (\<forall>r a r'. valid r \<longrightarrow> p r = (Inr a, r') \<longrightarrow> roff r < roff r')"

lemma valid_NewReader [simp]: "valid (NewReader b)"
  by (simp add: valid_def NewReader_def)

lemma valid_extend [simp]: "valid r \<Longrightarrow> valid (extend t r)"
  by (simp add: valid_def extend_def)

lemma valid_shift [simp]: "valid (shift t r) \<longleftrightarrow> valid r"
  by (simp add: valid_def shift_def)

lemma shift_NewReader: "valid r \<Longrightarrow> r = shift (take (roff r) (rbuf r)) (NewReader (Reader_Remaining r))"
  by (simp add: shift_def NewReader_def Reader_Remaining_def valid_def)

lemma extend_NewReader: "NewReader (a @ b) = extend b (NewReader a)"
  by (simp add: NewReader_def extend_def)

lemma Reader_Len_shift [simp]: "Reader_Len (shift b r) = Reader_Len r"
  by (simp add: Reader_Len_def shift_def)

lemma Reader_Len_extend: "valid r \<Longrightarrow> Reader_Len (extend b r) = Reader_Len r + length b"
  by (simp add: Reader_Len_def extend_def valid_def)

lemmas reader_defs = valid_def extend_def shift_def Reader_Len_def

subsection \<open>The contract holds of the operations and is kept by the combinators\<close>

lemma wire_reader_Byte [wire_local]: "wire_reader Reader_Byte"
  by unfold_locales (auto simp: Reader_Byte_def reader_defs nth_append split: if_splits)

lemma wire_reader_Uint16 [wire_local]: "wire_reader Reader_Uint16"
  by unfold_locales (auto simp: Reader_Uint16_def reader_defs nth_append split: if_splits)

lemma wire_reader_Raw [wire_local]: "wire_reader (Reader_Raw n)"
  by unfold_locales (auto simp: Reader_Raw_def reader_defs split: if_splits)

lemma takeWhile_found_append:
  "length (takeWhile P bs) < length bs \<Longrightarrow> takeWhile P (bs @ t) = takeWhile P bs"
  by (induction bs) auto

lemma wire_reader_String [wire_local]: "wire_reader (Reader_String n)"
proof
  fix r x r'
  assume "valid r" "Reader_String n r = (x, r')"
  then show "rbuf r' = rbuf r \<and> roff r \<le> roff r' \<and> valid r'"
    by (auto simp: Reader_String_suffix valid_def Let_def split: if_splits)
next
  fix r a r' t
  assume v: "valid r" and s: "Reader_String n r = (Inr a, r')"
  let ?bs = "drop (roff r) (rbuf r)"
  from v s have f: "length (takeWhile (\<lambda>c. c \<noteq> 0) ?bs) < length ?bs"
    by (auto simp: Reader_String_suffix valid_def Let_def split: if_splits)
  have "Reader_String n (extend t r) =
      (Inr (takeWhile (\<lambda>c. c \<noteq> 0) ?bs), extend t (r\<lparr>roff := roff r + length (takeWhile (\<lambda>c. c \<noteq> 0) ?bs) + 1\<rparr>))"
    using v s f
    by (subst Reader_String_suffix)
      (auto simp: Reader_String_suffix valid_def Let_def extend_def takeWhile_found_append split: if_splits)
  with v s show "Reader_String n (extend t r) = (Inr a, extend t r')"
    by (auto simp: Reader_String_suffix valid_def Let_def split: if_splits)
next
  fix r x r' b
  assume "valid r" "Reader_String n r = (x, r')"
  then show "Reader_String n (shift b r) = (x, shift b r')"
    by (auto simp: Reader_String_suffix valid_def Let_def shift_def split: if_splits)
qed

text \<open>The packed read in terms of the unread bytes: the value and the number of bytes used.\<close>

fun packed_of :: "bool \<Rightarrow> bytes \<Rightarrow> (i64 \<times> nat) option" where
  "packed_of w [] = None"
| "packed_of w (h # bs) =
     (let n = (if w \<and> unat (h AND 7) = 7 then 8 else unat (h AND 7));
          m = push_bit 4 (packed_value (take n bs)) OR ucast (drop_bit 4 h)
      in if length bs < n then None
         else Some (if h AND 8 \<noteq> 0 then (if m = 0 then minInt64 else - m) else m, n + 1))"

lemma Reader_packed_suffix:
  assumes "valid r"
  shows "Reader_packed w r =
    (case packed_of w (drop (roff r) (rbuf r)) of
       None \<Rightarrow> (Inl ErrShortBuffer, r) | Some (v, k) \<Rightarrow> (Inr v, r\<lparr>roff := roff r + k\<rparr>))"
proof (cases "drop (roff r) (rbuf r)")
  case Nil
  then show ?thesis by (simp add: Reader_packed_def Reader_Len_def)
next
  case (Cons h bs)
  then have d: "rbuf r ! roff r = h" "drop (roff r + 1) (rbuf r) = bs"
    "Reader_Len r = Suc (length bs)"
    using assms by (metis nth_via_drop, metis Suc_eq_plus1 drop_Suc tl_drop list.sel(3),
        metis Reader_Len_def length_Cons length_drop)
  show ?thesis unfolding Reader_packed_def Let_def d Cons by (simp add: Let_def)
qed

lemma packed_of_append: "packed_of w bs = Some vk \<Longrightarrow> packed_of w (bs @ t) = Some vk"
  by (cases bs) (auto simp: Let_def split: if_splits)

lemma packed_of_length: "packed_of w bs = Some (v, k) \<Longrightarrow> 1 \<le> k \<and> k \<le> length bs"
  by (cases bs) (auto simp: Let_def split: if_splits)

lemma wire_reader_packed [wire_local]: "wire_reader (Reader_packed w)"
proof
  fix r x r'
  assume "valid r" "Reader_packed w r = (x, r')"
  then show "rbuf r' = rbuf r \<and> roff r \<le> roff r' \<and> valid r'"
    by (auto simp: Reader_packed_suffix valid_def split: option.splits dest!: packed_of_length)
next
  fix r a r' t
  assume v: "valid r" and e: "Reader_packed w r = (Inr a, r')"
  then obtain k where "packed_of w (drop (roff r) (rbuf r)) = Some (a, k)" "r' = r\<lparr>roff := roff r + k\<rparr>"
    by (auto simp: Reader_packed_suffix split: option.splits)
  moreover from packed_of_append [OF this(1)] v
  have "packed_of w (drop (roff r) (rbuf r @ t)) = Some (a, k)" by (simp add: valid_def)
  ultimately show "Reader_packed w (extend t r) = (Inr a, extend t r')"
    using valid_extend [OF v] by (simp add: Reader_packed_suffix) (simp add: extend_def)
next
  fix r x r' b
  assume "valid r" "Reader_packed w r = (x, r')"
  then show "Reader_packed w (shift b r) = (x, shift b r')"
    by (auto simp: Reader_packed_suffix) (auto simp: shift_def split: option.splits)
qed

lemma wire_reader_rbind [wire_local]:
  assumes "wire_reader p" and "\<And>a. wire_reader (f a)"
  shows "wire_reader (rbind p f)"
proof
  fix r x r'
  assume v: "valid r" and e: "rbind p f r = (x, r')"
  obtain y r1 where p: "p r = (y, r1)" by fastforce
  from wire_keeps [OF assms(1) v p]
  have k: "rbuf r1 = rbuf r" "roff r \<le> roff r1" "valid r1" by auto
  show "rbuf r' = rbuf r \<and> roff r \<le> roff r' \<and> valid r'"
    using e p k wire_keeps [OF assms(2) k(3)]
    by (cases y) (fastforce simp: rbind_def)+
next
  fix r a r' t
  assume v: "valid r" and e: "rbind p f r = (Inr a, r')"
  obtain y r1 where p: "p r = (y, r1)" by fastforce
  with e obtain b where y: "y = Inr b" and f: "f b r1 = (Inr a, r')"
    by (cases y) (auto simp: rbind_def)
  have "valid r1" using wire_keeps [OF assms(1) v p] by simp
  from wire_reader.extends [OF assms(1) v p [unfolded y]] wire_reader.extends [OF assms(2) this f]
  show "rbind p f (extend t r) = (Inr a, extend t r')" by (simp add: rbind_def)
next
  fix r x r' b
  assume v: "valid r" and e: "rbind p f r = (x, r')"
  obtain y r1 where p: "p r = (y, r1)" by fastforce
  have v1: "valid r1" using wire_keeps [OF assms(1) v p] by simp
  show "rbind p f (shift b r) = (x, shift b r')"
    using e p wire_reader.shifts [OF assms(1) v p] wire_reader.shifts [OF assms(2) v1]
    by (cases y) (auto simp: rbind_def)
qed

lemma wire_reader_ret [wire_local]: "wire_reader (ret a)"
  by unfold_locales (auto simp: ret_def)

lemma wire_reader_fail [wire_local]: "wire_reader (fail e)"
  by unfold_locales (auto simp: fail_def)

lemma wire_reader_field [wire_local]:
  assumes "wire_reader p" shows "wire_reader (field s p)"
proof
  fix r x r'
  assume v: "valid r" and e: "field s p r = (x, r')"
  obtain y r1 where p: "p r = (y, r1)" by fastforce
  with e have "r1 = r'" by (cases y) (auto simp: field_def)
  with wire_keeps [OF assms v p] show "rbuf r' = rbuf r \<and> roff r \<le> roff r' \<and> valid r'" by simp
next
  fix r a r' t
  assume v: "valid r" and e: "field s p r = (Inr a, r')"
  then have "p r = (Inr a, r')" by (auto simp: field_def split: prod.splits sum.splits)
  from wire_reader.extends [OF assms v this] show "field s p (extend t r) = (Inr a, extend t r')"
    by (simp add: field_def)
next
  fix r x r' b
  assume v: "valid r" and e: "field s p r = (x, r')"
  obtain y r1 where p: "p r = (y, r1)" by fastforce
  with e wire_reader.shifts [OF assms v p] show "field s p (shift b r) = (x, shift b r')"
    by (cases y) (auto simp: field_def)
qed

lemma wire_reader_fieldN [wire_local]:
  assumes "wire_reader p" shows "wire_reader (fieldN s args p)"
proof
  fix r x r'
  assume v: "valid r" and e: "fieldN s args p r = (x, r')"
  obtain y r1 where p: "p r = (y, r1)" by fastforce
  with e have "r1 = r'" by (cases y) (auto simp: fieldN_def)
  with wire_keeps [OF assms v p] show "rbuf r' = rbuf r \<and> roff r \<le> roff r' \<and> valid r'" by simp
next
  fix r a r' t
  assume v: "valid r" and e: "fieldN s args p r = (Inr a, r')"
  then have "p r = (Inr a, r')" by (auto simp: fieldN_def split: prod.splits sum.splits)
  from wire_reader.extends [OF assms v this] show "fieldN s args p (extend t r) = (Inr a, extend t r')"
    by (simp add: fieldN_def)
next
  fix r x r' b
  assume v: "valid r" and e: "fieldN s args p r = (x, r')"
  obtain y r1 where p: "p r = (y, r1)" by fastforce
  with e wire_reader.shifts [OF assms v p] show "fieldN s args p (shift b r) = (x, shift b r')"
    by (cases y) (auto simp: fieldN_def)
qed

lemma wire_reader_Let [wire_local]: "(\<And>x. wire_reader (f x)) \<Longrightarrow> wire_reader (Let v f)"
  by simp

lemma wire_reader_if [wire_local]:
  "(c \<Longrightarrow> wire_reader p) \<Longrightarrow> (\<not> c \<Longrightarrow> wire_reader q) \<Longrightarrow> wire_reader (if c then p else q)"
  by simp

lemma wire_reader_rwhen [wire_local]: "wire_reader p \<Longrightarrow> wire_reader (rwhen c d p)"
  by (simp add: rwhen_def wire_reader_ret)

lemma wire_reader_rtimes [wire_local]: "wire_reader p \<Longrightarrow> wire_reader (rtimes n p)"
  by (induction n) (auto intro!: wire_local)

lemma wire_reader_Int64 [wire_local]: "wire_reader Reader_Int64"
  unfolding Reader_Int64_def by (rule wire_reader_packed)

lemma Reader_Int32_rbind:
  "Reader_Int32 = rbind (Reader_packed False) (\<lambda>v. ret (ucast (if v = minInt64 then minInt32 else v)))"
  by (rule ext) (auto simp: Reader_Int32_def rbind_def ret_def split: prod.splits sum.splits)

lemma wire_reader_Int32 [wire_local]: "wire_reader Reader_Int32"
  unfolding Reader_Int32_rbind by (intro wire_local)

subsection \<open>Reads that advance\<close>

lemma advances_Byte [wire_local]: "advances Reader_Byte"
  by (auto simp: advances_def Reader_Byte_def split: if_splits)

lemma advances_Uint16 [wire_local]: "advances Reader_Uint16"
  by (auto simp: advances_def Reader_Uint16_def split: if_splits)

lemma advances_packed: "advances (Reader_packed w)"
  by (auto simp: advances_def Reader_packed_suffix split: option.splits dest!: packed_of_length)

lemma advances_Int64 [wire_local]: "advances Reader_Int64"
  unfolding Reader_Int64_def by (rule advances_packed)

lemma advances_String [wire_local]: "advances (Reader_String n)"
  by (auto simp: advances_def Reader_String_suffix valid_def Let_def split: if_splits)

lemma advances_rbind [wire_local]:
  assumes "advances p" and "wire_reader p" and "\<And>a. wire_reader (f a)"
  shows "advances (rbind p f)"
  unfolding advances_def
proof (intro allI impI)
  fix r a r'
  assume v: "valid r" and e: "rbind p f r = (Inr a, r')"
  then obtain b r1 where p: "p r = (Inr b, r1)" and f: "f b r1 = (Inr a, r')"
    by (auto simp: rbind_def split: prod.splits sum.splits)
  from assms(1) v p have "roff r < roff r1" by (auto simp: advances_def)
  moreover have "valid r1" using wire_keeps [OF assms(2) v p] by simp
  from wire_keeps [OF assms(3) this f] have "roff r1 \<le> roff r'" by simp
  ultimately show "roff r < roff r'" by simp
qed

lemma advances_Int32 [wire_local]: "advances Reader_Int32"
  unfolding Reader_Int32_rbind by (intro wire_local advances_packed)

lemma advances_field [wire_local]: "advances p \<Longrightarrow> advances (field s p)"
  by (fastforce simp: advances_def field_def split: prod.splits sum.splits)

subsection \<open>Loops\<close>

locale consuming_loop =
  fixes body :: "'s \<Rightarrow> ('s + 'a) rd"
  assumes body_keeps: "buffer_reader (body s)"
    and progress: "valid r \<Longrightarrow> body s r = (Inr (Inl s'), r') \<Longrightarrow> roff r < roff r'"
begin

lemma shorter:
  assumes "valid r" and "body s r = (Inr (Inl s'), r')"
  shows "valid r' \<and> Reader_Len r' < Reader_Len r"
  using progress [OF assms] buffer_reader.keeps [OF body_keeps assms]
  by (auto simp: Reader_Len_def valid_def)

lemma fuel_irrelevant:
  "valid r \<Longrightarrow> Reader_Len r < n \<Longrightarrow> Reader_Len r < m \<Longrightarrow> rloop n body s r = rloop m body s r"
proof (induction n arbitrary: m s r)
  case (Suc n)
  then obtain m' where m: "m = Suc m'" by (cases m) auto
  have "rloop n body s' r' = rloop m' body s' r'" if b: "body s r = (Inr (Inl s'), r')" for s' r'
    using Suc.IH [of r' m' s'] Suc.prems shorter [OF _ b] m by simp
  then show ?case unfolding m by (auto split: prod.splits sum.splits)
qed simp

text \<open>The loop is the recursion the code writes: no fuel is left in this equation.\<close>

lemma unfold:
  assumes "valid r"
  shows "rfor body s r =
    (case body s r of
        (Inl e, r') \<Rightarrow> (Inl e, r')
      | (Inr (Inl s'), r') \<Rightarrow> rfor body s' r'
      | (Inr (Inr a), r') \<Rightarrow> (Inr a, r'))"
proof -
  have "rloop (Reader_Len r) body s' r' = rloop (Suc (Reader_Len r')) body s' r'"
    if b: "body s r = (Inr (Inl s'), r')" for s' r'
    using shorter [OF assms b] by (intro fuel_irrelevant) auto
  then show ?thesis by (auto simp: rfor_def split: prod.splits sum.splits)
qed

lemma loop_induct [consumes 1, case_names step]:
  assumes "valid r"
    and "\<And>s r. valid r \<Longrightarrow> (\<And>s' r'. body s r = (Inr (Inl s'), r') \<Longrightarrow> P s' r') \<Longrightarrow> P s r"
  shows "P s r"
  using assms(1)
proof (induction "Reader_Len r" arbitrary: s r rule: less_induct)
  case less
  show ?case
    by (rule assms(2) [OF less.prems]) (use less shorter in blast)
qed

lemma loop_keeps: "buffer_reader (rfor body s)"
proof
  fix r x r'
  assume "valid r" and "rfor body s r = (x, r')"
  then show "rbuf r' = rbuf r \<and> roff r \<le> roff r' \<and> valid r'"
  proof (induction s r rule: loop_induct)
    case (step s r)
    from step.prems buffer_reader.keeps [OF body_keeps step.hyps(1)] step.IH shorter [OF step.hyps(1)]
    show ?case
      by (subst (asm) unfold [OF step.hyps(1)]) (fastforce split: prod.splits sum.splits)
  qed
qed

end

locale wire_loop = consuming_loop +
  assumes body_reader: "wire_reader (body s)"
begin

lemma loop_reader: "wire_reader (rfor body s)"
proof (intro wire_reader.intro wire_reader_axioms.intro loop_keeps)
  fix r a r' t
  assume "valid r" and "rfor body s r = (Inr a, r')"
  then show "rfor body s (extend t r) = (Inr a, extend t r')"
  proof (induction s r rule: loop_induct)
    case (step s r)
    note u = unfold [OF step.hyps(1)] and u' = unfold [OF valid_extend, OF step.hyps(1)]
    from step.prems obtain y r1 where b: "body s r = (Inr y, r1)"
      unfolding u by (auto split: prod.splits sum.splits)
    note e = wire_reader.extends [OF body_reader step.hyps(1) b, of t]
    show ?case using step.prems step.IH b unfolding u u' e
      by (auto split: sum.splits)
  qed
next
  fix r x r' b
  assume "valid r" and "rfor body s r = (x, r')"
  then show "rfor body s (shift b r) = (x, shift b r')"
  proof (induction s r rule: loop_induct)
    case (step s r)
    note u = unfold [OF step.hyps(1)] and u' = unfold [OF valid_shift [THEN iffD2], OF step.hyps(1)]
    obtain y r1 where bd: "body s r = (y, r1)" by fastforce
    note e = wire_reader.shifts [OF body_reader step.hyps(1) bd, of b]
    show ?case using step.prems step.IH bd unfolding u u' e
      by (auto split: sum.splits)
  qed
qed

end

lemma wire_loopI:
  assumes "\<And>s. wire_reader (body s)" and "\<And>s. advances (body s)"
  shows "wire_loop body"
  using assms by (auto intro!: wire_loop.intro consuming_loop.intro wire_loop_axioms.intro wire_reader_buffer
      simp: advances_def)

lemma wire_reader_rfor [wire_local]:
  assumes "\<And>s. wire_reader (body s)" and "\<And>s. advances (body s)"
  shows "wire_reader (rfor body s)"
  by (rule wire_loop.loop_reader [OF wire_loopI, OF assms])

subsection \<open>Readers that only keep the buffer\<close>

lemma buffer_reader_rbind [buffer_local]:
  assumes "buffer_reader p" and "\<And>a. buffer_reader (f a)"
  shows "buffer_reader (rbind p f)"
proof
  fix r x r'
  assume v: "valid r" and e: "rbind p f r = (x, r')"
  obtain y r1 where p: "p r = (y, r1)" by fastforce
  from buffer_reader.keeps [OF assms(1) v p]
  have k: "rbuf r1 = rbuf r" "roff r \<le> roff r1" "valid r1" by auto
  show "rbuf r' = rbuf r \<and> roff r \<le> roff r' \<and> valid r'"
    using e p k buffer_reader.keeps [OF assms(2) k(3)]
    by (cases y) (fastforce simp: rbind_def)+
qed

lemma buffer_reader_if [buffer_local]:
  "(c \<Longrightarrow> buffer_reader p) \<Longrightarrow> (\<not> c \<Longrightarrow> buffer_reader q) \<Longrightarrow> buffer_reader (if c then p else q)"
  by simp

lemma buffer_reader_field [buffer_local]:
  assumes "buffer_reader p" shows "buffer_reader (field s p)"
proof
  fix r x r'
  assume v: "valid r" and e: "field s p r = (x, r')"
  obtain y r1 where p: "p r = (y, r1)" by fastforce
  with e have "r1 = r'" by (cases y) (auto simp: field_def)
  with buffer_reader.keeps [OF assms v p] show "rbuf r' = rbuf r \<and> roff r \<le> roff r' \<and> valid r'" by simp
qed

lemma buffer_reader_at_end [buffer_local]: "buffer_reader (at_end s)"
  by unfold_locales (auto simp: at_end_def split: if_splits)

lemma wire_reader_Skip [wire_local]: "wire_reader (Reader_Skip n)"
  by unfold_locales (auto simp: Reader_Skip_def reader_defs split: if_splits)

lemma buffer_reader_rfor [buffer_local]:
  assumes "\<And>s. buffer_reader (body s)"
    and "\<And>s r s' r'. valid r \<Longrightarrow> body s r = (Inr (Inl s'), r') \<Longrightarrow> roff r < roff r'"
  shows "buffer_reader (rfor body s)"
  using assms by (intro consuming_loop.loop_keeps consuming_loop.intro)

text \<open>A decoder that succeeds on a whole body gives the same value in front of more bytes.\<close>

lemma decode_body_extend:
  assumes "wire_reader p" and "decode_body p body = Inr v"
  shows "fst (p (NewReader (body @ t))) = Inr v"
proof -
  obtain r' where "p (NewReader body) = (Inr v, r')"
    using assms(2) by (metis decode_body_def prod.collapse)
  from wire_reader.extends [OF assms(1) valid_NewReader this] show ?thesis
    by (simp add: extend_NewReader)
qed

text \<open>A reader at any offset is a fresh reader of the unread bytes, moved.\<close>

lemma wire_reader_at:
  assumes "wire_reader p" and "valid r"
  shows "p r = (case p (NewReader (Reader_Remaining r)) of
    (x, r') \<Rightarrow> (x, shift (take (roff r) (rbuf r)) r'))"
proof -
  obtain x r' where e: "p (NewReader (Reader_Remaining r)) = (x, r')" by fastforce
  let ?b = "take (roff r) (rbuf r)"
  have "p (shift ?b (NewReader (Reader_Remaining r))) = (x, shift ?b r')"
    by (rule wire_reader.shifts [OF assms(1) valid_NewReader e])
  then show ?thesis by (simp only: shift_NewReader [OF assms(2), symmetric] e prod.case)
qed

subsection \<open>A writer and its reader\<close>

text \<open>
  \<open>put\<close> appends the encoding of a value to a buffer, \<open>get\<close> reads it back wherever it stands;
  \<open>ok\<close> delimits the values the format can carry.
\<close>

locale field_codec =
  fixes put :: "bytes \<Rightarrow> 'v \<Rightarrow> bytes"
    and get :: "'v rd"
    and ok :: "'v \<Rightarrow> bool"
  assumes put_append: "put w v = w @ put [] v"
    and get_put: "ok v \<Longrightarrow> rbuf r = pre @ put [] v @ post \<Longrightarrow> roff r = length pre \<Longrightarrow>
      get r = (Inr v, r\<lparr>roff := length pre + length (put [] v)\<rparr>)"
begin

lemma put_list_append: "foldl put w vs = w @ foldl put [] vs"
proof (induction vs arbitrary: w)
  case (Cons v vs)
  have "foldl put (put w v) vs = put w v @ foldl put [] vs" by (rule Cons)
  also have "\<dots> = w @ put [] v @ foldl put [] vs" by (simp add: put_append [of w v])
  also have "put [] v @ foldl put [] vs = foldl put (put [] v) vs" by (rule Cons [symmetric])
  finally show ?case by simp
qed simp

lemma get_put_list:
  assumes "\<forall>v \<in> set vs. ok v" and "rbuf r = pre @ foldl put [] vs @ post" and "roff r = length pre"
  shows "rtimes (length vs) get r = (Inr vs, r\<lparr>roff := length pre + length (foldl put [] vs)\<rparr>)"
  using assms
proof (induction vs arbitrary: r pre)
  case (Cons v vs)
  let ?r = "r\<lparr>roff := length pre + length (put [] v)\<rparr>"
  have l: "foldl put [] (v # vs) = put [] v @ foldl put [] vs"
    using put_list_append [of "put [] v" vs] by simp
  then have "get r = (Inr v, ?r)"
    using Cons.prems by (intro get_put [of v r pre "foldl put [] vs @ post"]) auto
  moreover have "rtimes (length vs) get ?r =
      (Inr vs, ?r\<lparr>roff := length (pre @ put [] v) + length (foldl put [] vs)\<rparr>)"
    using Cons.prems l by (intro Cons.IH) auto
  ultimately show ?case using put_list_append [of "put [] v" vs] by (simp add: rbind_def ret_def ac_simps)
qed (simp add: ret_def)

end

text \<open>Two fields one after the other are again such a pair.\<close>

locale pair_codec =
  a: field_codec put1 get1 ok1 + b: field_codec put2 get2 ok2
  for put1 :: "bytes \<Rightarrow> 'v \<Rightarrow> bytes" and get1 ok1
    and put2 :: "bytes \<Rightarrow> 'w \<Rightarrow> bytes" and get2 ok2
begin

sublocale field_codec
  "\<lambda>w (x, y). put2 (put1 w x) y"
  "rbind get1 (\<lambda>x. rbind get2 (\<lambda>y. ret (x, y)))"
  "\<lambda>(x, y). ok1 x \<and> ok2 y"
proof
  fix w v
  show "(case v of (x, y) \<Rightarrow> put2 (put1 w x) y) = w @ (case v of (x, y) \<Rightarrow> put2 (put1 [] x) y)"
    by (auto simp: a.put_append [of w] b.put_append [of "w @ _"] b.put_append [of "put1 [] _"]
        split: prod.splits)
next
  fix v and r :: Reader and pre post
  assume ok: "case v of (x, y) \<Rightarrow> ok1 x \<and> ok2 y"
    and buf: "rbuf r = pre @ (case v of (x, y) \<Rightarrow> put2 (put1 [] x) y) @ post"
    and off: "roff r = length pre"
  obtain x y where v: "v = (x, y)" by fastforce
  have s: "put2 (put1 [] x) y = put1 [] x @ put2 [] y" by (rule b.put_append)
  let ?r = "r\<lparr>roff := length pre + length (put1 [] x)\<rparr>"
  have "get1 r = (Inr x, ?r)"
    using ok buf off v s by (intro a.get_put [of x r pre "put2 [] y @ post"]) auto
  moreover have "get2 ?r = (Inr y, ?r\<lparr>roff := length (pre @ put1 [] x) + length (put2 [] y)\<rparr>)"
    using ok buf off v s by (intro b.get_put [of y ?r "pre @ put1 [] x" post]) auto
  ultimately show "rbind get1 (\<lambda>x. rbind get2 (\<lambda>y. ret (x, y))) r
      = (Inr v, r\<lparr>roff := length pre + length (case v of (x, y) \<Rightarrow> put2 (put1 [] x) y)\<rparr>)"
    by (simp add: rbind_def ret_def v s ac_simps)
qed

end

interpretation byte_codec: field_codec Writer_Byte Reader_Byte "\<lambda>_. True"
  by unfold_locales (auto simp: Writer_Byte_def Reader_Byte_def Reader_Len_def nth_append)

interpretation u16_codec: field_codec Writer_Uint16 Reader_Uint16 "\<lambda>_. True"
  by unfold_locales
    (auto simp: Writer_Uint16_def Reader_Uint16_def Reader_Len_def nth_append be16_join)

text \<open>The key of most market records: security id and board.\<close>

interpretation key_codec: pair_codec Writer_Uint16 Reader_Uint16 "\<lambda>_. True" Writer_Uint16 Reader_Uint16 "\<lambda>_. True"
  by (intro pair_codec.intro u16_codec.field_codec_axioms)

interpretation i32_codec: field_codec Writer_Int32 Reader_Int32 "\<lambda>_. True"
  by unfold_locales (auto simp: Writer_Int32_def appendPacked_append Int32_roundtrip)

interpretation i64_codec: field_codec Writer_Int64 Reader_Int64 "\<lambda>v. v \<noteq> minInt32"
  by unfold_locales (auto simp: Writer_Int64_def appendPacked_append Int64_roundtrip)

lemma Reader_String_nul:
  fixes r :: Reader
  assumes "rbuf r = pre @ (s @ [0]) @ post" and "roff r = length pre" and "0 \<notin> set s" and "length s \<le> n"
  shows "Reader_String n r = (Inr s, r\<lparr>roff := length pre + length s + 1\<rparr>)"
proof -
  have "takeWhile (\<lambda>c. c \<noteq> 0) (s @ 0 # post) = s"
    by (rule takeWhile_append_stop) (use assms(3) in auto)
  then show ?thesis using assms by (simp add: Reader_String_suffix Let_def)
qed

lemma string_codec: "field_codec (\<lambda>w s. Writer_String w s n) (Reader_String n) (\<lambda>s. 0 \<notin> set s \<and> length s \<le> n)"
proof
  fix v and r :: Reader and pre post
  assume ok: "0 \<notin> set v \<and> length v \<le> n" and b: "rbuf r = pre @ Writer_String [] v n @ post"
    and o: "roff r = length pre"
  show "Reader_String n r = (Inr v, r\<lparr>roff := length pre + length (Writer_String [] v n)\<rparr>)"
    using b o ok Reader_String_nul [of r pre v post n]
    by (simp add: Writer_String_cstring cstring_id)
qed (simp add: Writer_String_cstring)

interpretation str: field_codec "\<lambda>w s. Writer_String w s n" "Reader_String n"
  "\<lambda>s. 0 \<notin> set s \<and> length s \<le> n" for n
  by (rule string_codec)


subsection \<open>Properties of the field encodings\<close>

interpretation int32: wire_reader Reader_Int32 by (rule wire_reader_Int32)
interpretation int64: wire_reader Reader_Int64 by (rule wire_reader_Int64)

text \<open>\<open>Int32\<close> reads back every 32-bit value \<open>Int32\<close> wrote, \<open>MinInt32\<close> (the negative
  zero of the format) included, wherever it stands in a buffer, and moves the position
  exactly behind it.\<close>

theorem packed_int32_roundtrip:
  "Reader_Int32 \<lparr>rbuf = pre @ Writer_Int32 [] v @ post, roff = length pre\<rparr> =
    (Inr v, \<lparr>rbuf = pre @ Writer_Int32 [] v @ post, roff = length (Writer_Int32 pre v)\<rparr>)"
  using i32_codec.get_put [where v = v and r = "\<lparr>rbuf = pre @ Writer_Int32 [] v @ post, roff = length pre\<rparr>"]
  by (simp add: i32_codec.put_append [of pre])

text \<open>\<open>Int64\<close> reads back every 64-bit value \<open>Int64\<close> wrote except \<open>MinInt32\<close>, which comes
  back as \<open>MinInt64\<close>: the writer shares the negative-zero form of both.\<close>

theorem packed_int64_roundtrip:
  "Reader_Int64 \<lparr>rbuf = pre @ Writer_Int64 [] v @ post, roff = length pre\<rparr> =
    (Inr (if v = minInt32 then minInt64 else v),
     \<lparr>rbuf = pre @ Writer_Int64 [] v @ post, roff = length (Writer_Int64 pre v)\<rparr>)"
proof (cases "v = minInt32")
  case True
  have p: "packed_form minInt32 = [8]"
    by (simp add: packed_form_def appendPacked_def minInt32_def minInt64_def packed_ext.simps)
  have "Reader_Int64 (shift pre (extend post (NewReader [8]))) =
      (Inr minInt64, shift pre (extend post \<lparr>rbuf = [8], roff = 1\<rparr>))"
    by (rule int64.shifts [OF _ int64.extends]) (use Int64_minInt32 p in simp_all)
  then show ?thesis
    using True p by (simp add: shift_def extend_def NewReader_def Writer_Int64_def appendPacked_append)
next
  case False
  then show ?thesis
    using i64_codec.get_put [where v = v and r = "\<lparr>rbuf = pre @ Writer_Int64 [] v @ post, roff = length pre\<rparr>"]
    by (simp add: i64_codec.put_append [of pre])
qed

text \<open>A packed integer takes one to nine bytes, a 32-bit one at most five, so the fixed
  eight-byte \<open>ext\<close> array of the writer never overflows.\<close>

theorem packed_size:
  "1 \<le> length (Writer_Int64 [] v) \<and> length (Writer_Int64 [] v) \<le> 9
    \<and> length (Writer_Int32 [] w) \<le> 5 \<and> length (packed_ext (drop_bit 4 (magnitude v))) \<le> 8"
  using packed_form_length packed_form_i32_length length_magnitude_ext
  by (simp add: Writer_Int64_def Writer_Int32_def appendPacked_append)

text \<open>A string field is read back cut at its first NUL and at the length limit; the
  writer always leaves a terminated field that the reader accepts with the same limit.\<close>

theorem string_field_roundtrip:
  "Reader_String n \<lparr>rbuf = pre @ Writer_String [] s n @ post, roff = length pre\<rparr> =
    (Inr (take n (takeWhile (\<lambda>c. c \<noteq> 0) s)),
     \<lparr>rbuf = pre @ Writer_String [] s n @ post, roff = length (Writer_String pre s n)\<rparr>)"
proof -
  have l: "length (cstring s n) \<le> n" by (simp add: cstring_def)
  have w: "Writer_String [] s n = Writer_String [] (cstring s n) n"
    by (simp add: Writer_String_cstring cstring_id [OF cstring_no_nul l])
  show ?thesis
    unfolding w
    using str.get_put [where n = n and v = "cstring s n" and
        r = "\<lparr>rbuf = pre @ Writer_String [] (cstring s n) n @ post, roff = length pre\<rparr>"]
      l cstring_no_nul [of s n] by (simp add: str.put_append [of pre]
      Writer_String_cstring cstring_id [OF cstring_no_nul l]) (simp add: cstring_def)
qed

text \<open>An operation of the reader that fails leaves the reader as it was, so the caller can
  report the offset of the failed field or try another layout.\<close>

theorem failed_read_keeps_position:
  "\<forall>e. (fst (Reader_Byte r) = Inl e \<longrightarrow> snd (Reader_Byte r) = r)
    \<and> (fst (Reader_Uint16 r) = Inl e \<longrightarrow> snd (Reader_Uint16 r) = r)
    \<and> (fst (Reader_Raw n r) = Inl e \<longrightarrow> snd (Reader_Raw n r) = r)
    \<and> (fst (Reader_Skip n r) = Inl e \<longrightarrow> snd (Reader_Skip n r) = r)
    \<and> (fst (Reader_String m r) = Inl e \<longrightarrow> snd (Reader_String m r) = r)
    \<and> (fst (Reader_Int32 r) = Inl e \<longrightarrow> snd (Reader_Int32 r) = r)
    \<and> (fst (Reader_Int64 r) = Inl e \<longrightarrow> snd (Reader_Int64 r) = r)"
proof -
  have p: "fst (Reader_packed w r) = Inl e \<Longrightarrow> snd (Reader_packed w r) = r" for w e
    by (auto simp: Reader_packed_def Let_def split: if_splits)
  have "snd (Reader_Int32 r) = r" if "fst (Reader_Int32 r) = Inl e" for e
    using that p [of False] by (cases "Reader_packed False r") (auto simp: Reader_Int32_def split: sum.splits)
  with p show ?thesis
    by (auto simp: Reader_Byte_def Reader_Uint16_def Reader_Raw_def Reader_Skip_def Reader_String_def
        Reader_Int64_def split: if_splits option.splits)
qed

theorem failed_read_keeps_position_witness:
  "fst (Reader_Int64 \<lparr>rbuf = [1, 7, 5], roff = 2\<rparr>) = Inl ErrShortBuffer
    \<and> snd (Reader_Int64 \<lparr>rbuf = [1, 7, 5], roff = 2\<rparr>) = \<lparr>rbuf = [1, 7, 5], roff = 2\<rparr>"
proof -
  have "fst (Reader_Int64 \<lparr>rbuf = [1, 7, 5], roff = 2\<rparr>) = Inl ErrShortBuffer"
    by (simp add: Reader_Int64_def Reader_packed_def Reader_Len_def)
  with failed_read_keeps_position [of "\<lparr>rbuf = [1, 7, 5], roff = 2\<rparr>"] show ?thesis by blast
qed

end
