(* ===== verification/Gost.thy ===== *)
theory Gost
  imports Prelude "HOL-Library.Multiset"
begin

text \<open>
  The built-in crypto profile of \<open>native/cryptoprofile\<close>: the GOST 28147-89 block cipher
  with the vendor's 8-bit S-boxes, counter mode (\<open>Gamma\<close>, client to server) and cipher
  feedback (\<open>CFBEncrypt\<close>, \<open>CFBDecrypt\<close>, server to client), and the password key. The
  locale \<open>stream_cipher\<close> is what the framing layer needs of a mode; it is interpreted
  on both modes. \<open>crypto/sha1\<close> is a parameter: a function from bytes to a 20-byte digest.
  The modes work in place in the Go code (\<open>dst\<close> and \<open>src\<close> overlap exactly); every block
  is read before it is written, so a mode is a function of its input bytes here.
\<close>

subsection \<open>Tables\<close>

text \<open>The four quarters of \<open>sboxTable\<close> (offsets 0, 0x100, 0x200, 0x300).\<close>

definition sbox0 :: "int list" where
  "sbox0 =
    [206, 73, 98, 87, 84, 141, 140, 167, 233, 209, 214, 93, 251, 242, 17, 241,
     168, 225, 207, 105, 169, 182, 91, 25, 38, 7, 177, 49, 37, 146, 202, 194,
     226, 24, 201, 19, 147, 192, 97, 6, 126, 161, 120, 158, 123, 95, 72, 208,
     173, 70, 187, 127, 135, 234, 217, 109, 55, 162, 221, 31, 164, 255, 13, 213,
     244, 64, 56, 121, 183, 211, 179, 100, 16, 163, 254, 12, 4, 106, 160, 216,
     210, 41, 247, 45, 28, 144, 20, 92, 74, 152, 2, 149, 77, 174, 159, 26,
     124, 245, 131, 104, 200, 113, 197, 79, 66, 48, 220, 143, 222, 102, 156, 75,
     33, 36, 71, 215, 65, 57, 59, 114, 153, 186, 32, 81, 236, 188, 138, 52,
     23, 5, 108, 11, 39, 61, 94, 99, 148, 58, 128, 136, 193, 69, 44, 165,
     8, 240, 90, 3, 27, 199, 198, 82, 205, 43, 89, 228, 232, 107, 60, 88,
     237, 189, 115, 178, 47, 204, 170, 139, 125, 253, 80, 68, 239, 231, 252, 150,
     154, 250, 122, 54, 151, 219, 155, 35, 185, 235, 42, 14, 248, 129, 203, 67,
     218, 85, 134, 15, 1, 78, 10, 133, 181, 53, 223, 118, 83, 96, 63, 246,
     137, 230, 249, 166, 243, 112, 46, 184, 132, 117, 229, 29, 224, 176, 191, 30,
     130, 196, 51, 22, 238, 190, 119, 212, 103, 171, 110, 145, 18, 157, 172, 9,
     180, 116, 175, 195, 76, 142, 227, 0, 111, 50, 86, 40, 101, 34, 62, 21]"

definition sbox1 :: "int list" where
  "sbox1 =
    [172, 103, 192, 151, 124, 10, 42, 53, 199, 222, 45, 106, 177, 72, 213, 116,
     71, 142, 47, 223, 108, 171, 52, 227, 179, 128, 173, 58, 174, 228, 242, 233,
     36, 181, 89, 134, 147, 61, 8, 163, 1, 243, 115, 180, 211, 225, 145, 156,
     188, 247, 83, 77, 132, 5, 143, 197, 48, 122, 215, 235, 104, 212, 4, 19,
     148, 55, 18, 185, 24, 240, 218, 112, 65, 198, 46, 23, 237, 15, 31, 86,
     193, 91, 186, 159, 102, 107, 238, 25, 165, 190, 169, 234, 239, 94, 40, 139,
     208, 202, 176, 217, 50, 95, 127, 241, 138, 110, 167, 141, 226, 178, 210, 82,
     121, 49, 118, 63, 38, 51, 158, 249, 250, 13, 245, 16, 41, 57, 146, 207,
     140, 62, 37, 157, 161, 154, 93, 137, 254, 26, 204, 35, 184, 22, 206, 34,
     21, 80, 119, 9, 232, 201, 166, 73, 152, 98, 189, 209, 203, 125, 32, 182,
     123, 0, 224, 111, 164, 81, 248, 20, 251, 87, 11, 84, 162, 64, 14, 90,
     69, 252, 74, 194, 70, 88, 60, 59, 135, 219, 130, 44, 214, 101, 175, 92,
     97, 78, 191, 114, 117, 216, 126, 136, 255, 43, 67, 29, 133, 187, 246, 236,
     33, 113, 54, 17, 153, 200, 96, 229, 2, 27, 149, 105, 56, 253, 75, 195,
     221, 155, 168, 79, 129, 220, 183, 205, 68, 230, 76, 196, 3, 30, 39, 231,
     66, 6, 144, 131, 109, 12, 160, 100, 28, 99, 150, 170, 7, 85, 120, 244]"

definition sbox2 :: "int list" where
  "sbox2 =
    [56, 46, 70, 145, 133, 241, 81, 184, 76, 121, 252, 182, 131, 203, 194, 154,
     73, 115, 249, 59, 146, 120, 168, 127, 155, 198, 222, 200, 72, 21, 224, 14,
     230, 134, 77, 28, 220, 110, 175, 196, 149, 226, 165, 159, 61, 205, 64, 221,
     41, 111, 33, 254, 126, 148, 213, 238, 180, 5, 137, 214, 239, 178, 4, 22,
     217, 236, 37, 85, 186, 101, 17, 79, 40, 170, 97, 52, 88, 1, 103, 19,
     92, 177, 169, 57, 211, 23, 8, 47, 102, 176, 171, 105, 74, 122, 31, 208,
     172, 144, 193, 197, 71, 7, 90, 113, 128, 242, 181, 84, 91, 207, 150, 10,
     98, 218, 45, 43, 116, 13, 27, 253, 237, 39, 42, 82, 232, 227, 106, 157,
     125, 51, 151, 49, 67, 11, 119, 112, 83, 152, 190, 162, 53, 75, 202, 0,
     18, 210, 6, 38, 99, 250, 123, 234, 166, 35, 183, 248, 58, 109, 225, 87,
     89, 156, 161, 139, 55, 132, 153, 63, 32, 212, 247, 138, 15, 24, 114, 233,
     160, 142, 95, 69, 136, 185, 100, 16, 44, 118, 62, 244, 2, 251, 104, 206,
     129, 25, 231, 124, 246, 20, 219, 60, 209, 199, 204, 235, 9, 50, 68, 188,
     191, 130, 223, 164, 216, 12, 135, 167, 229, 78, 143, 201, 108, 117, 215, 173,
     140, 240, 174, 36, 30, 86, 94, 245, 29, 195, 147, 179, 189, 243, 3, 96,
     192, 66, 34, 163, 228, 93, 80, 48, 54, 107, 65, 158, 26, 141, 255, 187]"

definition sbox3 :: "int list" where
  "sbox3 =
    [78, 13, 120, 130, 243, 57, 101, 28, 247, 51, 199, 145, 139, 1, 248, 14,
     84, 33, 47, 241, 35, 132, 17, 251, 178, 36, 232, 177, 205, 194, 148, 129,
     218, 121, 75, 66, 182, 24, 56, 144, 151, 209, 124, 152, 255, 211, 31, 85,
     229, 22, 10, 50, 128, 114, 215, 111, 134, 162, 12, 119, 150, 210, 118, 219,
     8, 92, 117, 169, 4, 164, 73, 180, 158, 138, 30, 113, 3, 82, 222, 154,
     97, 206, 170, 83, 46, 217, 21, 133, 81, 109, 115, 58, 125, 18, 213, 65,
     143, 153, 68, 5, 220, 106, 44, 240, 9, 216, 141, 69, 191, 165, 237, 246,
     34, 254, 157, 96, 80, 52, 38, 16, 250, 20, 136, 131, 168, 88, 227, 61,
     89, 40, 200, 235, 146, 104, 110, 7, 116, 140, 60, 103, 102, 252, 189, 230,
     53, 122, 23, 49, 6, 59, 198, 228, 253, 234, 74, 71, 99, 126, 196, 26,
     0, 193, 181, 127, 29, 142, 190, 226, 225, 63, 244, 173, 72, 221, 64, 245,
     48, 70, 62, 107, 90, 94, 187, 179, 112, 108, 79, 197, 55, 137, 2, 37,
     249, 192, 186, 159, 41, 160, 201, 76, 91, 67, 236, 224, 93, 183, 203, 208,
     11, 156, 135, 195, 25, 184, 231, 204, 163, 45, 212, 95, 15, 19, 42, 32,
     147, 43, 87, 223, 155, 166, 214, 233, 98, 54, 207, 175, 171, 242, 176, 161,
     239, 39, 202, 86, 238, 77, 27, 105, 188, 172, 174, 100, 123, 149, 167, 185]"

definition sboxTable :: bytes where
  "sboxTable = map word_of_int (sbox0 @ sbox1 @ sbox2 @ sbox3)"

definition DefaultKey :: bytes where
  "DefaultKey =
    [13, 210, 3, 156, 63, 65, 238, 124, 255, 31, 49, 89, 186, 61, 47, 153,
     139, 85, 134, 242, 163, 228, 149, 218, 238, 55, 60, 63, 244, 201, 226, 121]"

definition DefaultSync :: bytes where
  "DefaultSync = [253, 204, 189, 125, 120, 6, 77, 83]"

definition keyOrder :: "nat list" where
  "keyOrder = [0, 1, 2, 3, 4, 5, 6, 7,
               0, 1, 2, 3, 4, 5, 6, 7,
               0, 1, 2, 3, 4, 5, 6, 7,
               7, 6, 5, 4, 3, 2, 1, 0]"

definition KeySize :: nat where "KeySize = 32"
definition SyncSize :: nat where "SyncSize = 8"
definition gammaC1 :: u32 where "gammaC1 = 0x01010104"
definition gammaC2 :: u32 where "gammaC2 = 0x01010101"

subsection \<open>The block cipher\<close>

text \<open>\<open>binary.LittleEndian.Uint32\<close> and \<open>PutUint32\<close>.\<close>

definition le32 :: "bytes \<Rightarrow> u32" where
  "le32 b = ucast (b ! 0) OR push_bit 8 (ucast (b ! 1)) OR push_bit 16 (ucast (b ! 2))
     OR push_bit 24 (ucast (b ! 3))"

definition put32 :: "u32 \<Rightarrow> bytes" where
  "put32 v = [ucast v, ucast (drop_bit 8 v), ucast (drop_bit 16 v), ucast (drop_bit 24 v)]"

record Cipher =
  ck :: "u32 list"

definition NewCipher :: "bytes \<Rightarrow> err + Cipher" where
  "NewCipher key =
     (if length key \<noteq> KeySize then Inl (Errorf ''cryptoprofile: key must be 32 bytes'' [])
      else Inr \<lparr>ck = map (\<lambda>i. le32 (drop (i * 4) key)) [0..<8]\<rparr>)"

definition sbox :: "nat \<Rightarrow> u32" where
  "sbox i = ucast (sboxTable ! i)"

definition Cipher_f :: "Cipher \<Rightarrow> u32 \<Rightarrow> u32" where
  "Cipher_f c x =
     (let y = push_bit 24 (sbox (0x300 + unat (drop_bit 24 x)))
           OR push_bit 16 (sbox (0x200 + unat (drop_bit 16 x AND 0xff)))
           OR push_bit 8 (sbox (0x100 + unat (drop_bit 8 x AND 0xff)))
           OR sbox (unat (x AND 0xff))
      in push_bit 11 y OR drop_bit 21 y)"

definition cipher_round :: "Cipher \<Rightarrow> u32 \<times> u32 \<Rightarrow> nat \<Rightarrow> u32 \<times> u32" where
  "cipher_round c n i = (case n of (n1, n2) \<Rightarrow> (n2 XOR Cipher_f c (n1 + ck c ! i), n1))"

definition Cipher_encrypt :: "Cipher \<Rightarrow> u32 \<Rightarrow> u32 \<Rightarrow> u32 \<times> u32" where
  "Cipher_encrypt c n1 n2 = (case foldl (cipher_round c) (n1, n2) keyOrder of (n1, n2) \<Rightarrow> (n2, n1))"

definition encryptBlock :: "Cipher \<Rightarrow> u32 \<Rightarrow> u32 \<Rightarrow> bytes" where
  "encryptBlock c n1 n2 = (case Cipher_encrypt c n1 n2 of (a, b) \<Rightarrow> put32 a @ put32 b)"

definition xorBlock :: "bytes \<Rightarrow> bytes \<Rightarrow> bytes" where
  "xorBlock src g = map2 (XOR) (take 8 src) g"

subsection \<open>Modes\<close>

text \<open>One step of the counter pair of \<open>Gamma\<close>.\<close>

definition gamma_step :: "u32 \<times> u32 \<Rightarrow> u32 \<times> u32" where
  "gamma_step n =
     (case n of (n1, n2) \<Rightarrow>
        let carry = (if n2 > 0xfefefefb then 1 else 0)
        in (n1 + gammaC2, n2 + (gammaC1 + carry)))"

function gamma_blocks :: "Cipher \<Rightarrow> u32 \<times> u32 \<Rightarrow> bytes \<Rightarrow> bytes" where
  "gamma_blocks c n src =
     (if src = [] then []
      else
        let n = gamma_step n;
            g = encryptBlock c (fst n) (snd n)
        in xorBlock src g @ gamma_blocks c n (drop 8 src))"
  by pat_completeness auto
termination
  by (relation "measure (\<lambda>(c, n, src). length src)") auto

definition Gamma :: "Cipher \<Rightarrow> bytes \<Rightarrow> bytes \<Rightarrow> bytes" where
  "Gamma c sync src = gamma_blocks c (Cipher_encrypt c (le32 sync) (le32 (drop 4 sync))) src"

function cfb_encrypt_blocks :: "Cipher \<Rightarrow> bytes \<Rightarrow> bytes \<Rightarrow> bytes" where
  "cfb_encrypt_blocks c fb src =
     (if src = [] then []
      else
        let g = encryptBlock c (le32 fb) (le32 (drop 4 fb));
            dst = xorBlock src g;
            fb = dst @ drop (length dst) g
        in dst @ cfb_encrypt_blocks c fb (drop 8 src))"
  by pat_completeness auto
termination
  by (relation "measure (\<lambda>(c, fb, src). length src)") auto

definition CFBEncrypt :: "Cipher \<Rightarrow> bytes \<Rightarrow> bytes \<Rightarrow> bytes" where
  "CFBEncrypt c sync src = cfb_encrypt_blocks c sync src"

function cfb_decrypt_blocks :: "Cipher \<Rightarrow> bytes \<Rightarrow> bytes \<Rightarrow> bytes" where
  "cfb_decrypt_blocks c fb src =
     (if src = [] then []
      else
        let g = encryptBlock c (le32 fb) (le32 (drop 4 fb));
            inp = take 8 src;
            fb = inp @ drop (length inp) g
        in xorBlock inp g @ cfb_decrypt_blocks c fb (drop 8 src))"
  by pat_completeness auto
termination
  by (relation "measure (\<lambda>(c, fb, src). length src)") auto

definition CFBDecrypt :: "Cipher \<Rightarrow> bytes \<Rightarrow> bytes \<Rightarrow> bytes" where
  "CFBDecrypt c sync src = cfb_decrypt_blocks c sync src"

declare gamma_blocks.simps [simp del] cfb_encrypt_blocks.simps [simp del]
  cfb_decrypt_blocks.simps [simp del]

subsection \<open>The password key\<close>

definition expandKey :: "bytes \<Rightarrow> nat \<Rightarrow> bytes" where
  "expandKey src sz =
     (let n = min (length src) sz in
      foldl (\<lambda>out i. let b = out ! (i - n) - of_nat i + of_nat sz
                     in out[i := (drop_bit 5 b OR push_bit 3 b) XOR 0x97])
        (take n src @ replicate (sz - n) 0) [n..<sz])"

definition PasswordKey :: "(bytes \<Rightarrow> bytes) \<Rightarrow> bytes \<Rightarrow> bytes" where
  "PasswordKey sha1 password = expandKey (sha1 password) KeySize"

subsection \<open>The interface of a mode\<close>

text \<open>What the framing needs of a mode: decryption undoes encryption, lengths are kept.\<close>

locale stream_cipher =
  fixes enc :: "bytes \<Rightarrow> bytes" and dec :: "bytes \<Rightarrow> bytes"
  assumes dec_enc: "dec (enc b) = b"
    and length_enc: "length (enc b) = length b"
begin

lemma enc_inj: "enc a = enc b \<longleftrightarrow> a = b"
  by (metis dec_enc)

lemma enc_nil: "enc b = [] \<longleftrightarrow> b = []"
  by (metis length_0_conv length_enc)

end

subsection \<open>Blocks\<close>

lemma length_put32 [simp]: "length (put32 v) = 4"
  by (simp add: put32_def)

lemma length_encryptBlock [simp]: "length (encryptBlock c n1 n2) = 8"
  by (simp add: encryptBlock_def split: prod.splits)

lemma length_xorBlock [simp]: "length g = 8 \<Longrightarrow> length (xorBlock src g) = min (length src) 8"
  by (simp add: xorBlock_def)

lemma map2_xor_cancel: "length a \<le> length g \<Longrightarrow> map2 (XOR) (map2 (XOR) a g) g = (a :: bytes)"
  by (induction a g rule: list_induct2') (auto simp: xor.assoc)

lemma xorBlock_cancel: "length g = 8 \<Longrightarrow> length src \<le> 8 \<Longrightarrow> xorBlock (xorBlock src g) g = src"
  by (simp add: xorBlock_def map2_xor_cancel)

lemma xorBlock_take: "xorBlock (take 8 src) g = xorBlock src g"
  by (simp add: xorBlock_def)

text \<open>The keystream of \<open>Gamma\<close>: \<open>k\<close> blocks from counter \<open>n\<close> on.\<close>

fun keystream :: "Cipher \<Rightarrow> u32 \<times> u32 \<Rightarrow> nat \<Rightarrow> bytes" where
  "keystream c n 0 = []"
| "keystream c n (Suc k) =
     encryptBlock c (fst (gamma_step n)) (snd (gamma_step n)) @ keystream c (gamma_step n) k"

lemma length_keystream [simp]: "length (keystream c n k) = 8 * k"
  by (induction k arbitrary: n) auto

lemma map2_append_right:
  "length g = 8 \<Longrightarrow> map2 f src (g @ ks) = map2 f (take 8 src) g @ map2 f (drop 8 src) ks"
  by (cases "length src \<le> 8") (simp_all add: zip_append2)

lemma gamma_blocks_keystream:
  "length src \<le> 8 * k \<Longrightarrow> gamma_blocks c n src = map2 (XOR) src (keystream c n k)"
proof (induction c n src arbitrary: k rule: gamma_blocks.induct)
  case (1 c n src)
  show ?case
  proof (cases "src = []")
    case False
    with 1 obtain k' where k: "k = Suc k'" by (cases k) auto
    have "gamma_blocks c (gamma_step n) (drop 8 src)
        = map2 (XOR) (drop 8 src) (keystream c (gamma_step n) k')"
      by (rule 1(1) [OF False]) (use 1 k in auto)
    then show ?thesis using False
      by (subst gamma_blocks.simps)
        (simp add: k Let_def xorBlock_def map2_append_right)
  qed (simp add: gamma_blocks.simps)
qed

definition gamma_stream :: "Cipher \<Rightarrow> bytes \<Rightarrow> nat \<Rightarrow> bytes" where
  "gamma_stream c sync k = keystream c (Cipher_encrypt c (le32 sync) (le32 (drop 4 sync))) k"

lemma Gamma_stream: "Gamma c sync src = map2 (XOR) src (gamma_stream c sync (length src))"
  by (simp add: Gamma_def gamma_stream_def gamma_blocks_keystream)

lemma length_gamma_stream [simp]: "length (gamma_stream c sync k) = 8 * k"
  by (simp add: gamma_stream_def)

lemma length_Gamma [simp]: "length (Gamma c sync src) = length src"
  by (simp add: Gamma_stream)

lemma Gamma_Gamma: "Gamma c sync (Gamma c sync src) = src"
proof -
  have "Gamma c sync (Gamma c sync src)
      = map2 (XOR) (Gamma c sync src) (gamma_stream c sync (length src))"
    by (subst Gamma_stream) simp
  then show ?thesis by (simp add: Gamma_stream map2_xor_cancel)
qed

lemma length_cfb_encrypt [simp]: "length (cfb_encrypt_blocks c fb src) = length src"
proof (induction c fb src rule: cfb_encrypt_blocks.induct)
  case (1 c fb src)
  show ?case
    by (subst cfb_encrypt_blocks.simps) (use 1 in \<open>simp add: Let_def min_def\<close>)
qed

lemma cfb_decrypt_encrypt:
  "cfb_decrypt_blocks c fb (cfb_encrypt_blocks c fb src) = src"
proof (induction c fb src rule: cfb_encrypt_blocks.induct)
  case (1 c fb src)
  show ?case
  proof (cases "src = []")
    case False
    let ?g = "encryptBlock c (le32 fb) (le32 (drop 4 fb))"
    let ?d = "xorBlock src ?g"
    let ?fb = "?d @ drop (length ?d) ?g"
    let ?rest = "cfb_encrypt_blocks c ?fb (drop 8 src)"
    have e: "cfb_encrypt_blocks c fb src = ?d @ ?rest"
      using False by (subst cfb_encrypt_blocks.simps) (simp add: Let_def)
    have rest: "length src < 8 \<Longrightarrow> ?rest = []"
      by (simp add: cfb_encrypt_blocks.simps)
    have t: "take 8 (?d @ ?rest) = ?d" "drop 8 (?d @ ?rest) = ?rest"
      using rest by (cases "length src < 8"; simp)+
    have x: "xorBlock ?d ?g = take 8 src"
      by (metis length_encryptBlock length_take min.cobounded2 xorBlock_cancel xorBlock_take)
    have ne: "?d @ ?rest \<noteq> []"
      using False by (metis e length_0_conv length_cfb_encrypt)
    have "cfb_decrypt_blocks c ?fb ?rest = drop 8 src"
      using 1 False by (simp add: Let_def)
    with ne show ?thesis
      unfolding e by (subst cfb_decrypt_blocks.simps) (simp only: t x Let_def if_False append_take_drop_id)
  qed (simp add: cfb_encrypt_blocks.simps cfb_decrypt_blocks.simps)
qed

interpretation gamma: stream_cipher "Gamma c sync" "Gamma c sync" for c sync
  by unfold_locales (simp_all add: Gamma_Gamma)

interpretation cfb: stream_cipher "CFBEncrypt c sync" "CFBDecrypt c sync" for c sync
  by unfold_locales (simp_all add: CFBEncrypt_def CFBDecrypt_def cfb_decrypt_encrypt)


subsection \<open>The cipher is a permutation of the blocks\<close>

definition cipher_unround :: "Cipher \<Rightarrow> u32 \<times> u32 \<Rightarrow> nat \<Rightarrow> u32 \<times> u32" where
  "cipher_unround c n i = (case n of (a, b) \<Rightarrow> (b, a XOR Cipher_f c (b + ck c ! i)))"

definition Cipher_decrypt :: "Cipher \<Rightarrow> u32 \<Rightarrow> u32 \<Rightarrow> u32 \<times> u32" where
  "Cipher_decrypt c a b = foldl (cipher_unround c) (b, a) (rev keyOrder)"

lemma unround_round: "cipher_unround c (cipher_round c n i) i = n"
  by (simp add: cipher_unround_def cipher_round_def xor.assoc split: prod.splits)

lemma round_unround: "cipher_round c (cipher_unround c n i) i = n"
  by (simp add: cipher_unround_def cipher_round_def xor.assoc split: prod.splits)

lemma foldl_undo:
  assumes "\<And>s i. g (f s i) i = s"
  shows "foldl g (foldl f s is) (rev is) = s"
  using assms by (induction "is" arbitrary: s) auto

lemma foldl_undo':
  assumes "\<And>s i. f (g s i) i = s"
  shows "foldl f (foldl g s (rev is)) is = s"
  using foldl_undo [of f g s "rev is"] assms by simp

lemma decrypt_encrypt: "(case Cipher_encrypt c n1 n2 of (a, b) \<Rightarrow> Cipher_decrypt c a b) = (n1, n2)"
  using foldl_undo [of "cipher_unround c" "cipher_round c" "(n1, n2)" keyOrder, OF unround_round]
  by (cases "foldl (cipher_round c) (n1, n2) keyOrder") (simp add: Cipher_encrypt_def Cipher_decrypt_def)

lemma encrypt_decrypt: "(case Cipher_decrypt c a b of (n1, n2) \<Rightarrow> Cipher_encrypt c n1 n2) = (a, b)"
  using foldl_undo' [of "cipher_round c" "cipher_unround c" "(b, a)" keyOrder, OF round_unround]
  by (cases "foldl (cipher_unround c) (b, a) (rev keyOrder)") (simp add: Cipher_encrypt_def Cipher_decrypt_def)

text \<open>For every key, one run of the 32-round cycle is a permutation of the 64-bit blocks:
  no two blocks have the same image and every block is one (the inverse runs the key
  schedule backwards).\<close>

theorem Cipher_encrypt_permutation: "bij (\<lambda>(n1, n2). Cipher_encrypt c n1 n2)"
proof (rule o_bij [of "\<lambda>(a, b). Cipher_decrypt c a b"])
  show "(\<lambda>(a, b). Cipher_decrypt c a b) \<circ> (\<lambda>(n1, n2). Cipher_encrypt c n1 n2) = id"
    using decrypt_encrypt [of c] by (auto simp: fun_eq_iff)
  show "(\<lambda>(n1, n2). Cipher_encrypt c n1 n2) \<circ> (\<lambda>(a, b). Cipher_decrypt c a b) = id"
    using encrypt_decrypt [of c] by (auto simp: fun_eq_iff)
qed

lemma Cipher_encrypt_inj: "Cipher_encrypt c a b = Cipher_encrypt c a' b' \<Longrightarrow> a = a' \<and> b = b'"
  by (metis decrypt_encrypt prod.inject)

subsection \<open>The counter\<close>

lemma byte_join32:
  "le32 [ucast v, ucast (drop_bit 8 v), ucast (drop_bit 16 v), ucast (drop_bit 24 v)] = v"
proof (rule bit_word_eqI)
  fix n assume "n < LENGTH(32)"
  then consider "n < 8" | "8 \<le> n \<and> n < 16" | "16 \<le> n \<and> n < 24" | "24 \<le> n \<and> n < 32" by fastforce
  then show "bit (le32 [ucast v, ucast (drop_bit 8 v), ucast (drop_bit 16 v), ucast (drop_bit 24 v)]) n = bit v n"
    by cases (auto simp: le32_def bit_or_iff bit_push_bit_iff bit_unsigned_iff bit_drop_bit_eq)
qed

lemma le32_put32: "le32 (put32 v) = v"
  by (simp only: put32_def byte_join32)

lemma put32_inj: "put32 v = put32 w \<longleftrightarrow> v = w"
  by (metis le32_put32)

lemma encryptBlock_inj: "encryptBlock c a b = encryptBlock c a' b' \<Longrightarrow> a = a' \<and> b = b'"
  by (rule Cipher_encrypt_inj [of c]) (auto simp: encryptBlock_def put32_inj split: prod.splits)

lemma gamma_step_mod:
  "unat (snd (gamma_step (n1, n2))) mod (2 ^ 32 - 1) = (unat n2 + 0x01010104) mod (2 ^ 32 - 1)"
proof (cases "n2 > 0xfefefefb")
  case True
  then have "0xfefefefb < unat n2" by (simp add: word_less_nat_alt)
  moreover have "unat n2 < 2 ^ 32" using unsigned_less [of n2] by simp
  ultimately have "unat (n2 + 0x01010105) = unat n2 + 0x01010105 - 2 ^ 32"
    by (simp add: unat_word_ariths mod_if)
  also have "\<dots> = unat n2 + 0x01010104 - (2 ^ 32 - 1)" by simp
  finally show ?thesis using True \<open>0xfefefefb < unat n2\<close>
    by (simp add: gamma_step_def gammaC1_def le_mod_geq)
next
  case False
  then have "unat n2 \<le> 0xfefefefb" by (simp add: word_less_nat_alt)
  then have "unat (n2 + 0x01010104) = unat n2 + 0x01010104" by (simp add: unat_word_ariths)
  with False show ?thesis by (simp add: gamma_step_def gammaC1_def)
qed

lemma gamma_step_fst: "fst ((gamma_step ^^ k) n) = fst n + of_nat k * gammaC2"
  by (induction k) (simp_all add: gamma_step_def distrib_right case_prod_unfold Let_def)

lemma gammaC2_unit: "gammaC2 * 0xFFFFFF01 = 1"
  by (simp add: gammaC2_def)

lemma gammaC2_cancel: "x * gammaC2 = y * gammaC2 \<Longrightarrow> x = y"
proof -
  assume "x * gammaC2 = y * gammaC2"
  then have "x * (gammaC2 * 0xFFFFFF01) = y * (gammaC2 * 0xFFFFFF01)"
    by (simp only: mult.assoc [symmetric])
  then show "x = y" by (simp only: gammaC2_unit mult_1_right)
qed

lemma counters_distinct:
  assumes "i < 2 ^ 32" "j < 2 ^ 32" "(gamma_step ^^ i) n = (gamma_step ^^ j) n"
  shows "i = j"
proof -
  have "of_nat i * gammaC2 = (of_nat j * gammaC2 :: u32)"
    using assms(3) gamma_step_fst [of i n] gamma_step_fst [of j n] by simp
  then have "(of_nat i :: u32) = of_nat j" by (rule gammaC2_cancel)
  then have "i mod 2 ^ 32 = j mod 2 ^ 32" by (simp add: word_of_nat_eq_iff take_bit_eq_mod)
  with assms show ?thesis by simp
qed

subsection \<open>The tables\<close>

text \<open>A bottom-up merge sort, so that the kernel sorts each quarter quickly.\<close>

fun merge_runs :: "int list \<Rightarrow> int list \<Rightarrow> int list" where
  "merge_runs [] ys = ys"
| "merge_runs xs [] = xs"
| "merge_runs (x # xs) (y # ys) =
     (if x \<le> y then x # merge_runs xs (y # ys) else y # merge_runs (x # xs) ys)"

fun merge_pairs :: "int list list \<Rightarrow> int list list" where
  "merge_pairs (a # b # r) = merge_runs a b # merge_pairs r"
| "merge_pairs r = r"

fun merge_passes :: "nat \<Rightarrow> int list list \<Rightarrow> int list list" where
  "merge_passes 0 r = r"
| "merge_passes (Suc n) r = merge_passes n (merge_pairs r)"

lemma mset_merge_runs: "mset (merge_runs xs ys) = mset xs + mset ys"
  by (induction xs ys rule: merge_runs.induct) auto

lemma mset_merge_passes: "mset (concat (merge_passes n r)) = mset (concat r)"
proof -
  have "mset (concat (merge_pairs r)) = mset (concat r)" for r
    by (induction r rule: merge_pairs.induct) (auto simp: mset_merge_runs)
  then show ?thesis by (induction n arbitrary: r) simp_all
qed

lemma merge_sorted_perm:
  assumes "merge_passes 8 (map (\<lambda>x. [x]) s) = [[0..255]]"
  shows "mset s = mset [0..255]"
  using mset_merge_passes [of 8 "map (\<lambda>x. [x]) s"] by (simp add: assms)

lemma sbox_merge:
  "merge_passes 8 (map (\<lambda>x. [x]) sbox0) = [[0..255]]"
  "merge_passes 8 (map (\<lambda>x. [x]) sbox1) = [[0..255]]"
  "merge_passes 8 (map (\<lambda>x. [x]) sbox2) = [[0..255]]"
  "merge_passes 8 (map (\<lambda>x. [x]) sbox3) = [[0..255]]"
  by code_simp+

lemmas sbox_permutes = sbox_merge [THEN merge_sorted_perm]

lemma sbox_lengths: "length sbox0 = 256" "length sbox1 = 256" "length sbox2 = 256" "length sbox3 = 256"
  by (simp_all add: sbox0_def sbox1_def sbox2_def sbox3_def)

lemma word_of_int_bytes_inj: "inj_on (word_of_int :: int \<Rightarrow> byte) {0..255}"
  by (rule inj_onI) (simp add: word_of_int_eq_iff take_bit_eq_mod)

lemma word_of_int_bytes_image: "(word_of_int :: int \<Rightarrow> byte) ` {0..255} = UNIV"
proof -
  have "b \<in> word_of_int ` {0..255}" for b :: byte
    by (rule image_eqI [of _ _ "uint b"]) (use uint_lt2p [of b] in simp_all)
  then show ?thesis by blast
qed

lemma sbox_quarter:
  assumes "mset s = mset [0..255 :: int]"
  shows "distinct (map (word_of_int :: int \<Rightarrow> byte) s)"
    and "set (map (word_of_int :: int \<Rightarrow> byte) s) = UNIV"
    and "length s = 256"
proof -
  have s: "set s = {0..255}" "distinct s" "length s = 256"
    using mset_eq_setD [OF assms] mset_eq_imp_distinct_iff [OF assms] mset_eq_length [OF assms]
    by (simp_all only: set_upto distinct_upto length_upto)
  then show "distinct (map (word_of_int :: int \<Rightarrow> byte) s)" "length s = 256"
    by (simp_all add: distinct_map word_of_int_bytes_inj)
  show "set (map (word_of_int :: int \<Rightarrow> byte) s) = UNIV"
    using s by (simp only: set_map word_of_int_bytes_image)
qed

lemma sbox_quarter_inj:
  assumes "mset s = mset [0..255 :: int]"
    and "(word_of_int (s ! unat b) :: byte) = word_of_int (s ! unat b')"
  shows "b = (b' :: byte)"
proof -
  have "unat b = unat b'"
    using nth_eq_iff_index_eq [OF sbox_quarter(1) [OF assms(1)], of "unat b" "unat b'"] assms(2)
    by (simp add: sbox_quarter(3) [OF assms(1)] unat_byte_less)
  then show ?thesis by (simp only: word_unat_eq_iff)
qed

lemma sbox_nth:
  "sbox (unat b) = ucast (word_of_int (sbox0 ! unat b) :: byte)"
  "sbox (0x100 + unat b) = ucast (word_of_int (sbox1 ! unat b) :: byte)"
  "sbox (0x200 + unat b) = ucast (word_of_int (sbox2 ! unat b) :: byte)"
  "sbox (0x300 + unat b) = ucast (word_of_int (sbox3 ! unat b) :: byte)" for b :: byte
  using unat_byte_less [of b]
  by (simp_all add: sbox_def sboxTable_def nth_append sbox_lengths)

lemma unat_low_byte: "unat (w AND 0xff :: u32) = unat (ucast w :: byte)"
proof -
  have "w AND 0xff = take_bit 8 w" by (simp add: take_bit_eq_mask mask_eq_exp_minus_1)
  then show ?thesis by (simp only: unsigned_ucast_eq unsigned_take_bit_eq) simp
qed

lemma unat_top_byte: "unat (drop_bit 24 w :: u32) = unat (ucast (drop_bit 24 w) :: byte)"
proof -
  have "unat (drop_bit 24 w) < 256" using unsigned_less [of w, where ?'a = nat] by (simp add: unat_drop_bit_div)
  then show ?thesis by (simp add: unsigned_ucast_eq take_bit_nat_eq_self)
qed

definition sub_bytes :: "u32 \<Rightarrow> bytes" where
  "sub_bytes x = [word_of_int (sbox0 ! unat (ucast x :: byte)),
     word_of_int (sbox1 ! unat (ucast (drop_bit 8 x) :: byte)),
     word_of_int (sbox2 ! unat (ucast (drop_bit 16 x) :: byte)),
     word_of_int (sbox3 ! unat (ucast (drop_bit 24 x) :: byte))]"

definition rot11 :: "u32 \<Rightarrow> u32" where
  "rot11 y = push_bit 11 y OR drop_bit 21 y"

lemma rot11_inverse: "push_bit 21 (rot11 y) OR drop_bit 11 (rot11 y) = y"
proof (rule bit_word_eqI)
  fix n assume "n < LENGTH(32)"
  then show "bit (push_bit 21 (rot11 y) OR drop_bit 11 (rot11 y)) n = bit y n"
    using bit_imp_le_length [of y "21 + (11 + n)"]
    by (cases "21 \<le> n")
      (auto simp: rot11_def bit_or_iff bit_push_bit_iff bit_drop_bit_eq)
qed

lemma rot11_inj: "rot11 y = rot11 z \<Longrightarrow> y = z"
  by (metis rot11_inverse)

lemma Cipher_f_sub_bytes: "Cipher_f c x = rot11 (le32 (sub_bytes x))"
proof -
  have "le32 (sub_bytes x) = push_bit 24 (sbox (0x300 + unat (drop_bit 24 x)))
           OR push_bit 16 (sbox (0x200 + unat (drop_bit 16 x AND 0xff)))
           OR push_bit 8 (sbox (0x100 + unat (drop_bit 8 x AND 0xff)))
           OR sbox (unat (x AND 0xff))"
    by (simp only: unat_low_byte unat_top_byte sbox_nth le32_def sub_bytes_def) (simp add: ac_simps)
  then show ?thesis by (simp only: Cipher_f_def rot11_def Let_def)
qed

lemma bit_le32:
  "bit (le32 [b0, b1, b2, b3]) m \<longleftrightarrow> bit b0 m \<or> 8 \<le> m \<and> bit b1 (m - 8)
     \<or> 16 \<le> m \<and> bit b2 (m - 16) \<or> 24 \<le> m \<and> bit b3 (m - 24)"
proof -
  consider "m < 8" | "8 \<le> m" "m < 16" | "16 \<le> m" "m < 24" | "24 \<le> m" "m < 32" | "32 \<le> m" by linarith
  then show ?thesis
    by cases (simp_all add: le32_def bit_or_iff bit_push_bit_iff bit_unsigned_iff byte_no_high_bit, auto)
qed

lemma put32_le32:
  assumes "length b = 4"
  shows "put32 (le32 b) = b"
proof -
  obtain b0 b1 b2 b3 where b: "b = [b0, b1, b2, b3]"
    using assms by (auto simp: length_Suc_conv numeral_eq_Suc)
  note bits = bit_unsigned_iff bit_drop_bit_eq bit_le32 byte_no_high_bit
  have "ucast (le32 b) = b0" by (rule bit_word_eqI) (simp add: b bits)
  moreover have "ucast (drop_bit 8 (le32 b)) = b1" by (rule bit_word_eqI) (simp add: b bits)
  moreover have "ucast (drop_bit 16 (le32 b)) = b2" by (rule bit_word_eqI) (simp add: b bits)
  moreover have "ucast (drop_bit 24 (le32 b)) = b3" by (rule bit_word_eqI) (simp add: b bits)
  ultimately show ?thesis by (simp add: put32_def b)
qed

lemma length_sub_bytes: "length (sub_bytes x) = 4"
  by (simp add: sub_bytes_def)

lemma sub_bytes_inj:
  assumes "sub_bytes x = sub_bytes y" shows "x = y"
proof -
  have "put32 x = put32 y"
    using assms sbox_quarter_inj [OF sbox_permutes(1)] sbox_quarter_inj [OF sbox_permutes(2)]
      sbox_quarter_inj [OF sbox_permutes(3)] sbox_quarter_inj [OF sbox_permutes(4)]
    unfolding sub_bytes_def put32_def list.inject by blast
  then show ?thesis by (simp only: put32_inj)
qed

text \<open>The round function (the four 8-bit S-boxes of \<open>sboxTable\<close>, then the rotation by
  11) is injective on 32-bit words: each quarter of the table is a permutation of the bytes.\<close>

theorem Cipher_f_inj: "inj (Cipher_f c)"
proof (rule injI)
  fix x y assume "Cipher_f c x = Cipher_f c y"
  then have "le32 (sub_bytes x) = le32 (sub_bytes y)"
    by (simp only: Cipher_f_sub_bytes rot11_inj)
  then have "put32 (le32 (sub_bytes x)) = put32 (le32 (sub_bytes y))" by simp
  then have "sub_bytes x = sub_bytes y" by (simp add: put32_le32 length_sub_bytes)
  then show "x = y" by (rule sub_bytes_inj)
qed

subsection \<open>Key expansion\<close>

lemma length_expandKey: "length (expandKey src n) = n"
proof -
  have "length (foldl (\<lambda>out i. out[i := h out i]) xs is) = length xs" for h :: "bytes \<Rightarrow> nat \<Rightarrow> byte" and xs "is"
    by (induction "is" arbitrary: xs) auto
  then show ?thesis by (simp add: expandKey_def Let_def)
qed

text \<open>The key derived from any password has the length \<open>NewCipher\<close> asks for, so the
  login can always build the password cipher, whatever the digest function returns.\<close>

theorem PasswordKey_NewCipher: "\<exists>c. NewCipher (PasswordKey sha1 password) = Inr c"
  by (simp add: NewCipher_def PasswordKey_def length_expandKey)


subsection \<open>The modes\<close>

text \<open>C3: both cipher modes are undone by their counterpart for every key, synchronization
  value and input length: \<open>Gamma\<close> by itself, \<open>CFBEncrypt\<close> by \<open>CFBDecrypt\<close>.\<close>

theorem modes_invert:
  "Gamma c sync (Gamma c sync src) = src \<and> CFBDecrypt c sync (CFBEncrypt c sync src) = src"
  by (intro conjI gamma.dec_enc cfb.dec_enc)

definition block :: "nat \<Rightarrow> bytes \<Rightarrow> bytes" where
  "block i xs = take 8 (drop (8 * i) xs)"

lemma block_keystream:
  "i < k \<Longrightarrow> block i (keystream c n k) =
    encryptBlock c (fst ((gamma_step ^^ Suc i) n)) (snd ((gamma_step ^^ Suc i) n))"
proof (induction k arbitrary: i n)
  case (Suc k)
  show ?case
  proof (cases i)
    case (Suc i')
    then have "block i (keystream c n (Suc k)) = block i' (keystream c (gamma_step n) k)"
      by (simp add: block_def)
    also have "\<dots> = encryptBlock c (fst ((gamma_step ^^ Suc i') (gamma_step n)))
        (snd ((gamma_step ^^ Suc i') (gamma_step n)))"
      using Suc Suc.prems by (intro Suc.IH) simp
    finally show ?thesis using Suc by (simp only: funpow_Suc_right o_apply)
  qed (simp add: block_def)
qed simp

lemma keystream_blocks_inj:
  assumes "i < 2 ^ 32" "j < 2 ^ 32" "i < k" "j < k" "block i (keystream c n k) = block j (keystream c n k)"
  shows "i = j"
proof -
  have "(gamma_step ^^ Suc i) n = (gamma_step ^^ Suc j) n"
    using assms(5) by (intro prod_eqI) (auto simp only: block_keystream [OF assms(3)]
      block_keystream [OF assms(4)] dest: encryptBlock_inj)
  then have "(gamma_step ^^ i) (gamma_step n) = (gamma_step ^^ j) (gamma_step n)"
    by (simp only: funpow_Suc_right o_apply)
  then show ?thesis by (rule counters_distinct [OF assms(1,2)])
qed

lemma zip_take_right: "zip xs (take (length xs) ys) = zip xs ys"
proof (induction xs arbitrary: ys)
  case (Cons x xs)
  then show ?case by (cases ys) simp_all
qed simp

lemma block_map2_xor:
  assumes "length src \<le> length ks"
  shows "map2 (XOR) (block i src) (block i (map2 (XOR) src ks)) = block i (take (length src) ks)"
proof -
  have *: "map2 (XOR) a (map2 (XOR) a g) = (g :: bytes)" if "length a = length g" for a g
    using that by (induction a g rule: list_induct2) (auto simp: xor.assoc [symmetric])
  have "block i (map2 (XOR) src ks) = map2 (XOR) (block i src) (block i (take (length src) ks))"
    by (subst zip_take_right [symmetric]) (simp only: block_def drop_map take_map drop_zip take_zip)
  moreover have "length (block i src) = length (block i (take (length src) ks))"
    using assms by (simp add: block_def)
  ultimately show ?thesis by (simp only: *)
qed

text \<open>Within one message the keystream of \<open>Gamma\<close> never repeats a block: two different
  full blocks of a payload are masked with different 8-byte blocks (the low counter word
  adds an odd constant, so it has period 2^32, and the cipher is a permutation).\<close>

theorem Gamma_blocks_distinct:
  assumes "i < j" and "j < 2 ^ 32" and "8 * (j + 1) \<le> length src"
  shows "map2 (XOR) (block i src) (block i (Gamma c sync src))
    \<noteq> map2 (XOR) (block j src) (block j (Gamma c sync src))"
proof -
  let ?ks = "gamma_stream c sync (length src)"
  have b: "block m (take (length src) ?ks) = block m ?ks" if "8 * (m + 1) \<le> length src" for m
    using that by (simp add: block_def drop_take min_def)
  have "block i ?ks \<noteq> block j ?ks"
    using keystream_blocks_inj [of i j "length src" c] assms unfolding gamma_stream_def by fastforce
  then show ?thesis
    using assms by (simp only: Gamma_stream block_map2_xor length_gamma_stream b)
      (simp add: block_map2_xor b)
qed

theorem Gamma_blocks_distinct_witness:
  "map2 (XOR) (block 0 (replicate 16 7)) (block 0 (Gamma \<lparr>ck = replicate 8 1\<rparr> DefaultSync (replicate 16 7)))
    \<noteq> map2 (XOR) (block 1 (replicate 16 7)) (block 1 (Gamma \<lparr>ck = replicate 8 1\<rparr> DefaultSync (replicate 16 7)))"
  by (rule Gamma_blocks_distinct) simp_all

end
