(* ===== verification/Frame.thy ===== *)
theory Frame
  imports Wire_Codec Gost
begin

text \<open>
  The packet layer of \<open>native/wire/frame.go\<close>: an eight-byte header and a payload, each
  with its CRC-16 and each encrypted on its own. An \<open>io.Reader\<close> is the list of bytes that
  still arrive on the connection before it ends; \<open>ReadFull\<close> is \<open>io.ReadFull\<close> on it.
\<close>

unbundle bit_operations_syntax

definition HeaderSize :: nat where "HeaderSize = 8"
definition MaxPayload :: nat where "MaxPayload = 0xfff0"
definition KindMask :: byte where "KindMask = 3"
definition FlagPlain :: byte where "FlagPlain = 0x80"

datatype Direction = ClientToServer | ServerToClient

record Frame =
  Flags :: byte
  Typ :: byte
  Payload :: bytes

definition Frame_Kind :: "Frame \<Rightarrow> byte" where
  "Frame_Kind f = Flags f AND KindMask"

record Keys =
  kcipher :: Cipher
  ksync :: bytes

definition NewKeys :: "bytes \<Rightarrow> bytes \<Rightarrow> err + Keys" where
  "NewKeys key sync =
     (case NewCipher key of Inl e \<Rightarrow> Inl e | Inr c \<Rightarrow> Inr \<lparr>kcipher = c, ksync = sync\<rparr>)"

text \<open>\<open>Inl\<close> stands for the panic of \<open>DefaultKeys\<close>.\<close>

definition DefaultKeys :: "err + Keys" where
  "DefaultKeys = NewKeys DefaultKey DefaultSync"

definition Keys_encrypt :: "Keys \<Rightarrow> Direction \<Rightarrow> bytes \<Rightarrow> bytes" where
  "Keys_encrypt k dir b =
     (if dir = ClientToServer then Gamma (kcipher k) (ksync k) b
      else CFBEncrypt (kcipher k) (ksync k) b)"

definition Keys_decrypt :: "Keys \<Rightarrow> Direction \<Rightarrow> bytes \<Rightarrow> bytes" where
  "Keys_decrypt k dir b =
     (if dir = ClientToServer then Gamma (kcipher k) (ksync k) b
      else CFBDecrypt (kcipher k) (ksync k) b)"

subsection \<open>CRC-16\<close>

definition crc_bit :: "u16 \<Rightarrow> u16" where
  "crc_bit crc = (if crc AND 0x8000 \<noteq> 0 then push_bit 1 crc XOR 0x1021 else push_bit 1 crc)"

definition crc_byte :: "u16 \<Rightarrow> byte \<Rightarrow> u16" where
  "crc_byte crc v = (crc_bit ^^ 8) (crc XOR push_bit 8 (ucast v))"

definition CRC16 :: "bytes \<Rightarrow> u16" where
  "CRC16 b = foldl crc_byte 0xffff b"

subsection \<open>Encode and Decode\<close>

text \<open>\<open>binary.BigEndian.PutUint16\<close>; \<open>binary.BigEndian.Uint16\<close> is \<open>be16\<close>.\<close>

definition put16 :: "u16 \<Rightarrow> bytes" where
  "put16 v = [ucast (drop_bit 8 v), ucast v]"

definition header_of :: "byte \<Rightarrow> byte \<Rightarrow> bytes \<Rightarrow> bytes" where
  "header_of flags typ payload =
     (let h = [flags, typ] @ put16 (of_nat (length payload)) @ put16 (CRC16 payload)
      in h @ put16 (CRC16 h))"

definition Encode :: "Keys \<Rightarrow> Direction \<Rightarrow> Frame \<Rightarrow> err + bytes" where
  "Encode k dir f =
     (if length (Payload f) > MaxPayload then Inl ErrTooLarge
      else
        let flags = (if dir = ClientToServer then Flags f AND 0x7f else Flags f);
            out = header_of flags (Typ f) (Payload f)
        in Inr (Keys_encrypt k dir out
             @ (if length (Payload f) > 0 \<and> flags AND FlagPlain = 0
                then Keys_encrypt k dir (Payload f) else Payload f)))"

definition ReadFull :: "nat \<Rightarrow> bytes \<Rightarrow> (err + bytes) \<times> bytes" where
  "ReadFull n s =
     (if n \<le> length s then (Inr (take n s), drop n s)
      else if s = [] then (Inl ErrEOF, []) else (Inl ErrUnexpectedEOF, []))"

definition Decode :: "Keys \<Rightarrow> Direction \<Rightarrow> bytes \<Rightarrow> (err + Frame) \<times> bytes" where
  "Decode k dir r =
     (case ReadFull HeaderSize r of
        (Inl e, r) \<Rightarrow> (Inl e, r)
      | (Inr h, r) \<Rightarrow>
          let hdr = Keys_decrypt k dir h in
          if be16 (hdr ! 6) (hdr ! 7) \<noteq> CRC16 (take 6 hdr) then (Inl ErrHeaderCRC, r)
          else
            let n = unat (be16 (hdr ! 2) (hdr ! 3)) in
            if n > MaxPayload then (Inl (WrapN ''%w: %d'' [int n] ErrTooLarge), r)
            else
              (case ReadFull n r of
                 (Inl e, r) \<Rightarrow> (Inl e, r)
               | (Inr p, r) \<Rightarrow>
                   let p = (if n > 0 \<and> hdr ! 0 AND FlagPlain = 0 then Keys_decrypt k dir p else p)
                   in if be16 (hdr ! 4) (hdr ! 5) \<noteq> CRC16 p
                      then (Inl (PayloadCRCError (hdr ! 0) (hdr ! 1)), r)
                      else (Inr \<lparr>Flags = hdr ! 0, Typ = hdr ! 1, Payload = p\<rparr>, r)))"

text \<open>The frame a receiver gets: the client clears the plain bit before sending.\<close>

definition sent :: "Direction \<Rightarrow> Frame \<Rightarrow> Frame" where
  "sent dir f = (if dir = ClientToServer then f\<lparr>Flags := Flags f AND 0x7f\<rparr> else f)"

interpretation keys: stream_cipher "Keys_encrypt k dir" "Keys_decrypt k dir" for k dir
  by unfold_locales
    (simp_all add: Keys_encrypt_def Keys_decrypt_def gamma.dec_enc cfb.dec_enc gamma.length_enc cfb.length_enc)

lemma be16_put16: "put16 v = [hi, lo] \<Longrightarrow> be16 hi lo = v"
  by (auto simp: put16_def be16_join)

lemma length_header_of [simp]: "length (header_of fl t p) = 8"
  by (simp add: header_of_def put16_def Let_def)

lemma header_fields:
  fixes fl t :: byte and p :: bytes
  defines "h \<equiv> header_of fl t p"
  shows "h ! 0 = fl" "h ! 1 = t" "be16 (h ! 2) (h ! 3) = of_nat (length p)"
    "be16 (h ! 4) (h ! 5) = CRC16 p" "be16 (h ! 6) (h ! 7) = CRC16 (take 6 h)"
  by (simp_all add: h_def header_of_def put16_def Let_def be16_join)

lemma Encode_eq:
  assumes "length (Payload f) \<le> MaxPayload"
  shows "Encode k dir f = (let g = sent dir f in
    Inr (Keys_encrypt k dir (header_of (Flags g) (Typ g) (Payload g))
      @ (if length (Payload g) > 0 \<and> Flags g AND FlagPlain = 0
         then Keys_encrypt k dir (Payload g) else Payload g)))"
  using assms by (simp add: Encode_def sent_def Let_def)

text \<open>What \<open>Decode\<close> does with a header that decrypts to a well-formed one.\<close>

lemma Decode_header:
  assumes "length h = 8" and d: "Keys_decrypt k dir h = header_of fl t p" and n: "length p \<le> MaxPayload"
  shows "Decode k dir (h @ s) =
    (case ReadFull (length p) s of
       (Inl e, r) \<Rightarrow> (Inl e, r)
     | (Inr q, r) \<Rightarrow>
         let q = (if length p > 0 \<and> fl AND FlagPlain = 0 then Keys_decrypt k dir q else q)
         in if CRC16 p \<noteq> CRC16 q then (Inl (PayloadCRCError fl t), r)
            else (Inr \<lparr>Flags = fl, Typ = t, Payload = q\<rparr>, r))"
proof -
  have u: "unat (of_nat (length p) :: u16) = length p"
    using n by (intro unat_of_nat_eq_small) (simp add: MaxPayload_def)
  have r: "ReadFull HeaderSize (h @ s) = (Inr h, s)"
    using assms(1) by (simp add: ReadFull_def HeaderSize_def)
  show ?thesis
    using n by (simp add: Decode_def r d header_fields u Let_def split: prod.splits sum.splits del: One_nat_def)
qed

lemma Decode_Encode:
  assumes "length (Payload f) \<le> MaxPayload"
  shows "\<exists>out. Encode k dir f = Inr out \<and> Decode k dir (out @ rest) = (Inr (sent dir f), rest)"
proof -
  let ?g = "sent dir f"
  let ?h = "header_of (Flags ?g) (Typ ?g) (Payload ?g)"
  have n: "length (Payload ?g) \<le> MaxPayload" using assms by (simp add: sent_def)
  show ?thesis
    by (simp add: Encode_eq [OF assms] Let_def Decode_header [OF _ keys.dec_enc n] keys.length_enc
        ReadFull_def keys.dec_enc)
qed

text \<open>C2: a frame within the size limit is decoded as it was sent (the client clears the
  plain bit of the flags, everything else is kept) in both directions, and the connection
  stands at the first byte behind the frame.\<close>

theorem frame_roundtrip:
  assumes "length (Payload f) \<le> MaxPayload" and "Encode k dir f = Inr out"
  shows "Decode k dir (out @ rest) = (Inr (sent dir f), rest)"
  using Decode_Encode [OF assms(1), of k dir rest] assms(2) by simp

theorem frame_roundtrip_witness:
  "\<exists>out. Encode \<lparr>kcipher = \<lparr>ck = replicate 8 1\<rparr>, ksync = DefaultSync\<rparr> ServerToClient
        \<lparr>Flags = 0x81, Typ = 4, Payload = [1, 2, 3]\<rparr> = Inr out
    \<and> Decode \<lparr>kcipher = \<lparr>ck = replicate 8 1\<rparr>, ksync = DefaultSync\<rparr> ServerToClient (out @ [9])
      = (Inr \<lparr>Flags = 0x81, Typ = 4, Payload = [1, 2, 3]\<rparr>, [9])"
proof -
  let ?k = "\<lparr>kcipher = \<lparr>ck = replicate 8 1\<rparr>, ksync = DefaultSync\<rparr>"
    and ?f = "\<lparr>Flags = 0x81, Typ = 4, Payload = [1, 2, 3 :: byte]\<rparr>"
  obtain out where e: "Encode ?k ServerToClient ?f = Inr out"
    by (simp add: Encode_def MaxPayload_def Let_def)
  from frame_roundtrip [OF _ e, of "[9]"] e show ?thesis by (simp add: sent_def MaxPayload_def)
qed

text \<open>Encoding fails exactly on a payload above \<open>MaxPayload\<close>, always with
  \<open>ErrTooLarge\<close>, and otherwise produces the header's eight bytes and one byte per payload
  byte; so \<open>Decode\<close> never sees a length above \<open>MaxPayload\<close> from this encoder.\<close>

theorem Encode_size:
  "case Encode k dir f of
     Inl e \<Rightarrow> e = ErrTooLarge \<and> length (Payload f) > MaxPayload
   | Inr out \<Rightarrow> length out = HeaderSize + length (Payload f) \<and> length (Payload f) \<le> MaxPayload"
  by (auto simp: Encode_def Let_def keys.length_enc HeaderSize_def)

text \<open>Reading \<open>n\<close> frames one after the other, as the receive loop does.\<close>

fun Decode_frames :: "Keys \<Rightarrow> Direction \<Rightarrow> nat \<Rightarrow> bytes \<Rightarrow> (err + Frame list) \<times> bytes" where
  "Decode_frames k dir 0 s = (Inr [], s)"
| "Decode_frames k dir (Suc n) s =
     (case Decode k dir s of
        (Inl e, s) \<Rightarrow> (Inl e, s)
      | (Inr f, s) \<Rightarrow>
          (case Decode_frames k dir n s of (Inl e, s) \<Rightarrow> (Inl e, s) | (Inr fs, s) \<Rightarrow> (Inr (f # fs), s)))"

text \<open>Frames sent back to back are received in their order and without loss: there is
  no state between frames, so each one is decoded on its own.\<close>

theorem frames_in_order:
  assumes "\<forall>f \<in> set fs. length (Payload f) \<le> MaxPayload"
    and "map (Encode k dir) fs = map Inr outs"
  shows "Decode_frames k dir (length fs) (concat outs @ rest) = (Inr (map (sent dir) fs), rest)"
  using assms
proof (induction fs arbitrary: outs)
  case (Cons f fs)
  then obtain out outs' where o: "outs = out # outs'" "Encode k dir f = Inr out"
    and m: "map (Encode k dir) fs = map Inr outs'" by (cases outs) auto
  have "Decode k dir (out @ (concat outs' @ rest)) = (Inr (sent dir f), concat outs' @ rest)"
    using Decode_Encode [of f k dir "concat outs' @ rest"] Cons.prems o by auto
  with Cons.IH [OF _ m] Cons.prems o show ?case by simp
qed simp

theorem frames_in_order_witness:
  "\<exists>a b. Encode \<lparr>kcipher = \<lparr>ck = replicate 8 1\<rparr>, ksync = DefaultSync\<rparr> ServerToClient
        \<lparr>Flags = 2, Typ = 4, Payload = [1, 2, 3]\<rparr> = Inr a
    \<and> Encode \<lparr>kcipher = \<lparr>ck = replicate 8 1\<rparr>, ksync = DefaultSync\<rparr> ServerToClient
        \<lparr>Flags = 0x82, Typ = 5, Payload = []\<rparr> = Inr b
    \<and> Decode_frames \<lparr>kcipher = \<lparr>ck = replicate 8 1\<rparr>, ksync = DefaultSync\<rparr> ServerToClient 2 (a @ b)
      = (Inr [\<lparr>Flags = 2, Typ = 4, Payload = [1, 2, 3]\<rparr>, \<lparr>Flags = 0x82, Typ = 5, Payload = []\<rparr>], [])"
proof -
  let ?k = "\<lparr>kcipher = \<lparr>ck = replicate 8 1\<rparr>, ksync = DefaultSync\<rparr>"
    and ?f = "\<lparr>Flags = 2, Typ = 4, Payload = [1, 2, 3 :: byte]\<rparr>"
    and ?g = "\<lparr>Flags = 0x82, Typ = 5, Payload = []\<rparr>"
  obtain a b where e: "Encode ?k ServerToClient ?f = Inr a" "Encode ?k ServerToClient ?g = Inr b"
    by (simp add: Encode_def MaxPayload_def Let_def)
  from frames_in_order [of "[?f, ?g]" ?k ServerToClient "[a, b]" "[]"] e show ?thesis
    by (simp add: sent_def MaxPayload_def numeral_2_eq_2)
qed

subsection \<open>The checksum detects short bursts\<close>

lemma xor_left_cancel [simp]: "x XOR y = x XOR z \<longleftrightarrow> y = (z :: 'a::len word)"
  by (metis xor.assoc xor_self_eq xor.left_neutral)

lemma xor_right_cancel [simp]: "y XOR x = z XOR x \<longleftrightarrow> y = (z :: 'a::len word)"
  by (metis xor.commute xor_left_cancel)

lemma be16_inj: "be16 a b = be16 c d \<longleftrightarrow> a = c \<and> b = d"
  by (metis be16_bytes)

lemma bit_double: "bit (push_bit 1 (x :: u16)) n \<longleftrightarrow> n < 16 \<and> 0 < n \<and> bit x (n - 1)"
  by (simp only: bit_push_bit_iff) (auto simp: Suc_le_eq)

lemma bit_15_mask: "(x :: u16) AND 0x8000 \<noteq> 0 \<longleftrightarrow> bit x 15"
  by (simp add: bit_iff_and_push_bit_not_eq_0)

lemma bit_crc_bit:
  "bit (crc_bit x) n \<longleftrightarrow> (n < 16 \<and> 0 < n \<and> bit x (n - 1)) \<noteq> (bit x 15 \<and> bit (0x1021 :: u16) n)"
  by (cases "bit x 15") (simp_all only: crc_bit_def bit_15_mask bit_xor_iff bit_double if_True if_False simp_thms)

lemma crc_bit_xor: "crc_bit (x XOR y) = crc_bit x XOR crc_bit y"
  by (rule bit_word_eqI) (auto simp: bit_crc_bit bit_xor_iff)

lemma crc_bit_0: "crc_bit x = 0 \<longleftrightarrow> x = 0"
proof
  assume z: "crc_bit x = 0"
  have "bit (0x1021 :: u16) 0" by simp
  with z bit_crc_bit [of x 0] have 15: "\<not> bit x 15" by simp
  show "x = 0"
  proof (rule bit_word_eqI)
    fix n assume "n < LENGTH(16)"
    then show "bit x n = bit 0 n"
      using bit_crc_bit [of x "Suc n"] z 15 by (cases "n = 15") auto
  qed
qed (simp add: crc_bit_def)

lemma crc_bits_xor: "(crc_bit ^^ k) (x XOR y) = (crc_bit ^^ k) x XOR (crc_bit ^^ k) y"
  by (induction k) (simp_all add: crc_bit_xor)

lemma crc_bits_0: "(crc_bit ^^ k) x = 0 \<longleftrightarrow> x = 0"
  by (induction k) (simp_all add: crc_bit_0)

lemma crc_bits_inj: "(crc_bit ^^ k) x = (crc_bit ^^ k) y \<longleftrightarrow> x = y"
  using crc_bits_0 [of k "x XOR y"] by (metis crc_bits_xor xor_self_eq xor_left_cancel)

lemma crc_bits_low: "(crc_bit ^^ 8) (ucast (v :: byte)) = push_bit 8 (ucast v)"
proof -
  have "(crc_bit ^^ k) (ucast v) = push_bit k (ucast v)" if "k \<le> 8" for k
    using that
  proof (induction k)
    case (Suc k)
    have "\<not> bit (push_bit k (ucast v :: u16)) 15"
      using Suc.prems byte_no_high_bit [of "15 - k" v] by (simp add: bit_push_bit_iff bit_unsigned_iff)
    then have "push_bit k (ucast v :: u16) AND 0x8000 = 0"
      using bit_15_mask by blast
    with Suc show ?case by (simp add: crc_bit_def)
  qed simp
  then show ?thesis by simp
qed

lemma be16_xor: "be16 x y = push_bit 8 (ucast x) XOR ucast y"
  by (rule bit_word_eqI) (auto simp: be16_def bit_or_iff bit_xor_iff bit_push_bit_iff bit_unsigned_iff
      dest: byte_no_high_bit)

lemma crc_two_bytes: "crc_byte (crc_byte c x) y = (crc_bit ^^ 16) (c XOR be16 x y)"
proof -
  have "(crc_bit ^^ 16) z = (crc_bit ^^ 8) ((crc_bit ^^ 8) z)" for z
    using funpow_add [of 8 8 crc_bit] by simp
  then show ?thesis
    by (simp only: be16_xor crc_byte_def crc_bits_xor crc_bits_low xor.assoc)
qed

lemma crc_byte_inj: "crc_byte c x = crc_byte d x \<longleftrightarrow> c = d"
  by (simp add: crc_byte_def crc_bits_inj)

lemma crc_foldl_inj: "foldl crc_byte c xs = foldl crc_byte d xs \<longleftrightarrow> c = d"
  by (induction xs arbitrary: c d) (simp_all add: crc_byte_inj)

lemma crc_byte_inj': "crc_byte c x = crc_byte c y \<longleftrightarrow> x = y"
  using be16_inj [of x 0 y 0] by (simp add: crc_byte_def crc_bits_inj be16_xor)

text \<open>\<open>CRC16\<close> tells apart any two messages that differ in two adjacent bytes (every
  error burst of up to 16 bits on a byte boundary).\<close>

theorem CRC16_burst: "CRC16 (a @ [x, y] @ b) = CRC16 (a @ [x', y'] @ b) \<longleftrightarrow> x = x' \<and> y = y'"
  by (simp add: CRC16_def crc_foldl_inj crc_two_bytes crc_bits_inj be16_inj)


subsection \<open>A damaged byte is always noticed\<close>

lemma CRC16_update: "i < length p \<Longrightarrow> CRC16 (p[i := x]) = CRC16 p \<longleftrightarrow> x = p ! i"
  by (subst (2) id_take_nth_drop [of i p])
    (simp_all add: upd_conv_take_nth_drop CRC16_def crc_foldl_inj crc_byte_inj')

lemma map2_update: "length g = length p \<Longrightarrow> map2 f (p[i := x]) g = (map2 f p g)[i := f x (g ! i)]"
  by (cases "i < length p") (auto intro!: nth_equalityI simp: nth_list_update)

text \<open>A decryption that masks the bytes one by one: counter mode, and the first block of CFB.\<close>

definition masks :: "(bytes \<Rightarrow> bytes) \<Rightarrow> nat \<Rightarrow> bool" where
  "masks d n \<longleftrightarrow> (\<exists>g. length g = n \<and> (\<forall>p. length p = n \<longrightarrow> d p = map2 (XOR) p g))"

lemma masks_update:
  assumes "masks d (length p)" and "i < length p" and "x \<noteq> p ! i"
  shows "\<exists>y. d (p[i := x]) = (d p)[i := y] \<and> y \<noteq> d p ! i"
proof -
  obtain g where "length g = length p" "\<And>q. length q = length p \<Longrightarrow> d q = map2 (XOR) q g"
    using assms(1) by (auto simp: masks_def)
  with assms show ?thesis
    by (intro exI [of _ "x XOR g ! i"]) (simp add: map2_update)
qed

lemma masks_client: "masks (Keys_decrypt k ClientToServer) n"
  unfolding masks_def
  by (rule exI [of _ "take n (gamma_stream (kcipher k) (ksync k) n)"])
    (auto simp: Keys_decrypt_def Gamma_stream intro!: nth_equalityI)

lemma masks_header: "masks (Keys_decrypt k dir) 8"
proof (cases dir)
  case ServerToClient
  let ?g = "encryptBlock (kcipher k) (le32 (ksync k)) (le32 (drop 4 (ksync k)))"
  have "Keys_decrypt k dir p = map2 (XOR) p ?g" if "length p = 8" for p
  proof -
    have "p \<noteq> []" using that by auto
    then show ?thesis
      using that by (simp add: ServerToClient Keys_decrypt_def CFBDecrypt_def cfb_decrypt_blocks.simps
          Let_def xorBlock_def)
  qed
  then show ?thesis unfolding masks_def by (intro exI [of _ ?g]) simp
qed (simp add: masks_client)

lemma damaged_header:
  assumes "i < 8" and "x \<noteq> header_of fl t p ! i"
  defines "h \<equiv> (header_of fl t p)[i := x]"
  shows "be16 (h ! 6) (h ! 7) \<noteq> CRC16 (take 6 h)"
proof (cases "i < 6")
  case True
  have "CRC16 ((take 6 (header_of fl t p))[i := x]) \<noteq> CRC16 (take 6 (header_of fl t p))"
    using assms(2) True by (subst CRC16_update) simp_all
  then show ?thesis
    using True header_fields(5) [of fl t p] by (simp add: h_def take_update_swap)
next
  case False
  then have "i = 6 \<or> i = 7" using assms(1) by auto
  moreover have "take 6 h = take 6 (header_of fl t p)" using False by (simp add: h_def)
  ultimately show ?thesis
    using assms(2) header_fields(5) [of fl t p, symmetric] by (auto simp: h_def be16_inj)
qed

lemma Decode_damaged_header:
  assumes "i < 8" and "Encode k dir f = Inr out" and "x \<noteq> out ! i"
  shows "fst (Decode k dir (out[i := x] @ rest)) = Inl ErrHeaderCRC"
proof -
  let ?g = "sent dir f"
  let ?h = "header_of (Flags ?g) (Typ ?g) (Payload ?g)"
  let ?e = "Keys_encrypt k dir ?h"
  have l: "length (Payload f) \<le> MaxPayload"
    using assms(2) by (auto simp: Encode_def split: if_splits)
  then obtain q where out: "out = ?e @ q" using assms(2) by (auto simp: Encode_eq Let_def)
  have e: "length ?e = 8" by (simp add: keys.length_enc)
  have "masks (Keys_decrypt k dir) (length ?e)" unfolding e by (rule masks_header)
  from masks_update [OF this, of i x] assms e obtain y where
    d: "Keys_decrypt k dir (?e[i := x]) = ?h[i := y]" and y: "y \<noteq> ?h ! i"
    by (auto simp: out keys.dec_enc nth_append)
  have r: "ReadFull HeaderSize (out[i := x] @ rest) = (Inr (?e[i := x]), q @ rest)"
    using assms(1) e by (simp add: ReadFull_def HeaderSize_def out list_update_append)
  show ?thesis
    by (simp add: Decode_def r d damaged_header [OF assms(1) y])
qed

lemma Decode_damaged_payload:
  assumes "\<not> i < 8" and "i < length out" and "Encode k dir f = Inr out" and "x \<noteq> out ! i"
    and m: "dir = ClientToServer \<or> Flags f AND FlagPlain \<noteq> 0"
  shows "fst (Decode k dir (out[i := x] @ rest)) = Inl (PayloadCRCError (Flags (sent dir f)) (Typ f))"
proof -
  let ?g = "sent dir f"
  let ?h = "header_of (Flags ?g) (Typ ?g) (Payload ?g)"
  let ?enc = "\<lambda>p. if length p > 0 \<and> Flags ?g AND FlagPlain = 0 then Keys_encrypt k dir p else p"
  let ?dec = "\<lambda>p. if length p > 0 \<and> Flags ?g AND FlagPlain = 0 then Keys_decrypt k dir p else p"
  let ?q = "?enc (Payload ?g)"
  have l: "length (Payload f) \<le> MaxPayload"
    using assms(3) by (auto simp: Encode_def split: if_splits)
  have e: "length (Keys_encrypt k dir ?h) = 8" by (simp add: keys.length_enc)
  have out: "out = Keys_encrypt k dir ?h @ ?q" using l assms(3) by (simp add: Encode_eq Let_def)
  have lq: "length ?q = length (Payload ?g)" by (simp add: keys.length_enc)
  have j: "i - 8 < length ?q" "x \<noteq> ?q ! (i - 8)"
    using assms(1,2,4) e unfolding out by (auto simp: nth_append)
  have "\<exists>y. ?dec (?q[i - 8 := x]) = (?dec ?q)[i - 8 := y] \<and> y \<noteq> ?dec ?q ! (i - 8)"
  proof (cases "Flags ?g AND FlagPlain = 0")
    case True
    with m have "dir = ClientToServer" by (auto simp: sent_def split: if_splits)
    then have "masks (Keys_decrypt k dir) (length ?q)" by (simp add: masks_client)
    from masks_update [OF this j] True j(1) show ?thesis by auto
  qed (use j in auto)
  moreover have "?dec ?q = Payload ?g" by (auto simp: keys.dec_enc keys.length_enc keys.enc_nil)
  ultimately obtain y where d: "?dec (?q[i - 8 := x]) = (Payload ?g)[i - 8 := y]"
    and y: "y \<noteq> Payload ?g ! (i - 8)" by (simp only:) blast
  have r: "ReadFull (length (Payload ?g)) (?q[i - 8 := x] @ rest) = (Inr (?q[i - 8 := x]), rest)"
    using lq by (simp only: ReadFull_def) simp
  have n: "length (Payload ?g) \<le> MaxPayload" using l by (simp add: sent_def)
  have c: "CRC16 (Payload ?g) \<noteq> CRC16 ((Payload ?g)[i - 8 := y])"
    using CRC16_update [of "i - 8" "Payload ?g" y] j(1) lq y by metis
  have u: "out[i := x] @ rest = Keys_encrypt k dir ?h @ (?q[i - 8 := x] @ rest)"
    using assms(1) e unfolding out by (simp add: list_update_append)
  have t: "Typ ?g = Typ f" by (simp add: sent_def)
  have d': "(if length (Payload ?g) > 0 \<and> Flags ?g AND FlagPlain = 0
      then Keys_decrypt k dir (?q[i - 8 := x]) else ?q[i - 8 := x]) = (Payload ?g)[i - 8 := y]"
    using d lq by (metis length_list_update)
  show ?thesis
    unfolding u Decode_header [OF e keys.dec_enc n] r
    by (simp only: sum.case prod.case Let_def d' c t not_False_eq_True if_True fst_conv simp_thms)
qed



end
