(* ===== verification/Decimal.thy ===== *)
theory Decimal
  imports Wire_Codec
begin

text \<open>
  Exact prices: \<open>model.Decimal\<close>, its text form \<open>Decimal.String\<close> (\<open>native/model/decimal.go\<close>)
  and the command-side parser \<open>ParseDecimal\<close> (\<open>native/model/order.go\<close>). Text is a \<open>string\<close>,
  one \<open>char\<close> per byte of the Go string. The parts of \<open>strings\<close> and \<open>strconv\<close> the code calls
  (\<open>FormatUint\<close>, \<open>ParseInt\<close> in base 10, \<open>TrimSpace\<close>, \<open>Cut\<close>) are modelled with it.
\<close>

record Decimal =
  Units :: i64
  Scale :: byte

subsection \<open>\<open>strconv\<close> and \<open>strings\<close>\<close>

definition digit :: "nat \<Rightarrow> char" where
  "digit n = char_of (48 + n)"

definition digit_val :: "char \<Rightarrow> nat option" where
  "digit_val c = (let n = of_char c :: nat in if 48 \<le> n \<and> n \<le> 57 then Some (n - 48) else None)"

fun FormatUint :: "nat \<Rightarrow> string" where
  "FormatUint n = (if n < 10 then [digit n] else FormatUint (n div 10) @ [digit (n mod 10)])"

declare FormatUint.simps [simp del]

definition ErrSyntax :: err where "ErrSyntax = Errorf ''invalid syntax'' []"
definition ErrRange :: err where "ErrRange = Errorf ''value out of range'' []"

text \<open>The digit loop of \<open>ParseUint\<close>: the first bad character or the first overflow ends it.\<close>

fun parse_uint :: "nat \<Rightarrow> string \<Rightarrow> err + nat" where
  "parse_uint n [] = Inr n"
| "parse_uint n (c # cs) =
     (case digit_val c of
        None \<Rightarrow> Inl ErrSyntax
      | Some d \<Rightarrow> if n * 10 + d < 2 ^ 64 then parse_uint (n * 10 + d) cs else Inl ErrRange)"

definition ParseInt :: "string \<Rightarrow> err + i64" where
  "ParseInt s =
     (if s = [] then Inl ErrSyntax
      else
        let neg = (hd s = CHR ''-'');
            s = (if hd s = CHR ''-'' \<or> hd s = CHR ''+'' then tl s else s)
        in if s = [] then Inl ErrSyntax
           else (case parse_uint 0 s of
               Inl e \<Rightarrow> Inl e
             | Inr un \<Rightarrow>
                 if \<not> neg \<and> un \<ge> 2 ^ 63 then Inl ErrRange
                 else if neg \<and> un > 2 ^ 63 then Inl ErrRange
                 else Inr (if neg then - of_nat un else of_nat un)))"

text \<open>The white space of \<open>unicode.IsSpace\<close> in UTF-8.\<close>

definition space_runes :: "nat list list" where
  "space_runes =
     [[9], [10], [11], [12], [13], [32], [0xC2, 0x85], [0xC2, 0xA0], [0xE1, 0x9A, 0x80]]
     @ map (\<lambda>i. [0xE2, 0x80, 0x80 + i]) [0, 1, 2, 3, 4, 5, 6, 7, 8, 9, 10]
     @ [[0xE2, 0x80, 0xA8], [0xE2, 0x80, 0xA9], [0xE2, 0x80, 0xAF], [0xE2, 0x81, 0x9F], [0xE3, 0x80, 0x80]]"

definition drop_rune :: "nat list list \<Rightarrow> string \<Rightarrow> nat" where
  "drop_rune rs s =
     (case List.find (\<lambda>r. map of_char (take (length r) s) = r) rs of None \<Rightarrow> 0 | Some r \<Rightarrow> length r)"

lemma drop_rune_space: "set rs \<subseteq> set space_runes \<union> rev ` set space_runes \<Longrightarrow> drop_rune rs s \<noteq> 0 \<Longrightarrow> s \<noteq> []"
  by (auto simp: drop_rune_def find_Some_iff split: option.splits)

function trim_runes :: "nat list list \<Rightarrow> string \<Rightarrow> string" where
  "trim_runes rs s = (if s = [] \<or> drop_rune rs s = 0 then s else trim_runes rs (drop (drop_rune rs s) s))"
  by pat_completeness auto
termination
  by (relation "measure (\<lambda>(rs, s). length s)") auto

declare trim_runes.simps [simp del]

definition TrimSpace :: "string \<Rightarrow> string" where
  "TrimSpace s = rev (trim_runes (map rev space_runes) (rev (trim_runes space_runes s)))"

definition Cut_dot :: "string \<Rightarrow> string \<times> string" where
  "Cut_dot s = (takeWhile (\<lambda>c. c \<noteq> CHR ''.'') s, drop 1 (dropWhile (\<lambda>c. c \<noteq> CHR ''.'') s))"

definition TrimRight0 :: "string \<Rightarrow> string" where
  "TrimRight0 s = rev (dropWhile (\<lambda>c. c = CHR ''0'') (rev s))"

subsection \<open>String and ParseDecimal\<close>

definition Decimal_String :: "Decimal \<Rightarrow> string" where
  "Decimal_String d =
     (let neg = sint (Units d) < 0;
          u = (if neg then - Units d else Units d);
          digits = FormatUint (unat u);
          digits =
            (if unat (Scale d) > 0
             then
               let decimals = unat (Scale d);
                   digits = (if length digits \<le> decimals
                             then replicate (decimals - length digits + 1) CHR ''0'' @ digits else digits);
                   whole = take (length digits - decimals) digits;
                   frac = TrimRight0 (drop (length digits - decimals) digits);
                   frac = (if frac = [] then ''0'' else frac)
               in whole @ ''.'' @ frac
             else digits)
      in if neg then ''-'' @ digits else digits)"

definition ParseDecimal :: "string \<Rightarrow> err + Decimal" where
  "ParseDecimal text =
     (let text = TrimSpace text in
      if text = [] then Inl (Errorf ''empty decimal'' [])
      else
        let neg = (hd text = CHR ''-'');
            text = (if neg then tl text else text);
            (whole, frac) = Cut_dot text;
            whole = (if whole = [] then ''0'' else whole)
        in (case ParseInt (whole @ frac) of
              Inl e \<Rightarrow> Inl (Wrap ''decimal'' e)
            | Inr units \<Rightarrow>
                Inr \<lparr>Units = (if neg then - units else units), Scale = of_nat (length frac)\<rparr>))"

subsection \<open>Digits\<close>

definition digits_only :: "string \<Rightarrow> bool" where
  "digits_only s \<longleftrightarrow> (\<forall>c \<in> set s. \<exists>d < 10. c = digit d)"

definition dec_value :: "string \<Rightarrow> nat" where
  "dec_value s = foldl (\<lambda>n c. n * 10 + (of_char c - 48)) 0 s"

lemma of_char_digit [simp]: "d < 10 \<Longrightarrow> (of_char (digit d) :: nat) = 48 + d"
  by (simp add: digit_def)

lemma digit_val_digit [simp]: "d < 10 \<Longrightarrow> digit_val (digit d) = Some d"
  by (simp add: digit_val_def)

lemma dec_value_Nil [simp]: "dec_value [] = 0"
  by (simp add: dec_value_def)

lemma dec_value_snoc: "dec_value (s @ [c]) = dec_value s * 10 + (of_char c - 48)"
  by (simp add: dec_value_def)

lemma dec_value_append: "dec_value (s @ t) = dec_value s * 10 ^ length t + dec_value t"
proof (induction t rule: rev_induct)
  case (snoc c t)
  have "dec_value (s @ t @ [c]) = dec_value (s @ t) * 10 + (of_char c - 48)"
    using dec_value_snoc [of "s @ t" c] by simp
  with snoc show ?case by (simp add: dec_value_snoc distrib_right mult.assoc)
qed simp

lemma dec_value_digit: "d < 10 \<Longrightarrow> dec_value [digit d] = d"
  by (simp add: dec_value_def)

lemma zero_digit: "CHR ''0'' = digit 0"
  unfolding digit_def by code_simp

lemma dec_value_zeros: "dec_value (replicate k CHR ''0'') = 0"
proof (induction k)
  case (Suc k)
  then show ?case
    using dec_value_append [of "[CHR ''0'']" "replicate k CHR ''0''"]
    by (simp add: zero_digit dec_value_digit)
qed simp

lemma digits_only_simps [simp]:
  "digits_only []" "digits_only (s @ t) \<longleftrightarrow> digits_only s \<and> digits_only t"
  "digits_only (c # s) \<longleftrightarrow> (\<exists>d < 10. c = digit d) \<and> digits_only s"
  "digits_only (rev s) \<longleftrightarrow> digits_only s"
  by (auto simp: digits_only_def)

lemma digits_only_zeros [simp]: "digits_only (replicate k CHR ''0'')"
proof -
  have "\<exists>d < 10. CHR ''0'' = digit d" by (metis zero_digit zero_less_numeral)
  then show ?thesis by (simp add: digits_only_def)
qed

lemma FormatUint_props: "digits_only (FormatUint n) \<and> FormatUint n \<noteq> [] \<and> dec_value (FormatUint n) = n"
proof (induction n rule: FormatUint.induct)
  case (1 n)
  show ?case
  proof (cases "n < 10")
    case True
    then show ?thesis by (subst (1 2 3) FormatUint.simps) (auto simp: dec_value_digit)
  next
    case False
    then have e: "FormatUint n = FormatUint (n div 10) @ [digit (n mod 10)]"
      by (subst FormatUint.simps) simp
    show ?thesis using 1 False unfolding e
      by (auto simp: dec_value_append dec_value_digit intro!: exI [of _ "n mod 10"])
  qed
qed

lemma parse_uint_value:
  "digits_only s \<Longrightarrow> n * 10 ^ length s + dec_value s < 2 ^ 64 \<Longrightarrow>
    parse_uint n s = Inr (n * 10 ^ length s + dec_value s)"
proof (induction s arbitrary: n)
  case (Cons c s)
  then obtain d where d: "d < 10" "c = digit d" by auto
  have v: "n * 10 ^ length (c # s) + dec_value (c # s) = (n * 10 + d) * 10 ^ length s + dec_value s"
    using d dec_value_append [of "[c]" s] by (simp add: dec_value_digit algebra_simps)
  have "n * 10 + d \<le> (n * 10 + d) * 10 ^ length s" by simp
  then have "n * 10 + d < 2 ^ 64" using Cons.prems(2) unfolding v by linarith
  with Cons v d show ?case by simp
qed simp

lemma parse_uint_too_big:
  "digits_only s \<Longrightarrow> n < 2 ^ 64 \<Longrightarrow> n * 10 ^ length s + dec_value s \<ge> 2 ^ 64 \<Longrightarrow> parse_uint n s = Inl ErrRange"
proof (induction s arbitrary: n)
  case (Cons c s)
  then obtain d where d: "d < 10" "c = digit d" by auto
  have v: "n * 10 ^ length (c # s) + dec_value (c # s) = (n * 10 + d) * 10 ^ length s + dec_value s"
    using d dec_value_append [of "[c]" s] by (simp add: dec_value_digit algebra_simps)
  with Cons d show ?case by simp
qed simp

lemma TrimRight0_decomp: "\<exists>k. s = TrimRight0 s @ replicate k CHR ''0''"
proof -
  have "\<forall>c \<in> set (takeWhile (\<lambda>c. c = CHR ''0'') (rev s)). c = CHR ''0''"
    by (auto dest: set_takeWhileD)
  then have "takeWhile (\<lambda>c. c = CHR ''0'') (rev s) = replicate (length (takeWhile (\<lambda>c. c = CHR ''0'') (rev s))) CHR ''0''"
    by (metis replicate_length_same)
  then have "rev s = replicate (length (takeWhile (\<lambda>c. c = CHR ''0'') (rev s))) CHR ''0''
      @ dropWhile (\<lambda>c. c = CHR ''0'') (rev s)"
    by (metis takeWhile_dropWhile_id)
  then have "s = TrimRight0 s @ rev (replicate (length (takeWhile (\<lambda>c. c = CHR ''0'') (rev s))) CHR ''0'')"
    unfolding TrimRight0_def by (metis rev_append rev_rev_ident)
  then show ?thesis by (metis rev_replicate)
qed
subsection \<open>What String prints, ParseDecimal reads\<close>

lemma drop_rune_none:
  assumes "s \<noteq> []" and "\<forall>r \<in> set rs. r \<noteq> [] \<and> hd r \<noteq> of_char (hd s)"
  shows "drop_rune rs s = 0"
proof -
  have "List.find (\<lambda>r. map of_char (take (length r) s) = r) rs = None"
    using assms by (fastforce simp: find_None_iff neq_Nil_conv)
  then show ?thesis by (simp add: drop_rune_def)
qed

definition plain_char :: "char \<Rightarrow> bool" where
  "plain_char c \<longleftrightarrow> 45 \<le> (of_char c :: nat) \<and> (of_char c :: nat) \<le> 57"

lemma trim_runes_none:
  assumes "s \<noteq> []" "plain_char (hd s)" "rs = space_runes \<or> rs = map rev space_runes"
  shows "trim_runes rs s = s"
proof -
  have "\<forall>r \<in> set rs. r \<noteq> [] \<and> (hd r < 45 \<or> hd r > 57)"
    using assms(3) by (auto simp: space_runes_def)
  then have "drop_rune rs s = 0"
    using assms by (intro drop_rune_none) (auto simp: plain_char_def)
  then show ?thesis by (simp add: trim_runes.simps)
qed

lemma TrimSpace_plain: "s \<noteq> [] \<Longrightarrow> plain_char (hd s) \<Longrightarrow> plain_char (last s) \<Longrightarrow> TrimSpace s = s"
  by (simp add: TrimSpace_def trim_runes_none hd_rev)

lemma plain_digit [simp]: "d < 10 \<Longrightarrow> plain_char (digit d)"
  by (simp add: plain_char_def)

lemma plain_minus [simp]: "plain_char CHR ''-''"
  by (simp add: plain_char_def)

lemma digit_neq [simp]: "d < 10 \<Longrightarrow> digit d \<noteq> CHR ''.''" "d < 10 \<Longrightarrow> digit d \<noteq> CHR ''-''" "d < 10 \<Longrightarrow> digit d \<noteq> CHR ''+''"
proof -
  have "d < 10 \<Longrightarrow> digit d = c \<Longrightarrow> (of_char c :: nat) = 48 + d" for c by auto
  from this [of "CHR ''.''"] this [of "CHR ''-''"] this [of "CHR ''+''"]
  show "d < 10 \<Longrightarrow> digit d \<noteq> CHR ''.''" "d < 10 \<Longrightarrow> digit d \<noteq> CHR ''-''"
    "d < 10 \<Longrightarrow> digit d \<noteq> CHR ''+''" by auto
qed

lemma digits_no_dot: "digits_only w \<Longrightarrow> \<forall>c \<in> set w. c \<noteq> CHR ''.''"
  using digit_neq(1) by (metis digits_only_def)

lemma digits_hd_last: "digits_only s \<Longrightarrow> s \<noteq> [] \<Longrightarrow> (\<exists>d < 10. hd s = digit d) \<and> (\<exists>d < 10. last s = digit d)"
  by (auto simp: digits_only_def)

text \<open>The printed form: sign, whole digits, and with a scale a point and at least one digit.\<close>

lemma ParseInt_digits:
  assumes "digits_only s" and "s \<noteq> []"
  shows "ParseInt s = (if dec_value s < 2 ^ 63 then Inr (of_nat (dec_value s)) else Inl ErrRange)"
proof -
  obtain d where "d < 10" "hd s = digit d" using digits_hd_last [OF assms] by blast
  then have "hd s \<noteq> CHR ''-''" "hd s \<noteq> CHR ''+''" by auto
  then show ?thesis
    using parse_uint_value [OF assms(1), of 0] parse_uint_too_big [OF assms(1), of 0] assms(2)
    by (cases "dec_value s < 2 ^ 64") (auto simp: ParseInt_def Let_def)
qed

lemma Cut_dot_whole: "digits_only w \<Longrightarrow> Cut_dot w = (w, [])"
  using digits_no_dot [of w] by (simp add: Cut_dot_def dropWhile_eq_Nil_conv [THEN iffD2])

lemma Cut_dot_frac: "digits_only w \<Longrightarrow> Cut_dot (w @ ''.'' @ f) = (w, f)"
  using digits_no_dot [of w] by (simp add: Cut_dot_def takeWhile_append_stop)

definition unsigned_text :: "nat \<Rightarrow> string \<Rightarrow> string \<Rightarrow> string" where
  "unsigned_text u w f = (if f = [] then w else w @ ''.'' @ f)"

lemma ParseDecimal_text:
  assumes w: "digits_only w" "w \<noteq> []" and f: "digits_only f"
  shows "ParseDecimal ((if neg then ''-'' else '''') @ unsigned_text u w f) =
    (if dec_value (w @ f) < 2 ^ 63
     then Inr \<lparr>Units = (if neg then - of_nat (dec_value (w @ f)) else of_nat (dec_value (w @ f))),
               Scale = of_nat (length f)\<rparr>
     else Inl (Wrap ''decimal'' ErrRange))"
proof -
  let ?t = "unsigned_text u w f"
  obtain d where d: "d < 10" "hd ?t = digit d" using digits_hd_last [OF w] w by (auto simp: unsigned_text_def)
  obtain e where e: "e < 10" "last ?t = digit e"
    using digits_hd_last [OF w] digits_hd_last [OF f] by (cases "f = []") (auto simp: unsigned_text_def)
  have ne: "?t \<noteq> []" using w by (simp add: unsigned_text_def)
  have trim: "TrimSpace (CHR ''-'' # ?t) = CHR ''-'' # ?t" "TrimSpace ?t = ?t"
    using d e ne by (auto intro!: TrimSpace_plain)
  have cut: "Cut_dot ?t = (w, f)"
    using w f by (simp add: unsigned_text_def Cut_dot_whole Cut_dot_frac [simplified])
  have p: "ParseInt (w @ f) = (if dec_value (w @ f) < 2 ^ 63 then Inr (of_nat (dec_value (w @ f))) else Inl ErrRange)"
    using w f by (intro ParseInt_digits) auto
  have h: "hd ?t \<noteq> CHR ''-''" using d by simp
  show ?thesis
    using ne h w(2) by (cases neg) (simp_all add: ParseDecimal_def trim cut p)
qed

lemma Decimal_String_form:
  fixes d
  defines "u \<equiv> unat (if sint (Units d) < 0 then - Units d else Units d)"
  shows "\<exists>w f. Decimal_String d = (if sint (Units d) < 0 then ''-'' else '''') @ unsigned_text u w f
    \<and> digits_only w \<and> w \<noteq> [] \<and> digits_only f \<and> length f \<le> unat (Scale d)
    \<and> dec_value (w @ f) * 10 ^ (unat (Scale d) - length f) = u"
proof (cases "unat (Scale d) = 0")
  case True
  then show ?thesis
    using FormatUint_props [of u]
    by (intro exI [of _ "FormatUint u"] exI [of _ "[]"])
      (auto simp: Decimal_String_def u_def unsigned_text_def Let_def)
next
  case False
  define n where "n = unat (Scale d)"
  define k where "k = (if length (FormatUint u) \<le> n then n - length (FormatUint u) + 1 else 0)"
  define s where "s = replicate k CHR ''0'' @ FormatUint u"
  have s: "digits_only s" "n < length s" "dec_value s = u"
    using FormatUint_props [of u] by (auto simp: s_def k_def dec_value_append dec_value_zeros)
  define w where "w = take (length s - n) s"
  define g where "g = drop (length s - n) s"
  have wg: "s = w @ g" "length g = n" "w \<noteq> []" using s by (auto simp: w_def g_def)
  obtain z where z: "g = TrimRight0 g @ replicate z CHR ''0''" using TrimRight0_decomp by blast
  define f where "f = (if TrimRight0 g = [] then ''0'' else TrimRight0 g)"
  have lz: "n = length (TrimRight0 g) + z" using z wg(2) by (metis length_append length_replicate)
  have dg: "digits_only w" "digits_only (TrimRight0 g)"
    using s(1) wg(1) z by (metis digits_only_simps(2))+
  have "\<exists>d < 10. CHR ''0'' = digit d" by (metis zero_digit zero_less_numeral)
  with dg have f1: "digits_only f" by (simp add: f_def)
  have "0 < n" using False by (simp add: n_def)
  with lz have f: "f \<noteq> []" "length f \<le> n" by (auto simp: f_def)
  have "dec_value (w @ f) * 10 ^ (n - length f) = u"
  proof (cases "TrimRight0 g = []")
    case True
    then have "dec_value s = dec_value w * 10 ^ n"
      using z wg lz by (simp add: dec_value_append dec_value_zeros)
    moreover have "n = Suc (n - 1)" using False by (simp add: n_def)
    ultimately show ?thesis
      using True s(3) zero_digit
      by (simp add: f_def dec_value_append dec_value_digit) (metis mult.assoc power_Suc)
  next
    case False
    have "dec_value s = dec_value (w @ TrimRight0 g) * 10 ^ z"
      using z wg(1) by (metis append_assoc dec_value_append dec_value_zeros add.right_neutral length_replicate)
    with False s(3) lz show ?thesis by (simp add: f_def)
  qed
  moreover have "Decimal_String d = (if sint (Units d) < 0 then ''-'' else '''') @ unsigned_text u w f"
  proof -
    have "(if length (FormatUint u) \<le> n
        then replicate (n - length (FormatUint u) + 1) CHR ''0'' @ FormatUint u else FormatUint u) = s"
      by (simp add: s_def k_def)
    then show ?thesis
      using \<open>0 < n\<close> f(1)
      by (simp only: Decimal_String_def Let_def u_def [symmetric] n_def [symmetric] w_def [symmetric]
        g_def [symmetric] f_def [symmetric] if_True unsigned_text_def if_False)
        simp
  qed
  ultimately show ?thesis using dg f f1 wg by (auto simp: n_def)
qed

lemma abs_units:
  fixes x :: i64
  shows "unat (if sint x < 0 then - x else x) = nat \<bar>sint x\<bar>"
proof -
  have r: "- (2 ^ 63) \<le> sint x" "sint x < 2 ^ 63"
    using sint_range_size [of x] by (simp_all add: word_size)
  have u: "uint x = sint x mod 2 ^ 64" "uint (- x) = (- sint x) mod 2 ^ 64"
    by (rule uint_i64, rule uint_neg_i64)
  show ?thesis
  proof (cases "sint x < 0")
    case True
    then have "uint (- x) = - sint x" using r u by simp
    with True show ?thesis by (simp add: unat_eq_nat_uint)
  next
    case False
    then have "uint x = sint x" using r u by simp
    with False show ?thesis by (simp add: unat_eq_nat_uint)
  qed
qed

lemma sint_of_nat_small: "n < 2 ^ 63 \<Longrightarrow> sint (of_nat n :: i64) = int n \<and> sint (- of_nat n :: i64) = - int n"
proof -
  assume n: "n < 2 ^ 63"
  have "(of_nat n :: i64) = of_int (int n)" "(- of_nat n :: i64) = of_int (- int n)" by simp_all
  then show ?thesis
    using n by (simp only: signed_of_int) (simp add: signed_take_bit_int_eq_self)
qed

text \<open>C4: parsing what \<open>String\<close> prints gives the same number (only trailing zeros of the
  fraction are dropped, so the scale never grows), for every value and scale; the one
  exception is the smallest 64-bit \<open>Units\<close>, whose printed form \<open>ParseDecimal\<close> rejects.\<close>

theorem Decimal_text_roundtrip:
  "case ParseDecimal (Decimal_String d) of
     Inl e \<Rightarrow> sint (Units d) = - (2 ^ 63)
   | Inr d' \<Rightarrow> sint (Units d) \<noteq> - (2 ^ 63) \<and> Scale d' \<le> Scale d
       \<and> sint (Units d') * 10 ^ (unat (Scale d) - unat (Scale d')) = sint (Units d)"
proof -
  let ?neg = "sint (Units d) < 0"
  obtain w f where s: "Decimal_String d = (if ?neg then ''-'' else '''') @ unsigned_text (nat \<bar>sint (Units d)\<bar>) w f"
    and w: "digits_only w" "w \<noteq> []" "digits_only f" and l: "length f \<le> unat (Scale d)"
    and v: "dec_value (w @ f) * 10 ^ (unat (Scale d) - length f) = nat \<bar>sint (Units d)\<bar>"
    using Decimal_String_form [of d] by (auto simp: abs_units unsigned_text_def)
  have sc: "unat (of_nat (length f) :: byte) = length f"
    using l unat_byte_less [of "Scale d"] by (intro unat_of_nat_eq_small) simp
  have r: "- (2 ^ 63) \<le> sint (Units d)" "sint (Units d) < 2 ^ 63"
    using sint_range_size [of "Units d"] by (simp_all add: word_size)
  show ?thesis
  proof (cases "dec_value (w @ f) < 2 ^ 63")
    case True
    have m: "int (dec_value (w @ f)) * 10 ^ (unat (Scale d) - length f) = \<bar>sint (Units d)\<bar>"
      using arg_cong [OF v, of int] by simp
    have "sint (Units d) \<noteq> - (2 ^ 63)"
    proof
      assume "sint (Units d) = - (2 ^ 63)"
      then have v': "dec_value (w @ f) * 10 ^ (unat (Scale d) - length f) = 2 ^ 63" using v by simp
      show False
      proof (cases "unat (Scale d) - length f")
        case (Suc k)
        then have "10 dvd (2 ^ 63 :: nat)" unfolding v' [symmetric] by simp
        then show False by simp
      qed (use v' True in simp)
    qed
    with True l m sint_of_nat_small [OF True] show ?thesis
      unfolding s ParseDecimal_text [OF w]
      by (auto simp: sc word_le_nat_alt)
  next
    case False
    have "dec_value (w @ f) \<le> nat \<bar>sint (Units d)\<bar>" unfolding v [symmetric] by simp
    with False have "2 ^ 63 \<le> nat \<bar>sint (Units d)\<bar>" by simp
    then have "2 ^ 63 \<le> \<bar>sint (Units d)\<bar>" by simp
    with r have "sint (Units d) = - (2 ^ 63)" by linarith
    with False show ?thesis unfolding s ParseDecimal_text [OF w] by simp
  qed
qed

end
