(* ===== verification/Sticky_Reader.thy ===== *)
theory Sticky_Reader
  imports Field_Reader "HOL-Library.State_Monad"
begin

text \<open>
  The \<open>reader\<close> of \<open>native/records/startup.go\<close>: a \<open>wire.Reader\<close> with an error that sticks.
  After the first failed read all later reads return zero values and leave the position
  alone, and the decoder looks at \<open>r.err\<close> once at its end. Decoders are state computations
  over it; the locale \<open>sticky_refines\<close> states that such a decoder does what the same reads
  with an early return after each of them do.

  \<open>golang.org/x/text/encoding/charmap\<close> is a parameter \<open>win\<close>: the Windows-1251 decoder, \<open>None\<close>
  for an error.
\<close>

definition cp1251 :: "(bytes \<Rightarrow> bytes option) \<Rightarrow> bytes \<Rightarrow> bytes" where
  "cp1251 win s = (case win s of None \<Rightarrow> s | Some out \<Rightarrow> out)"

definition DecodeCP1251 :: "(bytes \<Rightarrow> bytes option) \<Rightarrow> bytes \<Rightarrow> bytes" where
  "DecodeCP1251 win s = cp1251 win s"

record reader =
  rd :: Reader
  rerr :: "err option"

type_synonym 'a sr = "(reader, 'a) state"

definition new_reader :: "bytes \<Rightarrow> reader" where
  "new_reader body = \<lparr>rd = NewReader body, rerr = None\<rparr>"

text \<open>\<open>if r.err != nil { return z }; v, r.err = r.Op(); return v\<close>, where a failed \<open>Op\<close> returns \<open>z'\<close>.\<close>

definition sticky :: "'a \<Rightarrow> 'a \<Rightarrow> 'a rd \<Rightarrow> 'a sr" where
  "sticky z z' op = State (\<lambda>r.
     case rerr r of
       Some e \<Rightarrow> (z, r)
     | None \<Rightarrow>
         (case op (rd r) of
            (Inl e, r') \<Rightarrow> (z', \<lparr>rd = r', rerr = Some e\<rparr>)
          | (Inr v, r') \<Rightarrow> (v, \<lparr>rd = r', rerr = None\<rparr>)))"

definition r_byte :: "byte sr" where "r_byte = sticky 0 0 Reader_Byte"
definition r_word :: "u16 sr" where "r_word = sticky 0 0 Reader_Uint16"
definition r_int32 :: "i32 sr" where "r_int32 = sticky 0 0 Reader_Int32"
definition r_int64 :: "i64 sr" where "r_int64 = sticky 0 0 Reader_Int64"

definition rmap :: "('a \<Rightarrow> 'b) \<Rightarrow> 'a rd \<Rightarrow> 'b rd" where
  "rmap f p = rbind p (\<lambda>v. ret (f v))"

text \<open>\<open>raw\<close> returns \<open>nil\<close> (\<open>None\<close>) after an error.\<close>

definition r_raw :: "int \<Rightarrow> bytes option sr" where
  "r_raw n = sticky None None (rmap Some (Reader_Raw n))"

definition r_str :: "(bytes \<Rightarrow> bytes option) \<Rightarrow> nat \<Rightarrow> bytes sr" where
  "r_str win n = sticky [] (cp1251 win []) (rmap (cp1251 win) (Reader_String n))"

text \<open>\<open>r.err == nil\<close>, \<open>r.Len()\<close>, and a block guarded by \<open>r.err == nil && r.Len() > 0\<close>.\<close>

definition r_ok :: "bool sr" where
  "r_ok = State (\<lambda>r. (rerr r = None, r))"

definition r_len :: "nat sr" where
  "r_len = State (\<lambda>r. (Reader_Len (rd r), r))"

definition if_left :: "'a \<Rightarrow> 'a sr \<Rightarrow> 'a sr" where
  "if_left d m = do { ok \<leftarrow> r_ok; n \<leftarrow> r_len; if ok \<and> 0 < n then m else State_Monad.return d }"

definition s_when :: "bool \<Rightarrow> 'a \<Rightarrow> 'a sr \<Rightarrow> 'a sr" where
  "s_when c d m = (if c then m else State_Monad.return d)"

primrec s_times :: "nat \<Rightarrow> 'a sr \<Rightarrow> 'a list sr" where
  "s_times 0 m = State_Monad.return []"
| "s_times (Suc n) m = do { x \<leftarrow> m; xs \<leftarrow> s_times n m; State_Monad.return (x # xs) }"

text \<open>
  \<open>for k := key(); r.err == nil && k != stop; k = key() { append(item(k)) }\<close>. A round that
  continues has read at least the key, so one more round than there are unread bytes is
  enough fuel (\<open>s_section_fuel\<close>).
\<close>

primrec s_section_n :: "nat \<Rightarrow> 'k sr \<Rightarrow> 'k \<Rightarrow> ('k \<Rightarrow> 'a sr) \<Rightarrow> 'a list sr" where
  "s_section_n 0 key stop item = State_Monad.return []"
| "s_section_n (Suc n) key stop item =
     do { k \<leftarrow> key;
          ok \<leftarrow> r_ok;
          if ok \<and> k \<noteq> stop
          then do { x \<leftarrow> item k; xs \<leftarrow> s_section_n n key stop item; State_Monad.return (x # xs) }
          else State_Monad.return [] }"

definition s_section :: "'k sr \<Rightarrow> 'k \<Rightarrow> ('k \<Rightarrow> 'a sr) \<Rightarrow> 'a list sr" where
  "s_section key stop item = do { n \<leftarrow> r_len; s_section_n (Suc n) key stop item }"

text \<open>The final check \<open>if r.err != nil { return fmt.Errorf("s: %w", r.err) }\<close>.\<close>

definition run_sticky :: "string \<Rightarrow> 'a sr \<Rightarrow> bytes \<Rightarrow> err + 'a" where
  "run_sticky s m body =
     (case run_state m (new_reader body) of
        (v, r) \<Rightarrow> (case rerr r of Some e \<Rightarrow> Inl (Wrap s e) | None \<Rightarrow> Inr v))"

subsection \<open>The contract: a sticky decoder is the decoder with early returns\<close>

locale sticky_refines =
  fixes m :: "'a sr" and p :: "'a rd"
  assumes stuck: "\<exists>a. run_state m \<lparr>rd = r, rerr = Some e\<rparr> = (a, \<lparr>rd = r, rerr = Some e\<rparr>)"
    and success: "valid r \<Longrightarrow> p r = (Inr a, r') \<Longrightarrow>
      run_state m \<lparr>rd = r, rerr = None\<rparr> = (a, \<lparr>rd = r', rerr = None\<rparr>)"
    and failure: "valid r \<Longrightarrow> p r = (Inl e, r') \<Longrightarrow>
      \<exists>a. run_state m \<lparr>rd = r, rerr = None\<rparr> = (a, \<lparr>rd = r', rerr = Some e\<rparr>)"
    and keeps_valid: "valid r \<Longrightarrow> p r = (x, r') \<Longrightarrow> valid r' \<and> Reader_Len r' \<le> Reader_Len r"
begin

lemma run_sticky_decode:
  "run_sticky s m body = (case decode_body p body of Inl e \<Rightarrow> Inl (Wrap s e) | Inr v \<Rightarrow> Inr v)"
proof (cases "p (NewReader body)")
  case (Pair x r')
  show ?thesis
  proof (cases x)
    case (Inl e)
    with Pair failure [of "NewReader body" e r'] show ?thesis
      by (auto simp: run_sticky_def new_reader_def decode_body_def)
  next
    case (Inr v)
    with Pair success [of "NewReader body" v r'] show ?thesis
      by (simp add: run_sticky_def new_reader_def decode_body_def)
  qed
qed

end

named_theorems sticky_intro

lemma reader_shrinks:
  "buffer_reader p \<Longrightarrow> valid r \<Longrightarrow> p r = (x, r') \<Longrightarrow> valid r' \<and> Reader_Len r' \<le> Reader_Len r"
  using buffer_reader.keeps [of p r x r'] by (auto simp: Reader_Len_def)

lemma sticky_refines_op:
  "buffer_reader op \<Longrightarrow> sticky_refines (sticky z z' op) op"
  by unfold_locales (auto simp: sticky_def dest: reader_shrinks)

lemma sticky_refines_return [sticky_intro]: "sticky_refines (State_Monad.return v) (ret v)"
  by unfold_locales (auto simp: ret_def)

lemma sticky_refines_bind [sticky_intro]:
  assumes "sticky_refines m p" and "\<And>a. sticky_refines (f a) (g a)"
  shows "sticky_refines (State_Monad.bind m f) (rbind p g)"
proof
  fix r e
  show "\<exists>a. run_state (State_Monad.bind m f) \<lparr>rd = r, rerr = Some e\<rparr> = (a, \<lparr>rd = r, rerr = Some e\<rparr>)"
    using sticky_refines.stuck [OF assms(1), of r e] sticky_refines.stuck [OF assms(2), of _ r e]
    by (fastforce simp: split: prod.splits)
next
  fix r a r'
  assume v: "valid r" and "rbind p g r = (Inr a, r')"
  then obtain b r1 where p: "p r = (Inr b, r1)" and q: "g b r1 = (Inr a, r')"
    by (auto simp: rbind_def split: prod.splits sum.splits)
  have "valid r1" using sticky_refines.keeps_valid [OF assms(1) v p] by simp
  from sticky_refines.success [OF assms(1) v p] sticky_refines.success [OF assms(2) this q]
  show "run_state (State_Monad.bind m f) \<lparr>rd = r, rerr = None\<rparr> = (a, \<lparr>rd = r', rerr = None\<rparr>)"
    by simp
next
  fix r e r'
  assume v: "valid r" and q: "rbind p g r = (Inl e, r')"
  obtain x r1 where p: "p r = (x, r1)" by fastforce
  have v1: "valid r1" using sticky_refines.keeps_valid [OF assms(1) v p] by simp
  show "\<exists>a. run_state (State_Monad.bind m f) \<lparr>rd = r, rerr = None\<rparr> = (a, \<lparr>rd = r', rerr = Some e\<rparr>)"
  proof (cases x)
    case (Inl e')
    with p q have "e' = e" "r1 = r'" by (auto simp: rbind_def)
    with sticky_refines.failure [OF assms(1) v p [unfolded Inl]] sticky_refines.stuck [OF assms(2), of _ r' e]
    show ?thesis by fastforce
  next
    case (Inr b)
    with p q have "g b r1 = (Inl e, r')" by (auto simp: rbind_def)
    from sticky_refines.success [OF assms(1) v p [unfolded Inr]] sticky_refines.failure [OF assms(2) v1 this]
    show ?thesis by simp
  qed
next
  fix r x r'
  assume v: "valid r" and q: "rbind p g r = (x, r')"
  obtain y r1 where p: "p r = (y, r1)" by fastforce
  have k: "valid r1 \<and> Reader_Len r1 \<le> Reader_Len r" using sticky_refines.keeps_valid [OF assms(1) v p] .
  then show "valid r' \<and> Reader_Len r' \<le> Reader_Len r"
    using p q sticky_refines.keeps_valid [OF assms(2), of r1]
    by (cases y) (fastforce simp: rbind_def)+
qed

lemma sticky_refines_if [sticky_intro]:
  "sticky_refines m p \<Longrightarrow> sticky_refines n q \<Longrightarrow> sticky_refines (if c then m else n) (if c then p else q)"
  by simp

lemma sticky_refines_when [sticky_intro]:
  "sticky_refines m p \<Longrightarrow> sticky_refines (s_when c d m) (rwhen c d p)"
  by (simp add: s_when_def rwhen_def sticky_refines_return)

text \<open>The optional block: read while bytes are left.\<close>

definition if_more :: "'a \<Rightarrow> 'a rd \<Rightarrow> 'a rd" where
  "if_more d p r = (if 0 < Reader_Len r then p r else (Inr d, r))"

lemma sticky_refines_if_left [sticky_intro]:
  assumes "sticky_refines m p"
  shows "sticky_refines (if_left d m) (if_more d p)"
proof
  fix r e
  show "\<exists>a. run_state (if_left d m) \<lparr>rd = r, rerr = Some e\<rparr> = (a, \<lparr>rd = r, rerr = Some e\<rparr>)"
    by (simp add: if_left_def r_ok_def r_len_def)
next
  fix r a r'
  assume "valid r" "if_more d p r = (Inr a, r')"
  then show "run_state (if_left d m) \<lparr>rd = r, rerr = None\<rparr> = (a, \<lparr>rd = r', rerr = None\<rparr>)"
    using sticky_refines.success [OF assms, of r a r']
    by (auto simp: if_left_def r_ok_def r_len_def if_more_def split: if_splits)
next
  fix r e r'
  assume "valid r" "if_more d p r = (Inl e, r')"
  then show "\<exists>a. run_state (if_left d m) \<lparr>rd = r, rerr = None\<rparr> = (a, \<lparr>rd = r', rerr = Some e\<rparr>)"
    using sticky_refines.failure [OF assms, of r e r']
    by (auto simp: if_left_def r_ok_def r_len_def if_more_def split: if_splits)
next
  fix r x r'
  assume "valid r" "if_more d p r = (x, r')"
  then show "valid r' \<and> Reader_Len r' \<le> Reader_Len r"
    using sticky_refines.keeps_valid [OF assms, of r x r'] by (auto simp: if_more_def split: if_splits)
qed

lemma sticky_refines_times [sticky_intro]:
  "sticky_refines m p \<Longrightarrow> sticky_refines (s_times n m) (rtimes n p)"
  by (induction n) (auto intro!: sticky_intro)

lemma buffer_reader_rmap: "wire_reader p \<Longrightarrow> buffer_reader (rmap f p)"
  by (auto simp: rmap_def intro!: wire_reader_buffer wire_local)

lemma sticky_refines_ops [sticky_intro]:
  "sticky_refines r_byte Reader_Byte" "sticky_refines r_word Reader_Uint16"
  "sticky_refines r_int32 Reader_Int32" "sticky_refines r_int64 Reader_Int64"
  "sticky_refines (r_raw k) (rmap Some (Reader_Raw k))"
  "sticky_refines (r_str win n) (rmap (cp1251 win) (Reader_String n))"
  unfolding r_byte_def r_word_def r_int32_def r_int64_def r_raw_def r_str_def
  by (intro sticky_refines_op wire_reader_buffer buffer_reader_rmap wire_local)+

subsection \<open>Sections that end at a terminator\<close>

primrec section_n :: "nat \<Rightarrow> 'k rd \<Rightarrow> 'k \<Rightarrow> ('k \<Rightarrow> 'a rd) \<Rightarrow> 'a list rd" where
  "section_n 0 key stop item = fail OutOfFuel"
| "section_n (Suc n) key stop item =
     rbind key (\<lambda>k. if k = stop then ret []
       else rbind (item k) (\<lambda>x. rbind (section_n n key stop item) (\<lambda>xs. ret (x # xs))))"

definition section_rd :: "'k rd \<Rightarrow> 'k \<Rightarrow> ('k \<Rightarrow> 'a rd) \<Rightarrow> 'a list rd" where
  "section_rd key stop item r = section_n (Suc (Reader_Len r)) key stop item r"

definition sim_at :: "'a sr \<Rightarrow> 'a rd \<Rightarrow> Reader \<Rightarrow> bool" where
  "sim_at m p r \<longleftrightarrow>
     (case p r of (x, r') \<Rightarrow> valid r' \<and> Reader_Len r' \<le> Reader_Len r
        \<and> (case x of Inr a \<Rightarrow> run_state m \<lparr>rd = r, rerr = None\<rparr> = (a, \<lparr>rd = r', rerr = None\<rparr>)
           | Inl e \<Rightarrow> (\<exists>a. run_state m \<lparr>rd = r, rerr = None\<rparr> = (a, \<lparr>rd = r', rerr = Some e\<rparr>))))"

definition stuck_on_error :: "'a sr \<Rightarrow> bool" where
  "stuck_on_error m \<longleftrightarrow>
     (\<forall>r e. \<exists>a. run_state m \<lparr>rd = r, rerr = Some e\<rparr> = (a, \<lparr>rd = r, rerr = Some e\<rparr>))"

lemma sticky_refines_iff:
  "sticky_refines m p \<longleftrightarrow> stuck_on_error m \<and> (\<forall>r. valid r \<longrightarrow> sim_at m p r)"
proof
  assume s: "sticky_refines m p"
  have "sim_at m p r" if "valid r" for r
    using sticky_refines.success [OF s that] sticky_refines.failure [OF s that]
      sticky_refines.keeps_valid [OF s that]
    by (auto simp: sim_at_def split: prod.splits sum.splits)
  then show "stuck_on_error m \<and> (\<forall>r. valid r \<longrightarrow> sim_at m p r)"
    using sticky_refines.stuck [OF s] by (auto simp: stuck_on_error_def)
next
  assume s: "stuck_on_error m \<and> (\<forall>r. valid r \<longrightarrow> sim_at m p r)"
  then have sim: "valid r \<Longrightarrow> p r = (x, r') \<Longrightarrow> valid r' \<and> Reader_Len r' \<le> Reader_Len r
        \<and> (case x of Inr a \<Rightarrow> run_state m \<lparr>rd = r, rerr = None\<rparr> = (a, \<lparr>rd = r', rerr = None\<rparr>)
           | Inl e \<Rightarrow> (\<exists>a. run_state m \<lparr>rd = r, rerr = None\<rparr> = (a, \<lparr>rd = r', rerr = Some e\<rparr>)))" for r x r'
    by (fastforce simp: sim_at_def)
  show "sticky_refines m p"
  proof
    show "\<exists>a. run_state m \<lparr>rd = r, rerr = Some e\<rparr> = (a, \<lparr>rd = r, rerr = Some e\<rparr>)" for r e
      using s by (simp add: stuck_on_error_def)
    show "run_state m \<lparr>rd = r, rerr = None\<rparr> = (a, \<lparr>rd = r', rerr = None\<rparr>)"
      if "valid r" "p r = (Inr a, r')" for r a r' using sim [OF that] by simp
    show "\<exists>a. run_state m \<lparr>rd = r, rerr = None\<rparr> = (a, \<lparr>rd = r', rerr = Some e\<rparr>)"
      if "valid r" "p r = (Inl e, r')" for r e r' using sim [OF that] by simp
    show "valid r' \<and> Reader_Len r' \<le> Reader_Len r" if "valid r" "p r = (x, r')" for r x r'
      using sim [OF that] by simp
  qed
qed

lemma sim_at_bind:
  assumes m: "sim_at m p r" and f: "\<And>a r1. p r = (Inr a, r1) \<Longrightarrow> sim_at (f a) (g a) r1"
    and st: "\<And>a. stuck_on_error (f a)"
  shows "sim_at (State_Monad.bind m f) (rbind p g) r"
proof (cases "p r")
  case (Pair x r1)
  show ?thesis
  proof (cases x)
    case (Inl e)
    with m Pair st show ?thesis
      by (fastforce simp: sim_at_def rbind_def stuck_on_error_def)
  next
    case (Inr a)
    then show ?thesis
      using m Pair f [of a r1] by (fastforce simp: sim_at_def rbind_def split: prod.splits sum.splits)
  qed
qed

lemma stuck_bind: "stuck_on_error m \<Longrightarrow> (\<And>a. stuck_on_error (f a)) \<Longrightarrow> stuck_on_error (State_Monad.bind m f)"
  unfolding stuck_on_error_def by (metis run_state_bind prod.case)

lemma stuck_return: "stuck_on_error (State_Monad.return a)"
  by (simp add: stuck_on_error_def)

lemma stuck_section_n:
  "stuck_on_error key \<Longrightarrow> stuck_on_error (s_section_n n key stop item)"
proof (cases n)
  case (Suc m)
  assume k: "stuck_on_error key"
  have "\<exists>a. run_state (s_section_n (Suc m) key stop item) \<lparr>rd = r, rerr = Some e\<rparr> = (a, \<lparr>rd = r, rerr = Some e\<rparr>)" for r e
  proof -
    from k obtain a where "run_state key \<lparr>rd = r, rerr = Some e\<rparr> = (a, \<lparr>rd = r, rerr = Some e\<rparr>)"
      by (auto simp: stuck_on_error_def)
    then show ?thesis by (simp add: r_ok_def)
  qed
  then show ?thesis unfolding Suc stuck_on_error_def by blast
qed (simp add: stuck_return)

lemma sim_section_n:
  assumes key: "sticky_refines key keyp" and adv: "advances keyp" and buf: "buffer_reader keyp"
    and item: "\<And>k. sticky_refines (item k) (itemp k)"
  shows "valid r \<Longrightarrow> Reader_Len r < n \<Longrightarrow>
    sim_at (s_section_n n key stop item) (section_n n keyp stop itemp) r"
proof (induction n arbitrary: r)
  case (Suc n)
  have sk: "stuck_on_error (s_section_n n key stop item)"
    using key by (intro stuck_section_n) (simp add: sticky_refines_iff)
  have e: "s_section_n (Suc n) key stop item =
    State_Monad.bind key (\<lambda>k. State_Monad.bind r_ok (\<lambda>ok. if ok \<and> k \<noteq> stop
      then State_Monad.bind (item k) (\<lambda>x. State_Monad.bind (s_section_n n key stop item) (\<lambda>xs. State_Monad.return (x # xs)))
      else State_Monad.return []))" by simp
  show ?case
    unfolding e section_n.simps(2)
  proof (rule sim_at_bind)
    show "sim_at key keyp r" using key Suc.prems by (simp add: sticky_refines_iff)
  next
    fix k
    have "stuck_on_error r_ok"
      unfolding stuck_on_error_def r_ok_def by (intro allI exI [of _ False]) simp
    then show "stuck_on_error (State_Monad.bind r_ok (\<lambda>ok. if ok \<and> k \<noteq> stop
      then State_Monad.bind (item k) (\<lambda>x. State_Monad.bind (s_section_n n key stop item) (\<lambda>xs. State_Monad.return (x # xs)))
      else State_Monad.return []))"
    proof (rule stuck_bind)
      have si: "stuck_on_error (item k)" using item by (simp add: sticky_refines_iff)
      show "stuck_on_error (if ok \<and> k \<noteq> stop
        then State_Monad.bind (item k) (\<lambda>x. State_Monad.bind (s_section_n n key stop item) (\<lambda>xs. State_Monad.return (x # xs)))
        else State_Monad.return [])" for ok
        by (simp add: stuck_bind stuck_return si sk)
    qed
  next
    fix k r1 assume k: "keyp r = (Inr k, r1)"
    with key Suc.prems(1) have v1: "valid r1" "Reader_Len r1 \<le> Reader_Len r"
      using sticky_refines.keeps_valid by blast+
    from adv k Suc.prems(1) have "roff r < roff r1" by (auto simp: advances_def)
    moreover have "rbuf r1 = rbuf r" using buffer_reader.keeps [OF buf Suc.prems(1) k] by simp
    ultimately have l1: "Reader_Len r1 < n"
      using Suc.prems(2) v1(1) by (auto simp: Reader_Len_def valid_def)
    let ?m = "State_Monad.bind (item k) (\<lambda>x. State_Monad.bind (s_section_n n key stop item) (\<lambda>xs. State_Monad.return (x # xs)))"
    let ?p = "rbind (itemp k) (\<lambda>x. rbind (section_n n keyp stop itemp) (\<lambda>xs. ret (x # xs)))"
    have body: "sim_at ?m ?p r1"
    proof (rule sim_at_bind)
      show "sim_at (item k) (itemp k) r1" using item v1 by (simp add: sticky_refines_iff)
      fix a r2 assume "itemp k r1 = (Inr a, r2)"
      with item v1 l1 have "valid r2" "Reader_Len r2 < n"
        using sticky_refines.keeps_valid by (metis, metis order_le_less_trans)
      then have s: "sim_at (s_section_n n key stop item) (section_n n keyp stop itemp) r2" by (rule Suc.IH)
      show "sim_at (State_Monad.bind (s_section_n n key stop item) (\<lambda>xs. State_Monad.return (a # xs)))
          (rbind (section_n n keyp stop itemp) (\<lambda>xs. ret (a # xs))) r2"
        by (rule sim_at_bind [OF s], use s in \<open>auto simp: stuck_return sim_at_def ret_def\<close>)
    qed (use sk in \<open>auto intro: stuck_bind stuck_return\<close>)
    have run: "run_state (State_Monad.bind r_ok (\<lambda>ok. if ok \<and> k \<noteq> stop then ?m else State_Monad.return [])) \<lparr>rd = r1, rerr = None\<rparr>
        = run_state (if k \<noteq> stop then ?m else State_Monad.return []) \<lparr>rd = r1, rerr = None\<rparr>"
      by (simp add: r_ok_def)
    have "sim_at (if k \<noteq> stop then ?m else State_Monad.return []) (if k = stop then ret [] else ?p) r1"
      using body v1 by (cases "k = stop") (simp_all add: sim_at_def ret_def)
    then show "sim_at (State_Monad.bind r_ok (\<lambda>ok. if ok \<and> k \<noteq> stop then ?m else State_Monad.return []))
        (if k = stop then ret [] else ?p) r1"
      by (simp only: sim_at_def run)
  qed
qed simp

lemma sticky_refines_section [sticky_intro]:
  assumes "sticky_refines key keyp" "advances keyp" "buffer_reader keyp" "\<And>k. sticky_refines (item k) (itemp k)"
  shows "sticky_refines (s_section key stop item) (section_rd keyp stop itemp)"
  unfolding sticky_refines_iff
proof (intro conjI allI impI)
  show "stuck_on_error (s_section key stop item)"
    using assms(1) unfolding s_section_def
    by (intro stuck_bind stuck_section_n) (auto simp: sticky_refines_iff stuck_on_error_def r_len_def)
  fix r assume "valid r"
  have run: "run_state (s_section key stop item) \<lparr>rd = r, rerr = None\<rparr>
      = run_state (s_section_n (Suc (Reader_Len r)) key stop item) \<lparr>rd = r, rerr = None\<rparr>"
    by (simp add: s_section_def r_len_def)
  from \<open>valid r\<close> have "sim_at (s_section_n (Suc (Reader_Len r)) key stop item) (section_n (Suc (Reader_Len r)) keyp stop itemp) r"
    by (rule sim_section_n [OF assms]) simp
  then show "sim_at (s_section key stop item) (section_rd keyp stop itemp) r"
    by (simp only: sim_at_def section_rd_def run)
qed

end
