(* ===== verification/Startup.thy ===== *)
theory Startup
  imports Sticky_Reader
begin

text \<open>
  The dictionaries of the RQ_STARTUP reply: the types of \<open>native/model/dictionary.go\<close> with
  their lookups, and \<open>ParseStartup\<close> of \<open>native/records/startup.go\<close>. The decoder reads with
  the sticky reader; \<open>startup_rd\<close> is the same layout with an early return after each read.
\<close>

subsection \<open>Dictionary types\<close>

record Market =
  Market_ID :: byte
  Market_Code :: bytes
  Market_Name :: bytes
  Market_Raw :: bytes

record BoardType =
  BoardType_ID :: byte
  BoardType_Name :: bytes
  BoardType_Text :: bytes
  BoardType_Raw :: byte

record Board =
  Board_Num :: u16
  Board_Market :: byte
  Board_Code :: bytes
  Board_Name :: bytes
  Board_Word :: u16
  Board_Byte1 :: byte
  Board_Text :: bytes
  Board_Byte2 :: byte
  Board_Type :: byte

record SecType =
  SecType_ID :: byte
  SecType_ShortName :: bytes
  SecType_Name :: bytes
  SecType_Raw :: bytes

record CandleKind =
  CandleKind_ID :: byte
  CandleKind_Name :: bytes
  CandleKind_Period :: i32
  CandleKind_Extra :: i32

record SymbolColumn =
  SymbolColumn_ID :: byte
  SymbolColumn_Group :: byte
  SymbolColumn_Title :: bytes
  SymbolColumn_Code :: bytes

record Startup =
  Markets :: "Market list"
  MarketsTail :: u16
  BoardTypes :: "BoardType list"
  Boards :: "Board list"
  SecTypes :: "SecType list"
  CandleKinds :: "CandleKind list"
  Columns :: "SymbolColumn list"

text \<open>The zero values a failed lookup returns are not represented: the result is an option.\<close>

definition Startup_BoardByNum :: "Startup \<Rightarrow> u16 \<Rightarrow> Board option" where
  "Startup_BoardByNum s num = List.find (\<lambda>b. Board_Num b = num) (Boards s)"

definition Startup_BoardCode :: "Startup \<Rightarrow> u16 \<Rightarrow> bytes" where
  "Startup_BoardCode s num = (case Startup_BoardByNum s num of Some b \<Rightarrow> Board_Code b | None \<Rightarrow> [])"

definition Startup_SecTypeByID :: "Startup \<Rightarrow> byte \<Rightarrow> SecType option" where
  "Startup_SecTypeByID s i = List.find (\<lambda>t. SecType_ID t = i) (SecTypes s)"

subsection \<open>ParseStartup\<close>

definition r_market :: "(bytes \<Rightarrow> bytes option) \<Rightarrow> byte \<Rightarrow> Market sr" where
  "r_market win i =
     do { code \<leftarrow> r_str win 10; name \<leftarrow> r_str win 0x18; raw \<leftarrow> s_times 4 r_byte;
          State_Monad.return \<lparr>Market_ID = i, Market_Code = code, Market_Name = name, Market_Raw = raw\<rparr> }"

definition r_board_type :: "(bytes \<Rightarrow> bytes option) \<Rightarrow> byte \<Rightarrow> BoardType sr" where
  "r_board_type win i =
     do { name \<leftarrow> r_str win 0x20; text \<leftarrow> r_str win 8; raw \<leftarrow> r_byte;
          State_Monad.return
            \<lparr>BoardType_ID = i, BoardType_Name = name, BoardType_Text = text, BoardType_Raw = raw\<rparr> }"

definition r_board :: "(bytes \<Rightarrow> bytes option) \<Rightarrow> u16 \<Rightarrow> Board sr" where
  "r_board win num =
     do { market \<leftarrow> r_byte; code \<leftarrow> r_str win 7; name \<leftarrow> r_str win 0x1e; word \<leftarrow> r_word;
          byte1 \<leftarrow> r_byte; text \<leftarrow> r_str win 8; byte2 \<leftarrow> r_byte; typ \<leftarrow> r_byte;
          State_Monad.return
            \<lparr>Board_Num = num, Board_Market = market, Board_Code = code, Board_Name = name,
             Board_Word = word, Board_Byte1 = byte1, Board_Text = text, Board_Byte2 = byte2,
             Board_Type = typ\<rparr> }"

definition r_sec_type :: "(bytes \<Rightarrow> bytes option) \<Rightarrow> byte \<Rightarrow> SecType sr" where
  "r_sec_type win i =
     do { short \<leftarrow> r_str win 10; name \<leftarrow> r_str win 0x18; raw \<leftarrow> s_times 3 r_byte;
          State_Monad.return
            \<lparr>SecType_ID = i, SecType_ShortName = short, SecType_Name = name, SecType_Raw = raw\<rparr> }"

definition r_candle_kind :: "(bytes \<Rightarrow> bytes option) \<Rightarrow> byte \<Rightarrow> CandleKind sr" where
  "r_candle_kind win i =
     do { name \<leftarrow> r_str win 12; period \<leftarrow> r_int32; extra \<leftarrow> r_int32;
          State_Monad.return
            \<lparr>CandleKind_ID = i, CandleKind_Name = name, CandleKind_Period = period, CandleKind_Extra = extra\<rparr> }"

definition r_column :: "(bytes \<Rightarrow> bytes option) \<Rightarrow> byte \<Rightarrow> SymbolColumn sr" where
  "r_column win i =
     do { grp \<leftarrow> r_byte; title \<leftarrow> r_str win 0x20; code \<leftarrow> r_str win 0x10;
          State_Monad.return
            \<lparr>SymbolColumn_ID = i, SymbolColumn_Group = grp, SymbolColumn_Title = title, SymbolColumn_Code = code\<rparr> }"

definition r_startup :: "(bytes \<Rightarrow> bytes option) \<Rightarrow> Startup sr" where
  "r_startup win =
     do { markets \<leftarrow> s_section r_byte 0xff (r_market win);
          tail \<leftarrow> r_word;
          types \<leftarrow> s_section r_byte 0xff (r_board_type win);
          boards \<leftarrow> s_section r_word 0xffff (r_board win);
          secs \<leftarrow> s_section r_byte 0xff (r_sec_type win);
          kinds \<leftarrow> s_section r_byte 0xff (r_candle_kind win);
          columns \<leftarrow> s_section r_byte 0xff (r_column win);
          State_Monad.return
            \<lparr>Markets = markets, MarketsTail = tail, BoardTypes = types, Boards = boards,
             SecTypes = secs, CandleKinds = kinds, Columns = columns\<rparr> }"

definition ParseStartup :: "(bytes \<Rightarrow> bytes option) \<Rightarrow> bytes \<Rightarrow> err + Startup" where
  "ParseStartup win p =
     (case run_state (r_startup win) (new_reader p) of
        (s, r) \<Rightarrow>
          (case rerr r of
             Some e \<Rightarrow> Inl (Wrap ''RQ_STARTUP'' e)
           | None \<Rightarrow>
               if Reader_Len (rd r) \<noteq> 0
               then Inl (Errorf ''RQ_STARTUP: %d trailing bytes'' [int (Reader_Len (rd r))])
               else Inr s))"

subsection \<open>The layout with early returns\<close>

definition str_rd :: "(bytes \<Rightarrow> bytes option) \<Rightarrow> nat \<Rightarrow> bytes rd" where
  "str_rd win n = rmap (cp1251 win) (Reader_String n)"

lemma sticky_str [sticky_intro]: "sticky_refines (r_str win n) (str_rd win n)"
  unfolding str_rd_def by (rule sticky_refines_ops)

lemma wire_reader_str [wire_local]: "wire_reader (str_rd win n)"
  unfolding str_rd_def rmap_def by (intro wire_local)

definition market_rd :: "(bytes \<Rightarrow> bytes option) \<Rightarrow> byte \<Rightarrow> Market rd" where
  "market_rd win i =
     rbind (str_rd win 10) (\<lambda>code. rbind (str_rd win 0x18) (\<lambda>name. rbind (rtimes 4 Reader_Byte) (\<lambda>raw.
       ret \<lparr>Market_ID = i, Market_Code = code, Market_Name = name, Market_Raw = raw\<rparr>)))"

definition board_type_rd :: "(bytes \<Rightarrow> bytes option) \<Rightarrow> byte \<Rightarrow> BoardType rd" where
  "board_type_rd win i =
     rbind (str_rd win 0x20) (\<lambda>name. rbind (str_rd win 8) (\<lambda>text. rbind Reader_Byte (\<lambda>raw.
       ret \<lparr>BoardType_ID = i, BoardType_Name = name, BoardType_Text = text, BoardType_Raw = raw\<rparr>)))"

definition board_rd :: "(bytes \<Rightarrow> bytes option) \<Rightarrow> u16 \<Rightarrow> Board rd" where
  "board_rd win num =
     rbind Reader_Byte (\<lambda>market. rbind (str_rd win 7) (\<lambda>code. rbind (str_rd win 0x1e) (\<lambda>name.
     rbind Reader_Uint16 (\<lambda>word. rbind Reader_Byte (\<lambda>byte1. rbind (str_rd win 8) (\<lambda>text.
     rbind Reader_Byte (\<lambda>byte2. rbind Reader_Byte (\<lambda>typ.
       ret \<lparr>Board_Num = num, Board_Market = market, Board_Code = code, Board_Name = name,
            Board_Word = word, Board_Byte1 = byte1, Board_Text = text, Board_Byte2 = byte2,
            Board_Type = typ\<rparr>))))))))"

definition sec_type_rd :: "(bytes \<Rightarrow> bytes option) \<Rightarrow> byte \<Rightarrow> SecType rd" where
  "sec_type_rd win i =
     rbind (str_rd win 10) (\<lambda>short. rbind (str_rd win 0x18) (\<lambda>name. rbind (rtimes 3 Reader_Byte) (\<lambda>raw.
       ret \<lparr>SecType_ID = i, SecType_ShortName = short, SecType_Name = name, SecType_Raw = raw\<rparr>)))"

definition candle_kind_rd :: "(bytes \<Rightarrow> bytes option) \<Rightarrow> byte \<Rightarrow> CandleKind rd" where
  "candle_kind_rd win i =
     rbind (str_rd win 12) (\<lambda>name. rbind Reader_Int32 (\<lambda>period. rbind Reader_Int32 (\<lambda>extra.
       ret \<lparr>CandleKind_ID = i, CandleKind_Name = name, CandleKind_Period = period, CandleKind_Extra = extra\<rparr>)))"

definition column_rd :: "(bytes \<Rightarrow> bytes option) \<Rightarrow> byte \<Rightarrow> SymbolColumn rd" where
  "column_rd win i =
     rbind Reader_Byte (\<lambda>grp. rbind (str_rd win 0x20) (\<lambda>title. rbind (str_rd win 0x10) (\<lambda>code.
       ret \<lparr>SymbolColumn_ID = i, SymbolColumn_Group = grp, SymbolColumn_Title = title, SymbolColumn_Code = code\<rparr>)))"

definition startup_rd :: "(bytes \<Rightarrow> bytes option) \<Rightarrow> Startup rd" where
  "startup_rd win =
     rbind (section_rd Reader_Byte 0xff (market_rd win)) (\<lambda>markets.
     rbind Reader_Uint16 (\<lambda>tail.
     rbind (section_rd Reader_Byte 0xff (board_type_rd win)) (\<lambda>types.
     rbind (section_rd Reader_Uint16 0xffff (board_rd win)) (\<lambda>boards.
     rbind (section_rd Reader_Byte 0xff (sec_type_rd win)) (\<lambda>secs.
     rbind (section_rd Reader_Byte 0xff (candle_kind_rd win)) (\<lambda>kinds.
     rbind (section_rd Reader_Byte 0xff (column_rd win)) (\<lambda>columns.
       ret \<lparr>Markets = markets, MarketsTail = tail, BoardTypes = types, Boards = boards,
            SecTypes = secs, CandleKinds = kinds, Columns = columns\<rparr>)))))))"

lemmas startup_items = r_market_def r_board_type_def r_board_def r_sec_type_def r_candle_kind_def
  r_column_def market_rd_def board_type_rd_def board_rd_def sec_type_rd_def candle_kind_rd_def
  column_rd_def

lemma sticky_items [sticky_intro]:
  "sticky_refines (r_market win i) (market_rd win i)"
  "sticky_refines (r_board_type win i) (board_type_rd win i)"
  "sticky_refines (r_board win num) (board_rd win num)"
  "sticky_refines (r_sec_type win i) (sec_type_rd win i)"
  "sticky_refines (r_candle_kind win i) (candle_kind_rd win i)"
  "sticky_refines (r_column win i) (column_rd win i)"
  unfolding startup_items by (intro sticky_intro)+

lemma sticky_startup: "sticky_refines (r_startup win) (startup_rd win)"
  unfolding r_startup_def startup_rd_def
  by (intro sticky_intro wire_local wire_reader_buffer)

interpretation startup_reader: sticky_refines "r_startup win" "startup_rd win" for win
  by (rule sticky_startup)

text \<open>C5: the startup decoder, which keeps reading after an error and looks at it once at the
  end, returns exactly what the layout read with an early return after every field returns:
  the dictionaries on success, and on failure the error of the first field that failed.\<close>

theorem ParseStartup_refines:
  "ParseStartup win p = (case startup_rd win (NewReader p) of
     (Inl e, r) \<Rightarrow> Inl (Wrap ''RQ_STARTUP'' e)
   | (Inr s, r) \<Rightarrow> if Reader_Len r \<noteq> 0
       then Inl (Errorf ''RQ_STARTUP: %d trailing bytes'' [int (Reader_Len r)]) else Inr s)"
proof (cases "startup_rd win (NewReader p)")
  case (Pair x r)
  show ?thesis
  proof (cases x)
    case (Inl e)
    with Pair startup_reader.failure [of "NewReader p" win e r] show ?thesis
      by (auto simp: ParseStartup_def new_reader_def)
  next
    case (Inr s)
    with Pair startup_reader.success [of "NewReader p" win s r] show ?thesis
      by (simp add: ParseStartup_def new_reader_def)
  qed
qed

end
