(* ===== verification/Securities.thy ===== *)
theory Securities
  imports Startup
begin

text \<open>
  The security record R_SEC_NEW: \<open>Pit\<close>, \<open>SecNew\<close>, \<open>ParseSecNew\<close> and \<open>DefaultPit\<close> of
  \<open>native/records/security.go\<close>, and the time-zone block of \<open>native/records/timezone.go\<close>.
  A \<open>[16]byte\<close> is a list of 16 bytes; \<open>PointCost\<close> is the bit pattern of the double.
\<close>

unbundle bit_operations_syntax

text \<open>\<open>binary.LittleEndian.Uint64\<close>.\<close>

definition le64 :: "bytes \<Rightarrow> u64" where
  "le64 b = foldr (\<lambda>b m. push_bit 8 m OR ucast b) (take 8 b) 0"

record Pit =
  Pit_Board :: u16
  Pit_LotSize :: i32
  Pit_LotDivider :: i32
  Pit_MinStep :: i32
  Pit_Decimals :: byte
  Pit_Byte1 :: byte
  Pit_PointCost :: float64
  Pit_Text :: bytes
  Pit_Default :: bool
  Pit_Int1 :: i32
  Pit_Currency :: bytes

record SecNew =
  SecNew_SecID :: u16
  SecNew_Market :: byte
  SecNew_Kind :: byte
  SecNew_Class :: byte
  SecNew_SecCode :: bytes
  SecNew_ShortName :: bytes
  SecNew_ISIN :: bytes
  SecNew_Byte1 :: byte
  SecNew_Int1 :: i32
  SecNew_Flags :: byte
  SecNew_Int2 :: i32
  SecNew_DerivFlags :: byte
  SecNew_Underlying :: bytes
  SecNew_Props :: byte
  SecNew_Pits :: "Pit list"
  SecNew_Currency :: bytes
  SecNew_Tail1 :: byte
  SecNew_Tail2 :: byte
  SecNew_Tail3 :: i32
  SecNew_TimeZone :: bytes
  SecNew_HasTimeZone :: bool
  SecNew_MIC :: bytes
  SecNew_Ticker :: bytes
  SecNew_Tail4 :: i32
  SecNew_Tail5 :: i32
  SecNew_Text1 :: bytes
  SecNew_Text2 :: bytes
  SecNew_Tail6 :: byte
  SecNew_Extra :: bytes

definition r_pit :: "(bytes \<Rightarrow> bytes option) \<Rightarrow> u16 \<Rightarrow> Pit sr" where
  "r_pit win board =
     do { lot \<leftarrow> r_int32; divider \<leftarrow> r_int32; step \<leftarrow> r_int32; decimals \<leftarrow> r_byte; byte1 \<leftarrow> r_byte;
          raw \<leftarrow> r_raw 8;
          text \<leftarrow> r_str win 0xc; dflt \<leftarrow> r_byte; int1 \<leftarrow> r_int32; currency \<leftarrow> r_str win 4;
          State_Monad.return
            \<lparr>Pit_Board = board, Pit_LotSize = lot, Pit_LotDivider = divider, Pit_MinStep = step,
             Pit_Decimals = decimals, Pit_Byte1 = byte1,
             Pit_PointCost = (case raw of None \<Rightarrow> 0 | Some b \<Rightarrow> le64 b), Pit_Text = text,
             Pit_Default = (dflt \<noteq> 0), Pit_Int1 = int1, Pit_Currency = currency\<rparr> }"

definition r_sec_new :: "(bytes \<Rightarrow> bytes option) \<Rightarrow> SecNew sr" where
  "r_sec_new win =
     do { secid \<leftarrow> r_word; market \<leftarrow> r_byte; kind \<leftarrow> r_byte; cls \<leftarrow> r_byte;
          seccode \<leftarrow> r_str win 0x19; short \<leftarrow> r_str win 0x1e; isin \<leftarrow> r_str win 0xc;
          byte1 \<leftarrow> r_byte; int1 \<leftarrow> r_int32; flags \<leftarrow> r_byte; int2 \<leftarrow> r_int32;
          (deriv, underlying) \<leftarrow> s_when (kind = 4 \<or> kind = 5) (0, [])
            (do { d \<leftarrow> r_byte;
                  u \<leftarrow> s_when (d AND 0xc \<noteq> 0) [] (r_str win 0x19);
                  State_Monad.return (d, u) });
          props \<leftarrow> r_byte;
          pits \<leftarrow> s_section r_word 0xffff (r_pit win);
          currency \<leftarrow> r_str win 4;
          (tail1, tail2) \<leftarrow> if_left (0, 0) (do { a \<leftarrow> r_byte; b \<leftarrow> r_byte; State_Monad.return (a, b) });
          (tail3, zone) \<leftarrow> if_left (0, None)
            (do { a \<leftarrow> r_int32; raw \<leftarrow> r_raw 16; State_Monad.return (a, raw) });
          (mic, ticker) \<leftarrow> if_left ([], [])
            (do { a \<leftarrow> r_str win 5; b \<leftarrow> r_str win 0x19; State_Monad.return (a, b) });
          (tail4, tail5, text1, text2) \<leftarrow> if_left (0, 0, [], [])
            (do { a \<leftarrow> r_int32; b \<leftarrow> r_int32; c \<leftarrow> r_str win 0x19; d \<leftarrow> r_str win 6;
                  State_Monad.return (a, b, c, d) });
          tail6 \<leftarrow> if_left 0 r_byte;
          extra \<leftarrow> if_left None (do { n \<leftarrow> r_len; r_raw (int n) });
          State_Monad.return
            \<lparr>SecNew_SecID = secid, SecNew_Market = market, SecNew_Kind = kind, SecNew_Class = cls,
             SecNew_SecCode = seccode, SecNew_ShortName = short, SecNew_ISIN = isin,
             SecNew_Byte1 = byte1, SecNew_Int1 = int1, SecNew_Flags = flags, SecNew_Int2 = int2,
             SecNew_DerivFlags = deriv, SecNew_Underlying = underlying, SecNew_Props = props,
             SecNew_Pits = pits, SecNew_Currency = currency, SecNew_Tail1 = tail1,
             SecNew_Tail2 = tail2, SecNew_Tail3 = tail3,
             SecNew_TimeZone = (case zone of None \<Rightarrow> replicate 16 0 | Some b \<Rightarrow> b),
             SecNew_HasTimeZone = (zone \<noteq> None), SecNew_MIC = mic, SecNew_Ticker = ticker,
             SecNew_Tail4 = tail4, SecNew_Tail5 = tail5, SecNew_Text1 = text1, SecNew_Text2 = text2,
             SecNew_Tail6 = tail6, SecNew_Extra = (case extra of None \<Rightarrow> [] | Some b \<Rightarrow> b)\<rparr> }"

definition ParseSecNew :: "(bytes \<Rightarrow> bytes option) \<Rightarrow> bytes \<Rightarrow> err + SecNew" where
  "ParseSecNew win body = run_sticky ''R_SEC_NEW'' (r_sec_new win) body"

definition SecNew_DefaultPit :: "SecNew \<Rightarrow> Pit option" where
  "SecNew_DefaultPit s =
     (case List.find Pit_Default (SecNew_Pits s) of
        Some p \<Rightarrow> Some p
      | None \<Rightarrow> (case SecNew_Pits s of p # _ \<Rightarrow> Some p | [] \<Rightarrow> None))"

definition timeZoneNames :: "bytes \<Rightarrow> string option" where
  "timeZoneNames =
     [replicate 16 0 \<mapsto> ''UTC'',
      [0x4c, 0xff, 0x00, 0x00, 0xc4, 0xff] @ replicate 10 0 \<mapsto> ''Russian Standard Time'']"

definition TimeZoneName :: "bytes \<Rightarrow> string option" where
  "TimeZoneName block = timeZoneNames block"

subsection \<open>The layout with early returns\<close>

lemma sticky_refines_prod [sticky_intro]:
  "(\<And>x y. sticky_refines (f x y) (g x y)) \<Longrightarrow>
    sticky_refines (case z of (x, y) \<Rightarrow> f x y) (case z of (x, y) \<Rightarrow> g x y)"
  by (cases z) simp

definition with_len :: "(nat \<Rightarrow> 'a rd) \<Rightarrow> 'a rd" where
  "with_len p r = p (Reader_Len r) r"

lemma sticky_refines_len [sticky_intro]:
  assumes "\<And>n. sticky_refines (f n) (p n)"
  shows "sticky_refines (State_Monad.bind r_len f) (with_len p)"
  using sticky_refines.stuck [OF assms] sticky_refines.success [OF assms]
    sticky_refines.failure [OF assms] sticky_refines.keeps_valid [OF assms]
  by unfold_locales (auto simp: r_len_def with_len_def)

definition pit_rd :: "(bytes \<Rightarrow> bytes option) \<Rightarrow> u16 \<Rightarrow> Pit rd" where
  "pit_rd win board =
     rbind Reader_Int32 (\<lambda>lot. rbind Reader_Int32 (\<lambda>divider. rbind Reader_Int32 (\<lambda>step.
     rbind Reader_Byte (\<lambda>decimals. rbind Reader_Byte (\<lambda>byte1.
     rbind (rmap Some (Reader_Raw 8)) (\<lambda>raw.
     rbind (str_rd win 0xc) (\<lambda>text. rbind Reader_Byte (\<lambda>dflt. rbind Reader_Int32 (\<lambda>int1.
     rbind (str_rd win 4) (\<lambda>currency.
       ret \<lparr>Pit_Board = board, Pit_LotSize = lot, Pit_LotDivider = divider, Pit_MinStep = step,
            Pit_Decimals = decimals, Pit_Byte1 = byte1,
            Pit_PointCost = (case raw of None \<Rightarrow> 0 | Some b \<Rightarrow> le64 b), Pit_Text = text,
            Pit_Default = (dflt \<noteq> 0), Pit_Int1 = int1, Pit_Currency = currency\<rparr>))))))))))"

lemma sticky_pit [sticky_intro]: "sticky_refines (r_pit win board) (pit_rd win board)"
  unfolding r_pit_def pit_rd_def by (intro sticky_intro)

definition sec_new_rd :: "(bytes \<Rightarrow> bytes option) \<Rightarrow> SecNew rd" where
  "sec_new_rd win =
     rbind Reader_Uint16 (\<lambda>secid. rbind Reader_Byte (\<lambda>market. rbind Reader_Byte (\<lambda>kind.
     rbind Reader_Byte (\<lambda>cls. rbind (str_rd win 0x19) (\<lambda>seccode. rbind (str_rd win 0x1e) (\<lambda>short.
     rbind (str_rd win 0xc) (\<lambda>isin. rbind Reader_Byte (\<lambda>byte1. rbind Reader_Int32 (\<lambda>int1.
     rbind Reader_Byte (\<lambda>flags. rbind Reader_Int32 (\<lambda>int2.
     rbind (rwhen (kind = 4 \<or> kind = 5) (0, [])
       (rbind Reader_Byte (\<lambda>d. rbind (rwhen (d AND 0xc \<noteq> 0) [] (str_rd win 0x19)) (\<lambda>u. ret (d, u)))))
       (\<lambda>(deriv, underlying).
     rbind Reader_Byte (\<lambda>props.
     rbind (section_rd Reader_Uint16 0xffff (pit_rd win)) (\<lambda>pits.
     rbind (str_rd win 4) (\<lambda>currency.
     rbind (if_more (0, 0) (rbind Reader_Byte (\<lambda>a. rbind Reader_Byte (\<lambda>b. ret (a, b))))) (\<lambda>(tail1, tail2).
     rbind (if_more (0, None) (rbind Reader_Int32 (\<lambda>a. rbind (rmap Some (Reader_Raw 16)) (\<lambda>raw. ret (a, raw)))))
       (\<lambda>(tail3, zone).
     rbind (if_more ([], []) (rbind (str_rd win 5) (\<lambda>a. rbind (str_rd win 0x19) (\<lambda>b. ret (a, b)))))
       (\<lambda>(mic, ticker).
     rbind (if_more (0, 0, [], []) (rbind Reader_Int32 (\<lambda>a. rbind Reader_Int32 (\<lambda>b.
         rbind (str_rd win 0x19) (\<lambda>c. rbind (str_rd win 6) (\<lambda>d. ret (a, b, c, d)))))))
       (\<lambda>(tail4, tail5, text1, text2).
     rbind (if_more 0 Reader_Byte) (\<lambda>tail6.
     rbind (if_more None (with_len (\<lambda>n. rmap Some (Reader_Raw (int n))))) (\<lambda>extra.
       ret \<lparr>SecNew_SecID = secid, SecNew_Market = market, SecNew_Kind = kind, SecNew_Class = cls,
            SecNew_SecCode = seccode, SecNew_ShortName = short, SecNew_ISIN = isin,
            SecNew_Byte1 = byte1, SecNew_Int1 = int1, SecNew_Flags = flags, SecNew_Int2 = int2,
            SecNew_DerivFlags = deriv, SecNew_Underlying = underlying, SecNew_Props = props,
            SecNew_Pits = pits, SecNew_Currency = currency, SecNew_Tail1 = tail1,
            SecNew_Tail2 = tail2, SecNew_Tail3 = tail3,
            SecNew_TimeZone = (case zone of None \<Rightarrow> replicate 16 0 | Some b \<Rightarrow> b),
            SecNew_HasTimeZone = (zone \<noteq> None), SecNew_MIC = mic, SecNew_Ticker = ticker,
            SecNew_Tail4 = tail4, SecNew_Tail5 = tail5, SecNew_Text1 = text1, SecNew_Text2 = text2,
            SecNew_Tail6 = tail6, SecNew_Extra = (case extra of None \<Rightarrow> [] | Some b \<Rightarrow> b)\<rparr>)))))))))))))))))))))"

lemma sticky_sec_new: "sticky_refines (r_sec_new win) (sec_new_rd win)"
  unfolding r_sec_new_def sec_new_rd_def
  by (intro sticky_intro wire_local wire_reader_buffer)

interpretation sec_new_reader: sticky_refines "r_sec_new win" "sec_new_rd win" for win
  by (rule sticky_sec_new)

text \<open>\<open>ParseSecNew\<close>, with its conditional blocks, its list of pits and its optional tail,
  decodes exactly what the layout with an early return after every read decodes, and reports
  the first field that failed.\<close>

theorem ParseSecNew_refines:
  "ParseSecNew win body = (case decode_body (sec_new_rd win) body of
     Inl e \<Rightarrow> Inl (Wrap ''R_SEC_NEW'' e) | Inr s \<Rightarrow> Inr s)"
  unfolding ParseSecNew_def by (rule sec_new_reader.run_sticky_decode)

text \<open>The default pit exists exactly for a security with pits; it is one of them, and it
  is the first pit flagged as default when one is flagged.\<close>

theorem DefaultPit_choice:
  "case SecNew_DefaultPit s of
     None \<Rightarrow> SecNew_Pits s = []
   | Some p \<Rightarrow> p \<in> set (SecNew_Pits s)
       \<and> (Pit_Default p = (\<exists>q \<in> set (SecNew_Pits s). Pit_Default q))
       \<and> (\<exists>before after. SecNew_Pits s = before @ p # after \<and> filter Pit_Default before = [])"
proof (cases "List.find Pit_Default (SecNew_Pits s)")
  case None
  then have n: "\<forall>q \<in> set (SecNew_Pits s). \<not> Pit_Default q" by (auto simp: find_None_iff)
  show ?thesis
  proof (cases "SecNew_Pits s")
    case (Cons p ps)
    have "\<exists>before after. p # ps = before @ p # after \<and> filter Pit_Default before = []"
      by (intro exI [of _ "[]"] exI [of _ ps]) simp
    with None n Cons show ?thesis by (auto simp: SecNew_DefaultPit_def)
  qed (simp add: SecNew_DefaultPit_def)
next
  case (Some p)
  then obtain i where i: "i < length (SecNew_Pits s)" "Pit_Default p" "p = SecNew_Pits s ! i"
    "\<forall>j < i. \<not> Pit_Default (SecNew_Pits s ! j)"
    by (auto simp: find_Some_iff)
  have "SecNew_Pits s = take i (SecNew_Pits s) @ p # drop (Suc i) (SecNew_Pits s)"
    using i by (simp add: id_take_nth_drop)
  moreover have "filter Pit_Default (take i (SecNew_Pits s)) = []"
    using i by (auto simp: filter_empty_conv in_set_conv_nth)
  ultimately show ?thesis using i Some by (auto simp: SecNew_DefaultPit_def)
qed

end
