(* ===== verification/Service_Records.thy ===== *)
theory Service_Records
  imports Sticky_Reader
begin

text \<open>
  Decoders of the service records: C-strings, messages, news, server messages, option
  families and strikes, the state records of \<open>misc.go\<close>. Each decoder is the sequence of reads
  of its Go function with an early return after each of them; a partial value that Go returns
  next to an error is not represented (no caller uses it).

  \<open>compress/zlib\<close> is a parameter: \<open>zlen data\<close> is the number of bytes of the zlib stream at the
  start of \<open>data\<close> (\<open>None\<close> when there is no valid stream), and \<open>zread data n\<close> the first \<open>n\<close> bytes
  of what it inflates to.
\<close>

unbundle bit_operations_syntax

subsection \<open>C-strings\<close>

primrec cstring_loop :: "nat \<Rightarrow> bytes \<Rightarrow> bytes rd" where
  "cstring_loop 0 out =
     rbind (field ''C-string'' Reader_Byte) (\<lambda>b.
       if b = 0 then ret out else fail (Errorf ''C-string longer than %d bytes without NUL'' []))"
| "cstring_loop (Suc k) out =
     rbind (field ''C-string'' Reader_Byte) (\<lambda>b.
       if b = 0 then ret out else cstring_loop k (out @ [b]))"

definition readCString :: "nat \<Rightarrow> bytes rd" where
  "readCString maxlen = cstring_loop maxlen []"

lemma wire_reader_cstring [wire_local]: "wire_reader (readCString n)"
proof -
  have "wire_reader (cstring_loop k out)" for k out
    by (induction k arbitrary: out) (auto intro!: wire_local)
  then show ?thesis by (simp add: readCString_def)
qed

lemma cstring_loop_suffix:
  assumes "valid r"
  shows "fst (cstring_loop k out r) = Inr v \<longleftrightarrow>
    (let bs = drop (roff r) (rbuf r); t = takeWhile (\<lambda>c. c \<noteq> 0) bs
     in length t < length bs \<and> length t \<le> k \<and> v = out @ t)"
    and "fst (cstring_loop k out r) = Inr v \<Longrightarrow>
      snd (cstring_loop k out r) = r\<lparr>roff := roff r + (length v - length out) + 1\<rparr>"
proof -
  have "(fst (cstring_loop k out r) = Inr v \<longleftrightarrow>
    (let bs = drop (roff r) (rbuf r); t = takeWhile (\<lambda>c. c \<noteq> 0) bs
     in length t < length bs \<and> length t \<le> k \<and> v = out @ t))
    \<and> (fst (cstring_loop k out r) = Inr v \<longrightarrow>
      snd (cstring_loop k out r) = r\<lparr>roff := roff r + (length v - length out) + 1\<rparr>)"
    using assms
  proof (induction k arbitrary: out r)
    case 0
    then show ?case
      by (cases "drop (roff r) (rbuf r)")
        (auto simp: rbind_def field_def ret_def fail_def Reader_Byte_def Reader_Len_def valid_def Let_def
          nth_via_drop)
  next
    case (Suc k)
    show ?case
    proof (cases "drop (roff r) (rbuf r)")
      case Nil
      then show ?thesis
        by (simp add: rbind_def field_def Reader_Byte_def Reader_Len_def)
    next
      case (Cons b bs)
      let ?r = "r\<lparr>roff := roff r + 1\<rparr>"
      have l: "roff r < length (rbuf r)" using Cons by (metis drop_all list.distinct(1) not_le)
      have d: "rbuf r ! roff r = b" "drop (roff r + 1) (rbuf r) = bs"
        using Cons by (auto simp: nth_via_drop) (metis drop_Suc drop_tl list.sel(3))
      have byte: "Reader_Byte r = (Inr b, ?r)"
        using l d by (simp add: Reader_Byte_def Reader_Len_def)
      have v: "valid ?r" using l by (simp add: valid_def)
      show ?thesis
      proof (cases "b = 0")
        case True
        then show ?thesis using byte Cons by (auto simp: rbind_def field_def ret_def Let_def)
      next
        case False
        have "cstring_loop (Suc k) out r = cstring_loop k (out @ [b]) ?r"
          using byte False by (simp add: rbind_def field_def)
        then show ?thesis
          using Suc.IH [OF v, of "out @ [b]"] False d Cons
          by (auto simp: Let_def)
      qed
    qed
  qed
  then show "fst (cstring_loop k out r) = Inr v \<longleftrightarrow>
    (let bs = drop (roff r) (rbuf r); t = takeWhile (\<lambda>c. c \<noteq> 0) bs
     in length t < length bs \<and> length t \<le> k \<and> v = out @ t)"
    and "fst (cstring_loop k out r) = Inr v \<Longrightarrow>
      snd (cstring_loop k out r) = r\<lparr>roff := roff r + (length v - length out) + 1\<rparr>" by auto
qed

text \<open>The byte-by-byte \<open>readCString\<close> of the record layer and \<open>wire.Reader.String\<close> accept
  the same fields, with the same text, and leave the reader at the same position; they
  differ only in what a failed read leaves behind.\<close>

theorem readCString_String:
  "valid r \<Longrightarrow> readCString n r = (Inr s, r') \<longleftrightarrow> Reader_String n r = (Inr s, r')"
  using cstring_loop_suffix [of r n "[]" s] Reader_String_suffix [of r n]
  by (cases "readCString n r") (auto simp: readCString_def valid_def Let_def split: if_splits)

theorem readCString_String_witness:
  "valid \<lparr>rbuf = [9, 65, 66, 0, 7], roff = 1\<rparr>
    \<and> readCString 2 \<lparr>rbuf = [9, 65, 66, 0, 7], roff = 1\<rparr> = (Inr [65, 66], \<lparr>rbuf = [9, 65, 66, 0, 7], roff = 4\<rparr>)"
  using readCString_String [of "\<lparr>rbuf = [9, 65, 66, 0, 7], roff = 1\<rparr>" 2 "[65, 66]" "\<lparr>rbuf = [9, 65, 66, 0, 7], roff = 4\<rparr>"]
  by (simp add: valid_def Reader_String_suffix)

subsection \<open>The decoders\<close>

subsection \<open>misc.go\<close>

record EdpRate =
  EdpRate_Pair :: bytes
  EdpRate_Name :: bytes
  EdpRate_Byte :: byte
  EdpRate_Rate :: i32

definition edp_rate :: "EdpRate rd" where
  "edp_rate =
     rbind (field ''R_EDP_RATE pair'' (Reader_String 4)) (\<lambda>pair.
     rbind (field ''R_EDP_RATE name'' (Reader_String 25)) (\<lambda>name.
     rbind (field ''R_EDP_RATE byte'' Reader_Byte) (\<lambda>b.
     rbind (field ''R_EDP_RATE rate'' Reader_Int32) (\<lambda>rate.
       ret \<lparr>EdpRate_Pair = pair, EdpRate_Name = name, EdpRate_Byte = b, EdpRate_Rate = rate\<rparr>))))"

definition ParseEdpRate :: "bytes \<Rightarrow> err + EdpRate" where
  "ParseEdpRate body = decode_body edp_rate body"

record AmBookLevel =
  AmBookLevel_Flags :: byte
  AmBookLevel_Byte :: byte
  AmBookLevel_Int1 :: i32
  AmBookLevel_Int2 :: i32
  AmBookLevel_Text :: bytes
  AmBookLevel_Int3 :: i32

record AmBook =
  AmBook_SecID :: u16
  AmBook_Levels :: "AmBookLevel list"

definition am_book_step :: "AmBookLevel list \<Rightarrow> (AmBookLevel list + AmBookLevel list) rd" where
  "am_book_step levels =
     rbind (field ''AmBOOK flags'' Reader_Byte) (\<lambda>flags.
       if flags = 0xff then ret (Inr levels)
       else if flags AND NOT 0x1f \<noteq> 0
       then fail (Errorf ''AmBOOK: unsupported flags %#02x'' [uint flags])
       else
         rbind (rwhen (flags AND 0x01 \<noteq> 0) 0 (field ''AmBOOK byte'' Reader_Byte)) (\<lambda>b.
         rbind (rwhen (flags AND 0x02 \<noteq> 0) 0 (field ''AmBOOK int1'' Reader_Int32)) (\<lambda>int1.
         rbind (rwhen (flags AND 0x04 \<noteq> 0) 0 (field ''AmBOOK int2'' Reader_Int32)) (\<lambda>int2.
         rbind (rwhen (flags AND 0x08 \<noteq> 0) [] (field ''AmBOOK text'' (Reader_String 4))) (\<lambda>text.
         rbind (rwhen (flags AND 0x10 \<noteq> 0) 0 (field ''AmBOOK int3'' Reader_Int32)) (\<lambda>int3.
           ret (Inl (levels @ [\<lparr>AmBookLevel_Flags = flags, AmBookLevel_Byte = b,
             AmBookLevel_Int1 = int1, AmBookLevel_Int2 = int2, AmBookLevel_Text = text,
             AmBookLevel_Int3 = int3\<rparr>]))))))))"

definition am_book :: "AmBook rd" where
  "am_book =
     rbind (field ''AmBOOK secid'' Reader_Uint16) (\<lambda>secid.
     rbind (rfor am_book_step []) (\<lambda>levels.
       ret \<lparr>AmBook_SecID = secid, AmBook_Levels = levels\<rparr>))"

definition ParseAmBook :: "bytes \<Rightarrow> err + AmBook" where
  "ParseAmBook body = decode_body am_book body"

definition ParseFortsSession :: "bytes \<Rightarrow> err + i32" where
  "ParseFortsSession body = decode_body (field ''R_FORTS_SESSION session'' Reader_Int32) body"

subsection \<open>message.go and server_message.go\<close>

record RMsg =
  RMsg_Flags :: byte
  RMsg_From :: bytes
  RMsg_Date :: i64
  RMsg_Text :: bytes

definition r_msg :: "RMsg rd" where
  "r_msg =
     rbind (field ''R_MSG flags'' Reader_Byte) (\<lambda>flags.
     rbind (field ''R_MSG from'' (readCString 20)) (\<lambda>from'.
     rbind (field ''R_MSG date'' Reader_Int32) (\<lambda>date.
     rbind (field ''R_MSG text'' (readCString 1024)) (\<lambda>text.
       ret \<lparr>RMsg_Flags = flags, RMsg_From = from', RMsg_Date = scast date, RMsg_Text = text\<rparr>))))"

definition ParseRMsg :: "bytes \<Rightarrow> err + RMsg" where
  "ParseRMsg body =
     decode_body (rbind r_msg (\<lambda>m. rbind (at_end ''R_MSG: %d trailing bytes'') (\<lambda>_. ret m))) body"

definition SkipMessage :: "unit rd" where
  "SkipMessage =
     rbind (field ''R_MSG flags'' Reader_Byte) (\<lambda>_.
     rbind (field ''R_MSG from'' (readCString 20)) (\<lambda>_.
     rbind (field ''R_MSG date'' Reader_Int32) (\<lambda>_.
     rbind (field ''R_MSG text'' (readCString 1024)) (\<lambda>_. ret ()))))"

record ServerMessage =
  ServerMessage_Type :: byte
  ServerMessage_Status :: byte
  ServerMessage_Text :: bytes
  ServerMessage_TransactionID :: i64

definition ParseServerMessage :: "(bytes \<Rightarrow> bytes option) \<Rightarrow> bytes \<Rightarrow> err + ServerMessage" where
  "ParseServerMessage win body =
     decode_body
       (rbind (field ''R_RES type'' Reader_Byte) (\<lambda>typ.
        rbind (field ''R_RES status'' Reader_Byte) (\<lambda>status.
        rbind (field ''R_RES text'' (readCString 512)) (\<lambda>text.
        rbind (field ''R_RES transactionid'' Reader_Int64) (\<lambda>tid. \<lambda>r.
          if Reader_Len r > 0
          then (Inl (WrapN ''%w: R_RES tail %d bytes (I)'' [int (Reader_Len r)] ErrUnknownRecord), r)
          else if (typ \<noteq> 1 \<and> typ \<noteq> 2) \<or> status = 4
          then (Inl (WrapN ''%w: R_RES type=%d status=%d tail is I'' [uint typ, uint status] ErrUnknownRecord), r)
          else (Inr \<lparr>ServerMessage_Type = typ, ServerMessage_Status = status,
                 ServerMessage_Text = DecodeCP1251 win text, ServerMessage_TransactionID = tid\<rparr>, r))))))
       body"

subsection \<open>news.go\<close>

record NewsHeaderRecord =
  NewsHeaderRecord_ID :: i64
  NewsHeaderRecord_Timestamp :: i64
  NewsHeaderRecord_Source :: bytes
  NewsHeaderRecord_Title :: bytes
  NewsHeaderRecord_Flag :: byte

definition readNewsHeaderFields :: "NewsHeaderRecord rd" where
  "readNewsHeaderFields =
     rbind (field ''R_NEWS id'' Reader_Int32) (\<lambda>id'.
     rbind (field ''R_NEWS timestamp'' Reader_Int32) (\<lambda>ts.
     rbind (field ''R_NEWS source'' (readCString 16)) (\<lambda>source.
     rbind (field ''R_NEWS title'' (readCString 128)) (\<lambda>title.
     rbind (field ''R_NEWS flag'' Reader_Byte) (\<lambda>flag.
       ret \<lparr>NewsHeaderRecord_ID = scast id', NewsHeaderRecord_Timestamp = scast ts,
            NewsHeaderRecord_Source = source, NewsHeaderRecord_Title = title,
            NewsHeaderRecord_Flag = flag\<rparr>)))))"

record NewsUpload =
  NewsUpload_Flags :: byte
  NewsUpload_Header :: "NewsHeaderRecord option"
  NewsUpload_NewsID :: i64
  NewsUpload_HasID :: bool
  NewsUpload_Package :: bytes

definition newsBodyPackageLen :: "(bytes \<Rightarrow> nat option) \<Rightarrow> bytes \<Rightarrow> err + nat" where
  "newsBodyPackageLen zlen rest =
     (if length rest < 8
      then Inl (WrapN ''%w: R_NEWS_UPLOAD package is %d bytes'' [int (length rest)] ErrUnknownRecord)
      else (case zlen (drop 4 rest) of
          None \<Rightarrow> Inl (WrapN ''%w: R_NEWS_UPLOAD zlib'' [] ErrUnknownRecord)
        | Some off \<Rightarrow> Inr (4 + off)))"

definition TagNews :: byte where "TagNews = 0x35"
definition TagNewsUpload :: byte where "TagNewsUpload = 0x36"

text \<open>The error of \<open>p\<close> replaced by \<open>e\<close>.\<close>

definition on_error :: "err \<Rightarrow> 'a rd \<Rightarrow> 'a rd" where
  "on_error e p r = (case p r of (Inl _, r') \<Rightarrow> (Inl e, r') | (Inr a, r') \<Rightarrow> (Inr a, r'))"

definition SkipNews :: "(bytes \<Rightarrow> nat option) \<Rightarrow> byte \<Rightarrow> unit rd" where
  "SkipNews zlen tag =
     (if tag = TagNews then rbind readNewsHeaderFields (\<lambda>_. ret ())
      else if tag = TagNewsUpload then
        rbind (field ''R_NEWS_UPLOAD flags'' Reader_Byte) (\<lambda>flags.
        rbind (if flags AND 1 \<noteq> 0 then rbind readNewsHeaderFields (\<lambda>_. ret ()) else ret ()) (\<lambda>_.
          if flags AND 2 \<noteq> 0 then
            rbind (if flags AND 1 = 0
                   then rbind (field ''R_NEWS_UPLOAD news id'' Reader_Int32) (\<lambda>_. ret ()) else ret ()) (\<lambda>_.
            if flags AND 1 \<noteq> 0 then
              rbind (field ''R_NEWS_UPLOAD package length'' Reader_Int32) (\<lambda>sz. \<lambda>r.
                if sint sz < 0 \<or> sint sz > int (Reader_Len r)
                then (Inl (UnknownRecordError TagNewsUpload 0), r)
                else Reader_Skip (sint sz) r)
            else
              rbind (on_error (UnknownRecordError TagNewsUpload 0) (Reader_Skip 4)) (\<lambda>_. \<lambda>r.
                case newsBodyPackageLen zlen (Reader_Remaining r) of
                  Inl e \<Rightarrow> (Inl e, r)
                | Inr n \<Rightarrow> Reader_Skip (int n) r))
          else ret ()))
      else fail (Errorf ''R_NEWS: unexpected tag %#x'' [uint tag]))"

definition ParseNewsHeader :: "bytes \<Rightarrow> err + NewsHeaderRecord" where
  "ParseNewsHeader body =
     decode_body (rbind readNewsHeaderFields (\<lambda>h.
       rbind (at_end ''RNEWS: %d trailing bytes'') (\<lambda>_. ret h))) body"

definition news_upload :: "(bytes \<Rightarrow> nat option) \<Rightarrow> NewsUpload rd" where
  "news_upload zlen =
     rbind (field ''R_NEWS_UPLOAD flags'' Reader_Byte) (\<lambda>flags.
     rbind (if flags AND 1 \<noteq> 0 then rmap Some readNewsHeaderFields else ret None) (\<lambda>header.
       if flags AND 2 \<noteq> 0 then
         rbind (if flags AND 1 = 0
                then rmap Some (field ''R_NEWS_UPLOAD news id'' Reader_Int32) else ret None) (\<lambda>newsid.
         rbind
           (if flags AND 1 \<noteq> 0 then
              rbind (field ''R_NEWS_UPLOAD package length'' Reader_Int32) (\<lambda>sz. \<lambda>r.
                if sint sz < 0 \<or> sint sz > int (Reader_Len r)
                then (Inl (WrapN ''%w: R_NEWS_UPLOAD package length %d'' [sint sz] ErrUnknownRecord), r)
                else field ''R_NEWS_UPLOAD package'' (Reader_Raw (sint sz)) r)
            else
              rbind (on_error (WrapN ''%w: R_NEWS_UPLOAD body'' [] ErrUnknownRecord) (Reader_Skip 4)) (\<lambda>_. \<lambda>r.
                case newsBodyPackageLen zlen (Reader_Remaining r) of
                  Inl e \<Rightarrow> (Inl e, r)
                | Inr n \<Rightarrow> field ''R_NEWS_UPLOAD package'' (Reader_Raw (int n)) r)) (\<lambda>package.
           ret \<lparr>NewsUpload_Flags = flags, NewsUpload_Header = header,
                NewsUpload_NewsID = (case newsid of Some i \<Rightarrow> scast i | None \<Rightarrow> 0),
                NewsUpload_HasID = (newsid \<noteq> None), NewsUpload_Package = package\<rparr>))
       else ret \<lparr>NewsUpload_Flags = flags, NewsUpload_Header = header, NewsUpload_NewsID = 0,
                 NewsUpload_HasID = False, NewsUpload_Package = []\<rparr>))"

definition ParseNewsUpload :: "(bytes \<Rightarrow> nat option) \<Rightarrow> bytes \<Rightarrow> err + NewsUpload" where
  "ParseNewsUpload zlen body =
     decode_body (rbind (news_upload zlen) (\<lambda>u.
       rbind (at_end ''R_NEWS_UPLOAD: %d trailing bytes'') (\<lambda>_. ret u))) body"

definition le32_nat :: "bytes \<Rightarrow> nat" where
  "le32_nat b = unat (foldr (\<lambda>b m. push_bit 8 m OR ucast b) (take 4 b) (0 :: u32))"

definition UnpackNewsBody :: "(bytes \<Rightarrow> nat \<Rightarrow> err + bytes) \<Rightarrow> bytes \<Rightarrow> err + bytes" where
  "UnpackNewsBody zread pkg =
     (if length pkg < 8 then Inl (Errorf ''news package: %d bytes, need at least 8'' [int (length pkg)])
      else
        let expected = le32_nat pkg in
        if expected > 16 * 2 ^ 20
        then Inl (Errorf ''news package: suspicious uncompressed size %d'' [int expected])
        else (case zread (drop 4 pkg) (expected + 1) of
            Inl e \<Rightarrow> Inl (Wrap ''news package inflate'' e)
          | Inr body \<Rightarrow>
              if length body \<noteq> expected
              then Inl (Errorf ''news package: uncompressed %d bytes, header says %d''
                     [int (length body), int expected])
              else Inr body))"

subsection \<open>options.go\<close>

record FamilyRecord =
  FamilyRecord_SecID :: u16
  FamilyRecord_OptCode :: bytes
  FamilyRecord_First :: i64
  FamilyRecord_Second :: i64

record EndOfFamilyRecord =
  EndOfFamilyRecord_SecID :: u16
  EndOfFamilyRecord_OptCode :: bytes
  EndOfFamilyRecord_Code :: i64
  EndOfFamilyRecord_Text :: bytes

record EndOfFamiliesRecord =
  EndOfFamiliesRecord_SecID :: u16
  EndOfFamiliesRecord_Text :: bytes

record StrikeItem =
  StrikeItem_OptCode :: bytes
  StrikeItem_CP :: byte
  StrikeItem_Price :: i64

record StrikesRecord =
  StrikesRecord_SecID :: u16
  StrikesRecord_FamilyID :: i64
  StrikesRecord_Items :: "StrikeItem list"
  StrikesRecord_Final :: byte

definition readEndOfFamilies :: "EndOfFamiliesRecord rd" where
  "readEndOfFamilies =
     rbind (field ''R_END_OF_FAMILIES secid'' Reader_Uint16) (\<lambda>secid.
     rbind (field ''R_END_OF_FAMILIES text'' (readCString 0x200)) (\<lambda>text.
       ret \<lparr>EndOfFamiliesRecord_SecID = secid, EndOfFamiliesRecord_Text = text\<rparr>))"

definition readFamily :: "FamilyRecord rd" where
  "readFamily =
     rbind (field ''R_FAMILY secid'' Reader_Uint16) (\<lambda>secid.
     rbind (field ''R_FAMILY opt_code'' (readCString 6)) (\<lambda>code.
     rbind (field ''R_FAMILY first'' Reader_Int32) (\<lambda>first.
     rbind (field ''R_FAMILY second'' Reader_Int32) (\<lambda>second.
       ret \<lparr>FamilyRecord_SecID = secid, FamilyRecord_OptCode = code,
            FamilyRecord_First = scast first, FamilyRecord_Second = scast second\<rparr>))))"

definition readEndOfFamily :: "EndOfFamilyRecord rd" where
  "readEndOfFamily =
     rbind (field ''R_END_OF_FAMILY secid'' Reader_Uint16) (\<lambda>secid.
     rbind (field ''R_END_OF_FAMILY opt_code'' (readCString 6)) (\<lambda>code.
     rbind (field ''R_END_OF_FAMILY value'' Reader_Int32) (\<lambda>value'.
     rbind (field ''R_END_OF_FAMILY text'' (readCString 512)) (\<lambda>text.
       ret \<lparr>EndOfFamilyRecord_SecID = secid, EndOfFamilyRecord_OptCode = code,
            EndOfFamilyRecord_Code = scast value', EndOfFamilyRecord_Text = text\<rparr>))))"

definition strikes_step :: "StrikeItem list \<Rightarrow> (StrikeItem list + StrikeItem list) rd" where
  "strikes_step items =
     rbind (field ''R_STRIKES opt_code'' (readCString 26)) (\<lambda>code.
       if code = [] then ret (Inr items)
       else
         rbind (field ''R_STRIKES cp'' Reader_Byte) (\<lambda>cp.
         rbind (field ''R_STRIKES price'' Reader_Int32) (\<lambda>price.
           ret (Inl (items @ [\<lparr>StrikeItem_OptCode = code, StrikeItem_CP = cp,
             StrikeItem_Price = scast price\<rparr>])))))"

definition readStrikes :: "StrikesRecord rd" where
  "readStrikes =
     rbind (field ''R_STRIKES secid'' Reader_Uint16) (\<lambda>secid.
     rbind (field ''R_STRIKES family'' Reader_Int32) (\<lambda>family.
     rbind (rfor strikes_step []) (\<lambda>items.
     rbind (field ''R_STRIKES final'' Reader_Byte) (\<lambda>final.
       ret \<lparr>StrikesRecord_SecID = secid, StrikesRecord_FamilyID = scast family,
            StrikesRecord_Items = items, StrikesRecord_Final = final\<rparr>))))"

definition TagFamily :: byte where "TagFamily = 0x6f"
definition TagEndOfFamily :: byte where "TagEndOfFamily = 0x71"
definition TagEndOfFamilies :: byte where "TagEndOfFamilies = 0x70"
definition TagStrikes :: byte where "TagStrikes = 0x78"

definition SkipOptionRecord :: "byte \<Rightarrow> unit rd" where
  "SkipOptionRecord tag =
     (if tag = TagFamily then rbind readFamily (\<lambda>_. ret ())
      else if tag = TagEndOfFamily then rbind readEndOfFamily (\<lambda>_. ret ())
      else if tag = TagEndOfFamilies then rbind readEndOfFamilies (\<lambda>_. ret ())
      else if tag = TagStrikes then rbind readStrikes (\<lambda>_. ret ())
      else fail (Errorf ''options: unexpected tag %#x'' [uint tag]))"

definition ParseEndOfFamilies :: "bytes \<Rightarrow> err + EndOfFamiliesRecord" where
  "ParseEndOfFamilies body =
     decode_body (rbind readEndOfFamilies (\<lambda>x.
       rbind (at_end ''R_END_OF_FAMILIES: %d trailing bytes'') (\<lambda>_. ret x))) body"

definition ParseFamily :: "bytes \<Rightarrow> err + FamilyRecord" where
  "ParseFamily body =
     decode_body (rbind readFamily (\<lambda>x.
       rbind (at_end ''R_FAMILY: %d trailing bytes'') (\<lambda>_. ret x))) body"

definition ParseEndOfFamily :: "bytes \<Rightarrow> err + EndOfFamilyRecord" where
  "ParseEndOfFamily body =
     decode_body (rbind readEndOfFamily (\<lambda>x.
       rbind (at_end ''R_END_OF_FAMILY: %d trailing bytes'') (\<lambda>_. ret x))) body"

definition ParseStrikes :: "bytes \<Rightarrow> err + StrikesRecord" where
  "ParseStrikes body =
     decode_body (rbind readStrikes (\<lambda>x.
       rbind (at_end ''R_STRIKES: %d trailing bytes'') (\<lambda>_. ret x))) body"

subsection \<open>The decoders keep the reader contract\<close>

lemma wire_reader_edp_rate [wire_local]: "wire_reader edp_rate"
  unfolding edp_rate_def by (intro wire_local)

lemma am_book_loop: "wire_reader (am_book_step s)" "advances (am_book_step s)"
  unfolding am_book_step_def by (intro wire_local)+

lemma wire_reader_am_book [wire_local]: "wire_reader am_book"
  unfolding am_book_def by (intro wire_local am_book_loop)

lemma wire_reader_r_msg [wire_local]: "wire_reader r_msg"
  unfolding r_msg_def by (intro wire_local)

lemma wire_reader_SkipMessage [wire_local]: "wire_reader SkipMessage"
  unfolding SkipMessage_def by (intro wire_local)

lemma wire_reader_news_header [wire_local]: "wire_reader readNewsHeaderFields"
  unfolding readNewsHeaderFields_def by (intro wire_local)

lemma advances_cstring [wire_local]: "advances (readCString n)"
proof -
  have "advances (Reader_String n)" by (rule wire_local)
  then show ?thesis
    using readCString_String [where n = n] by (auto simp: advances_def)
qed

lemma strikes_loop: "wire_reader (strikes_step s)" "advances (strikes_step s)"
  unfolding strikes_step_def by (intro wire_local)+

lemma wire_reader_options [wire_local]:
  "wire_reader readFamily" "wire_reader readEndOfFamily" "wire_reader readEndOfFamilies"
  "wire_reader readStrikes" "wire_reader (SkipOptionRecord tag)"
proof -
  show f: "wire_reader readFamily" "wire_reader readEndOfFamily" "wire_reader readEndOfFamilies"
    unfolding readFamily_def readEndOfFamily_def readEndOfFamilies_def by (intro wire_local)+
  show s: "wire_reader readStrikes"
    unfolding readStrikes_def by (intro wire_local strikes_loop)
  show "wire_reader (SkipOptionRecord tag)"
    unfolding SkipOptionRecord_def by (intro wire_local f s)
qed

interpretation am_book: wire_loop am_book_step by (rule wire_loopI) (rule am_book_loop)+
interpretation strikes: wire_loop strikes_step by (rule wire_loopI) (rule strikes_loop)+
interpretation strikes_loop: consuming_loop strikes_step by (rule strikes.consuming_loop_axioms)

end
