(* ===== verification/Market_Records.thy ===== *)
theory Market_Records
  imports Securities Service_Records
begin

text \<open>
  Decoders of the market-data records: R_ALLTRADE, R_QUOTES, R_HISTORY, TICK and RQ_TICKS,
  R_QUOTATION, R_SEC_PARAM, RQ_SEC_SPEC, R_SEC_RATE, R_SEC_MKT_PERMIT and R_DATE.
\<close>

unbundle bit_operations_syntax

subsection \<open>R_ALLTRADE\<close>

record AllTrade =
  AllTrade_SecID :: u16
  AllTrade_Board :: u16
  AllTrade_TradeNo :: i64
  AllTrade_Time :: i64
  AllTrade_Price :: i64
  AllTrade_Quantity :: i64
  AllTrade_Flags :: u16
  AllTrade_Period :: byte
  AllTrade_BuySell :: byte
  AllTrade_OpenInt :: i64
  AllTrade_Millis :: u16
  AllTrade_Field2 :: i32
  AllTrade_Field2Long :: i64
  AllTrade_Field4 :: i64
  AllTrade_Text :: bytes
  AllTrade_Block20 :: "i64 list"
  AllTrade_Currency :: bytes

definition AllTradePeriod :: u16 where "AllTradePeriod = 0x0001"
definition AllTradeField2 :: u16 where "AllTradeField2 = 0x0002"
definition AllTradeField4 :: u16 where "AllTradeField4 = 0x0004"
definition AllTradeBuySell :: u16 where "AllTradeBuySell = 0x0008"
definition AllTradeText :: u16 where "AllTradeText = 0x0010"
definition AllTradeBlock20 :: u16 where "AllTradeBlock20 = 0x0020"
definition AllTradeOpenInterest :: u16 where "AllTradeOpenInterest = 0x0040"
definition AllTradeCurrency :: u16 where "AllTradeCurrency = 0x0080"
definition AllTradeMillis :: u16 where "AllTradeMillis = 0x0100"

definition r_alltrade :: "(bytes \<Rightarrow> bytes option) \<Rightarrow> AllTrade sr" where
  "r_alltrade win =
     do { secid \<leftarrow> r_word; board \<leftarrow> r_word; tradeno \<leftarrow> r_int64; tm \<leftarrow> r_int32;
          price \<leftarrow> r_int32; quantity \<leftarrow> r_int32; f \<leftarrow> r_word;
          period \<leftarrow> s_when (f AND AllTradePeriod \<noteq> 0) 0 r_byte;
          field2 \<leftarrow> s_when (f AND AllTradeField2 \<noteq> 0) 0 r_int32;
          field4 \<leftarrow> s_when (f AND AllTradeField4 \<noteq> 0) 0 r_int64;
          field2long \<leftarrow> s_when (f AND AllTradeField2 \<noteq> 0) 0 r_int64;
          buysell \<leftarrow> s_when (f AND AllTradeBuySell \<noteq> 0) 0 r_byte;
          text \<leftarrow> s_when (f AND AllTradeText \<noteq> 0) [] (r_str win 0xc);
          block20 \<leftarrow> s_when (f AND AllTradeBlock20 \<noteq> 0) [0, 0, 0, 0]
            (do { a \<leftarrow> r_int32; b \<leftarrow> r_int32; c \<leftarrow> r_int64; d \<leftarrow> r_int64;
                  State_Monad.return [scast a, scast b, c, d] });
          openint \<leftarrow> s_when (f AND AllTradeOpenInterest \<noteq> 0) 0 r_int32;
          currency \<leftarrow> s_when (f AND AllTradeCurrency \<noteq> 0) [] (r_str win 4);
          millis \<leftarrow> s_when (f AND AllTradeMillis \<noteq> 0) 1000 r_word;
          State_Monad.return
            \<lparr>AllTrade_SecID = secid, AllTrade_Board = board, AllTrade_TradeNo = tradeno,
             AllTrade_Time = scast tm, AllTrade_Price = scast price,
             AllTrade_Quantity = scast quantity, AllTrade_Flags = f, AllTrade_Period = period,
             AllTrade_BuySell = buysell, AllTrade_OpenInt = scast openint, AllTrade_Millis = millis,
             AllTrade_Field2 = field2, AllTrade_Field2Long = field2long, AllTrade_Field4 = field4,
             AllTrade_Text = text, AllTrade_Block20 = block20, AllTrade_Currency = currency\<rparr> }"

definition ParseAllTrade :: "(bytes \<Rightarrow> bytes option) \<Rightarrow> bytes \<Rightarrow> err + AllTrade" where
  "ParseAllTrade win body = run_sticky ''R_ALLTRADE'' (r_alltrade win) body"

definition alltrade_rd :: "(bytes \<Rightarrow> bytes option) \<Rightarrow> AllTrade rd" where
  "alltrade_rd win =
     rbind Reader_Uint16 (\<lambda>secid. rbind Reader_Uint16 (\<lambda>board. rbind Reader_Int64 (\<lambda>tradeno.
     rbind Reader_Int32 (\<lambda>tm. rbind Reader_Int32 (\<lambda>price. rbind Reader_Int32 (\<lambda>quantity.
     rbind Reader_Uint16 (\<lambda>f.
     rbind (rwhen (f AND AllTradePeriod \<noteq> 0) 0 Reader_Byte) (\<lambda>period.
     rbind (rwhen (f AND AllTradeField2 \<noteq> 0) 0 Reader_Int32) (\<lambda>field2.
     rbind (rwhen (f AND AllTradeField4 \<noteq> 0) 0 Reader_Int64) (\<lambda>field4.
     rbind (rwhen (f AND AllTradeField2 \<noteq> 0) 0 Reader_Int64) (\<lambda>field2long.
     rbind (rwhen (f AND AllTradeBuySell \<noteq> 0) 0 Reader_Byte) (\<lambda>buysell.
     rbind (rwhen (f AND AllTradeText \<noteq> 0) [] (str_rd win 0xc)) (\<lambda>text.
     rbind (rwhen (f AND AllTradeBlock20 \<noteq> 0) [0, 0, 0, 0]
       (rbind Reader_Int32 (\<lambda>a. rbind Reader_Int32 (\<lambda>b. rbind Reader_Int64 (\<lambda>c.
        rbind Reader_Int64 (\<lambda>d. ret [scast a, scast b, c, d])))))) (\<lambda>block20.
     rbind (rwhen (f AND AllTradeOpenInterest \<noteq> 0) 0 Reader_Int32) (\<lambda>openint.
     rbind (rwhen (f AND AllTradeCurrency \<noteq> 0) [] (str_rd win 4)) (\<lambda>currency.
     rbind (rwhen (f AND AllTradeMillis \<noteq> 0) 1000 Reader_Uint16) (\<lambda>millis.
       ret \<lparr>AllTrade_SecID = secid, AllTrade_Board = board, AllTrade_TradeNo = tradeno,
            AllTrade_Time = scast tm, AllTrade_Price = scast price,
            AllTrade_Quantity = scast quantity, AllTrade_Flags = f, AllTrade_Period = period,
            AllTrade_BuySell = buysell, AllTrade_OpenInt = scast openint, AllTrade_Millis = millis,
            AllTrade_Field2 = field2, AllTrade_Field2Long = field2long, AllTrade_Field4 = field4,
            AllTrade_Text = text, AllTrade_Block20 = block20, AllTrade_Currency = currency\<rparr>)))))))))))))))))"

lemma sticky_alltrade: "sticky_refines (r_alltrade win) (alltrade_rd win)"
  unfolding r_alltrade_def alltrade_rd_def by (intro sticky_intro)

interpretation alltrade_reader: sticky_refines "r_alltrade win" "alltrade_rd win" for win
  by (rule sticky_alltrade)

text \<open>\<open>ParseAllTrade\<close> decodes the mask-selected layout with an early return after every
  read: a body that runs out yields the error of the field it ran out in, and a body that
  does not yields all its fields.\<close>

theorem ParseAllTrade_refines:
  "ParseAllTrade win body = (case decode_body (alltrade_rd win) body of
     Inl e \<Rightarrow> Inl (Wrap ''R_ALLTRADE'' e) | Inr t \<Rightarrow> Inr t)"
  unfolding ParseAllTrade_def by (rule alltrade_reader.run_sticky_decode)

subsection \<open>R_QUOTES\<close>

record QuoteLevel =
  QuoteLevel_Side :: byte
  QuoteLevel_Price :: i64
  QuoteLevel_Qty :: i64
  QuoteLevel_Deleted :: bool

record Quotes =
  Quotes_SecID :: u16
  Quotes_Board :: u16
  Quotes_Levels :: "QuoteLevel list"

text \<open>The state of the loop: the running price and the levels so far.\<close>

definition quotes_step :: "i64 \<times> QuoteLevel list \<Rightarrow> ((i64 \<times> QuoteLevel list) + QuoteLevel list) rd" where
  "quotes_step st =
     rbind (field ''R_QUOTES side'' Reader_Byte) (\<lambda>side.
       if side = 0xff then ret (Inr (snd st))
       else if side \<noteq> 66 \<and> side \<noteq> 83 then fail (Errorf ''R_QUOTES side: unexpected %#02x'' [uint side])
       else
         rbind (field ''R_QUOTES price delta'' Reader_Int32) (\<lambda>delta.
         rbind (field ''R_QUOTES quantity'' Reader_Int32) (\<lambda>qty.
           let price = fst st + scast delta;
               level = \<lparr>QuoteLevel_Side = side, QuoteLevel_Price = price, QuoteLevel_Qty = scast qty,
                        QuoteLevel_Deleted = (sint price < 1)\<rparr>
           in ret (Inl (price, snd st @ [level])))))"

definition quotes_rd :: "Quotes rd" where
  "quotes_rd =
     rbind (field ''R_QUOTES secid'' Reader_Uint16) (\<lambda>secid.
     rbind (field ''R_QUOTES board'' Reader_Uint16) (\<lambda>board.
     rbind (rfor quotes_step (0, [])) (\<lambda>levels.
       ret \<lparr>Quotes_SecID = secid, Quotes_Board = board, Quotes_Levels = levels\<rparr>)))"

definition ParseQuotes :: "bytes \<Rightarrow> err + Quotes" where
  "ParseQuotes body = decode_body quotes_rd body"

subsection \<open>R_HISTORY\<close>

record WireCandle =
  WireCandle_Time :: i64
  WireCandle_Open :: i64
  WireCandle_Close :: i64
  WireCandle_High :: i64
  WireCandle_Low :: i64
  WireCandle_Field6 :: i64
  WireCandle_Volume :: i64
  WireCandle_HasOI :: bool
  WireCandle_OI :: i64

record WireCandles =
  WireCandles_SecID :: u16
  WireCandles_Board :: u16
  WireCandles_Period :: byte
  WireCandles_Flag :: byte
  WireCandles_Items :: "WireCandle list"
  WireCandles_Status :: int

definition candle_of :: "i32 list \<Rightarrow> i32 option \<Rightarrow> WireCandle" where
  "candle_of v oi =
     \<lparr>WireCandle_Time = scast (v ! 0), WireCandle_Open = scast (v ! 1), WireCandle_Close = scast (v ! 2),
      WireCandle_High = scast (v ! 3), WireCandle_Low = scast (v ! 4), WireCandle_Field6 = scast (v ! 5),
      WireCandle_Volume = scast (v ! 6), WireCandle_HasOI = (oi \<noteq> None),
      WireCandle_OI = (case oi of None \<Rightarrow> 0 | Some x \<Rightarrow> scast x)\<rparr>"

definition candle_status :: "WireCandle list \<Rightarrow> (WireCandle list + (WireCandle list \<times> int)) rd" where
  "candle_status items =
     rbind (field ''R_HISTORY status'' Reader_Int32) (\<lambda>status.
     rbind (at_end ''R_HISTORY: %d trailing bytes after status'') (\<lambda>_.
       if sint status < 0 \<or> sint status > 3
       then fail (Errorf ''R_HISTORY: status %d out of 0..3'' [sint status])
       else ret (Inr (items, sint status))))"

definition candle_item :: "byte \<Rightarrow> WireCandle list \<Rightarrow> (WireCandle list + (WireCandle list \<times> int)) rd" where
  "candle_item flag items =
     rbind (rtimes 7 (field ''R_HISTORY candle'' Reader_Int32)) (\<lambda>values.
     rbind (rwhen (flag \<noteq> 0) None (rmap Some (field ''R_HISTORY openinterest'' Reader_Int32))) (\<lambda>oi.
       ret (Inl (items @ [candle_of values oi]))))"

definition candle_step :: "byte \<Rightarrow> WireCandle list \<Rightarrow> (WireCandle list + (WireCandle list \<times> int)) rd" where
  "candle_step flag items =
     with_len (\<lambda>n. if n = 0 then fail (Errorf ''R_HISTORY: missing status'' [])
                  else if n \<le> 5 then candle_status items else candle_item flag items)"

definition candles_rd :: "WireCandles rd" where
  "candles_rd =
     rbind (field ''R_HISTORY secid'' Reader_Uint16) (\<lambda>secid.
     rbind (field ''R_HISTORY board'' Reader_Uint16) (\<lambda>board.
     rbind (field ''R_HISTORY period'' Reader_Byte) (\<lambda>period.
     rbind (field ''R_HISTORY flag'' Reader_Byte) (\<lambda>flag.
     rbind (rfor (candle_step flag) []) (\<lambda>(items, status).
       ret \<lparr>WireCandles_SecID = secid, WireCandles_Board = board, WireCandles_Period = period,
            WireCandles_Flag = flag, WireCandles_Items = items, WireCandles_Status = status\<rparr>)))))"

definition ParseCandles :: "bytes \<Rightarrow> err + WireCandles" where
  "ParseCandles body = decode_body candles_rd body"

subsection \<open>TICK and RQ_TICKS\<close>

record TickRecord =
  TickRecord_SecID :: u16
  TickRecord_Board :: u16
  TickRecord_TradeNo :: i64
  TickRecord_Time :: i64
  TickRecord_Price :: i64
  TickRecord_Volume :: i64
  TickRecord_Period :: byte
  TickRecord_BuySell :: byte
  TickRecord_X :: i64
  TickRecord_Y :: i64

definition tick_step :: "TickRecord list \<Rightarrow> (TickRecord list + TickRecord list) rd" where
  "tick_step out =
     rbind (field ''TICK secid'' Reader_Uint16) (\<lambda>secid.
       if secid = 0xffff then ret (Inr out)
       else
         rbind (field ''TICK board'' Reader_Uint16) (\<lambda>board.
         rbind (field ''TICK tradeno'' Reader_Int64) (\<lambda>tradeno.
         rbind (field ''TICK time'' Reader_Int32) (\<lambda>tm.
         rbind (field ''TICK price'' Reader_Int32) (\<lambda>price.
         rbind (field ''TICK quantity'' Reader_Int32) (\<lambda>volume.
         rbind (field ''TICK period'' Reader_Byte) (\<lambda>period.
         rbind (field ''TICK buysell'' Reader_Byte) (\<lambda>buysell.
         rbind (field ''TICK X'' Reader_Int32) (\<lambda>x.
         rbind (field ''TICK Y'' Reader_Int32) (\<lambda>y.
           ret (Inl (out @ [\<lparr>TickRecord_SecID = secid, TickRecord_Board = board,
             TickRecord_TradeNo = tradeno, TickRecord_Time = scast tm, TickRecord_Price = scast price,
             TickRecord_Volume = scast volume, TickRecord_Period = period,
             TickRecord_BuySell = buysell, TickRecord_X = scast x, TickRecord_Y = scast y\<rparr>]))))))))))))"

definition readTicks :: "TickRecord list rd" where
  "readTicks = rfor tick_step []"

definition SkipTickRecord :: "unit rd" where
  "SkipTickRecord = rbind readTicks (\<lambda>_. ret ())"

definition ParseTickRecord :: "bytes \<Rightarrow> err + TickRecord list" where
  "ParseTickRecord body =
     decode_body (rbind readTicks (\<lambda>out.
       rbind (at_end ''TICK: %d trailing bytes'') (\<lambda>_. ret out))) body"

record WireTick =
  WireTick_SecID :: u16
  WireTick_Board :: u16
  WireTick_TradeNo :: i64
  WireTick_Time :: i64
  WireTick_Price :: i64
  WireTick_Field :: byte
  WireTick_Volume :: i64

text \<open>The accumulators \<open>tradeNo\<close>, \<open>tm\<close>, \<open>price\<close> and the ticks so far.\<close>

definition ticks_reply_step ::
  "(i64 \<times> i64 \<times> i64) \<times> WireTick list \<Rightarrow> (((i64 \<times> i64 \<times> i64) \<times> WireTick list) + WireTick list) rd" where
  "ticks_reply_step st =
     (case st of ((tradeno, tm, price), out) \<Rightarrow>
        rbind (field ''RQ_TICKS secid'' Reader_Uint16) (\<lambda>secid.
          if secid = 0xffff then ret (Inr out)
          else
            rbind (field ''RQ_TICKS board'' Reader_Uint16) (\<lambda>board.
            rbind (field ''RQ_TICKS tradeno'' Reader_Int64) (\<lambda>dtradeno.
            rbind (field ''RQ_TICKS time'' Reader_Int32) (\<lambda>dtm.
            rbind (field ''RQ_TICKS price'' Reader_Int32) (\<lambda>dprice.
            rbind (field ''RQ_TICKS field'' Reader_Byte) (\<lambda>f.
            rbind (field ''RQ_TICKS volume'' Reader_Int32) (\<lambda>volume.
              let tradeno = tradeno + dtradeno; tm = tm + scast dtm; price = price + scast dprice
              in ret (Inl ((tradeno, tm, price), out @ [\<lparr>WireTick_SecID = secid,
                   WireTick_Board = board, WireTick_TradeNo = tradeno, WireTick_Time = tm,
                   WireTick_Price = price, WireTick_Field = f, WireTick_Volume = scast volume\<rparr>]))))))))))"

definition ParseTicksReply :: "bytes \<Rightarrow> err + WireTick list" where
  "ParseTicksReply payload = decode_body (rfor ticks_reply_step ((0, 0, 0), [])) payload"


text \<open>A set bit of a 64-bit mask, \<open>mask&(1<<bit) != 0\<close>.\<close>

definition mask_bit :: "u64 \<Rightarrow> nat \<Rightarrow> bool" where
  "mask_bit m b \<longleftrightarrow> m AND push_bit b 1 \<noteq> 0"

text \<open>\<open>bits.OnesCount64\<close> and \<open>bits.Len64\<close>.\<close>

definition OnesCount64 :: "u64 \<Rightarrow> nat" where
  "OnesCount64 m = length (filter (bit m) [0..<64])"

definition Len64 :: "u64 \<Rightarrow> nat" where
  "Len64 m = 64 - length (takeWhile (\<lambda>b. \<not> bit m b) (rev [0..<64]))"

lemma mask_bit_iff: "mask_bit m b \<longleftrightarrow> bit m b"
  by (simp add: mask_bit_def bit_iff_and_push_bit_not_eq_0)

subsection \<open>R_QUOTATION\<close>

record WireQuotation =
  WireQuotation_SecID :: u16
  WireQuotation_Board :: u16
  WireQuotation_Mask :: u64
  WireQuotation_Values :: "nat \<rightharpoonup> i64"

primrec quotation_values :: "u64 \<Rightarrow> nat list \<Rightarrow> (nat \<rightharpoonup> i64) \<Rightarrow> (nat \<rightharpoonup> i64) rd" where
  "quotation_values m [] vs = ret vs"
| "quotation_values m (b # bs) vs =
     (if \<not> mask_bit m b then quotation_values m bs vs
      else rbind (fieldN ''R_QUOTATION bit %d value'' [int b] Reader_Int32) (\<lambda>v.
        quotation_values m bs (vs(b \<mapsto> scast v))))"

definition quotation_rd :: "WireQuotation rd" where
  "quotation_rd =
     rbind (field ''R_QUOTATION secid'' Reader_Uint16) (\<lambda>secid.
     rbind (field ''R_QUOTATION board'' Reader_Uint16) (\<lambda>board.
     rbind (field ''R_QUOTATION mask'' Reader_Int64) (\<lambda>mask.
     rbind (quotation_values mask [0..<64] Map.empty) (\<lambda>vs.
       ret \<lparr>WireQuotation_SecID = secid, WireQuotation_Board = board, WireQuotation_Mask = mask,
            WireQuotation_Values = vs\<rparr>))))"

definition ParseQuotation :: "bytes \<Rightarrow> err + WireQuotation" where
  "ParseQuotation body = decode_body quotation_rd body"

subsection \<open>R_SEC_PARAM\<close>

record SecParam =
  SecParam_SecID :: u16
  SecParam_Mask :: u32
  SecParam_BuyDeposit :: i64
  SecParam_SellDeposit :: i64
  SecParam_BgoC :: i64
  SecParam_BgoNC :: i64
  SecParam_BgoBuy :: i64
  SecParam_Board :: u16
  SecParam_PointCost :: float64
  SecParam_HasPointCost :: bool
  SecParam_MinPrice :: i64
  SecParam_MaxPrice :: i64
  SecParam_HasMin :: bool
  SecParam_HasMax :: bool

text \<open>A record without bit 8 ends behind the mask (the "muted" record).\<close>

definition muted_param :: "u16 \<Rightarrow> u32 \<Rightarrow> SecParam" where
  "muted_param secid m =
     \<lparr>SecParam_SecID = secid, SecParam_Mask = m, SecParam_BuyDeposit = 0, SecParam_SellDeposit = 0,
      SecParam_BgoC = 0, SecParam_BgoNC = 0, SecParam_BgoBuy = 0, SecParam_Board = 0,
      SecParam_PointCost = 0, SecParam_HasPointCost = False, SecParam_MinPrice = 0,
      SecParam_MaxPrice = 0, SecParam_HasMin = False, SecParam_HasMax = False\<rparr>"

definition sec_param_rd :: "SecParam rd" where
  "sec_param_rd =
     rbind (field ''R_SEC_PARAM secid'' Reader_Uint16) (\<lambda>secid.
     rbind (field ''R_SEC_PARAM mask'' Reader_Int64) (\<lambda>mask64.
       let mask = ucast mask64 in
       if mask AND 8 = 0 then ret (muted_param secid mask)
       else
         rbind (rwhen (mask AND 1 \<noteq> 0) 0 (field ''R_SEC_PARAM bit 0x1'' Reader_Int64)) (\<lambda>v1.
         rbind (rwhen (mask AND 2 \<noteq> 0) 0 (field ''R_SEC_PARAM bit 0x2'' Reader_Int64)) (\<lambda>v2.
         rbind (rwhen (mask AND 4 \<noteq> 0) 0 (field ''R_SEC_PARAM bit 0x4'' Reader_Int64)) (\<lambda>v4.
         rbind (field ''R_SEC_PARAM point cost board'' Reader_Uint16) (\<lambda>board.
         rbind (field ''R_SEC_PARAM point cost'' (Reader_Raw 8)) (\<lambda>raw.
         rbind (rwhen (mask AND 0x10 \<noteq> 0) 0 (field ''R_SEC_PARAM bit 0x10'' Reader_Int64)) (\<lambda>v10.
         rbind (rwhen (mask AND 0x20 \<noteq> 0) 0 (field ''R_SEC_PARAM bit 0x20'' Reader_Int64)) (\<lambda>v20.
           ret \<lparr>SecParam_SecID = secid, SecParam_Mask = mask, SecParam_BuyDeposit = v1,
                SecParam_SellDeposit = v2, SecParam_BgoC = v1, SecParam_BgoNC = v2,
                SecParam_BgoBuy = v4, SecParam_Board = board, SecParam_PointCost = le64 raw,
                SecParam_HasPointCost = True, SecParam_MinPrice = v10, SecParam_MaxPrice = v20,
                SecParam_HasMin = (mask AND 0x10 \<noteq> 0), SecParam_HasMax = (mask AND 0x20 \<noteq> 0)\<rparr>)))))))))"

definition ParseSecParam :: "bytes \<Rightarrow> err + SecParam" where
  "ParseSecParam body = decode_body sec_param_rd body"

subsection \<open>RQ_SEC_SPEC\<close>

definition specFields :: "nat \<Rightarrow> (char \<times> nat) option" where
  "specFields = map_of
     [(0, CHR ''S'', 75), (1, CHR ''S'', 9), (2, CHR ''S'', 4), (3, CHR ''G'', 0), (4, CHR ''L'', 0),
      (5, CHR ''L'', 0), (6, CHR ''L'', 0), (7, CHR ''L'', 0), (8, CHR ''L'', 0), (9, CHR ''L'', 0),
      (10, CHR ''L'', 0), (11, CHR ''L'', 0), (12, CHR ''G'', 0), (13, CHR ''L'', 0),
      (14, CHR ''L'', 0), (15, CHR ''L'', 0), (16, CHR ''L'', 0), (17, CHR ''L'', 0),
      (18, CHR ''L'', 0), (19, CHR ''L'', 0), (20, CHR ''L'', 0), (21, CHR ''B'', 0),
      (22, CHR ''B'', 0), (23, CHR ''B'', 0), (24, CHR ''G'', 0), (25, CHR ''G'', 0),
      (26, CHR ''G'', 0), (27, CHR ''G'', 0), (28, CHR ''B'', 0), (29, CHR ''B'', 0),
      (30, CHR ''S'', 14), (31, CHR ''S'', 21), (32, CHR ''S'', 3), (33, CHR ''L'', 0),
      (34, CHR ''B'', 0), (35, CHR ''G'', 0), (36, CHR ''S'', 12), (37, CHR ''S'', 20),
      (38, CHR ''L'', 0), (39, CHR ''L'', 0), (40, CHR ''S'', 160), (41, CHR ''S'', 100)]"

record SecSpec =
  SecSpec_SecID :: u16
  SecSpec_Mask :: u64
  SecSpec_SecName :: bytes
  SecSpec_PName :: bytes
  SecSpec_Currency :: bytes
  SecSpec_FaceValue :: i64
  SecSpec_ClearingPrice :: i64
  SecSpec_MatDate :: i64
  SecSpec_CouponValue :: i64
  SecSpec_CouponPeriod :: i64
  SecSpec_CouponDate :: i64
  SecSpec_MinPrice :: i64
  SecSpec_MaxPrice :: i64
  SecSpec_BuyDeposit :: i64
  SecSpec_SellDeposit :: i64
  SecSpec_CurrencyID :: bytes
  SecSpec_ISIN :: bytes
  SecSpec_Values :: "nat \<rightharpoonup> i64"

definition empty_spec :: "u16 \<Rightarrow> u64 \<Rightarrow> SecSpec" where
  "empty_spec secid m =
     \<lparr>SecSpec_SecID = secid, SecSpec_Mask = m, SecSpec_SecName = [], SecSpec_PName = [],
      SecSpec_Currency = [], SecSpec_FaceValue = 0, SecSpec_ClearingPrice = 0, SecSpec_MatDate = 0,
      SecSpec_CouponValue = 0, SecSpec_CouponPeriod = 0, SecSpec_CouponDate = 0,
      SecSpec_MinPrice = 0, SecSpec_MaxPrice = 0, SecSpec_BuyDeposit = 0, SecSpec_SellDeposit = 0,
      SecSpec_CurrencyID = [], SecSpec_ISIN = [], SecSpec_Values = Map.empty\<rparr>"

definition setString :: "(bytes \<Rightarrow> bytes option) \<Rightarrow> nat \<Rightarrow> bytes \<Rightarrow> SecSpec \<Rightarrow> SecSpec" where
  "setString win b v s =
     (let v = DecodeCP1251 win v in
      if b = 0 then s\<lparr>SecSpec_SecName := v\<rparr>
      else if b = 1 then s\<lparr>SecSpec_PName := v\<rparr>
      else if b = 2 then s\<lparr>SecSpec_Currency := v\<rparr>
      else if b = 32 then s\<lparr>SecSpec_CurrencyID := v\<rparr>
      else if b = 36 then s\<lparr>SecSpec_ISIN := v\<rparr>
      else s)"

definition setInt :: "nat \<Rightarrow> i64 \<Rightarrow> SecSpec \<Rightarrow> SecSpec" where
  "setInt b v s =
     (let s = s\<lparr>SecSpec_Values := (SecSpec_Values s)(b \<mapsto> v)\<rparr> in
      if b = 3 then s\<lparr>SecSpec_FaceValue := v\<rparr>
      else if b = 5 then s\<lparr>SecSpec_ClearingPrice := v\<rparr>
      else if b = 8 then s\<lparr>SecSpec_MatDate := v\<rparr>
      else if b = 9 then s\<lparr>SecSpec_CouponValue := v\<rparr>
      else if b = 10 then s\<lparr>SecSpec_CouponPeriod := v\<rparr>
      else if b = 11 then s\<lparr>SecSpec_CouponDate := v\<rparr>
      else if b = 19 then s\<lparr>SecSpec_MinPrice := v\<rparr>
      else if b = 20 then s\<lparr>SecSpec_MaxPrice := v\<rparr>
      else if b = 24 then s\<lparr>SecSpec_BuyDeposit := v\<rparr>
      else if b = 25 then s\<lparr>SecSpec_SellDeposit := v\<rparr>
      else s)"

text \<open>The value of one mask bit, by the type of the field.\<close>

definition spec_field :: "(bytes \<Rightarrow> bytes option) \<Rightarrow> nat \<Rightarrow> char \<times> nat \<Rightarrow> SecSpec \<Rightarrow> SecSpec rd" where
  "spec_field win b f s =
     (if fst f = CHR ''S'' then
        rbind (fieldN ''RQ_SEC_SPEC bit %d'' [int b] (Reader_String (snd f))) (\<lambda>v. ret (setString win b v s))
      else if fst f = CHR ''L'' then
        rbind (fieldN ''RQ_SEC_SPEC bit %d'' [int b] Reader_Int32) (\<lambda>v. ret (setInt b (scast v) s))
      else if fst f = CHR ''G'' then
        rbind (fieldN ''RQ_SEC_SPEC bit %d'' [int b] Reader_Int64) (\<lambda>v. ret (setInt b v s))
      else if fst f = CHR ''B'' then
        rbind (fieldN ''RQ_SEC_SPEC bit %d'' [int b] Reader_Byte) (\<lambda>v. ret (setInt b (ucast v) s))
      else ret s)"

primrec spec_bits :: "(bytes \<Rightarrow> bytes option) \<Rightarrow> nat list \<Rightarrow> SecSpec \<Rightarrow> SecSpec rd" where
  "spec_bits win [] s = ret s"
| "spec_bits win (b # bs) s =
     (if \<not> mask_bit (SecSpec_Mask s) b then spec_bits win bs s
      else (case specFields b of
          None \<Rightarrow> fail (Errorf ''RQ_SEC_SPEC secid %d: unrecovered mask bit %d'' [uint (SecSpec_SecID s), int b])
        | Some f \<Rightarrow> rbind (spec_field win b f s) (spec_bits win bs)))"

text \<open>One round of the record loop. The end marker may stand alone in the last two bytes.\<close>

definition spec_step :: "(bytes \<Rightarrow> bytes option) \<Rightarrow> SecSpec list \<Rightarrow> (SecSpec list + SecSpec list) rd" where
  "spec_step win out r =
     (if Reader_Len r = 0 then (Inr (Inr out), r)
      else if Reader_Len r = 2 \<and> rbuf r ! (length (rbuf r) - 2) = 0xff
        \<and> rbuf r ! (length (rbuf r) - 1) = 0xff then (Inr (Inr out), r)
      else
        rbind (field ''RQ_SEC_SPEC secid'' Reader_Uint16) (\<lambda>secid.
          if secid = 0xffff then ret (Inr out)
          else
            rbind (field ''RQ_SEC_SPEC mask'' Reader_Int64) (\<lambda>mask.
            rbind (spec_bits win [0..<Len64 mask] (empty_spec secid mask)) (\<lambda>spec.
              ret (Inl (out @ [spec]))))) r)"

definition ParseSecSpec :: "(bytes \<Rightarrow> bytes option) \<Rightarrow> bytes \<Rightarrow> err + SecSpec list" where
  "ParseSecSpec win payload = decode_body (rfor (spec_step win) []) payload"

subsection \<open>R_SEC_RATE, R_SEC_MKT_PERMIT\<close>

record SecRate =
  SecRate_SecID :: u16
  SecRate_Value :: i64

definition ParseSecRate :: "bytes \<Rightarrow> err + SecRate" where
  "ParseSecRate body =
     decode_body
       (rbind (field ''R_SEC_RATE secid'' Reader_Uint16) (\<lambda>secid.
        rbind (field ''R_SEC_RATE value'' Reader_Int64) (\<lambda>value'.
        rbind (at_end ''R_SEC_RATE: %d trailing bytes'') (\<lambda>_.
          ret \<lparr>SecRate_SecID = secid, SecRate_Value = value'\<rparr>)))) body"

record SecMktPermit =
  SecMktPermit_SecID :: u16
  SecMktPermit_Permit :: bool

definition ParseSecMktPermit :: "bytes \<Rightarrow> err + SecMktPermit" where
  "ParseSecMktPermit body =
     decode_body
       (rbind (field ''R_SEC_MKT_PERMIT secid'' Reader_Uint16) (\<lambda>secid.
        rbind (field ''R_SEC_MKT_PERMIT permit'' Reader_Byte) (\<lambda>v.
        rbind (at_end ''R_SEC_MKT_PERMIT: %d trailing bytes'') (\<lambda>_.
          ret \<lparr>SecMktPermit_SecID = secid, SecMktPermit_Permit = (v \<noteq> 0)\<rparr>)))) body"

subsection \<open>The decoders keep the reader contract\<close>

lemma quotes_loop: "wire_reader (quotes_step st)" "advances (quotes_step st)"
  unfolding quotes_step_def by (intro wire_local)+

lemma tick_loop: "wire_reader (tick_step out)" "advances (tick_step out)"
  unfolding tick_step_def by (intro wire_local)+

lemma ticks_reply_loop: "wire_reader (ticks_reply_step st)" "advances (ticks_reply_step st)"
proof -
  obtain a b c out where st: "st = ((a, b, c), out)" by (metis prod.exhaust)
  show "wire_reader (ticks_reply_step st)" "advances (ticks_reply_step st)"
    unfolding ticks_reply_step_def st prod.case by (intro wire_local)+
qed

lemma wire_reader_readTicks [wire_local]: "wire_reader readTicks"
  unfolding readTicks_def by (intro wire_local tick_loop)

lemma wire_reader_SkipTickRecord [wire_local]: "wire_reader SkipTickRecord"
  unfolding SkipTickRecord_def by (intro wire_local)

lemma wire_reader_quotes_rd [wire_local]: "wire_reader quotes_rd"
  unfolding quotes_rd_def by (intro wire_local quotes_loop)

lemma wire_reader_quotation_values [wire_local]: "wire_reader (quotation_values m bs vs)"
proof (induction bs arbitrary: vs)
  case (Cons b bs)
  show ?case unfolding quotation_values.simps by (intro wire_local Cons.IH)
qed (simp add: wire_reader_ret)

lemma wire_reader_quotation_rd [wire_local]: "wire_reader quotation_rd"
  unfolding quotation_rd_def by (intro wire_local)

lemma wire_reader_sec_param_rd [wire_local]: "wire_reader sec_param_rd"
  unfolding sec_param_rd_def by (intro wire_local)

lemma wire_reader_spec_bits [wire_local]: "wire_reader (spec_bits win bs s)"
proof (induction bs arbitrary: s)
  case (Cons b bs)
  have "wire_reader (spec_field win b f s)" for f
    unfolding spec_field_def by (intro wire_local)
  then have "wire_reader (rbind (spec_field win b f s) (spec_bits win bs))" for f
    by (intro wire_local Cons.IH)
  then show ?case
    using Cons.IH by (auto simp: wire_reader_fail split: option.split)
qed (simp add: wire_reader_ret)

interpretation quotes: wire_loop quotes_step by (rule wire_loopI) (rule quotes_loop)+
interpretation ticks: wire_loop tick_step by (rule wire_loopI) (rule tick_loop)+
interpretation ticks_reply: wire_loop ticks_reply_step by (rule wire_loopI) (rule ticks_reply_loop)+

lemma spec_loop_keeps: "buffer_reader (spec_step win out)"
proof -
  have "wire_reader (rbind (field ''RQ_SEC_SPEC secid'' Reader_Uint16) (\<lambda>secid.
          if secid = 0xffff then ret (Inr out)
          else
            rbind (field ''RQ_SEC_SPEC mask'' Reader_Int64) (\<lambda>mask.
            rbind (spec_bits win [0..<Len64 mask] (empty_spec secid mask)) (\<lambda>spec.
              ret (Inl (out @ [spec]))))))" (is "wire_reader ?p")
    by (intro wire_local)
  note k = buffer_reader.keeps [OF wire_reader_buffer [OF this]]
  show ?thesis
  proof
    fix r x r' assume "valid r" "spec_step win out r = (x, r')"
    then show "rbuf r' = rbuf r \<and> roff r \<le> roff r' \<and> valid r'"
      using k [of r x r'] unfolding spec_step_def by (simp only: split: if_splits) auto
  qed
qed

lemma spec_loop_progress:
  assumes "valid r" and "spec_step win out r = (Inr (Inl s'), r')"
  shows "roff r < roff r'"
proof -
  have "advances (rbind (field ''RQ_SEC_SPEC secid'' Reader_Uint16) (\<lambda>secid.
          if secid = 0xffff then ret (Inr out)
          else
            rbind (field ''RQ_SEC_SPEC mask'' Reader_Int64) (\<lambda>mask.
            rbind (spec_bits win [0..<Len64 mask] (empty_spec secid mask)) (\<lambda>spec.
              ret (Inl (out @ [spec]))))))"
    by (intro wire_local)
  with assms show ?thesis
    unfolding spec_step_def advances_def by (simp only: split: if_splits) auto
qed

interpretation specs: consuming_loop "spec_step win" for win
  by (unfold_locales, rule spec_loop_keeps [THEN buffer_reader.keeps]) (auto intro: spec_loop_progress)

lemma candle_branches: "wire_reader (candle_item flag items)" "advances (candle_item flag items)"
  "buffer_reader (candle_status items)"
proof -
  have o: "wire_reader (rmap Some (field ''R_HISTORY openinterest'' Reader_Int32))"
    unfolding rmap_def by (intro wire_local)
  then show "wire_reader (candle_item flag items)"
    unfolding candle_item_def by (intro wire_local)
  have "advances (rtimes 7 (field ''R_HISTORY candle'' Reader_Int32))"
    unfolding numeral_eq_Suc rtimes.simps by (intro wire_local)
  with o show "advances (candle_item flag items)"
    unfolding candle_item_def by (intro wire_local)
  have "buffer_reader (field ''R_HISTORY status'' Reader_Int32)"
    by (intro wire_reader_buffer wire_local)
  then show "buffer_reader (candle_status items)"
    unfolding candle_status_def by (intro buffer_local wire_reader_buffer [OF wire_reader_fail]
      wire_reader_buffer [OF wire_reader_ret] wire_reader_buffer [OF wire_reader_Int32])
qed

interpretation candle_loop: consuming_loop "candle_step flag" for flag
proof
  fix s r x r'
  assume v: "valid r" and e: "candle_step flag s r = (x, r')"
  show "rbuf r' = rbuf r \<and> roff r \<le> roff r' \<and> valid r'"
    using v e buffer_reader.keeps [OF candle_branches(3) v] wire_keeps [OF candle_branches(1) v]
    by (auto simp: candle_step_def with_len_def fail_def split: if_splits)
next
  fix s r s' r'
  assume v: "valid r" and e: "candle_step flag s r = (Inr (Inl s'), r')"
  have "fst (candle_status s r) \<noteq> Inr (Inl s')"
    by (auto simp: candle_status_def rbind_def ret_def fail_def split: prod.splits sum.splits if_splits)
  with v e candle_branches(2) [of flag s] show "roff r < roff r'"
    by (auto simp: candle_step_def with_len_def fail_def advances_def split: if_splits)
qed

end
