(* ===== verification/Account_Records.thy ===== *)
theory Account_Records
  imports Market_Records Decimal
begin

text \<open>
  Decoders of the account records: clients and their assets, unions, client trades, limits,
  holdings, portfolio and margin replies, and the sums of \<open>SecPositionFromAsset\<close>
  (\<open>native/records/client.go\<close>, \<open>clienttrade.go\<close>, \<open>limits.go\<close>, \<open>positions.go\<close>, \<open>portfolio.go\<close>,
  \<open>margin.go\<close> and the records of \<open>native/model\<close> they fill). Texts are the raw bytes of the wire.
\<close>

unbundle bit_operations_syntax

text \<open>\<open>if r.Len() > 0 { tail, _ = r.Raw(r.Len()) }\<close>.\<close>

definition rest_bytes :: "bytes rd" where
  "rest_bytes = with_len (\<lambda>n. if 0 < n then Reader_Raw (int n) else ret [])"

definition money :: "i64 \<Rightarrow> Decimal" where
  "money n = \<lparr>Units = n, Scale = 2\<rparr>"

definition zeroDecimal :: Decimal where
  "zeroDecimal = \<lparr>Units = 0, Scale = 0\<rparr>"

subsection \<open>R_CLN_NEW, R_OVERNIGHT, R_UNION\<close>

record ClientNew =
  ClientNew_ID :: i64
  ClientNew_Code :: bytes
  ClientNew_Login :: bytes
  ClientNew_Flag :: byte
  ClientNew_Type :: byte
  ClientNew_Market :: byte
  ClientNew_Union :: bytes
  ClientNew_Byte1 :: byte
  ClientNew_CurrencyID :: byte
  ClientNew_Word :: u16
  ClientNew_ClPortSub :: byte
  ClientNew_Int1 :: i32
  ClientNew_Extra :: bytes

definition client_new_rd :: "ClientNew rd" where
  "client_new_rd =
     rbind (field ''R_CLN_NEW id'' Reader_Int64) (\<lambda>id'.
     rbind (field ''R_CLN_NEW code'' (Reader_String 12)) (\<lambda>code.
     rbind (field ''R_CLN_NEW login'' (Reader_String 32)) (\<lambda>login.
     rbind (field ''R_CLN_NEW byte'' Reader_Byte) (\<lambda>flag.
     rbind (field ''R_CLN_NEW byte'' Reader_Byte) (\<lambda>typ.
     rbind (field ''R_CLN_NEW byte'' Reader_Byte) (\<lambda>market.
     rbind (field ''R_CLN_NEW union'' (Reader_String 7)) (\<lambda>union'.
     rbind (field ''R_CLN_NEW byte1'' Reader_Byte) (\<lambda>byte1.
     rbind (field ''R_CLN_NEW currency'' Reader_Byte) (\<lambda>currency.
     rbind (field ''R_CLN_NEW word'' Reader_Uint16) (\<lambda>wd.
     rbind (field ''R_CLN_NEW port sub'' Reader_Byte) (\<lambda>sub'.
     rbind (field ''R_CLN_NEW int'' Reader_Int32) (\<lambda>int1.
     rbind rest_bytes (\<lambda>extra.
       ret \<lparr>ClientNew_ID = id', ClientNew_Code = code, ClientNew_Login = login,
            ClientNew_Flag = flag, ClientNew_Type = typ, ClientNew_Market = market,
            ClientNew_Union = union', ClientNew_Byte1 = byte1, ClientNew_CurrencyID = currency,
            ClientNew_Word = wd, ClientNew_ClPortSub = sub', ClientNew_Int1 = int1,
            ClientNew_Extra = extra\<rparr>)))))))))))))"

definition ParseClientNew :: "bytes \<Rightarrow> err + ClientNew" where
  "ParseClientNew body = decode_body client_new_rd body"

definition ClientTypeName :: "byte \<Rightarrow> string option" where
  "ClientTypeName t =
     (if t = 0 then Some ''spot'' else if t = 1 then Some ''risk'' else if t = 2 then Some ''leverage''
      else if t = 3 then Some ''margin_level'' else if t = 4 then Some ''mct'' else None)"

definition CurrencyName :: "byte \<Rightarrow> string" where
  "CurrencyName i = (if i = 1 then ''RUB'' else [])"

definition ParseOvernight :: "bytes \<Rightarrow> err + bool" where
  "ParseOvernight body =
     (if length body < 1 then Inl (Wrap ''R_OVERNIGHT'' ErrShortBuffer) else Inr (body ! 0 \<noteq> 0))"

definition ParseUnionCategory :: "bytes \<Rightarrow> err + (bytes \<times> byte)" where
  "ParseUnionCategory body =
     decode_body
       (rbind (field ''R_UNION id'' Reader_Int64) (\<lambda>_.
        rbind (field ''R_UNION name'' (Reader_String 20)) (\<lambda>name.
        rbind (field ''R_UNION category'' (Reader_String 32)) (\<lambda>_.
        rbind (field ''R_UNION unicat'' Reader_Byte) (\<lambda>unicat.
          ret (name, unicat)))))) body"

definition ParseUnion :: "bytes \<Rightarrow> err + bytes" where
  "ParseUnion body = (case ParseUnionCategory body of Inl e \<Rightarrow> Inl e | Inr (name, _) \<Rightarrow> Inr name)"

subsection \<open>R_CLIENT_ASSET\<close>

record ClientAssetReg =
  Reg_Reg :: byte
  Reg_OpenBalance :: i64
  Reg_Balance :: i64
  Reg_Bought :: i64
  Reg_Sold :: i64
  Reg_Blocked :: i64
  Reg_Estimated :: i64
  Reg_Commission :: i64
  Reg_WaposPrice :: bytes
  Reg_Currency :: bytes

record ClientAsset =
  ClientAsset_ClientID :: i64
  ClientAsset_SymID :: u16
  ClientAsset_Regs :: "ClientAssetReg list"

definition asset_step :: "ClientAssetReg list \<Rightarrow> (ClientAssetReg list + ClientAssetReg list) rd" where
  "asset_step regs =
     rbind (field ''R_CLIENT_ASSET reg'' Reader_Byte) (\<lambda>reg.
       if reg = 0xff then ret (Inr regs)
       else
         rbind (field ''R_CLIENT_ASSET mask'' Reader_Byte) (\<lambda>mask.
         rbind (rwhen (mask AND 0x01 \<noteq> 0) 0 (field ''R_CLIENT_ASSET open balance'' Reader_Int64)) (\<lambda>opn.
         rbind (rwhen (mask AND 0x02 \<noteq> 0) 0 (field ''R_CLIENT_ASSET balance'' Reader_Int64)) (\<lambda>bal.
         rbind (rwhen (mask AND 0x04 \<noteq> 0) 0 (field ''R_CLIENT_ASSET bought'' Reader_Int64)) (\<lambda>bought.
         rbind (rwhen (mask AND 0x08 \<noteq> 0) 0 (field ''R_CLIENT_ASSET sold'' Reader_Int64)) (\<lambda>sold.
         rbind (rwhen (mask AND 0x10 \<noteq> 0) 0 (field ''R_CLIENT_ASSET blocked'' Reader_Int64)) (\<lambda>blocked.
         rbind (rwhen (mask AND 0x20 \<noteq> 0) 0 (field ''R_CLIENT_ASSET estimated'' Reader_Int64)) (\<lambda>est.
           ret (Inl (regs @ [\<lparr>Reg_Reg = reg, Reg_OpenBalance = opn, Reg_Balance = bal,
             Reg_Bought = bought, Reg_Sold = sold, Reg_Blocked = blocked, Reg_Estimated = est,
             Reg_Commission = 0, Reg_WaposPrice = [], Reg_Currency = []\<rparr>]))))))))))"

text \<open>The trailing mask fills in the last register, and is only looked at when there is one.\<close>

definition asset_tail :: "byte \<Rightarrow> ClientAssetReg list \<Rightarrow> ClientAssetReg list rd" where
  "asset_tail mask2 regs =
     (if regs = [] then ret []
      else
        rbind (rwhen (mask2 AND 0x01 \<noteq> 0) 0 (field ''R_CLIENT_ASSET commission'' Reader_Int64)) (\<lambda>com.
        rbind (rwhen (mask2 AND 0x02 \<noteq> 0) [] (field ''R_CLIENT_ASSET wapos'' (Reader_String 15))) (\<lambda>wapos.
        rbind (rwhen (mask2 AND 0x04 \<noteq> 0) [] (field ''R_CLIENT_ASSET currency'' (Reader_String 4))) (\<lambda>cur.
          ret (butlast regs @ [(last regs)\<lparr>Reg_Commission := com, Reg_WaposPrice := wapos, Reg_Currency := cur\<rparr>])))))"

definition client_asset_rd :: "ClientAsset rd" where
  "client_asset_rd =
     rbind (field ''R_CLIENT_ASSET client'' Reader_Int64) (\<lambda>client.
     rbind (field ''R_CLIENT_ASSET sym'' Reader_Uint16) (\<lambda>sym.
     rbind (rfor asset_step []) (\<lambda>regs.
     rbind (field ''R_CLIENT_ASSET mask2'' Reader_Byte) (\<lambda>mask2.
     rbind (asset_tail mask2 regs) (\<lambda>regs.
       ret \<lparr>ClientAsset_ClientID = client, ClientAsset_SymID = sym, ClientAsset_Regs = regs\<rparr>)))))"

definition ParseClientAsset :: "bytes \<Rightarrow> err + ClientAsset" where
  "ParseClientAsset body = decode_body client_asset_rd body"

record SecPosition =
  SecPosition_Client :: bytes
  SecPosition_Union :: bytes
  SecPosition_SecID :: u16
  SecPosition_Market :: int
  SecPosition_ShortName :: bytes
  SecPosition_SecCode :: bytes
  SecPosition_SaldoIn :: i64
  SecPosition_SaldoMin :: i64
  SecPosition_Bought :: i64
  SecPosition_Sold :: i64
  SecPosition_Saldo :: i64
  SecPosition_OrdBuy :: i64
  SecPosition_OrdSell :: i64

definition add_reg :: "SecPosition \<Rightarrow> ClientAssetReg \<Rightarrow> SecPosition" where
  "add_reg pos reg = pos\<lparr>SecPosition_SaldoIn := SecPosition_SaldoIn pos + Reg_OpenBalance reg,
     SecPosition_Bought := SecPosition_Bought pos + Reg_Bought reg,
     SecPosition_Sold := SecPosition_Sold pos + Reg_Sold reg\<rparr>"

definition SecPositionFromAsset :: "ClientAsset \<Rightarrow> bytes \<Rightarrow> bytes \<Rightarrow> SecNew \<Rightarrow> SecPosition" where
  "SecPositionFromAsset asset client union' sec =
     (let pos = foldl add_reg
            \<lparr>SecPosition_Client = client, SecPosition_Union = union',
             SecPosition_SecID = ClientAsset_SymID asset, SecPosition_Market = uint (SecNew_Market sec),
             SecPosition_ShortName = SecNew_ShortName sec, SecPosition_SecCode = SecNew_SecCode sec,
             SecPosition_SaldoIn = 0, SecPosition_SaldoMin = 0, SecPosition_Bought = 0,
             SecPosition_Sold = 0, SecPosition_Saldo = 0, SecPosition_OrdBuy = 0, SecPosition_OrdSell = 0\<rparr>
            (ClientAsset_Regs asset)
      in pos\<lparr>SecPosition_Saldo := SecPosition_SaldoIn pos + SecPosition_Bought pos - SecPosition_Sold pos\<rparr>)"


subsection \<open>R_TRD\<close>

record ClientTrade =
  ClientTrade_SecID :: u16
  ClientTrade_BoardID :: u16
  ClientTrade_ClientID :: i64
  ClientTrade_TradeType :: byte
  ClientTrade_TradeNo :: u64
  ClientTrade_OrderNo :: u64
  ClientTrade_Time :: i32
  ClientTrade_Price :: i64
  ClientTrade_Mask :: u16
  ClientTrade_Quantity :: i64
  ClientTrade_Value :: i64
  ClientTrade_Comission :: i64
  ClientTrade_BrokerRef :: bytes
  ClientTrade_SettleCode :: bytes
  ClientTrade_BuySell :: byte
  ClientTrade_Accrued :: float64
  ClientTrade_Bypass :: byte

definition discard :: "'a rd \<Rightarrow> unit rd" where
  "discard p = rbind p (\<lambda>_. ret ())"

primrec sequence_rd :: "unit rd list \<Rightarrow> unit rd" where
  "sequence_rd [] = ret ()"
| "sequence_rd (p # ps) = rbind p (\<lambda>_. sequence_rd ps)"

definition read_L :: "unit rd" where "read_L = discard Reader_Int32"
definition read_G :: "unit rd" where "read_G = discard Reader_Int64"

text \<open>The mask-selected values that are read past.\<close>

definition trade_reads :: "(u16 \<times> unit rd) list" where
  "trade_reads =
     [(0x1, sequence_rd [read_L, read_G, read_G]),
      (0x2, sequence_rd [read_L, read_L, read_L]),
      (0x4, sequence_rd [read_L, read_L, read_L, read_G, read_G, read_G, read_L, read_L, read_L, read_L, discard Reader_Byte]),
      (0x8, sequence_rd [read_L, read_L, read_G]),
      (0x10, sequence_rd [discard Reader_Uint16, read_G]),
      (0x20, read_L),
      (0x40, discard Reader_Byte)]"

primrec trade_skips :: "u16 \<Rightarrow> (u16 \<times> unit rd) list \<Rightarrow> unit rd" where
  "trade_skips m [] = ret ()"
| "trade_skips m (q # qs) =
     rbind (fieldN ''R_TRD mask %#x'' [uint (fst q)] (rwhen (m AND fst q \<noteq> 0) () (snd q)))
       (\<lambda>_. trade_skips m qs)"

definition client_trade_rd :: "ClientTrade rd" where
  "client_trade_rd =
     rbind (field ''R_TRD secid'' Reader_Uint16) (\<lambda>secid.
     rbind (field ''R_TRD board'' Reader_Uint16) (\<lambda>board.
     rbind (field ''R_TRD client id'' Reader_Int64) (\<lambda>client.
     rbind (field ''R_TRD tradetype'' Reader_Byte) (\<lambda>typ.
     rbind (field ''R_TRD tradeno'' Reader_Int64) (\<lambda>tradeno.
     rbind (field ''R_TRD orderno'' Reader_Int64) (\<lambda>orderno.
     rbind (field ''R_TRD time'' Reader_Int32) (\<lambda>tm.
     rbind (field ''R_TRD byte'' Reader_Byte) (\<lambda>_.
     rbind (field ''R_TRD seccode'' (Reader_String 20)) (\<lambda>_.
     rbind (field ''R_TRD price'' Reader_Int32) (\<lambda>price.
     rbind (field ''R_TRD mask'' Reader_Uint16) (\<lambda>mask.
       if mask AND NOT 0x1ff \<noteq> 0
       then fail (Errorf ''R_TRD: unknown mask bits %#x (I)'' [uint (mask AND NOT 0x1ff)])
       else
         rbind (trade_skips mask trade_reads) (\<lambda>_.
         rbind (field ''R_TRD quantity'' Reader_Int64) (\<lambda>quantity.
         rbind (field ''R_TRD value'' Reader_Int64) (\<lambda>value'.
         rbind (field ''R_TRD comission'' Reader_Int64) (\<lambda>comission.
         rbind (field ''R_TRD brokerref'' (Reader_String 12)) (\<lambda>brokerref.
         rbind (field ''R_TRD settlecode'' (Reader_String 12)) (\<lambda>settle.
         rbind (field ''R_TRD buysell'' Reader_Byte) (\<lambda>buysell.
         rbind (field ''R_TRD'' Reader_Byte) (\<lambda>_.
         rbind (field ''R_TRD'' Reader_Byte) (\<lambda>_.
         rbind (field ''R_TRD double'' (Reader_Raw 8)) (\<lambda>raw.
         rbind (field ''R_TRD bypass'' Reader_Byte) (\<lambda>bypass.
         rbind (field ''R_TRD'' Reader_Int64) (\<lambda>_.
         rbind (rwhen (mask AND 0x80 \<noteq> 0) 0 (field ''R_TRD mask 0x80'' Reader_Uint16)) (\<lambda>_.
         rbind (rwhen (mask AND 0x100 \<noteq> 0) [] (field ''R_TRD mask 0x100'' (Reader_String 12))) (\<lambda>_.
         rbind (field ''R_TRD tail'' rest_bytes) (\<lambda>_.
           ret \<lparr>ClientTrade_SecID = secid, ClientTrade_BoardID = board, ClientTrade_ClientID = client,
                ClientTrade_TradeType = typ, ClientTrade_TradeNo = tradeno, ClientTrade_OrderNo = orderno,
                ClientTrade_Time = tm, ClientTrade_Price = scast price, ClientTrade_Mask = mask,
                ClientTrade_Quantity = quantity, ClientTrade_Value = value',
                ClientTrade_Comission = comission, ClientTrade_BrokerRef = brokerref,
                ClientTrade_SettleCode = settle, ClientTrade_BuySell = buysell,
                ClientTrade_Accrued = le64 raw, ClientTrade_Bypass = bypass\<rparr>))))))))))))))))))))))))))"

definition ParseClientTrade :: "bytes \<Rightarrow> err + ClientTrade" where
  "ParseClientTrade body = decode_body client_trade_rd body"

subsection \<open>RQ_CLIENT_HOLDINGS and RQ_CLIENT_LIMITS\<close>

record ClientHolding =
  ClientHolding_ClientID :: i64
  ClientHolding_SecID :: u16
  ClientHolding_StartNet :: i64
  ClientHolding_TodayBuy :: i64
  ClientHolding_TodaySell :: i64
  ClientHolding_TotalNet :: i64
  ClientHolding_OpenBuys :: i64
  ClientHolding_OpenSells :: i64
  ClientHolding_VarMargin :: i64
  ClientHolding_Mask :: byte

definition holdings_step :: "ClientHolding list \<Rightarrow> (ClientHolding list + ClientHolding list) rd" where
  "holdings_step out =
     rbind (field ''RQ_CLIENT_HOLDINGS client'' Reader_Int32) (\<lambda>client.
       if sint client = - 1 then ret (Inr out)
       else
         rbind (field ''RQ_CLIENT_HOLDINGS secid'' Reader_Uint16) (\<lambda>secid.
         rbind (rtimes 7 (field ''RQ_CLIENT_HOLDINGS field'' Reader_Int64)) (\<lambda>v.
         rbind (field ''RQ_CLIENT_HOLDINGS mask'' Reader_Byte) (\<lambda>mask.
           if mask \<noteq> 0
           then fail (Errorf ''RQ_CLIENT_HOLDINGS: mask %#x fields are not recovered (I)'' [uint mask])
           else ret (Inl (out @ [\<lparr>ClientHolding_ClientID = scast client, ClientHolding_SecID = secid,
             ClientHolding_StartNet = v ! 0, ClientHolding_TodayBuy = v ! 1,
             ClientHolding_TodaySell = v ! 2, ClientHolding_TotalNet = v ! 3,
             ClientHolding_OpenBuys = v ! 4, ClientHolding_OpenSells = v ! 5,
             ClientHolding_VarMargin = v ! 6, ClientHolding_Mask = mask\<rparr>]))))))"

definition ParseClientHoldings :: "bytes \<Rightarrow> err + ClientHolding list" where
  "ParseClientHoldings payload =
     decode_body
       (rbind (rtimes 8 (field ''RQ_CLIENT_HOLDINGS header'' Reader_Int64)) (\<lambda>_.
        rfor holdings_step [])) payload"

record ClientLimits =
  Limits_ClientID :: u64
  Limits_Client :: bytes
  Limits_Union :: bytes
  Limits_CBPLimit :: Decimal
  Limits_CBPLUsed :: Decimal
  Limits_CBPLPlanned :: Decimal
  Limits_FobVarMargin :: Decimal
  Limits_Coverage :: u16
  Limits_LiquidityC :: Decimal
  Limits_Profit :: Decimal
  Limits_MoneyCurrent :: Decimal
  Limits_MoneyReserve :: Decimal
  Limits_MoneyFree :: Decimal
  Limits_OptionsPremium :: Decimal
  Limits_ExchangeFee :: Decimal
  Limits_FortsVarMargin :: Decimal
  Limits_VarMargin :: Decimal
  Limits_PCLMargin :: Decimal
  Limits_OptionsVM :: Decimal
  Limits_SpotBuyLimit :: Decimal
  Limits_UsedSpotBuyLimit :: Decimal
  Limits_CollatCurrent :: Decimal
  Limits_CollatBlocked :: Decimal
  Limits_CollatFree :: Decimal

definition emptyLimits :: ClientLimits where
  "emptyLimits = (let z = zeroDecimal in
     \<lparr>Limits_ClientID = 0, Limits_Client = [], Limits_Union = [], Limits_CBPLimit = z,
      Limits_CBPLUsed = z, Limits_CBPLPlanned = z, Limits_FobVarMargin = z, Limits_Coverage = 0,
      Limits_LiquidityC = z, Limits_Profit = z, Limits_MoneyCurrent = z, Limits_MoneyReserve = z,
      Limits_MoneyFree = z, Limits_OptionsPremium = z, Limits_ExchangeFee = z,
      Limits_FortsVarMargin = z, Limits_VarMargin = z, Limits_PCLMargin = z, Limits_OptionsVM = z,
      Limits_SpotBuyLimit = z, Limits_UsedSpotBuyLimit = z, Limits_CollatCurrent = z,
      Limits_CollatBlocked = z, Limits_CollatFree = z\<rparr>)"

definition limits_cbpl :: "ClientLimits \<Rightarrow> ClientLimits rd" where
  "limits_cbpl out =
     rbind (rtimes 4 (field ''RQ_CLIENT_LIMITS cbpl'' Reader_Int64)) (\<lambda>v.
       ret (out\<lparr>Limits_CBPLimit := money (v ! 0), Limits_CBPLUsed := money (v ! 1),
                Limits_CBPLPlanned := money (v ! 2), Limits_FobVarMargin := money (v ! 3)\<rparr>))"

definition limits_money :: "bool \<Rightarrow> ClientLimits \<Rightarrow> ClientLimits rd" where
  "limits_money newerServer out =
     rbind (field ''RQ_CLIENT_LIMITS coverage'' Reader_Uint16) (\<lambda>coverage.
     rbind (field ''RQ_CLIENT_LIMITS liquidity'' Reader_Int32) (\<lambda>liquidity.
     rbind (rtimes 15 (field ''RQ_CLIENT_LIMITS money'' Reader_Int64)) (\<lambda>v.
     rbind (rwhen newerServer [] (rtimes 2 (field ''RQ_CLIENT_LIMITS tail'' Reader_Int64))) (\<lambda>_.
       ret (out\<lparr>Limits_Coverage := coverage,
            Limits_LiquidityC := \<lparr>Units = scast liquidity, Scale = 5\<rparr>,
            Limits_Profit := money (v ! 0), Limits_MoneyCurrent := money (v ! 1),
            Limits_MoneyReserve := money (v ! 2), Limits_MoneyFree := money (v ! 3),
            Limits_OptionsPremium := money (v ! 4), Limits_ExchangeFee := money (v ! 5),
            Limits_FortsVarMargin := money (v ! 6), Limits_VarMargin := money (v ! 7),
            Limits_PCLMargin := money (v ! 8), Limits_OptionsVM := money (v ! 9),
            Limits_SpotBuyLimit := money (v ! 10), Limits_UsedSpotBuyLimit := money (v ! 11),
            Limits_CollatCurrent := money (v ! 12), Limits_CollatBlocked := money (v ! 13),
            Limits_CollatFree := money (v ! 14)\<rparr>)))))"

definition limits_step :: "byte \<Rightarrow> bool \<Rightarrow> ClientLimits \<Rightarrow> (ClientLimits + ClientLimits) rd" where
  "limits_step flags newerServer out =
     rbind (field ''RQ_CLIENT_LIMITS client'' Reader_Int32) (\<lambda>client.
       if sint client = - 1 then ret (Inr out)
       else
         rbind (if flags AND 2 \<noteq> 0 then limits_cbpl (out\<lparr>Limits_ClientID := ucast client\<rparr>)
                else ret (out\<lparr>Limits_ClientID := ucast client\<rparr>)) (\<lambda>out.
           if flags AND 4 \<noteq> 0 then rbind (limits_money newerServer out) (\<lambda>out. ret (Inr out))
           else ret (Inl out)))"

definition ParseClientLimits :: "bytes \<Rightarrow> byte \<Rightarrow> bool \<Rightarrow> err + ClientLimits" where
  "ParseClientLimits payload flags newerServer =
     decode_body (rfor (limits_step flags newerServer) emptyLimits) payload"

subsection \<open>RQ_FOND_PORTFOLIO, RQ_MARGIN_POS, RQ_MARGIN_POS_LIST\<close>

record PortfolioTPlus =
  PortfolioTPlus_RawG :: "i64 list"
  PortfolioTPlus_RawW :: "u16 list"

text \<open>\<open>for i := range\<close> reads with the index in the error text.\<close>

primrec rindexed :: "(nat \<Rightarrow> 'a rd) \<Rightarrow> nat list \<Rightarrow> 'a list rd" where
  "rindexed p [] = ret []"
| "rindexed p (i # is) = rbind (p i) (\<lambda>a. rbind (rindexed p is) (\<lambda>as. ret (a # as)))"

definition ParseFondPortfolio :: "bytes \<Rightarrow> err + PortfolioTPlus" where
  "ParseFondPortfolio payload =
     decode_body
       (rbind (rindexed (\<lambda>i. fieldN ''RQ_FOND_PORTFOLIO G[%d]'' [int i] Reader_Int64) [0..<2]) (\<lambda>g.
        rbind (rindexed (\<lambda>i. fieldN ''RQ_FOND_PORTFOLIO W[%d]'' [int i] Reader_Uint16) [0..<7]) (\<lambda>w.
        rbind (at_end ''RQ_FOND_PORTFOLIO: %d trailing bytes (layout is I)'') (\<lambda>_.
          ret \<lparr>PortfolioTPlus_RawG = g, PortfolioTPlus_RawW = w\<rparr>)))) payload"

definition ParseMarginPosList :: "bytes \<Rightarrow> err + i64 list" where
  "ParseMarginPosList payload =
     decode_body
       (rbind (rindexed (\<lambda>i. fieldN ''RQ_MARGIN_POS_LIST G[%d]'' [int i] Reader_Int64) [0..<7]) (\<lambda>out.
        rbind (at_end ''RQ_MARGIN_POS_LIST: %d trailing bytes (layout is I)'') (\<lambda>_. ret out))) payload"

definition ParseMarginPosListReply :: "bytes \<Rightarrow> err + i64 list" where
  "ParseMarginPosListReply body =
     decode_body
       (rbind (rindexed (\<lambda>i. fieldN ''RQ_MARGIN_POS_LIST G[%d]'' [int i] Reader_Int64) [0..<7]) (\<lambda>out.
        rbind (at_end ''RQ_MARGIN_POS_LIST: %d trailing bytes (I)'') (\<lambda>_. ret out))) body"

record MarginPos =
  MarginPos_G :: "i64 list"
  MarginPos_W :: "u16 list"
  MarginPos_B1 :: byte
  MarginPos_RawTail :: bytes

definition mp_G :: "nat \<Rightarrow> i64 list rd" where
  "mp_G n = rtimes n (field ''RQ_MARGIN_POS'' Reader_Int64)"

definition mp_W :: "nat \<Rightarrow> u16 list rd" where
  "mp_W n = rtimes n (field ''RQ_MARGIN_POS'' Reader_Uint16)"

text \<open>\<open>G1..G9\<close> and \<open>W1..W7\<close> of the struct are the elements of the two lists.\<close>

definition ParseMarginPos :: "bytes \<Rightarrow> err + MarginPos" where
  "ParseMarginPos payload =
     decode_body
       (rbind (mp_G 2) (\<lambda>g12. rbind (mp_W 3) (\<lambda>w13. rbind (mp_G 4) (\<lambda>g36. rbind (mp_W 4) (\<lambda>w47.
        rbind (field ''RQ_MARGIN_POS'' Reader_Byte) (\<lambda>b.
        rbind (mp_G 3) (\<lambda>g79.
        rbind (field ''RQ_MARGIN_POS tail'' rest_bytes) (\<lambda>tail.
          ret \<lparr>MarginPos_G = g12 @ g36 @ g79, MarginPos_W = w13 @ w47, MarginPos_B1 = b,
               MarginPos_RawTail = tail\<rparr>)))))))) payload"

record MarginPosReply =
  MarginPosReply_G :: "i64 list"
  MarginPosReply_W :: "u16 list"
  MarginPosReply_B1 :: byte
  MarginPosReply_Extra :: "i64 list"

definition ParseMarginPosReply :: "bytes \<Rightarrow> err + MarginPosReply" where
  "ParseMarginPosReply body =
     decode_body
       (rbind (mp_G 2) (\<lambda>g12. rbind (mp_W 3) (\<lambda>w13. rbind (mp_G 4) (\<lambda>g36. rbind (mp_W 4) (\<lambda>w47.
        rbind (field ''RQ_MARGIN_POS flag'' Reader_Byte) (\<lambda>flag.
        rbind (rwhen (flag \<noteq> 0) []
          (rindexed (\<lambda>i. fieldN ''RQ_MARGIN_POS G[%d]'' [int i] Reader_Int64) [0..<7])) (\<lambda>extra.
        rbind (at_end ''RQ_MARGIN_POS: %d trailing bytes (I)'') (\<lambda>_.
          ret \<lparr>MarginPosReply_G = g12 @ g36, MarginPosReply_W = w13 @ w47, MarginPosReply_B1 = flag,
               MarginPosReply_Extra = extra\<rparr>)))))))) body"

subsection \<open>The loops read at least one byte per round\<close>

lemma wire_reader_rest: "valid r \<Longrightarrow> rest_bytes r = (Inr (drop (roff r) (rbuf r)), r\<lparr>roff := length (rbuf r)\<rparr>)"
  by (auto simp: rest_bytes_def with_len_def Reader_Raw_def Reader_Len_def ret_def valid_def)

lemma asset_loop: "wire_reader (asset_step regs)" "advances (asset_step regs)"
  unfolding asset_step_def by (intro wire_local)+

lemma holdings_loop: "wire_reader (holdings_step out)" "advances (holdings_step out)"
  unfolding holdings_step_def by (intro wire_local)+

lemma limits_loop: "wire_reader (limits_step flags newer out)" "advances (limits_step flags newer out)"
  unfolding limits_step_def limits_cbpl_def limits_money_def by (intro wire_local)+

interpretation assets: wire_loop asset_step by (rule wire_loopI) (rule asset_loop)+
interpretation holdings: wire_loop holdings_step by (rule wire_loopI) (rule holdings_loop)+
interpretation limits: wire_loop "limits_step flags newer" for flags newer
  by (rule wire_loopI) (rule limits_loop)+

text \<open>The sums of the register blocks.\<close>

lemma add_reg_foldl:
  "SecPosition_SaldoIn (foldl add_reg p regs) = SecPosition_SaldoIn p + sum_list (map Reg_OpenBalance regs)
   \<and> SecPosition_Bought (foldl add_reg p regs) = SecPosition_Bought p + sum_list (map Reg_Bought regs)
   \<and> SecPosition_Sold (foldl add_reg p regs) = SecPosition_Sold p + sum_list (map Reg_Sold regs)
   \<and> SecPosition_SecID (foldl add_reg p regs) = SecPosition_SecID p"
  by (induction regs arbitrary: p) (simp_all add: add_reg_def ac_simps)

text \<open>The position built from an asset record balances: what is left is the opening balance
  plus everything bought minus everything sold, each summed over all registers of the record.\<close>

theorem SecPosition_balance:
  "SecPosition_Saldo (SecPositionFromAsset a client union' sec) =
     sum_list (map Reg_OpenBalance (ClientAsset_Regs a)) + sum_list (map Reg_Bought (ClientAsset_Regs a))
       - sum_list (map Reg_Sold (ClientAsset_Regs a))"
  by (simp add: SecPositionFromAsset_def Let_def add_reg_foldl)

end
