(* ===== verification/Order_Records.thy ===== *)
theory Order_Records
  imports Account_Records
begin

text \<open>
  The order records: R_ORD_NEW with its own sticky reader, R_ORD_MODIFY as a patch of a stored
  order, R_STOP with its mask-selected fields (\<open>native/records/order.go\<close>, \<open>stoporder.go\<close>, and
  \<open>Order\<close> of \<open>native/model/order.go\<close>). A patch \<open>func(*model.Order)\<close> is a function on orders.
\<close>

unbundle bit_operations_syntax


subsection \<open>The order record and its sticky reader\<close>

record Order =
  Order_TransactionID :: u64
  Order_OrderNo :: u64
  Order_SecID :: u16
  Order_Board :: bytes
  Order_SecCode :: bytes
  Order_Union :: bytes
  Order_Client :: bytes
  Order_Status :: int
  Order_BuySell :: byte
  Order_Time :: i32
  Order_AcceptTime :: i32
  Order_WithdrawTime :: i32
  Order_BrokerRef :: bytes
  Order_SettleCode :: bytes
  Order_Value :: Decimal
  Order_WithinPos :: bool
  Order_Balance :: i64
  Order_Price :: Decimal
  Order_Quantity :: i64
  Order_Yield :: Decimal
  Order_Condition :: int
  Order_ConditionValue :: Decimal
  Order_ValidAfter :: i32
  Order_ValidBefore :: i32
  Order_Hidden :: i64
  Order_Result :: bytes

definition zeroOrder :: Order where
  "zeroOrder =
     \<lparr>Order_TransactionID = 0, Order_OrderNo = 0, Order_SecID = 0, Order_Board = [], Order_SecCode = [],
      Order_Union = [], Order_Client = [], Order_Status = 0, Order_BuySell = 0, Order_Time = 0,
      Order_AcceptTime = 0, Order_WithdrawTime = 0, Order_BrokerRef = [], Order_SettleCode = [],
      Order_Value = zeroDecimal, Order_WithinPos = False, Order_Balance = 0, Order_Price = zeroDecimal,
      Order_Quantity = 0, Order_Yield = zeroDecimal, Order_Condition = 0,
      Order_ConditionValue = zeroDecimal, Order_ValidAfter = 0, Order_ValidBefore = 0,
      Order_Hidden = 0, Order_Result = []\<rparr>"

record OrderNew =
  OrderNew_Short :: bool
  OrderNew_Order :: Order
  OrderNew_BoardID :: u16
  OrderNew_ClientID :: i64

type_synonym orderReader = reader

definition o_b :: "byte sr" where "o_b = sticky 0 0 Reader_Byte"
definition o_w :: "u16 sr" where "o_w = sticky 0 0 Reader_Uint16"
definition o_l :: "i32 sr" where "o_l = sticky 0 0 Reader_Int32"
definition o_g :: "i64 sr" where "o_g = sticky 0 0 Reader_Int64"
definition o_z :: "nat \<Rightarrow> bytes sr" where "o_z n = sticky [] [] (Reader_String n)"

definition orderMaskYield :: u16 where "orderMaskYield = 0x01"
definition orderMaskValue :: u16 where "orderMaskValue = 0x02"
definition orderMaskWithdraw :: u16 where "orderMaskWithdraw = 0x04"
definition orderMask08 :: u16 where "orderMask08 = 0x08"
definition orderMask10 :: u16 where "orderMask10 = 0x10"
definition orderMask20 :: u16 where "orderMask20 = 0x20"
definition orderMask40 :: u16 where "orderMask40 = 0x40"
definition orderMask80 :: u16 where "orderMask80 = 0x80"
definition orderMask100 :: u16 where "orderMask100 = 0x100"
definition orderStatusDenied :: int where "orderStatusDenied = 4"
definition orderStatusRejected :: int where "orderStatusRejected = 6"

subsection \<open>R_ORD_NEW\<close>

text \<open>Reads whose value is dropped.\<close>

definition s_skip :: "'a sr \<Rightarrow> unit sr" where
  "s_skip m = do { _ \<leftarrow> m; State_Monad.return () }"

definition order_condition :: "Order \<Rightarrow> Order sr" where
  "order_condition o1 =
     do { v \<leftarrow> o_l; after \<leftarrow> o_l; before \<leftarrow> o_l; within \<leftarrow> o_b; _ \<leftarrow> o_l;
          State_Monad.return (o1\<lparr>Order_ConditionValue := money (scast v), Order_ValidAfter := after,
            Order_ValidBefore := before, Order_WithinPos := (within \<noteq> 0)\<rparr>) }"

text \<open>The reads between the mask and the status-dependent block.\<close>

definition order_main :: "u16 \<Rightarrow> Order \<Rightarrow> Order sr" where
  "order_main m o1 =
     do { yld \<leftarrow> s_when (m AND orderMaskYield \<noteq> 0) zeroDecimal
            (do { v \<leftarrow> o_l; State_Monad.return (money (scast v)) });
          quantity \<leftarrow> o_l; brokerref \<leftarrow> o_z 20; condition \<leftarrow> o_b;
          o2 \<leftarrow> (let o2 = o1\<lparr>Order_Yield := yld, Order_Quantity := scast quantity,
                    Order_BrokerRef := brokerref, Order_Condition := uint condition\<rparr>
                in s_when (condition \<noteq> 0) o2 (order_condition o2));
          value' \<leftarrow> s_when (m AND orderMaskValue \<noteq> 0) zeroDecimal
            (do { v \<leftarrow> o_g; State_Monad.return (money v) });
          client \<leftarrow> o_z 12; accept \<leftarrow> o_l; orderno \<leftarrow> o_g; status \<leftarrow> o_b; tm \<leftarrow> o_l; balance \<leftarrow> o_l;
          _ \<leftarrow> o_z 12; _ \<leftarrow> o_l;
          settle \<leftarrow> s_when (m AND orderMaskValue \<noteq> 0) [] (do { _ \<leftarrow> o_b; o_z 12 });
          withdraw \<leftarrow> s_when (m AND orderMaskWithdraw \<noteq> 0) 0 o_l;
          _ \<leftarrow> s_when (m AND orderMask08 \<noteq> 0) 0 o_l;
          _ \<leftarrow> s_when (m AND orderMask10 \<noteq> 0) 0 (do { _ \<leftarrow> o_l; o_b });
          _ \<leftarrow> s_when (m AND orderMask20 \<noteq> 0) 0 (do { _ \<leftarrow> o_l; o_g });
          State_Monad.return (o2\<lparr>Order_Value := value', Order_Client := client,
            Order_AcceptTime := accept, Order_OrderNo := orderno, Order_Status := uint status,
            Order_Time := tm, Order_Balance := scast balance, Order_SettleCode := settle,
            Order_WithdrawTime := withdraw\<rparr>) }"

text \<open>The reads behind it.\<close>

definition order_tail :: "u16 \<Rightarrow> Order \<Rightarrow> Order sr" where
  "order_tail m o1 =
     do { result \<leftarrow> s_when (Order_Status o1 = orderStatusRejected) (Order_Result o1) (o_z 512);
          _ \<leftarrow> s_when (m AND orderMask40 \<noteq> 0) 0 o_l;
          _ \<leftarrow> s_when (m AND orderMask80 \<noteq> 0) 0 o_b;
          _ \<leftarrow> o_b; _ \<leftarrow> o_b; _ \<leftarrow> o_b; _ \<leftarrow> o_b;
          b \<leftarrow> o_b;
          _ \<leftarrow> s_when (b = 82) 0 (do { _ \<leftarrow> o_l; _ \<leftarrow> o_l; _ \<leftarrow> o_l; _ \<leftarrow> o_g; _ \<leftarrow> o_g; o_g });
          _ \<leftarrow> o_b; _ \<leftarrow> o_b;
          _ \<leftarrow> s_when (m AND orderMask100 \<noteq> 0) 0 (do { _ \<leftarrow> o_w; o_w });
          State_Monad.return (o1\<lparr>Order_Result := result\<rparr>) }"

definition ParseOrderNew :: "bytes \<Rightarrow> err + OrderNew" where
  "ParseOrderNew body =
     (let (id', r) = run_state o_l (new_reader body) in
      case rerr r of Some e \<Rightarrow> Inl (Wrap ''R_ORD_NEW order_id'' e)
      | None \<Rightarrow>
        (let ((secid, board, client), r) =
            run_state (do { s \<leftarrow> o_w; b \<leftarrow> o_w; c \<leftarrow> o_g; State_Monad.return (s, b, c) }) r
         in case rerr r of Some e \<Rightarrow> Inl (Wrap ''R_ORD_NEW header'' e)
         | None \<Rightarrow>
           (let ((o1, m), r) = run_state
                (do { buysell \<leftarrow> o_b; _ \<leftarrow> o_b; price \<leftarrow> o_l; m \<leftarrow> o_w;
                      State_Monad.return (zeroOrder\<lparr>Order_TransactionID := ucast id',
                        Order_SecID := secid, Order_BuySell := buysell,
                        Order_Price := money (scast price)\<rparr>, m) }) r;
                out = \<lambda>short o1. Inr \<lparr>OrderNew_Short = short, OrderNew_Order = o1,
                        OrderNew_BoardID = board, OrderNew_ClientID = client\<rparr>
            in if rerr r \<noteq> None then out True o1
               else let (o2, r) = run_state (order_main m o1) r
                 in if Order_Status o2 = orderStatusDenied then out True o2
                    else let (o3, r) = run_state (order_tail m o2) r
                      in if rerr r \<noteq> None then out True o3
                         else out False o3)))"

subsection \<open>R_ORD_MODIFY\<close>

record OrderModify =
  OrderModify_Short :: bool
  OrderModify_TransactionID :: u64
  OrderModify_Apply :: "(Order \<Rightarrow> Order) option"

text \<open>The UTF-8 bytes of the Russian result text of a cancelled order.\<close>

definition cancelledText :: bytes where
  "cancelledText =
     [0x7b, 0x33, 0x37, 0x7d, 0x20, 0xd0, 0x97, 0xd0, 0xb0, 0xd1, 0x8f, 0xd0, 0xb2, 0xd0, 0xba, 0xd0, 0xb0,
      0x20, 0xd0, 0xbe, 0xd1, 0x82, 0xd0, 0xbc, 0xd0, 0xb5, 0xd0, 0xbd, 0xd0, 0xb5, 0xd0, 0xbd, 0xd0, 0xb0]"

definition orderStatusResult :: "int \<Rightarrow> bytes" where
  "orderStatusResult status = (if status = 2 then cancelledText else [])"

text \<open>The mask-selected fields in wire order, each with the patch it makes.\<close>

definition order_patches :: "(u32 \<times> (Order \<Rightarrow> Order) rd) list" where
  "order_patches =
     [(1, rmap (\<lambda>v o1. o1\<lparr>Order_Status := uint v, Order_Result := orderStatusResult (uint v)\<rparr>) Reader_Byte),
      (2, rmap (\<lambda>v o1. o1\<lparr>Order_OrderNo := v\<rparr>) Reader_Int64),
      (4, rmap (\<lambda>v o1. o1\<lparr>Order_Price := money (scast v)\<rparr>) Reader_Int32),
      (8, rmap (\<lambda>v o1. o1\<lparr>Order_Quantity := scast v\<rparr>) Reader_Int32),
      (0x10, rmap (\<lambda>v o1. o1\<lparr>Order_Balance := scast v\<rparr>) Reader_Int32),
      (0x20, rmap (\<lambda>v o1. o1\<lparr>Order_ConditionValue := money (scast v)\<rparr>) Reader_Int32),
      (0x40, rmap (\<lambda>v o1. o1\<lparr>Order_BrokerRef := v\<rparr>) (Reader_String 12)),
      (0x80, rmap (\<lambda>v o1. o1\<lparr>Order_ValidAfter := v\<rparr>) Reader_Int32),
      (0x100, rmap (\<lambda>v o1. o1\<lparr>Order_ValidBefore := v\<rparr>) Reader_Int32),
      (0x200, rmap (\<lambda>_ o1. o1) Reader_Int32),
      (0x400, rbind Reader_Byte (\<lambda>flag.
         if flag \<noteq> 0 then rmap (\<lambda>_ o1. o1) (Reader_String 512) else ret (\<lambda>o1. o1)))]"

text \<open>\<open>apply\<close> composes a patch with the ones before it; a failed read leaves them as they are.\<close>

primrec run_patches ::
  "u32 \<Rightarrow> (u32 \<times> (Order \<Rightarrow> Order) rd) list \<Rightarrow> (Order \<Rightarrow> Order) \<Rightarrow> Reader \<Rightarrow> bool \<times> (Order \<Rightarrow> Order)" where
  "run_patches m [] f r = (False, f)"
| "run_patches m (q # qs) f r =
     (if m AND fst q = 0 then run_patches m qs f r
      else (case snd q r of (Inl _, _) \<Rightarrow> (True, f) | (Inr g, r') \<Rightarrow> run_patches m qs (\<lambda>o1. g (f o1)) r'))"

definition be32 :: "bytes \<Rightarrow> u32" where
  "be32 b = push_bit 24 (ucast (b ! 0)) OR push_bit 16 (ucast (b ! 1)) OR push_bit 8 (ucast (b ! 2)) OR ucast (b ! 3)"

definition ParseOrderModify :: "bytes \<Rightarrow> OrderModify" where
  "ParseOrderModify body =
     (let short = \<lparr>OrderModify_Short = True, OrderModify_TransactionID = 0, OrderModify_Apply = None\<rparr> in
      case Reader_Int32 (NewReader body) of
        (Inl _, _) \<Rightarrow> short
      | (Inr id', r) \<Rightarrow>
          (case Reader_Raw 4 r of
             (Inl _, _) \<Rightarrow> short
           | (Inr raw, r) \<Rightarrow>
               let m = be32 raw in
               if m AND NOT 0x7ff \<noteq> 0 then short
               else (case run_patches m order_patches (\<lambda>o1. o1) r of (sh, f) \<Rightarrow>
                 \<lparr>OrderModify_Short = sh, OrderModify_TransactionID = ucast id', OrderModify_Apply = Some f\<rparr>)))"

subsection \<open>R_STOP\<close>

record StopOrder =
  StopOrder_ID :: u64
  StopOrder_Mask :: u64
  StopOrder_SecID :: u16
  StopOrder_HasSec :: bool
  StopOrder_BoardID :: u16
  StopOrder_ClientID :: i64
  StopOrder_HasClient :: bool
  StopOrder_BuySell :: byte
  StopOrder_Status :: int
  StopOrder_HasStatus :: bool
  StopOrder_HasBoard :: bool
  StopOrder_HasBuySell :: bool

definition keep_rd :: "'a rd \<Rightarrow> ('s \<Rightarrow> 's) rd" where
  "keep_rd p = rmap (\<lambda>_ s. s) p"

definition stop_readers :: "(u64 \<times> (StopOrder \<Rightarrow> StopOrder) rd) list" where
  "stop_readers =
     [(1, rmap (\<lambda>v s. s\<lparr>StopOrder_Status := uint v, StopOrder_HasStatus := True\<rparr>) Reader_Byte),
      (2, keep_rd Reader_Int32), (4, keep_rd Reader_Int32), (8, keep_rd Reader_Int32),
      (0x10, keep_rd (Reader_String 12)), (0x20, keep_rd Reader_Int64), (0x40, keep_rd Reader_Int64),
      (0x100, rmap (\<lambda>v s. s\<lparr>StopOrder_SecID := v, StopOrder_HasSec := True\<rparr>) Reader_Uint16),
      (0x200, rmap (\<lambda>v s. s\<lparr>StopOrder_BoardID := v, StopOrder_HasBoard := True\<rparr>) Reader_Uint16),
      (0x400, rmap (\<lambda>v s. s\<lparr>StopOrder_ClientID := scast v, StopOrder_HasClient := True\<rparr>) Reader_Int32),
      (0x800, rmap (\<lambda>v s. s\<lparr>StopOrder_BuySell := v, StopOrder_HasBuySell := True\<rparr>) Reader_Byte),
      (0x1000, keep_rd Reader_Uint16), (0x2000, keep_rd Reader_Int32),
      (0x4000, keep_rd (Reader_String 12)), (0x8000, keep_rd Reader_Int32)]"

primrec stop_fields :: "u64 \<Rightarrow> (u64 \<times> (StopOrder \<Rightarrow> StopOrder) rd) list \<Rightarrow> StopOrder \<Rightarrow> StopOrder rd" where
  "stop_fields m [] s = ret s"
| "stop_fields m (q # qs) s =
     (if m AND fst q = 0 then stop_fields m qs s
      else rbind (fieldN ''R_STOP mask %#x'' [uint (fst q)] (snd q)) (\<lambda>f. stop_fields m qs (f s)))"

definition stop_order_rd :: "StopOrder rd" where
  "stop_order_rd =
     rbind (field ''R_STOP id'' Reader_Int32) (\<lambda>id'.
     rbind (field ''R_STOP mask'' Reader_Int32) (\<lambda>m32.
       let m = ucast (ucast m32 :: u32) in
       rbind (stop_fields m stop_readers
         \<lparr>StopOrder_ID = ucast (ucast id' :: u32), StopOrder_Mask = m, StopOrder_SecID = 0,
          StopOrder_HasSec = False, StopOrder_BoardID = 0, StopOrder_ClientID = 0,
          StopOrder_HasClient = False, StopOrder_BuySell = 0, StopOrder_Status = 0,
          StopOrder_HasStatus = False, StopOrder_HasBoard = False, StopOrder_HasBuySell = False\<rparr>) (\<lambda>out.
       rbind (rwhen (m AND 0x80 \<noteq> 0) ()
         (rbind (field ''R_STOP mask 0x80'' Reader_Byte) (\<lambda>flag.
            rwhen (flag \<noteq> 0 \<and> StopOrder_Status out = 6) ()
              (rbind (field ''R_STOP mask 0x80 text'' (Reader_String 512)) (\<lambda>_. ret ()))))) (\<lambda>_.
         if m AND NOT 0xffff \<noteq> 0
         then fail (Errorf ''R_STOP: mask bits above 0x8000 are not recovered (I; mask %#x)'' [uint m])
         else ret out))))"

definition ParseStopOrder :: "bytes \<Rightarrow> err + StopOrder" where
  "ParseStopOrder body = decode_body stop_order_rd body"

subsection \<open>The layout of R_ORD_NEW with early returns\<close>

lemma sticky_refines_order [sticky_intro]:
  "sticky_refines o_b Reader_Byte" "sticky_refines o_w Reader_Uint16" "sticky_refines o_l Reader_Int32"
  "sticky_refines o_g Reader_Int64" "sticky_refines (o_z n) (Reader_String n)"
  unfolding o_b_def o_w_def o_l_def o_g_def o_z_def
  by (intro sticky_refines_op wire_reader_buffer wire_local)+

definition condition_rd :: "Order \<Rightarrow> Order rd" where
  "condition_rd o1 =
     rbind Reader_Int32 (\<lambda>v. rbind Reader_Int32 (\<lambda>after. rbind Reader_Int32 (\<lambda>before.
     rbind Reader_Byte (\<lambda>within. rbind Reader_Int32 (\<lambda>_.
       ret (o1\<lparr>Order_ConditionValue := money (scast v), Order_ValidAfter := after,
            Order_ValidBefore := before, Order_WithinPos := (within \<noteq> 0)\<rparr>))))))"

definition main_rd :: "u16 \<Rightarrow> Order \<Rightarrow> Order rd" where
  "main_rd m o1 =
     rbind (rwhen (m AND orderMaskYield \<noteq> 0) zeroDecimal
       (rbind Reader_Int32 (\<lambda>v. ret (money (scast v))))) (\<lambda>yld.
     rbind Reader_Int32 (\<lambda>quantity. rbind (Reader_String 20) (\<lambda>brokerref. rbind Reader_Byte (\<lambda>condition.
     rbind (rwhen (condition \<noteq> 0) (o1\<lparr>Order_Yield := yld, Order_Quantity := scast quantity,
                    Order_BrokerRef := brokerref, Order_Condition := uint condition\<rparr>)
       (condition_rd (o1\<lparr>Order_Yield := yld, Order_Quantity := scast quantity,
                    Order_BrokerRef := brokerref, Order_Condition := uint condition\<rparr>))) (\<lambda>o2.
     rbind (rwhen (m AND orderMaskValue \<noteq> 0) zeroDecimal
       (rbind Reader_Int64 (\<lambda>v. ret (money v)))) (\<lambda>value'.
     rbind (Reader_String 12) (\<lambda>client. rbind Reader_Int32 (\<lambda>accept. rbind Reader_Int64 (\<lambda>orderno.
     rbind Reader_Byte (\<lambda>status. rbind Reader_Int32 (\<lambda>tm. rbind Reader_Int32 (\<lambda>balance.
     rbind (Reader_String 12) (\<lambda>_. rbind Reader_Int32 (\<lambda>_.
     rbind (rwhen (m AND orderMaskValue \<noteq> 0) [] (rbind Reader_Byte (\<lambda>_. Reader_String 12))) (\<lambda>settle.
     rbind (rwhen (m AND orderMaskWithdraw \<noteq> 0) 0 Reader_Int32) (\<lambda>withdraw.
     rbind (rwhen (m AND orderMask08 \<noteq> 0) 0 Reader_Int32) (\<lambda>_.
     rbind (rwhen (m AND orderMask10 \<noteq> 0) 0 (rbind Reader_Int32 (\<lambda>_. Reader_Byte))) (\<lambda>_.
     rbind (rwhen (m AND orderMask20 \<noteq> 0) 0 (rbind Reader_Int32 (\<lambda>_. Reader_Int64))) (\<lambda>_.
       ret (o2\<lparr>Order_Value := value', Order_Client := client,
            Order_AcceptTime := accept, Order_OrderNo := orderno, Order_Status := uint status,
            Order_Time := tm, Order_Balance := scast balance, Order_SettleCode := settle,
            Order_WithdrawTime := withdraw\<rparr>))))))))))))))))))))"

definition tail_rd :: "u16 \<Rightarrow> Order \<Rightarrow> Order rd" where
  "tail_rd m o1 =
     rbind (rwhen (Order_Status o1 = orderStatusRejected) (Order_Result o1) (Reader_String 512)) (\<lambda>result.
     rbind (rwhen (m AND orderMask40 \<noteq> 0) 0 Reader_Int32) (\<lambda>_.
     rbind (rwhen (m AND orderMask80 \<noteq> 0) 0 Reader_Byte) (\<lambda>_.
     rbind Reader_Byte (\<lambda>_. rbind Reader_Byte (\<lambda>_. rbind Reader_Byte (\<lambda>_. rbind Reader_Byte (\<lambda>_.
     rbind Reader_Byte (\<lambda>b.
     rbind (rwhen (b = 82) 0 (rbind Reader_Int32 (\<lambda>_. rbind Reader_Int32 (\<lambda>_. rbind Reader_Int32 (\<lambda>_.
       rbind Reader_Int64 (\<lambda>_. rbind Reader_Int64 (\<lambda>_. Reader_Int64))))))) (\<lambda>_.
     rbind Reader_Byte (\<lambda>_. rbind Reader_Byte (\<lambda>_.
     rbind (rwhen (m AND orderMask100 \<noteq> 0) 0 (rbind Reader_Uint16 (\<lambda>_. Reader_Uint16))) (\<lambda>_.
       ret (o1\<lparr>Order_Result := result\<rparr>)))))))))))))"

definition header_rd :: "(u16 \<times> u16 \<times> i64) rd" where
  "header_rd = rbind Reader_Uint16 (\<lambda>s. rbind Reader_Uint16 (\<lambda>b. rbind Reader_Int64 (\<lambda>c. ret (s, b, c))))"

definition price_rd :: "i32 \<Rightarrow> u16 \<Rightarrow> (Order \<times> u16) rd" where
  "price_rd id' secid =
     rbind Reader_Byte (\<lambda>buysell. rbind Reader_Byte (\<lambda>_. rbind Reader_Int32 (\<lambda>price.
     rbind Reader_Uint16 (\<lambda>m.
       ret (zeroOrder\<lparr>Order_TransactionID := ucast id', Order_SecID := secid, Order_BuySell := buysell,
              Order_Price := money (scast price)\<rparr>, m)))))"

definition order_new_rd :: "OrderNew rd" where
  "order_new_rd =
     rbind Reader_Int32 (\<lambda>id'. rbind header_rd (\<lambda>(secid, board, client).
     rbind (price_rd id' secid) (\<lambda>(o1, m). rbind (main_rd m o1) (\<lambda>o2.
       if Order_Status o2 = orderStatusDenied then fail (Errorf ''denied'' [])
       else rbind (tail_rd m o2) (\<lambda>o3. ret \<lparr>OrderNew_Short = False, OrderNew_Order = o3,
                        OrderNew_BoardID = board, OrderNew_ClientID = client\<rparr>)))))"

lemma sticky_order_main: "sticky_refines (order_main m o1) (main_rd m o1)"
  unfolding order_main_def main_rd_def Let_def order_condition_def condition_rd_def by (intro sticky_intro)

lemma sticky_order_tail: "sticky_refines (order_tail m o1) (tail_rd m o1)"
  unfolding order_tail_def tail_rd_def by (intro sticky_intro)

lemma sticky_order_header:
  "sticky_refines (do { s \<leftarrow> o_w; b \<leftarrow> o_w; c \<leftarrow> o_g; State_Monad.return (s, b, c) }) header_rd"
  unfolding header_rd_def by (intro sticky_intro)

lemma sticky_order_price:
  "sticky_refines (do { buysell \<leftarrow> o_b; _ \<leftarrow> o_b; price \<leftarrow> o_l; m \<leftarrow> o_w;
      State_Monad.return (zeroOrder\<lparr>Order_TransactionID := ucast id', Order_SecID := secid,
        Order_BuySell := buysell, Order_Price := money (scast price)\<rparr>, m) }) (price_rd id' secid)"
  unfolding price_rd_def by (intro sticky_intro)

lemma sticky_cases:
  assumes "sticky_refines m p" and "valid r"
  obtains (ok) a r' where "p r = (Inr a, r')" "run_state m \<lparr>rd = r, rerr = None\<rparr> = (a, \<lparr>rd = r', rerr = None\<rparr>)" "valid r'"
    | (err) e r' a where "p r = (Inl e, r')" "run_state m \<lparr>rd = r, rerr = None\<rparr> = (a, \<lparr>rd = r', rerr = Some e\<rparr>)"
proof -
  obtain x r' where p: "p r = (x, r')" by fastforce
  show thesis
  proof (cases x)
    case (Inl e)
    with p sticky_refines.failure [OF assms] show thesis by (metis err)
  next
    case (Inr a)
    with p sticky_refines.success [OF assms] sticky_refines.keeps_valid [OF assms] show thesis by (metis ok)
  qed
qed

text \<open>The last two phases of \<open>ParseOrderNew\<close>, from the mask on.\<close>

lemma order_phases:
  assumes "valid r"
  shows "(\<exists>o3. (let (o2, r1) = run_state (order_main m o1) \<lparr>rd = r, rerr = None\<rparr> in
       if Order_Status o2 = orderStatusDenied then (True, o2)
       else let (o3, r2) = run_state (order_tail m o2) r1 in if rerr r2 \<noteq> None then (True, o3) else (False, o3))
     = (False, o3) \<and> fst (rbind (main_rd m o1) (\<lambda>o2. if Order_Status o2 = orderStatusDenied
          then fail (Errorf ''denied'' []) else tail_rd m o2) r) = Inr o3)
   \<or> (\<exists>o3 e. (let (o2, r1) = run_state (order_main m o1) \<lparr>rd = r, rerr = None\<rparr> in
       if Order_Status o2 = orderStatusDenied then (True, o2)
       else let (o3, r2) = run_state (order_tail m o2) r1 in if rerr r2 \<noteq> None then (True, o3) else (False, o3))
     = (True, o3) \<and> fst (rbind (main_rd m o1) (\<lambda>o2. if Order_Status o2 = orderStatusDenied
          then fail (Errorf ''denied'' []) else tail_rd m o2) r) = Inl e)"
  using sticky_order_main [of m o1] assms
proof (cases rule: sticky_cases)
  case (ok o2 r1)
  show ?thesis
  proof (cases "Order_Status o2 = orderStatusDenied")
    case True
    with ok show ?thesis by (simp add: rbind_def fail_def)
  next
    case False
    from sticky_order_tail [of m o2] ok(3) show ?thesis
      by (cases rule: sticky_cases) (use ok False in \<open>auto simp: rbind_def\<close>)
  qed
next
  case (err e r1 o2)
  obtain o3 where "run_state (order_tail m o2) \<lparr>rd = r1, rerr = Some e\<rparr> = (o3, \<lparr>rd = r1, rerr = Some e\<rparr>)"
    using sticky_refines.stuck [OF sticky_order_tail] by blast
  with err show ?thesis by (simp add: rbind_def)
qed

text \<open>C6: \<open>ParseOrderNew\<close> reports a complete order exactly when the layout of the protocol
  document decodes with an early return after every read and the order is not denied, and
  then with the values of that layout; a body that runs out behind the header is skipped
  (\<open>Short\<close>) and never yields a half-read order.\<close>

theorem ParseOrderNew_refines:
  "(\<exists>out. ParseOrderNew body = Inr out \<and> \<not> OrderNew_Short out \<and> decode_body order_new_rd body = Inr out)
   \<or> ((\<exists>e. decode_body order_new_rd body = Inl e)
      \<and> ((\<exists>e. ParseOrderNew body = Inl e) \<or> (\<exists>out. ParseOrderNew body = Inr out \<and> OrderNew_Short out)))"
proof -
  have lid: "sticky_refines o_l Reader_Int32" by (rule sticky_intro)
  from lid valid_NewReader [of body] show ?thesis
  proof (cases rule: sticky_cases)
    case (err e r a)
    then show ?thesis
      by (simp add: ParseOrderNew_def new_reader_def decode_body_def order_new_rd_def rbind_def)
  next
    case (ok id' r1)
    note s1 = ok
    from sticky_order_header s1(3) show ?thesis
    proof (cases rule: sticky_cases)
      case (err e r a)
      with s1 show ?thesis
        by (cases a) (simp add: ParseOrderNew_def new_reader_def decode_body_def order_new_rd_def rbind_def)
    next
      case (ok h r2)
      obtain secid board client where h: "h = (secid, board, client)" by (metis prod.exhaust)
      note s2 = ok [unfolded h]
      from sticky_order_price [where id' = id' and secid = secid] s2(3) show ?thesis
      proof (cases rule: sticky_cases)
        case (err e r a)
        with s1 s2 show ?thesis
          by (cases a) (simp add: ParseOrderNew_def new_reader_def decode_body_def order_new_rd_def rbind_def)
      next
        case (ok p r3)
        obtain o1 m where p: "p = (o1, m)" by (metis prod.exhaust)
        note s3 = ok [unfolded p]
        have d: "decode_body order_new_rd body = (case fst (rbind (main_rd m o1) (\<lambda>o2.
            if Order_Status o2 = orderStatusDenied then fail (Errorf ''denied'' []) else tail_rd m o2) r3) of
              Inl e \<Rightarrow> Inl e
            | Inr o3 \<Rightarrow> Inr \<lparr>OrderNew_Short = False, OrderNew_Order = o3, OrderNew_BoardID = board, OrderNew_ClientID = client\<rparr>)"
          using s1 s2 s3
          by (simp add: decode_body_def order_new_rd_def)
            (auto simp: rbind_def ret_def fail_def split: prod.splits sum.splits if_splits)
        have r: "ParseOrderNew body = (case (let (o2, r1) = run_state (order_main m o1) \<lparr>rd = r3, rerr = None\<rparr> in
             if Order_Status o2 = orderStatusDenied then (True, o2)
             else let (o3, r2) = run_state (order_tail m o2) r1 in if rerr r2 \<noteq> None then (True, o3) else (False, o3)) of
           (short, o3) \<Rightarrow> Inr \<lparr>OrderNew_Short = short, OrderNew_Order = o3, OrderNew_BoardID = board, OrderNew_ClientID = client\<rparr>)"
          using s1 s2 s3
          by (simp add: ParseOrderNew_def new_reader_def Let_def split: prod.split)
        show ?thesis
          unfolding d r using order_phases [OF s3(3), of m o1] by (elim disjE exE conjE) simp_all
      qed
    qed
  qed
qed

subsection \<open>The patches of R_ORD_MODIFY\<close>

text \<open>\<open>sets fld f\<close>: the update \<open>f\<close> either keeps the field or overwrites it with a fixed value.\<close>

definition sets :: "(Order \<Rightarrow> 'a) \<Rightarrow> (Order \<Rightarrow> Order) \<Rightarrow> bool" where
  "sets fld f \<longleftrightarrow> (\<forall>o1. fld (f o1) = fld o1) \<or> (\<exists>v. \<forall>o1. fld (f o1) = v)"

definition overwrites :: "(Order \<Rightarrow> Order) \<Rightarrow> bool" where
  "overwrites f \<longleftrightarrow>
     sets Order_TransactionID f \<and> sets Order_OrderNo f \<and> sets Order_SecID f \<and> sets
     Order_Board f \<and> sets Order_SecCode f \<and> sets Order_Union f \<and> sets Order_Client f
     \<and> sets Order_Status f \<and> sets Order_BuySell f \<and> sets Order_Time f \<and> sets
     Order_AcceptTime f \<and> sets Order_WithdrawTime f \<and> sets Order_BrokerRef f \<and> sets
     Order_SettleCode f \<and> sets Order_Value f \<and> sets Order_WithinPos f \<and> sets
     Order_Balance f \<and> sets Order_Price f \<and> sets Order_Quantity f \<and> sets Order_Yield
     f \<and> sets Order_Condition f \<and> sets Order_ConditionValue f \<and> sets Order_ValidAfter
     f \<and> sets Order_ValidBefore f \<and> sets Order_Hidden f \<and> sets Order_Result f"

lemma sets_comp: "sets fld f \<Longrightarrow> sets fld g \<Longrightarrow> sets fld (\<lambda>o1. g (f o1))"
  by (auto simp: sets_def)

lemma sets_idem: "sets fld f \<Longrightarrow> fld (f (f o1)) = fld (f o1)"
  by (auto simp: sets_def)

lemma overwrites_comp: "overwrites f \<Longrightarrow> overwrites g \<Longrightarrow> overwrites (\<lambda>o1. g (f o1))"
  unfolding overwrites_def by (elim conjE, intro conjI; rule sets_comp [of _ f g]; assumption)

lemma overwrites_idem: "overwrites f \<Longrightarrow> f (f o1) = f o1"
  unfolding overwrites_def by (rule Order.equality; elim conjE; simp add: sets_idem)

lemma sets_keep: "(\<And>o1. fld (f o1) = fld o1) \<Longrightarrow> sets fld f"
  by (simp add: sets_def)

lemma sets_const: "(\<And>o1. fld (f o1) = v) \<Longrightarrow> sets fld f"
  by (auto simp: sets_def)

text \<open>No patch touches the identity of the order.\<close>

definition keeps_identity :: "(Order \<Rightarrow> Order) \<Rightarrow> bool" where
  "keeps_identity f \<longleftrightarrow> (\<forall>o1. Order_TransactionID (f o1) = Order_TransactionID o1
     \<and> Order_SecID (f o1) = Order_SecID o1 \<and> Order_Client (f o1) = Order_Client o1
     \<and> Order_BuySell (f o1) = Order_BuySell o1)"

lemma setter_overwrites [simp]:
  "overwrites (\<lambda>o1. o1\<lparr>Order_Status := uint (v1 :: byte), Order_Result := orderStatusResult (uint v1)\<rparr>)"
  "overwrites (\<lambda>o1. o1\<lparr>Order_OrderNo := v2\<rparr>)"
  "overwrites (\<lambda>o1. o1\<lparr>Order_Price := money (scast (v3 :: i32))\<rparr>)"
  "overwrites (\<lambda>o1. o1\<lparr>Order_Quantity := scast (v3 :: i32)\<rparr>)"
  "overwrites (\<lambda>o1. o1\<lparr>Order_Balance := scast (v3 :: i32)\<rparr>)"
  "overwrites (\<lambda>o1. o1\<lparr>Order_ConditionValue := money (scast (v3 :: i32))\<rparr>)"
  "overwrites (\<lambda>o1. o1\<lparr>Order_BrokerRef := v4\<rparr>)"
  "overwrites (\<lambda>o1. o1\<lparr>Order_ValidAfter := v3\<rparr>)"
  "overwrites (\<lambda>o1. o1\<lparr>Order_ValidBefore := v3\<rparr>)"
  "overwrites (\<lambda>o1. o1)"
  by (unfold overwrites_def)
    (rule conjI | (rule sets_keep, (simp; fail)) | (rule sets_const, (simp; fail)))+

lemma setter_identity [simp]:
  "keeps_identity (\<lambda>o1. o1\<lparr>Order_Status := uint (v1 :: byte), Order_Result := orderStatusResult (uint v1)\<rparr>)"
  "keeps_identity (\<lambda>o1. o1\<lparr>Order_OrderNo := v2\<rparr>)"
  "keeps_identity (\<lambda>o1. o1\<lparr>Order_Price := money (scast (v3 :: i32))\<rparr>)"
  "keeps_identity (\<lambda>o1. o1\<lparr>Order_Quantity := scast (v3 :: i32)\<rparr>)"
  "keeps_identity (\<lambda>o1. o1\<lparr>Order_Balance := scast (v3 :: i32)\<rparr>)"
  "keeps_identity (\<lambda>o1. o1\<lparr>Order_ConditionValue := money (scast (v3 :: i32))\<rparr>)"
  "keeps_identity (\<lambda>o1. o1\<lparr>Order_BrokerRef := v4\<rparr>)"
  "keeps_identity (\<lambda>o1. o1\<lparr>Order_ValidAfter := v3\<rparr>)"
  "keeps_identity (\<lambda>o1. o1\<lparr>Order_ValidBefore := v3\<rparr>)"
  "keeps_identity (\<lambda>o1. o1)"
  by (simp_all add: keeps_identity_def)

definition good_patch :: "(Order \<Rightarrow> Order) rd \<Rightarrow> bool" where
  "good_patch p \<longleftrightarrow> (\<forall>r g r'. p r = (Inr g, r') \<longrightarrow> overwrites g \<and> keeps_identity g)"

lemma good_rmap: "(\<And>v. overwrites (h v) \<and> keeps_identity (h v)) \<Longrightarrow> good_patch (rmap h p)"
  by (auto simp: good_patch_def rmap_def rbind_def ret_def split: prod.splits sum.splits)

lemma good_rbind: "(\<And>v. good_patch (h v)) \<Longrightarrow> good_patch (rbind p h)"
  unfolding good_patch_def rbind_def by (fastforce split: prod.splits sum.splits)

lemma good_patches: "list_all (\<lambda>q. good_patch (snd q)) order_patches"
proof -
  have "good_patch (if c then rmap (\<lambda>_ o1. o1) p else ret (\<lambda>o1. o1))" for c and p :: "bytes rd"
    using good_rmap [of "\<lambda>_ o1. o1" p] by (auto simp: good_patch_def ret_def)
  then show ?thesis
    unfolding order_patches_def list.pred_inject(2) snd_conv
    by (intro conjI list.pred_inject(1) good_rbind) (rule good_rmap, simp)+
qed

lemma order_patch_overwrites:
  "q \<in> set order_patches \<Longrightarrow> snd q r = (Inr g, r') \<Longrightarrow> overwrites g \<and> keeps_identity g"
  using good_patches by (auto simp: list_all_iff good_patch_def)

lemma run_patches_overwrites:
  assumes "set qs \<subseteq> set order_patches" and "overwrites f" and "keeps_identity f" and "run_patches m qs f r = (sh, g)"
  shows "overwrites g \<and> keeps_identity g"
  using assms
proof (induction qs arbitrary: f r)
  case (Cons q qs)
  show ?case
  proof (cases "m AND fst q = 0")
    case True
    with Cons show ?thesis by simp
  next
    case False
    show ?thesis
    proof (cases "snd q r")
      case (Pair x r')
      show ?thesis
      proof (cases x)
        case (Inl e)
        with False Pair Cons.prems show ?thesis by simp
      next
        case (Inr h)
        with Pair order_patch_overwrites [of q r h r'] Cons.prems(1) have "overwrites h" "keeps_identity h"
          by auto
        then have o: "overwrites (\<lambda>o1. h (f o1))" "keeps_identity (\<lambda>o1. h (f o1))"
          using Cons.prems by (auto simp: keeps_identity_def intro: overwrites_comp)
        show ?thesis
          by (rule Cons.IH [OF _ o]) (use False Pair Inr Cons.prems in simp_all)
      qed
    qed
  qed
qed simp

lemma modify_overwrites:
  assumes "OrderModify_Apply (ParseOrderModify body) = Some f"
  shows "overwrites f \<and> keeps_identity f"
proof -
  have i: "overwrites (\<lambda>o1. o1)" "keeps_identity (\<lambda>o1. o1)"
    by (simp_all add: overwrites_def keeps_identity_def)
  show ?thesis
    using assms run_patches_overwrites [OF subset_refl i]
    by (auto simp: ParseOrderModify_def Let_def split: prod.splits sum.splits if_splits)
qed

text \<open>An order modification is an overwriting of fields: applying it a second time (a record
  repeated after a reconnect) changes nothing more, and it never touches the identity of the
  order (transaction, security, client, side).\<close>

theorem OrderModify_idempotent:
  assumes "OrderModify_Apply (ParseOrderModify body) = Some f"
  shows "f (f o1) = f o1 \<and> Order_TransactionID (f o1) = Order_TransactionID o1
    \<and> Order_SecID (f o1) = Order_SecID o1 \<and> Order_Client (f o1) = Order_Client o1
    \<and> Order_BuySell (f o1) = Order_BuySell o1"
  using modify_overwrites [OF assms] by (auto simp: overwrites_idem keeps_identity_def)

theorem OrderModify_idempotent_witness:
  "\<exists>f. OrderModify_Apply (ParseOrderModify [0x50, 0, 0, 0, 1, 2]) = Some f \<and> f (f zeroOrder) = f zeroOrder
     \<and> Order_Result (f zeroOrder) = cancelledText"
proof -
  let ?f = "\<lambda>o1. o1\<lparr>Order_Status := uint (2 :: byte), Order_Result := orderStatusResult (uint (2 :: byte))\<rparr>"
  have "OrderModify_Apply (ParseOrderModify [0x50, 0, 0, 0, 1, 2]) = Some ?f"
    by (simp add: ParseOrderModify_def NewReader_def Reader_Int32_def Reader_packed_def Reader_Len_def
        packed_value_def minInt64_def Reader_Raw_def be32_def order_patches_def rmap_def rbind_def ret_def Reader_Byte_def Let_def)
  with OrderModify_idempotent [of "[0x50, 0, 0, 0, 1, 2]" ?f zeroOrder] show ?thesis
    by (intro exI [of _ ?f]) (simp add: orderStatusResult_def)
qed

subsection \<open>The presence flags of R_STOP\<close>

text \<open>\<open>raises F b q\<close>: reading the field \<open>q\<close> raises the flag \<open>F\<close> exactly if its mask bit is \<open>b\<close>.\<close>

definition raises :: "(StopOrder \<Rightarrow> bool) \<Rightarrow> u64 \<Rightarrow> (u64 \<times> (StopOrder \<Rightarrow> StopOrder) rd) \<Rightarrow> bool" where
  "raises F b q \<longleftrightarrow> (\<forall>r f r' s. snd q r = (Inr f, r') \<longrightarrow>
     F (f s) = (fst q = b \<or> F s) \<and> StopOrder_Mask (f s) = StopOrder_Mask s)"

lemma raises_rmap:
  "(\<And>v s. F (h v s) = (c = b \<or> F s) \<and> StopOrder_Mask (h v s) = StopOrder_Mask s) \<Longrightarrow> raises F b (c, rmap h p)"
  by (auto simp: raises_def rmap_def rbind_def ret_def split: prod.splits sum.splits)

lemma stop_fields_flag:
  assumes "list_all (raises F b) qs" and "stop_fields m qs s r = (Inr s', r')"
  shows "F s' = (F s \<or> (b \<in> fst ` set qs \<and> m AND b \<noteq> 0)) \<and> StopOrder_Mask s' = StopOrder_Mask s"
  using assms
proof (induction qs arbitrary: s r)
  case (Cons q qs)
  show ?case
  proof (cases "m AND fst q = 0")
    case True
    with Cons show ?thesis by auto
  next
    case False
    with Cons.prems(2) obtain f r1 where f: "snd q r = (Inr f, r1)" "stop_fields m qs (f s) r1 = (Inr s', r')"
      by (auto simp: rbind_def fieldN_def split: prod.splits sum.splits)
    with Cons.prems(1) have "F (f s) = (fst q = b \<or> F s)" "StopOrder_Mask (f s) = StopOrder_Mask s"
      by (auto simp: raises_def)
    with Cons.IH [OF _ f(2)] Cons.prems(1) False show ?thesis by auto
  qed
qed (simp add: ret_def)

lemma stop_flags:
  "list_all (raises StopOrder_HasStatus 1) stop_readers"
  "list_all (raises StopOrder_HasSec 0x100) stop_readers"
  "list_all (raises StopOrder_HasBoard 0x200) stop_readers"
  "list_all (raises StopOrder_HasClient 0x400) stop_readers"
  "list_all (raises StopOrder_HasBuySell 0x800) stop_readers"
  unfolding stop_readers_def list.pred_inject(2) keep_rd_def
  by (intro conjI list.pred_inject(1); (rule raises_rmap, simp))+

text \<open>in every decoded stop order the presence flags are the bits of its mask, so the
  mask-aware rendering prints exactly the fields the record carried; bits without a known
  layout are refused.\<close>

theorem StopOrder_flags:
  assumes "ParseStopOrder body = Inr s"
  shows "StopOrder_HasStatus s = (StopOrder_Mask s AND 1 \<noteq> 0)
    \<and> StopOrder_HasSec s = (StopOrder_Mask s AND 0x100 \<noteq> 0)
    \<and> StopOrder_HasBoard s = (StopOrder_Mask s AND 0x200 \<noteq> 0)
    \<and> StopOrder_HasClient s = (StopOrder_Mask s AND 0x400 \<noteq> 0)
    \<and> StopOrder_HasBuySell s = (StopOrder_Mask s AND 0x800 \<noteq> 0)
    \<and> StopOrder_Mask s AND NOT 0xffff = 0"
proof -
  obtain m s0 r r' where f: "stop_fields m stop_readers s0 r = (Inr s, r')" and m: "StopOrder_Mask s0 = m"
    and z: "\<not> StopOrder_HasStatus s0" "\<not> StopOrder_HasSec s0" "\<not> StopOrder_HasBoard s0"
      "\<not> StopOrder_HasClient s0" "\<not> StopOrder_HasBuySell s0" and h: "m AND NOT 0xffff = 0"
    using assms
    by (auto simp: ParseStopOrder_def decode_body_def stop_order_rd_def rbind_def field_def fail_def ret_def
        Let_def split: prod.splits sum.splits if_splits)
  have bits: "{1, 0x100, 0x200, 0x400, 0x800} \<subseteq> fst ` set stop_readers"
    by (simp add: stop_readers_def)
  show ?thesis
    using stop_flags [THEN stop_fields_flag, OF f] m z h bits by auto
qed

theorem StopOrder_flags_witness:
  "\<exists>s. ParseStopOrder [0x50, 0x11, 0x10, 6, 0, 7] = Inr s \<and> StopOrder_HasStatus s \<and> StopOrder_HasSec s
     \<and> \<not> StopOrder_HasBoard s \<and> StopOrder_SecID s = 7 \<and> StopOrder_Status s = 6"
proof -
  have "\<exists>s. ParseStopOrder [0x50, 0x11, 0x10, 6, 0, 7] = Inr s \<and> StopOrder_Mask s = 0x101
     \<and> StopOrder_SecID s = 7 \<and> StopOrder_Status s = 6"
    by (simp add: ParseStopOrder_def decode_body_def stop_order_rd_def rbind_def field_def fieldN_def fail_def
        ret_def NewReader_def Reader_Int32_def Reader_packed_def Reader_Len_def packed_value_def minInt64_def
        stop_readers_def rmap_def keep_rd_def Reader_Byte_def Reader_Uint16_def be16_def rwhen_def Let_def)
  then obtain s where "ParseStopOrder [0x50, 0x11, 0x10, 6, 0, 7] = Inr s" "StopOrder_Mask s = 0x101"
    "StopOrder_SecID s = 7" "StopOrder_Status s = 6" by blast
  with StopOrder_flags [OF this(1)] show ?thesis by simp
qed

end
