(* ===== verification/Local_Reader.thy ===== *)
theory Local_Reader
  imports Order_Records
begin

text \<open>
  The contract of a decoder that the record splitter relies on: the locale \<open>local_reader\<close> says
  that a successful read is a function of the bytes it consumed, so a record cut out of a
  payload by walking over its fields decodes to the same values on its own.
\<close>

unbundle bit_operations_syntax


text \<open>The bytes between two positions of one buffer.\<close>

definition consumed :: "Reader \<Rightarrow> Reader \<Rightarrow> bytes" where
  "consumed r r' = take (roff r' - roff r) (drop (roff r) (rbuf r))"

text \<open>A reader that stands behind \<open>pre\<close>, in front of \<open>mid\<close> and \<open>post\<close>.\<close>

definition at :: "bytes \<Rightarrow> bytes \<Rightarrow> bytes \<Rightarrow> Reader" where
  "at pre mid post = \<lparr>rbuf = pre @ mid @ post, roff = length pre\<rparr>"

text \<open>
  \<open>local_reader\<close>: a successful read is a function of the bytes it consumed. Placed between any
  other bytes they are read again with the same value.
\<close>

locale local_reader = buffer_reader +
  assumes local: "valid r \<Longrightarrow> p r = (Inr a, r') \<Longrightarrow>
    p (at pre (consumed r r') post) = (Inr a, at (pre @ consumed r r') [] post)"

named_theorems local_intro

lemma valid_at [simp]: "valid (at pre mid post)"
  by (simp add: valid_def at_def)

lemma at_split: "at pre (a @ b) post = at pre a (b @ post)"
  by (simp add: at_def)

lemma at_after: "at (pre @ a) [] post = \<lparr>rbuf = pre @ a @ post, roff = length pre + length a\<rparr>"
  by (simp add: at_def)

lemma at_next: "at (pre @ a) [] (b @ post) = at (pre @ a) b post"
  by (simp add: at_def)

lemma length_consumed: "valid r' \<Longrightarrow> rbuf r' = rbuf r \<Longrightarrow> length (consumed r r') = roff r' - roff r"
  by (auto simp: consumed_def valid_def)

lemma consumed_append:
  assumes "rbuf r1 = rbuf r" "rbuf r2 = rbuf r" "roff r \<le> roff r1" "roff r1 \<le> roff r2" "valid r2"
  shows "consumed r r2 = consumed r r1 @ consumed r1 r2"
proof -
  have "take (roff r2 - roff r) (drop (roff r) (rbuf r)) =
      take (roff r1 - roff r) (drop (roff r) (rbuf r)) @
      take (roff r2 - roff r1) (drop (roff r1 - roff r) (drop (roff r) (rbuf r)))"
    using assms take_add [of "roff r1 - roff r" "roff r2 - roff r1" "drop (roff r) (rbuf r)"] by simp
  then show ?thesis using assms by (simp add: consumed_def)
qed

lemma consumed_self [simp]: "consumed r r = []"
  by (simp add: consumed_def)

lemma local_buffer: "local_reader p \<Longrightarrow> buffer_reader p"
  by (rule local_reader.axioms)

lemma local_keeps:
  "local_reader p \<Longrightarrow> valid r \<Longrightarrow> p r = (x, r') \<Longrightarrow> rbuf r' = rbuf r \<and> roff r \<le> roff r' \<and> valid r'"
  by (rule buffer_reader.keeps [OF local_buffer])

text \<open>Reading at a known place: the form in which the law is used.\<close>

lemma local_at:
  assumes "local_reader p" and "valid r" and "p r = (Inr a, r')" and "consumed r r' = c"
  shows "p (at pre c post) = (Inr a, at (pre @ c) [] post)"
  using local_reader.local [OF assms(1-3)] assms(4) by simp

subsection \<open>The law holds of the operations\<close>

lemma local_Byte [local_intro]: "local_reader Reader_Byte"
  by (intro local_reader.intro local_reader_axioms.intro wire_reader_buffer [OF wire_reader_Byte])
    (auto simp: Reader_Byte_def valid_def consumed_def at_def Reader_Len_def take_Suc_drop_conv split: if_splits)

lemma local_Uint16 [local_intro]: "local_reader Reader_Uint16"
proof (intro local_reader.intro local_reader_axioms.intro wire_reader_buffer [OF wire_reader_Uint16])
  fix r a r' pre post
  assume v: "valid r" and e: "Reader_Uint16 r = (Inr a, r')"
  then have l: "roff r + 2 \<le> length (rbuf r)" and a: "a = be16 (rbuf r ! roff r) (rbuf r ! (roff r + 1))"
    and r': "r' = r\<lparr>roff := roff r + 2\<rparr>"
    by (auto simp: Reader_Uint16_def Reader_Len_def valid_def split: if_splits)
  have c: "consumed r r' = [rbuf r ! roff r, rbuf r ! (roff r + 1)]"
    using l by (simp add: r' consumed_def numeral_2_eq_2 take_Suc_drop_conv)
  show "Reader_Uint16 (at pre (consumed r r') post) = (Inr a, at (pre @ consumed r r') [] post)"
    unfolding c by (simp add: Reader_Uint16_def at_def Reader_Len_def a nth_append)
qed

lemma local_Raw [local_intro]: "local_reader (Reader_Raw n)"
  by (intro local_reader.intro local_reader_axioms.intro wire_reader_buffer [OF wire_reader_Raw])
    (auto simp: Reader_Raw_def valid_def consumed_def at_def Reader_Len_def split: if_splits)

lemma local_Skip [local_intro]: "local_reader (Reader_Skip n)"
  by (intro local_reader.intro local_reader_axioms.intro wire_reader_buffer [OF wire_reader_Skip])
    (auto simp: Reader_Skip_def valid_def consumed_def at_def Reader_Len_def split: if_splits)

lemma local_String [local_intro]: "local_reader (Reader_String n)"
proof (intro local_reader.intro local_reader_axioms.intro wire_reader_buffer [OF wire_reader_String])
  fix r a r' pre post
  assume v: "valid r" and e: "Reader_String n r = (Inr a, r')"
  let ?bs = "drop (roff r) (rbuf r)"
  from v e have a: "a = takeWhile (\<lambda>c. c \<noteq> 0) ?bs" and l: "length a < length ?bs" "length a \<le> n"
    and r': "r' = r\<lparr>roff := roff r + length a + 1\<rparr>"
    by (auto simp: Reader_String_suffix valid_def Let_def split: if_splits)
  have z: "?bs ! length a = 0"
    using l(1) nth_length_takeWhile [of "\<lambda>c. c \<noteq> 0" ?bs] by (simp add: a)
  have t: "take (length a) ?bs = a" by (metis a takeWhile_eq_take)
  have "consumed r r' = take (Suc (length a)) ?bs" by (simp add: consumed_def r')
  then have c: "consumed r r' = a @ [0]"
    using l(1) z t by (simp add: take_Suc_conv_app_nth)
  have "0 \<notin> set a" unfolding a by (auto dest: set_takeWhileD)
  then show "Reader_String n (at pre (consumed r r') post) = (Inr a, at (pre @ consumed r r') [] post)"
    unfolding c using Reader_String_nul [of "at pre (a @ [0]) post" pre a post n] l(2) by (simp add: at_def)
qed

lemma packed_of_take: "packed_of w bs = Some (v, k) \<Longrightarrow> packed_of w (take k bs @ t) = Some (v, k)"
  by (cases bs) (auto simp: Let_def split: if_splits)

lemma local_packed: "local_reader (Reader_packed w)"
proof (intro local_reader.intro local_reader_axioms.intro wire_reader_buffer [OF wire_reader_packed])
  fix r a r' pre post
  assume v: "valid r" and e: "Reader_packed w r = (Inr a, r')"
  then obtain k where k: "packed_of w (drop (roff r) (rbuf r)) = Some (a, k)" and r': "r' = r\<lparr>roff := roff r + k\<rparr>"
    by (auto simp: Reader_packed_suffix split: option.splits)
  have c: "consumed r r' = take k (drop (roff r) (rbuf r))" by (simp add: consumed_def r')
  have l: "length (consumed r r') = k" using packed_of_length [OF k] by (simp add: c)
  have "packed_of w (consumed r r' @ post) = Some (a, k)" unfolding c by (rule packed_of_take [OF k])
  then show "Reader_packed w (at pre (consumed r r') post) = (Inr a, at (pre @ consumed r r') [] post)"
    using l by (subst Reader_packed_suffix [OF valid_at]) (simp add: at_def)
qed

lemma local_Int64 [local_intro]: "local_reader Reader_Int64"
  unfolding Reader_Int64_def by (rule local_packed)

subsection \<open>The combinators keep it\<close>

lemma local_ret [local_intro]: "local_reader (ret a)"
  by (intro local_reader.intro local_reader_axioms.intro wire_reader_buffer [OF wire_reader_ret])
    (auto simp: ret_def at_def)

lemma local_fail [local_intro]: "local_reader (fail e)"
  by (intro local_reader.intro local_reader_axioms.intro wire_reader_buffer [OF wire_reader_fail])
    (auto simp: fail_def)

lemma local_rbind [local_intro]:
  assumes "local_reader p" and "\<And>a. local_reader (f a)"
  shows "local_reader (rbind p f)"
proof (intro local_reader.intro local_reader_axioms.intro buffer_reader_rbind local_buffer [OF assms(1)]
    local_buffer [OF assms(2)])
  fix r b r' pre post
  assume v: "valid r" and e: "rbind p f r = (Inr b, r')"
  then obtain a r1 where p: "p r = (Inr a, r1)" and f: "f a r1 = (Inr b, r')"
    by (auto simp: rbind_def split: prod.splits sum.splits)
  from local_keeps [OF assms(1) v p] have k: "rbuf r1 = rbuf r" "roff r \<le> roff r1" "valid r1" by auto
  from local_keeps [OF assms(2) k(3) f] have k': "rbuf r' = rbuf r1" "roff r1 \<le> roff r'" "valid r'" by auto
  have c: "consumed r r' = consumed r r1 @ consumed r1 r'"
    using k k' by (intro consumed_append) auto
  show "rbind p f (at pre (consumed r r') post) = (Inr b, at (pre @ consumed r r') [] post)"
    unfolding c at_split rbind_def
    using local_reader.local [OF assms(1) v p, of pre "consumed r1 r' @ post"]
      local_reader.local [OF assms(2) k(3) f, of "pre @ consumed r r1" post]
    by (simp add: at_next)
qed

text \<open>Only the successful runs matter, so decoders that differ in their errors share the law.\<close>

lemma local_cong:
  assumes "local_reader q" and "buffer_reader p"
    and "\<And>r a r'. valid r \<Longrightarrow> p r = (Inr a, r') \<longleftrightarrow> q r = (Inr a, r')"
  shows "local_reader p"
proof (intro local_reader.intro local_reader_axioms.intro assms(2))
  fix r a r' pre post
  assume "valid r" "p r = (Inr a, r')"
  with assms(3) have "valid r" "q r = (Inr a, r')" by auto
  from local_reader.local [OF assms(1) this] show
    "p (at pre (consumed r r') post) = (Inr a, at (pre @ consumed r r') [] post)"
    by (simp add: assms(3))
qed

lemma local_field [local_intro]: "local_reader p \<Longrightarrow> local_reader (field s p)"
  by (rule local_cong [of p]) (auto intro: buffer_reader_field local_buffer
      simp: field_def split: prod.splits sum.splits)

lemma buffer_reader_fieldN: "buffer_reader p \<Longrightarrow> buffer_reader (fieldN s args p)"
proof
  fix r x r'
  assume b: "buffer_reader p" and v: "valid r" and e: "fieldN s args p r = (x, r')"
  obtain y r1 where p: "p r = (y, r1)" by fastforce
  with e have "r1 = r'" by (cases y) (auto simp: fieldN_def)
  with buffer_reader.keeps [OF b v p] show "rbuf r' = rbuf r \<and> roff r \<le> roff r' \<and> valid r'" by simp
qed

lemma local_fieldN [local_intro]: "local_reader p \<Longrightarrow> local_reader (fieldN s args p)"
  by (rule local_cong [of p]) (auto intro: buffer_reader_fieldN local_buffer
      simp: fieldN_def split: prod.splits sum.splits)

lemma local_Int32 [local_intro]: "local_reader Reader_Int32"
  unfolding Reader_Int32_rbind by (intro local_intro local_packed)

lemma local_if [local_intro]:
  "(c \<Longrightarrow> local_reader p) \<Longrightarrow> (\<not> c \<Longrightarrow> local_reader q) \<Longrightarrow> local_reader (if c then p else q)"
  by simp

lemma local_rwhen [local_intro]: "local_reader p \<Longrightarrow> local_reader (rwhen c d p)"
  by (simp add: rwhen_def local_ret)

lemma local_Let [local_intro]: "(\<And>x. local_reader (f x)) \<Longrightarrow> local_reader (Let v f)"
  by simp

lemma local_rtimes [local_intro]: "local_reader p \<Longrightarrow> local_reader (rtimes n p)"
  by (induction n) (auto intro!: local_intro)

lemma local_rmap [local_intro]: "local_reader p \<Longrightarrow> local_reader (rmap f p)"
  unfolding rmap_def by (intro local_intro)

lemma local_discard [local_intro]: "local_reader p \<Longrightarrow> local_reader (discard p)"
  unfolding discard_def by (intro local_intro)

lemma local_sequence: "(\<And>p. p \<in> set ps \<Longrightarrow> local_reader p) \<Longrightarrow> local_reader (sequence_rd ps)"
  by (induction ps) (auto intro!: local_intro)

lemma local_cstring [local_intro]: "local_reader (readCString n)"
proof (rule local_cong [OF local_String [of n]])
  show "buffer_reader (readCString n)" by (rule wire_reader_buffer [OF wire_reader_cstring])
  show "readCString n r = (Inr a, r') \<longleftrightarrow> Reader_String n r = (Inr a, r')" if "valid r" for r a r'
    using cstring_loop_suffix [OF that, of n "[]" a] Reader_String_suffix [of r n] that
    by (cases "readCString n r") (auto simp: readCString_def valid_def Let_def split: if_splits)
qed

context consuming_loop
begin

lemma loop_local:
  assumes "\<And>s. local_reader (body s)"
  shows "local_reader (rfor body s)"
proof (intro local_reader.intro local_reader_axioms.intro loop_keeps)
  fix r a r' pre post
  assume "valid r" and "rfor body s r = (Inr a, r')"
  then show "rfor body s (at pre (consumed r r') post) = (Inr a, at (pre @ consumed r r') [] post)"
  proof (induction s r arbitrary: pre rule: loop_induct)
    case (step s r)
    note v = step.hyps(1)
    from step.prems obtain y r1 where b: "body s r = (Inr y, r1)"
      unfolding unfold [OF v] by (auto split: prod.splits sum.splits)
    from local_keeps [OF assms v b] have k: "rbuf r1 = rbuf r" "roff r \<le> roff r1" "valid r1" by auto
    show ?case
    proof (cases y)
      case (Inr c)
      with step.prems b v have "c = a" "r1 = r'" by (simp_all add: unfold)
      then show ?thesis
        using local_reader.local [OF assms v b, of pre post] Inr by (simp add: unfold)
    next
      case (Inl s')
      with step.prems b v have rest: "rfor body s' r1 = (Inr a, r')" by (simp add: unfold)
      from buffer_reader.keeps [OF loop_keeps k(3) rest]
      have k': "rbuf r' = rbuf r1" "roff r1 \<le> roff r'" "valid r'" by auto
      have c: "consumed r r' = consumed r r1 @ consumed r1 r'"
        using k k' by (intro consumed_append) auto
      show ?thesis
        unfolding c at_split
        using local_reader.local [OF assms v b, of pre "consumed r1 r' @ post"]
          step.IH [OF _ rest, of "pre @ consumed r r1"] b Inl
        by (simp add: unfold at_next)
    qed
  qed
qed

end


subsection \<open>Decoders that never run out of fuel\<close>

text \<open>
  \<open>OutOfFuel\<close> is not an error of the program: it marks the fuel of a loop of the model. A
  decoder is \<open>returning\<close> when no run of it ends there (nor at an unknown record, which only
  the splitter reports).
\<close>

primrec out_of_fuel :: "err \<Rightarrow> bool" where
  "out_of_fuel ErrShortBuffer = False"
| "out_of_fuel ErrHeaderCRC = False"
| "out_of_fuel (PayloadCRCError f t) = False"
| "out_of_fuel ErrTooLarge = False"
| "out_of_fuel ErrEOF = False"
| "out_of_fuel ErrUnexpectedEOF = False"
| "out_of_fuel ErrUnknownRecord = False"
| "out_of_fuel (UnknownRecordError t n) = False"
| "out_of_fuel (Wrap s e) = out_of_fuel e"
| "out_of_fuel (WrapN s a e) = out_of_fuel e"
| "out_of_fuel (Errorf s a) = False"
| "out_of_fuel OutOfFuel = True"

text \<open>Errors that carry neither the mark nor the position of an unknown record.\<close>

primrec plain :: "err \<Rightarrow> bool" where
  "plain ErrShortBuffer = True"
| "plain ErrHeaderCRC = True"
| "plain (PayloadCRCError f t) = True"
| "plain ErrTooLarge = True"
| "plain ErrEOF = True"
| "plain ErrUnexpectedEOF = True"
| "plain ErrUnknownRecord = True"
| "plain (UnknownRecordError t n) = False"
| "plain (Wrap s e) = plain e"
| "plain (WrapN s a e) = plain e"
| "plain (Errorf s a) = True"
| "plain OutOfFuel = False"

lemma plain_not_out_of_fuel: "plain e \<Longrightarrow> \<not> out_of_fuel e"
  by (induction e) auto

definition returning :: "'a rd \<Rightarrow> bool" where
  "returning p \<longleftrightarrow> (\<forall>r e r'. valid r \<longrightarrow> p r = (Inl e, r') \<longrightarrow> plain e)"

named_theorems returning_intro

lemma returning_prims [returning_intro]:
  "returning Reader_Byte" "returning Reader_Uint16" "returning (Reader_Raw n)" "returning (Reader_Skip n)"
  "returning (Reader_String m)" "returning (Reader_packed w)" "returning Reader_Int64"
  "returning (ret a)" "returning (at_end s)"
  by (auto simp: returning_def Reader_Byte_def Reader_Uint16_def Reader_Raw_def Reader_Skip_def Reader_String_def
      Reader_packed_def Reader_Int64_def ret_def at_end_def Let_def split: if_splits option.splits)

lemma returning_fail [returning_intro]: "plain e \<Longrightarrow> returning (fail e)"
  by (simp add: returning_def fail_def)

lemma returning_field [returning_intro]: "returning p \<Longrightarrow> returning (field s p)"
  by (fastforce simp: returning_def field_def split: prod.splits sum.splits)

lemma returning_fieldN [returning_intro]: "returning p \<Longrightarrow> returning (fieldN s args p)"
  by (fastforce simp: returning_def fieldN_def split: prod.splits sum.splits)

lemma returning_rbind [returning_intro]:
  assumes "returning p" and "buffer_reader p" and "\<And>a. returning (f a)"
  shows "returning (rbind p f)"
  unfolding returning_def
proof (intro allI impI)
  fix r e r' assume v: "valid r" and b: "rbind p f r = (Inl e, r')"
  obtain y r1 where p: "p r = (y, r1)" by fastforce
  have "valid r1" using buffer_reader.keeps [OF assms(2) v p] by simp
  with v b p assms(1,3) show "plain e"
    by (cases y) (fastforce simp: rbind_def returning_def)+
qed

lemma returning_if [returning_intro]:
  "(c \<Longrightarrow> returning p) \<Longrightarrow> (\<not> c \<Longrightarrow> returning q) \<Longrightarrow> returning (if c then p else q)"
  by simp

lemma returning_rwhen [returning_intro]: "returning p \<Longrightarrow> returning (rwhen c d p)"
  by (simp add: rwhen_def returning_prims)

lemma returning_Let [returning_intro]: "(\<And>x. returning (f x)) \<Longrightarrow> returning (Let v f)"
  by simp

lemma returning_with_len [returning_intro]: "(\<And>n. returning (p n)) \<Longrightarrow> returning (with_len p)"
  by (auto simp: with_len_def returning_def)

lemma returning_rtimes [returning_intro]:
  "returning p \<Longrightarrow> wire_reader p \<Longrightarrow> returning (rtimes n p)"
  by (induction n) (auto intro!: returning_intro wire_reader_buffer wire_reader_rtimes)

lemma returning_Int32 [returning_intro]: "returning Reader_Int32"
  unfolding Reader_Int32_rbind by (intro returning_intro wire_reader_buffer wire_local)

lemma returning_cstring [returning_intro]: "returning (readCString n)"
proof -
  have "returning (cstring_loop k out)" for k out
    by (induction k arbitrary: out)
      (auto intro!: returning_intro wire_reader_buffer wire_reader_field wire_reader_Byte)
  then show ?thesis by (simp add: readCString_def)
qed

context consuming_loop
begin

lemma loop_returning:
  assumes "\<And>s. returning (body s)"
  shows "returning (rfor body s)"
  unfolding returning_def
proof (intro allI impI)
  fix r e r' assume "valid r" and "rfor body s r = (Inl e, r')"
  then show "plain e"
  proof (induction s r rule: loop_induct)
    case (step s r)
    with assms show ?case
      by (auto simp: unfold [OF step.hyps(1)] returning_def split: prod.splits sum.splits)
  qed
qed

end

lemma returning_decode:
  "returning p \<Longrightarrow> decode_body p body = Inl e \<Longrightarrow> plain e"
  unfolding returning_def decode_body_def by (metis valid_NewReader prod.collapse)

text \<open>The loops of the record decoders.\<close>

lemma returning_steps [returning_intro]:
  "returning (am_book_step s1)" "returning (strikes_step s2)" "returning (quotes_step s3)"
  "returning (tick_step s4)" "returning (asset_step s5)" "returning (holdings_step s6)"
  "returning (limits_step flags newer s7)"
  unfolding am_book_step_def strikes_step_def quotes_step_def tick_step_def asset_step_def
    holdings_step_def limits_step_def limits_cbpl_def limits_money_def
  by (intro returning_intro wire_reader_buffer wire_local; simp)+

lemma returning_ticks_reply_step [returning_intro]: "returning (ticks_reply_step st)"
proof -
  obtain a b c out where st: "st = ((a, b, c), out)" by (metis prod.exhaust)
  show ?thesis
    unfolding ticks_reply_step_def st prod.case by (intro returning_intro wire_reader_buffer wire_local; simp)
qed

lemma returning_candle_step [returning_intro]: "returning (candle_step flag items)"
proof -
  have o: "wire_reader (rmap Some (field ''R_HISTORY openinterest'' Reader_Int32))"
    "returning (rmap Some (field ''R_HISTORY openinterest'' Reader_Int32))"
    unfolding rmap_def by (intro wire_local returning_intro wire_reader_buffer)+
  have "returning (candle_status items)"
    unfolding candle_status_def
    by (intro returning_intro wire_reader_buffer [OF wire_reader_field [OF wire_reader_Int32]] buffer_local) simp
  moreover have "returning (candle_item flag items)"
    unfolding candle_item_def by (intro returning_intro o wire_reader_buffer wire_local)
  ultimately show ?thesis
    unfolding candle_step_def by (intro returning_intro) simp_all
qed

lemma returning_spec_bits [returning_intro]: "returning (spec_bits win bs s)"
proof (induction bs arbitrary: s)
  case (Cons b bs)
  have w: "wire_reader (spec_field win b f s)" for f
    unfolding spec_field_def by (intro wire_local)
  have "returning (spec_field win b f s)" for f
    unfolding spec_field_def by (intro returning_intro wire_reader_buffer wire_local)
  then have "returning (rbind (spec_field win b f s) (spec_bits win bs))" for f
    by (intro returning_intro wire_reader_buffer w Cons.IH)
  then show ?case
    using Cons.IH by (cases "specFields b") (simp_all add: returning_fail)
qed (simp add: returning_prims)

lemma returning_spec_step [returning_intro]: "returning (spec_step win out)"
proof -
  have "returning (rbind (field ''RQ_SEC_SPEC secid'' Reader_Uint16) (\<lambda>secid.
          if secid = 0xffff then ret (Inr out)
          else
            rbind (field ''RQ_SEC_SPEC mask'' Reader_Int64) (\<lambda>mask.
            rbind (spec_bits win [0..<Len64 mask] (empty_spec secid mask)) (\<lambda>spec.
              ret (Inl (out @ [spec]))))))"
    by (intro returning_intro wire_reader_buffer wire_local)
  then show ?thesis
    unfolding returning_def spec_step_def by (auto split: if_splits)
qed

definition out_of_rounds :: "err + 'a \<Rightarrow> bool" where
  "out_of_rounds x = (case x of Inl e \<Rightarrow> out_of_fuel e | Inr a \<Rightarrow> False)"

text \<open>C7: every decoder that loops until a terminator returns on every input: the model's fuel of one round per unread byte is never used up, so what the
  decoders return is what the unbounded loops of the code return.\<close>

theorem decoders_return:
  "\<not> out_of_rounds (ParseAmBook b) \<and> \<not> out_of_rounds (ParseStrikes b) \<and> \<not> out_of_rounds (ParseQuotes b)
    \<and> \<not> out_of_rounds (ParseCandles b) \<and> \<not> out_of_rounds (ParseTickRecord b)
    \<and> \<not> out_of_rounds (ParseTicksReply b) \<and> \<not> out_of_rounds (ParseSecSpec win b)
    \<and> \<not> out_of_rounds (ParseClientAsset b) \<and> \<not> out_of_rounds (ParseClientHoldings b)
    \<and> \<not> out_of_rounds (ParseClientLimits b flags newer)"
proof -
  note loops = am_book.loop_returning strikes.loop_returning quotes.loop_returning ticks.loop_returning
    ticks_reply.loop_returning specs.loop_returning candle_loop.loop_returning assets.loop_returning
    holdings.loop_returning limits.loop_returning
  note keeps = am_book.loop_keeps strikes.loop_keeps quotes.loop_keeps ticks.loop_keeps
    candle_loop.loop_keeps assets.loop_keeps
  have d: "returning p \<Longrightarrow> \<not> out_of_rounds (decode_body p b)" for p :: "'z rd"
    using returning_decode plain_not_out_of_fuel by (auto simp: out_of_rounds_def split: sum.split)
  have tail: "returning (asset_tail mask2 regs)" for mask2 regs
    unfolding asset_tail_def by (intro returning_intro wire_reader_buffer wire_local)
  have wtail: "wire_reader (asset_tail mask2 regs)" for mask2 regs
    unfolding asset_tail_def by (intro wire_local)
  have cs: "returning ((\<lambda>(items, status). ret (f items status)) z)"
    "buffer_reader ((\<lambda>(items, status). ret (f items status)) z)" for f :: "'p \<Rightarrow> 'q \<Rightarrow> 'r" and z
    by (cases z; simp add: returning_prims wire_reader_buffer [OF wire_reader_ret])+
  show ?thesis
    unfolding ParseAmBook_def am_book_def ParseStrikes_def readStrikes_def ParseQuotes_def quotes_rd_def
      ParseCandles_def candles_rd_def ParseTickRecord_def readTicks_def ParseTicksReply_def
      ParseSecSpec_def ParseClientAsset_def client_asset_rd_def ParseClientHoldings_def ParseClientLimits_def
    by (intro conjI d returning_intro loops keeps tail wtail cs buffer_local wire_reader_buffer wire_local
        am_book_loop strikes_loop tick_loop quotes_loop asset_loop)
qed

end
