(* ===== verification/Splitter.thy ===== *)
theory Splitter
  imports Local_Reader
begin

text \<open>
  The record splitter of \<open>native/records/records.go\<close>: \<open>Records\<close> cuts the payload of an RQ_MAIN
  reply into records. Most records carry no length, so the splitter walks their fields; the
  sized ones are taken whole; the body of an R_WRAPPER is split by a recursive call.

  The result is Go's pair: the records before the first error, and that error or \<open>None\<close>. The
  offset of an \<open>UnknownRecordError\<close> counts from the start of the payload of its call.
\<close>

unbundle bit_operations_syntax

record Record =
  Record_Tag :: byte
  Record_Body :: bytes

definition TagAllTrade :: byte where "TagAllTrade = 0x08"
definition TagSecRate :: byte where "TagSecRate = 0x0a"
definition TagSecNew :: byte where "TagSecNew = 0x28"
definition TagDate :: byte where "TagDate = 0x3d"
definition TagSecParam :: byte where "TagSecParam = 0x5e"
definition TagWrapper :: byte where "TagWrapper = 0x5f"
definition TagCandles :: byte where "TagCandles = 0x09"
definition TagOvernight :: byte where "TagOvernight = 0x18"
definition TagUnion :: byte where "TagUnion = 0x68"
definition TagMessage :: byte where "TagMessage = 0x01"
definition TagServerMessage :: byte where "TagServerMessage = 0x0f"
definition TagBoard :: byte where "TagBoard = 0x34"
definition TagFortsSession :: byte where "TagFortsSession = 0x6b"
definition TagEdpRate :: byte where "TagEdpRate = 0x6e"
definition TagAmBook :: byte where "TagAmBook = 0x5c"
definition TagSysParams :: byte where "TagSysParams = 0x5b"
definition TagState :: byte where "TagState = 0x05"
definition TagReadICA :: byte where "TagReadICA = 0x7c"
definition TagQuotation :: byte where "TagQuotation = 0x06"
definition TagQuotes :: byte where "TagQuotes = 0x07"
definition TagTick :: byte where "TagTick = 0x5a"

lemmas tag_defs = TagAllTrade_def TagSecRate_def TagSecNew_def TagDate_def TagSecParam_def TagWrapper_def
  TagCandles_def TagOvernight_def TagUnion_def TagMessage_def TagServerMessage_def TagBoard_def
  TagFortsSession_def TagEdpRate_def TagAmBook_def TagSysParams_def TagState_def TagReadICA_def
  TagQuotation_def TagQuotes_def TagTick_def TagFamily_def TagEndOfFamily_def TagEndOfFamilies_def
  TagStrikes_def TagNews_def TagNewsUpload_def

definition sizedTags :: "byte \<Rightarrow> string option" where
  "sizedTags = map_of
     [(0x02, ''R_CLN_NEW''), (0x03, ''R_ORD_NEW''), (0x04, ''R_TRD''), (0x08, ''R_ALLTRADE''),
      (0x10, ''R_ORD_MODIFY''), (0x28, ''R_SEC_NEW''), (0x3a, ''R_ORD_RENEW''), (0x3b, ''R_CLIENT_ASSET''),
      (0x54, ''R_STOP''), (0x5e, ''R_SEC_PARAM''), (0x5f, ''R_WRAPPER''), (0x66, ''R_DOUBLELEG'')]"

definition attrTags :: "byte \<Rightarrow> string option" where
  "attrTags = map_of
     [(0x0b, ''R_SEC_ZALOG''), (0x0c, ''R_SEC_OBLIG''), (0x0d, ''R_SEC_ONOFF''), (0x0e, ''R_SEC_0E'')]"

text \<open>\<open>errors.As(err, &unknown)\<close>.\<close>

primrec as_unknown :: "err \<Rightarrow> (byte \<times> nat) option" where
  "as_unknown ErrShortBuffer = None"
| "as_unknown ErrHeaderCRC = None"
| "as_unknown (PayloadCRCError f t) = None"
| "as_unknown ErrTooLarge = None"
| "as_unknown ErrEOF = None"
| "as_unknown ErrUnexpectedEOF = None"
| "as_unknown ErrUnknownRecord = None"
| "as_unknown (UnknownRecordError t n) = Some (t, n)"
| "as_unknown (Wrap s e) = as_unknown e"
| "as_unknown (WrapN s a e) = as_unknown e"
| "as_unknown (Errorf s a) = None"
| "as_unknown OutOfFuel = None"

text \<open>
  \<open>start := len(p) - r.Len(); ...; Body: p[start : len(p)-r.Len()]\<close>: the bytes a walk over the
  fields has passed.
\<close>

definition spanned :: "byte \<Rightarrow> 'a rd \<Rightarrow> Record list rd" where
  "spanned tag p r = (case p r of
       (Inl e, r') \<Rightarrow> (Inl e, r')
     | (Inr _, r') \<Rightarrow> (Inr [\<lparr>Record_Tag = tag, Record_Body = take (roff r' - roff r) (Reader_Remaining r)\<rparr>], r'))"

definition whole :: "byte \<Rightarrow> bytes rd \<Rightarrow> Record list rd" where
  "whole tag p = rmap (\<lambda>body. [\<lparr>Record_Tag = tag, Record_Body = body\<rparr>]) p"

subsection \<open>The walks over the fields of the unsized records\<close>

definition skipBoard :: "unit rd" where
  "skipBoard = field ''R_BOARD''
     (sequence_rd [discard Reader_Uint16, discard Reader_Byte, discard (readCString 7),
        discard (readCString 0x1e), discard Reader_Uint16, discard Reader_Byte, discard (readCString 8),
        discard Reader_Byte, discard Reader_Byte])"

definition skipResult :: "unit rd" where
  "skipResult r =
     rbind (field ''R_RES type'' Reader_Byte) (\<lambda>trnType.
     rbind (field ''R_RES status'' Reader_Byte) (\<lambda>trrStatus.
     rbind (field ''R_RES text'' (readCString 512)) (\<lambda>_.
     rbind (field ''R_RES transactionid'' Reader_Int64) (\<lambda>_.
       if (trnType \<noteq> 1 \<and> trnType \<noteq> 2) \<or> trrStatus = 4
       then fail (UnknownRecordError TagServerMessage (roff r)) else ret ())))) r"

definition skipSecRate :: "unit rd" where
  "skipSecRate = rbind (field ''R_SEC_RATE'' Reader_Uint16) (\<lambda>_.
     rbind (field ''R_SEC_RATE'' Reader_Int64) (\<lambda>_. ret ()))"

definition candle_skip_step :: "byte \<Rightarrow> unit \<Rightarrow> (unit + unit) rd" where
  "candle_skip_step flag u =
     (let msg = ''R_HISTORY: unexpected data after the record status (unsized record)'' in
      with_len (\<lambda>n.
        if n = 0 then ret (Inr ())
        else if n \<le> 5 then rbind (field msg Reader_Int32) (\<lambda>_. ret (Inr ()))
        else rbind (rtimes 7 (field msg Reader_Int32)) (\<lambda>_.
             rbind (rwhen (flag \<noteq> 0) 0 (field ''R_HISTORY openinterest'' Reader_Int32)) (\<lambda>_.
               ret (Inl ())))))"

definition candle_walk :: "unit rd" where
  "candle_walk =
     rbind (field ''R_HISTORY'' Reader_Uint16) (\<lambda>_.
     rbind (field ''R_HISTORY'' Reader_Uint16) (\<lambda>_.
     rbind (field ''R_HISTORY'' Reader_Byte) (\<lambda>_.
     rbind (field ''R_HISTORY'' Reader_Byte) (\<lambda>flag.
       rfor (candle_skip_step flag) ()))))"

text \<open>The walk runs on a reader \<open>c\<close> of its own over the rest of the payload.\<close>

definition skipCandles :: "bytes rd" where
  "skipCandles r =
     (case candle_walk (NewReader (Reader_Remaining r)) of
        (Inl e, _) \<Rightarrow> (Inl e, r)
      | (Inr _, c) \<Rightarrow>
          rbind (field ''R_HISTORY body'' (Reader_Raw (int (Reader_Len r) - int (Reader_Len c)))) (\<lambda>body.
          rbind (at_end ''R_HISTORY: %d trailing bytes after the status: an unsized record cannot be split'') (\<lambda>_.
            ret body)) r)"

definition skipUnion :: "unit rd" where
  "skipUnion =
     rbind (field ''R_UNION id'' Reader_Int64) (\<lambda>_.
     rbind (field ''R_UNION name'' (Reader_String 20)) (\<lambda>_.
     rbind (field ''R_UNION category'' (Reader_String 32)) (\<lambda>_.
     rbind (field ''R_UNION unicat'' Reader_Byte) (\<lambda>_. ret ()))))"

definition quotes_skip_step :: "unit \<Rightarrow> (unit + unit) rd" where
  "quotes_skip_step u =
     rbind (field ''R_QUOTES side'' Reader_Byte) (\<lambda>side.
       if side = 0xff then ret (Inr ())
       else rbind (field ''R_QUOTES price delta'' Reader_Int32) (\<lambda>_.
            rbind (field ''R_QUOTES quantity'' Reader_Int32) (\<lambda>_. ret (Inl ()))))"

definition skipQuotes :: "unit rd" where
  "skipQuotes =
     rbind (field ''R_QUOTES secid'' Reader_Uint16) (\<lambda>_.
     rbind (field ''R_QUOTES board'' Reader_Uint16) (\<lambda>_. rfor quotes_skip_step ()))"

definition skipFortsSession :: "bool \<Rightarrow> unit rd" where
  "skipFortsSession bounded =
     rbind (field ''R_FORTS_SESSION'' Reader_Int32) (\<lambda>_.
       if bounded then with_len (\<lambda>n. if 0 < n then discard Reader_Byte else ret ()) else ret ())"

definition skipEdpRate :: "unit rd" where
  "skipEdpRate =
     rbind (field ''R_EDP_RATE'' (Reader_String 4)) (\<lambda>_.
     rbind (field ''R_EDP_RATE'' (Reader_String 25)) (\<lambda>_.
     rbind (field ''R_EDP_RATE'' Reader_Byte) (\<lambda>_.
     rbind (field ''R_EDP_RATE'' Reader_Int32) (\<lambda>_. ret ()))))"

definition am_book_skip_step :: "unit \<Rightarrow> (unit + unit) rd" where
  "am_book_skip_step u =
     rbind (field ''AmBOOK flags'' Reader_Byte) (\<lambda>flags.
       if flags = 0xff then ret (Inr ())
       else if flags AND NOT 0x1f \<noteq> 0
       then fail (Errorf ''AmBOOK: unsupported flags %#02x'' [uint flags])
       else
         rbind (rwhen (flags AND 0x01 \<noteq> 0) 0 (field ''AmBOOK byte'' Reader_Byte)) (\<lambda>_.
         rbind (rwhen (flags AND 0x02 \<noteq> 0) 0 (field ''AmBOOK int1'' Reader_Int32)) (\<lambda>_.
         rbind (rwhen (flags AND 0x04 \<noteq> 0) 0 (field ''AmBOOK int2'' Reader_Int32)) (\<lambda>_.
         rbind (rwhen (flags AND 0x08 \<noteq> 0) [] (field ''AmBOOK text'' (Reader_String 4))) (\<lambda>_.
         rbind (rwhen (flags AND 0x10 \<noteq> 0) 0 (field ''AmBOOK int3'' Reader_Int32)) (\<lambda>_.
           ret (Inl ())))))))"

definition skipAmBook :: "unit rd" where
  "skipAmBook = rbind (field ''AmBOOK secid'' Reader_Uint16) (\<lambda>_. rfor am_book_skip_step ())"

definition skipQuotation :: "unit rd" where
  "skipQuotation =
     rbind (field ''R_QUOTATION secid'' Reader_Uint16) (\<lambda>_.
     rbind (field ''R_QUOTATION board'' Reader_Uint16) (\<lambda>_.
     rbind (field ''R_QUOTATION mask'' Reader_Int64) (\<lambda>mask.
     rbind (rtimes (OnesCount64 mask) (field ''R_QUOTATION value'' Reader_Int32)) (\<lambda>_. ret ()))))"

definition urt_step :: "unit \<Rightarrow> (unit + bool) rd" where
  "urt_step u = with_len (\<lambda>n. if n = 0 then ret (Inr False)
     else rbind (field ''record 0x69'' Reader_Byte) (\<lambda>b. ret (if b = 0xff then Inr True else Inl ())))"

definition skipURT :: "unit rd" where
  "skipURT r = rbind (rfor urt_step ()) (\<lambda>terminated.
     if terminated then ret () else fail (UnknownRecordError 0x69 (roff r))) r"

definition skipSysParams :: "unit rd" where
  "skipSysParams =
     rbind (field ''R_SYSPARAMS size'' Reader_Int32) (\<lambda>sz. with_len (\<lambda>n.
       if sint sz < 0 \<or> sint sz > int n
       then fail (Errorf ''R_SYSPARAMS size %d exceeds the payload (%d bytes left)'' [sint sz, int n])
       else rbind (field ''R_SYSPARAMS blob'' (Reader_Raw (sint sz))) (\<lambda>_. ret ())))"

subsection \<open>One record\<close>

text \<open>The nested records of an R_WRAPPER; \<open>nested\<close> is the recursive call.\<close>

definition wrapper :: "(bool \<Rightarrow> bytes \<Rightarrow> Record list \<times> err option) \<Rightarrow> bytes \<Rightarrow> err + Record list" where
  "wrapper nested body =
     (case nested True body of
        (recs, None) \<Rightarrow> Inr recs
      | (recs, Some e) \<Rightarrow>
          (case as_unknown e of
             None \<Rightarrow> Inl e
           | Some (tag, off) \<Rightarrow>
               let parsed = take off body;
                   inner = (if parsed \<noteq> []
                            then (case nested False parsed of (rs, None) \<Rightarrow> rs | (rs, Some e) \<Rightarrow> []) else [])
               in Inr (inner @ [\<lparr>Record_Tag = tag, Record_Body = drop off body\<rparr>])))"

definition split_record ::
  "(bytes \<Rightarrow> nat option) \<Rightarrow> (bool \<Rightarrow> bytes \<Rightarrow> Record list \<times> err option) \<Rightarrow> bool \<Rightarrow> byte \<Rightarrow> Record list rd" where
  "split_record zlen nested bounded tag =
     (case sizedTags tag of
        Some name \<Rightarrow>
          rbind (field (name @ '' size'') Reader_Uint16) (\<lambda>n.
          rbind (field (name @ '' body'') (Reader_Raw (uint n))) (\<lambda>body.
            if tag = TagWrapper
            then (case wrapper nested body of Inl e \<Rightarrow> fail e | Inr recs \<Rightarrow> ret recs)
            else ret [\<lparr>Record_Tag = tag, Record_Body = body\<rparr>]))
      | None \<Rightarrow>
          if tag = TagDate then spanned tag (field ''R_DATE'' Reader_Int32)
          else if tag = TagFamily \<or> tag = TagEndOfFamily \<or> tag = TagEndOfFamilies \<or> tag = TagStrikes
          then spanned tag (SkipOptionRecord tag)
          else if tag = TagTick then spanned tag SkipTickRecord
          else if tag = TagServerMessage then spanned tag skipResult
          else if tag = TagReadICA
          then rbind (field ''ReadICA size'' Reader_Byte) (\<lambda>n.
                 whole tag (field ''ReadICA body'' (Reader_Raw (uint n))))
          else if tag = TagBoard then spanned tag skipBoard
          else if tag = TagMessage then spanned tag SkipMessage
          else if tag = TagNews \<or> tag = TagNewsUpload then spanned tag (SkipNews zlen tag)
          else if tag = TagSecRate then spanned tag skipSecRate
          else (case attrTags tag of
             Some name \<Rightarrow> whole tag (field name (Reader_Raw 3))
           | None \<Rightarrow>
               if tag = TagOvernight then whole tag (field ''R_OVERNIGHT'' (Reader_Raw 1))
               else if tag = 0x62 \<or> tag = 0x67
               then whole tag (fieldN ''record %#02x'' [uint tag] (Reader_Raw 2))
               else if tag = TagCandles then whole tag skipCandles
               else if tag = TagUnion then spanned tag skipUnion
               else if tag = TagQuotes then spanned tag skipQuotes
               else if tag = TagFortsSession then spanned tag (skipFortsSession bounded)
               else if tag = TagEdpRate then spanned tag skipEdpRate
               else if tag = TagAmBook then spanned tag skipAmBook
               else if tag = TagQuotation then spanned tag skipQuotation
               else if tag = 0x69 then spanned tag skipURT
               else if tag = TagSysParams then spanned tag skipSysParams
               else if tag = TagState then ret [\<lparr>Record_Tag = tag, Record_Body = []\<rparr>]
               else (\<lambda>r. fail (UnknownRecordError tag (roff r - 1)) r)))"

subsection \<open>The loop\<close>

definition records_step ::
  "(bytes \<Rightarrow> nat option) \<Rightarrow> (bool \<Rightarrow> bytes \<Rightarrow> Record list \<times> err option) \<Rightarrow> bool \<Rightarrow>
     Record list \<Rightarrow> (Record list + (Record list \<times> err option)) rd" where
  "records_step zlen nested bounded out r =
     (if Reader_Len r = 0 then (Inr (Inr (out, None)), r)
      else
        (case Reader_Byte r of
           (Inl e, r') \<Rightarrow> (Inr (Inr (out, Some e)), r')
         | (Inr tag, r') \<Rightarrow>
             (case split_record zlen nested bounded tag r' of
                (Inl e, r'') \<Rightarrow> (Inr (Inr (out, Some e)), r'')
              | (Inr recs, r'') \<Rightarrow> (Inr (Inl (out @ recs)), r''))))"

text \<open>
  The recursion depth is the fuel of \<open>records_n\<close>: the body of a wrapper is shorter than the
  payload it stands in, so the length of the payload and one more is always enough
  (\<open>Records_returns\<close>).
\<close>

primrec records_n :: "nat \<Rightarrow> (bytes \<Rightarrow> nat option) \<Rightarrow> bool \<Rightarrow> bytes \<Rightarrow> Record list \<times> err option" where
  "records_n 0 zlen bounded p = ([], Some OutOfFuel)"
| "records_n (Suc n) zlen bounded p =
     (case fst (rfor (records_step zlen (records_n n zlen) bounded) [] (NewReader p)) of
        Inl e \<Rightarrow> ([], Some e) | Inr res \<Rightarrow> res)"

definition records :: "(bytes \<Rightarrow> nat option) \<Rightarrow> bytes \<Rightarrow> bool \<Rightarrow> Record list \<times> err option" where
  "records zlen p bounded = records_n (Suc (length p)) zlen bounded p"

definition Records :: "(bytes \<Rightarrow> nat option) \<Rightarrow> bytes \<Rightarrow> Record list \<times> err option" where
  "Records zlen p = records zlen p False"

definition TradeDate :: "Record \<Rightarrow> err + i64" where
  "TradeDate rec' =
     (case fst (Reader_Int32 (NewReader (Record_Body rec'))) of Inl e \<Rightarrow> Inl e | Inr v \<Rightarrow> Inr (scast v))"

end
