(* ===== verification/Record_Splitting.thy ===== *)
theory Record_Splitting
  imports Splitter
begin

text \<open>
  What the record splitter guarantees: it returns on every payload, it loses no byte of what it
  splits, splitting is compositional, the offsets it reports lie inside the payload, and the
  bodies of the unsized records it yields are accepted by their decoders.
\<close>

unbundle bit_operations_syntax


subsection \<open>The walks are local and consume at least nothing\<close>

lemma local_options [local_intro]:
  "local_reader readFamily" "local_reader readEndOfFamily" "local_reader readEndOfFamilies"
  "local_reader readStrikes" "local_reader (SkipOptionRecord tag)"
proof -
  have s: "local_reader (strikes_step s)" for s
    unfolding strikes_step_def by (intro local_intro)
  show o: "local_reader readFamily" "local_reader readEndOfFamily" "local_reader readEndOfFamilies"
    "local_reader readStrikes"
    unfolding readFamily_def readEndOfFamily_def readEndOfFamilies_def readStrikes_def
    by (intro local_intro strikes.loop_local s)+
  show "local_reader (SkipOptionRecord tag)"
    unfolding SkipOptionRecord_def by (intro local_intro o)
qed

lemma local_ticks [local_intro]: "local_reader readTicks" "local_reader SkipTickRecord"
proof -
  have "local_reader (tick_step out)" for out
    unfolding tick_step_def by (intro local_intro)
  then show "local_reader readTicks"
    unfolding readTicks_def by (intro ticks.loop_local)
  then show "local_reader SkipTickRecord"
    unfolding SkipTickRecord_def by (intro local_intro)
qed

lemma local_messages [local_intro]:
  "local_reader r_msg" "local_reader SkipMessage" "local_reader readNewsHeaderFields"
  unfolding r_msg_def SkipMessage_def readNewsHeaderFields_def by (intro local_intro)+

lemma local_misc [local_intro]:
  "local_reader edp_rate" "local_reader skipEdpRate" "local_reader skipBoard" "local_reader skipSecRate"
  "local_reader skipUnion"
  unfolding edp_rate_def skipEdpRate_def skipBoard_def skipSecRate_def skipUnion_def
  by (intro local_intro local_sequence; (auto intro!: local_intro)?)+

lemma local_am_book [local_intro]: "local_reader am_book"
proof -
  have "local_reader (am_book_step s)" for s
    unfolding am_book_step_def by (intro local_intro)
  then show ?thesis unfolding am_book_def by (intro local_intro am_book.loop_local)
qed

lemma local_quotation_values [local_intro]: "local_reader (quotation_values m bs vs)"
proof (induction bs arbitrary: vs)
  case (Cons b bs)
  show ?case unfolding quotation_values.simps by (intro local_intro Cons.IH)
qed (simp add: local_ret)

lemma local_quotation [local_intro]: "local_reader quotation_rd" "local_reader skipQuotation"
  unfolding quotation_rd_def skipQuotation_def by (intro local_intro)+

lemma local_quotes [local_intro]: "local_reader quotes_rd"
proof -
  have "local_reader (quotes_step s)" for s
    unfolding quotes_step_def by (intro local_intro)
  then show ?thesis unfolding quotes_rd_def by (intro local_intro quotes.loop_local)
qed

text \<open>The walks that only skip.\<close>

lemma quotes_skip_loop: "wire_reader (quotes_skip_step u)" "advances (quotes_skip_step u)"
  unfolding quotes_skip_step_def by (intro wire_local)+

lemma am_book_skip_loop: "wire_reader (am_book_skip_step u)" "advances (am_book_skip_step u)"
  unfolding am_book_skip_step_def by (intro wire_local)+

interpretation quotes_skip: wire_loop quotes_skip_step by (rule wire_loopI) (rule quotes_skip_loop)+
interpretation am_book_skip: wire_loop am_book_skip_step by (rule wire_loopI) (rule am_book_skip_loop)+

lemma local_skip_loops [local_intro]: "local_reader skipQuotes" "local_reader skipAmBook"
proof -
  have "local_reader (quotes_skip_step u)" "local_reader (am_book_skip_step u)" for u
    unfolding quotes_skip_step_def am_book_skip_step_def by (intro local_intro)+
  then show "local_reader skipQuotes" "local_reader skipAmBook"
    unfolding skipQuotes_def skipAmBook_def
    by (intro local_intro quotes_skip.loop_local am_book_skip.loop_local; simp)+
qed

lemma local_result [local_intro]: "local_reader skipResult"
proof -
  let ?q = "\<lambda>n. rbind (field ''R_RES type'' Reader_Byte) (\<lambda>trnType.
     rbind (field ''R_RES status'' Reader_Byte) (\<lambda>trrStatus.
     rbind (field ''R_RES text'' (readCString 512)) (\<lambda>_.
     rbind (field ''R_RES transactionid'' Reader_Int64) (\<lambda>_.
       if (trnType \<noteq> 1 \<and> trnType \<noteq> 2) \<or> trrStatus = 4
       then fail (UnknownRecordError TagServerMessage n) else ret ()))))"
  have q: "local_reader (?q n)" "wire_reader (?q n)" for n by (intro local_intro wire_local)+
  have keep: "buffer_reader skipResult"
  proof
    fix r x r' assume "valid r" "skipResult r = (x, r')"
    then show "rbuf r' = rbuf r \<and> roff r \<le> roff r' \<and> valid r'"
      unfolding skipResult_def by (rule wire_keeps [OF q(2) [of "roff r"]])
  qed
  show ?thesis
  proof (rule local_cong [OF q(1) [of 0] keep])
    show "skipResult r = (Inr a, r') \<longleftrightarrow> ?q 0 r = (Inr a, r')" for r a r'
      unfolding skipResult_def
      by (auto simp: rbind_def fail_def split: prod.splits sum.splits if_splits)
  qed
qed

lemma local_sys_params [local_intro]: "local_reader skipSysParams"
proof -
  let ?q = "rbind (field ''R_SYSPARAMS size'' Reader_Int32) (\<lambda>sz.
       if sint sz < 0 then fail (Errorf ''R_SYSPARAMS size'' [sint sz])
       else rbind (field ''R_SYSPARAMS blob'' (Reader_Raw (sint sz))) (\<lambda>_. ret ()))"
  have q: "local_reader ?q" by (intro local_intro)
  have eq: "skipSysParams r = (Inr a, r') \<longleftrightarrow> ?q r = (Inr a, r')" for r a r'
    unfolding skipSysParams_def
    by (auto simp: rbind_def fail_def with_len_def field_def Reader_Raw_def split: prod.splits sum.splits if_splits)
  have keep: "buffer_reader skipSysParams"
    unfolding skipSysParams_def
  proof (intro buffer_reader_rbind wire_reader_buffer [OF wire_reader_field [OF wire_reader_Int32]])
    fix sz :: i32
    have w: "wire_reader (rbind (field ''R_SYSPARAMS blob'' (Reader_Raw (sint sz))) (\<lambda>_. ret ()))"
      by (intro wire_local)
    show "buffer_reader (with_len (\<lambda>n.
       if sint sz < 0 \<or> sint sz > int n
       then fail (Errorf ''R_SYSPARAMS size %d exceeds the payload (%d bytes left)'' [sint sz, int n])
       else rbind (field ''R_SYSPARAMS blob'' (Reader_Raw (sint sz))) (\<lambda>_. ret ())))"
      by unfold_locales (auto simp: with_len_def fail_def dest: wire_keeps [OF w] split: if_splits)
  qed
  show ?thesis by (rule local_cong [OF q keep eq])
qed

lemma urt_keeps: "buffer_reader (urt_step u)"
proof -
  have w: "wire_reader (rbind (field ''record 0x69'' Reader_Byte) (\<lambda>b. ret (if b = 0xff then Inr True else Inl ())))"
    by (intro wire_local)
  show ?thesis
    by unfold_locales (auto simp: urt_step_def with_len_def ret_def dest: wire_keeps [OF w] split: if_splits)
qed

lemma urt_progress: "valid r \<Longrightarrow> urt_step u r = (Inr (Inl s'), r') \<Longrightarrow> roff r < roff r'"
  by (auto simp: urt_step_def with_len_def ret_def rbind_def field_def Reader_Byte_def split: if_splits)

interpretation urt: consuming_loop urt_step
  by (unfold_locales, rule urt_keeps [THEN buffer_reader.keeps]) (auto intro: urt_progress)

text \<open>A record 0x69 is the bytes up to and including the first 0xff.\<close>

lemma urt_loop_local:
  assumes "valid r" and "rfor urt_step u r = (Inr True, r')"
  shows "rfor urt_step u (at pre (consumed r r') post) = (Inr True, at (pre @ consumed r r') [] post)"
  using assms
proof (induction u r arbitrary: pre rule: urt.loop_induct)
  case (step u r)
  note v = step.hyps(1)
  have l: "Reader_Len r \<noteq> 0"
  proof
    assume "Reader_Len r = 0"
    then have "urt_step u r = (Inr (Inr False), r)" by (simp add: urt_step_def with_len_def ret_def)
    with step.prems show False by (simp add: urt.unfold [OF v])
  qed
  then have r: "roff r < length (rbuf r)" by (simp add: Reader_Len_def)
  let ?b = "rbuf r ! roff r" and ?r1 = "r\<lparr>roff := roff r + 1\<rparr>"
  have b: "urt_step u r = (Inr (if ?b = 0xff then Inr True else Inl ()), ?r1)"
    using l by (simp add: urt_step_def with_len_def ret_def rbind_def field_def Reader_Byte_def)
  have b': "urt_step u (at pre (?b # bs) post)
      = (Inr (if ?b = 0xff then Inr True else Inl ()), at (pre @ [?b]) bs post)" for bs
    by (simp add: urt_step_def with_len_def ret_def rbind_def field_def Reader_Byte_def at_def Reader_Len_def nth_append)
  show ?case
  proof (cases "?b = 0xff")
    case True
    with b step.prems have "r' = ?r1" by (simp add: urt.unfold [OF v])
    then have "consumed r r' = [?b]" using r by (simp add: consumed_def take_Suc_drop_conv)
    with b' [of "[]"] True show ?thesis by (simp add: urt.unfold)
  next
    case False
    with b step.prems have rest: "rfor urt_step () ?r1 = (Inr True, r')" by (simp add: urt.unfold [OF v])
    have v1: "valid ?r1" using r by (simp add: valid_def)
    from buffer_reader.keeps [OF urt.loop_keeps v1 rest]
    have k': "rbuf r' = rbuf r" "roff ?r1 \<le> roff r'" "valid r'" by auto
    have "consumed r r' = consumed r ?r1 @ consumed ?r1 r'"
      using k' by (intro consumed_append) auto
    also have "consumed r ?r1 = [?b]" using r by (simp add: consumed_def take_Suc_drop_conv)
    finally have c: "consumed r r' = ?b # consumed ?r1 r'" by simp
    show ?thesis
      unfolding c
      using step.IH [OF _ rest, of "pre @ [?b]"] b b' [of "consumed ?r1 r'"] False
      by (simp add: urt.unfold)
  qed
qed

lemma local_urt [local_intro]: "local_reader skipURT"
proof (intro local_reader.intro buffer_reader.intro local_reader_axioms.intro)
  fix r x r' assume v: "valid r" and "skipURT r = (x, r')"
  then obtain y where "rfor urt_step () r = (y, r')"
    by (auto simp: skipURT_def rbind_def ret_def fail_def split: prod.splits sum.splits if_splits)
  then show "rbuf r' = rbuf r \<and> roff r \<le> roff r' \<and> valid r'"
    by (rule buffer_reader.keeps [OF urt.loop_keeps v])
next
  fix r a r' pre post assume v: "valid r" and "skipURT r = (Inr a, r')"
  then have "rfor urt_step () r = (Inr True, r')"
    by (auto simp: skipURT_def rbind_def ret_def fail_def split: prod.splits sum.splits if_splits)
  from urt_loop_local [OF v this, of pre post]
  show "skipURT (at pre (consumed r r') post) = (Inr a, at (pre @ consumed r r') [] post)"
    by (simp add: skipURT_def rbind_def ret_def)
qed

subsection \<open>News packages\<close>

text \<open>
  What the code relies on in compress/zlib: a stream ends where its checksum ends, whatever
  follows it, and has at least its two header and four checksum bytes.
\<close>

definition zlib_stream :: "(bytes \<Rightarrow> nat option) \<Rightarrow> bool" where
  "zlib_stream zlen \<longleftrightarrow>
     (\<forall>s n t. zlen s = Some n \<longrightarrow> 6 \<le> n \<and> n \<le> length s \<and> zlen (take n s @ t) = Some n)"

lemma local_package:
  assumes z: "zlib_stream zlen"
  shows "local_reader (\<lambda>r. case newsBodyPackageLen zlen (Reader_Remaining r) of
      Inl e \<Rightarrow> (Inl (f e), r) | Inr n \<Rightarrow> field s (Reader_Raw (int n)) r)" (is "local_reader ?p")
proof (intro local_reader.intro buffer_reader.intro local_reader_axioms.intro)
  fix r x r' assume v: "valid r" and "?p r = (x, r')"
  then show "rbuf r' = rbuf r \<and> roff r \<le> roff r' \<and> valid r'"
    using wire_keeps [OF wire_reader_field [OF wire_reader_Raw] v] by (auto split: sum.splits)
next
  fix r a r' pre post assume v: "valid r" and e: "?p r = (Inr a, r')"
  then obtain n where n: "newsBodyPackageLen zlen (Reader_Remaining r) = Inr n"
    and raw: "field s (Reader_Raw (int n)) r = (Inr a, r')"
    by (auto split: sum.splits)
  let ?m = "Reader_Remaining r"
  from n obtain k where k: "zlen (drop 4 ?m) = Some k" "n = 4 + k" "8 \<le> length ?m"
    by (auto simp: newsBodyPackageLen_def split: if_splits option.splits)
  have zk: "6 \<le> k" "k \<le> length (drop 4 ?m)" "\<And>t. zlen (take k (drop 4 ?m) @ t) = Some k"
    using z [unfolded zlib_stream_def, rule_format, OF k(1)] by blast+
  have c: "consumed r r' = take n ?m"
    using raw by (auto simp: field_def Reader_Raw_def consumed_def Reader_Remaining_def split: if_splits)
  have d: "drop 4 (take n ?m @ post) = take k (drop 4 ?m) @ post"
    using zk(2) k(2,3) by (simp add: drop_take min_def)
  have l: "length (take n ?m) = n" using zk k by simp
  have "Reader_Remaining (at pre (consumed r r') post) = take n ?m @ post"
    by (simp add: c Reader_Remaining_def at_def)
  moreover have "newsBodyPackageLen zlen (take n ?m @ post) = Inr n"
    using zk k l d by (simp add: newsBodyPackageLen_def)
  ultimately show "?p (at pre (consumed r r') post) = (Inr a, at (pre @ consumed r r') [] post)"
    using local_reader.local [OF local_field [OF local_Raw] v raw, of pre post] by simp
qed

text \<open>The other form of the package carries its length.\<close>

lemma local_sized_package:
  assumes "\<And>n. local_reader (q n)" and "\<And>n r a r'. valid r \<Longrightarrow> q n r = (Inr a, r') \<Longrightarrow> n \<le> int (Reader_Len r)"
  shows "local_reader (\<lambda>r. if n < 0 \<or> n > int (Reader_Len r) then (Inl e, r) else q n r)"
proof -
  have q: "local_reader (if n < 0 then fail e else q n)" by (intro local_intro assms(1))
  show ?thesis
  proof (rule local_cong [OF q])
    show "buffer_reader (\<lambda>r. if n < 0 \<or> n > int (Reader_Len r) then (Inl e, r) else q n r)"
      by unfold_locales (auto dest: local_keeps [OF assms(1)] split: if_splits)
    show "((if n < 0 \<or> n > int (Reader_Len r) then (Inl e, r) else q n r) = (Inr a, r')) =
        ((if n < 0 then fail e else q n) r = (Inr a, r'))" if "valid r" for r a r'
      using assms(2) [OF that, of n a r'] by (auto simp: fail_def not_le)
  qed
qed

lemma on_error_cong: "on_error e p r = (Inr a, r') \<longleftrightarrow> p r = (Inr a, r')"
  by (auto simp: on_error_def split: prod.splits sum.splits)

lemma local_on_error [local_intro]:
  assumes "local_reader p" shows "local_reader (on_error e p)"
proof (rule local_cong [OF assms])
  show "buffer_reader (on_error e p)"
    by unfold_locales (auto simp: on_error_def dest: local_keeps [OF assms] split: prod.splits sum.splits)
qed (rule on_error_cong)

lemma Raw_bound: "field s (Reader_Raw n) r = (Inr a, r') \<Longrightarrow> n \<le> int (Reader_Len r)"
  by (auto simp: field_def Reader_Raw_def Reader_Len_def split: if_splits)

lemma Skip_bound: "Reader_Skip n r = (Inr a, r') \<Longrightarrow> n \<le> int (Reader_Len r)"
  by (auto simp: Reader_Skip_def Reader_Len_def split: if_splits)

lemma local_news_upload [local_intro]:
  assumes "zlib_stream zlen" shows "local_reader (news_upload zlen)"
  unfolding news_upload_def
  by (intro local_intro local_sized_package local_package [OF assms, where f = "\<lambda>e. e"]) (erule Raw_bound)

text \<open>The walk and the decoder of news accept the same bytes.\<close>

lemma Skip_Raw: "Reader_Skip n r = (Inr (), r') \<longleftrightarrow> (\<exists>b. field s (Reader_Raw n) r = (Inr b, r'))"
  by (auto simp: Reader_Skip_def Reader_Raw_def field_def split: if_splits)

lemma SkipNews_upload:
  "SkipNews zlen TagNewsUpload r = (Inr (), r') \<longleftrightarrow> (\<exists>u. news_upload zlen r = (Inr u, r'))"
proof (cases "field ''R_NEWS_UPLOAD flags'' Reader_Byte r")
  case (Pair x r1)
  show ?thesis
  proof (cases x)
    case (Inl e)
    with Pair show ?thesis by (simp add: SkipNews_def news_upload_def rbind_def TagNews_def TagNewsUpload_def)
  next
    case (Inr flags)
    show ?thesis
    proof (cases "flags AND 2 = 0")
      case True
      with Pair Inr show ?thesis
        by (auto simp: SkipNews_def news_upload_def rbind_def ret_def rmap_def TagNews_def TagNewsUpload_def
            split: prod.splits sum.splits)
    next
      case False
      show ?thesis
      proof (cases "flags AND 1 = 0")
        case True
        with False Pair Inr Skip_Raw [where s = "''R_NEWS_UPLOAD package''"] show ?thesis
          by (auto simp: SkipNews_def news_upload_def rbind_def ret_def rmap_def TagNews_def TagNewsUpload_def
              on_error_def split: prod.splits sum.splits)
      next
        case False2: False
        with False Pair Inr Skip_Raw [where s = "''R_NEWS_UPLOAD package''"] show ?thesis
          by (auto simp: SkipNews_def news_upload_def rbind_def ret_def rmap_def TagNews_def TagNewsUpload_def
              on_error_def split: prod.splits sum.splits if_splits)
      qed
    qed
  qed
qed


subsection \<open>The step of the splitter keeps the buffer\<close>

lemma buffer_reader_spanned [buffer_local]: "buffer_reader p \<Longrightarrow> buffer_reader (spanned tag p)"
proof
  fix r x r' assume b: "buffer_reader p" and v: "valid r" and e: "spanned tag p r = (x, r')"
  obtain y r1 where p: "p r = (y, r1)" by fastforce
  with e have "r1 = r'" by (cases y) (auto simp: spanned_def)
  with buffer_reader.keeps [OF b v p] show "rbuf r' = rbuf r \<and> roff r \<le> roff r' \<and> valid r'" by simp
qed

lemma buffer_reader_whole [buffer_local]: "buffer_reader p \<Longrightarrow> buffer_reader (whole tag p)"
  unfolding whole_def rmap_def by (intro buffer_local wire_reader_buffer [OF wire_reader_ret])

lemma buffer_reader_prim [buffer_local]:
  "buffer_reader Reader_Byte" "buffer_reader Reader_Uint16" "buffer_reader Reader_Int32"
  "buffer_reader Reader_Int64" "buffer_reader (Reader_Raw n)" "buffer_reader (ret a)" "buffer_reader (fail e)"
  by (intro wire_reader_buffer wire_local)+

lemma buffer_reader_with_len [buffer_local]:
  "(\<And>n. buffer_reader (p n)) \<Longrightarrow> buffer_reader (with_len p)"
proof
  fix r x r' assume b: "\<And>n. buffer_reader (p n)" and "valid r" "with_len p r = (x, r')"
  then show "rbuf r' = rbuf r \<and> roff r \<le> roff r' \<and> valid r'"
    unfolding with_len_def by (blast dest: buffer_reader.keeps [OF b])
qed

lemma buffer_reader_SkipNews [buffer_local]: "buffer_reader (SkipNews zlen tag)"
proof -
  have h: "buffer_reader readNewsHeaderFields" by (intro wire_reader_buffer wire_local)
  have s: "buffer_reader (\<lambda>r. if sint n < 0 \<or> sint n > int (Reader_Len r) then (Inl e, r) else Reader_Skip (sint n) r)"
    for n :: i32 and e
    by unfold_locales (auto dest: wire_keeps [OF wire_reader_Skip] split: if_splits)
  have p: "buffer_reader (\<lambda>r. case newsBodyPackageLen zlen (Reader_Remaining r) of
      Inl e \<Rightarrow> (Inl e, r) | Inr n \<Rightarrow> Reader_Skip (int n) r)"
    by unfold_locales (auto dest: wire_keeps [OF wire_reader_Skip] split: sum.splits)
  have o: "buffer_reader (on_error e (Reader_Skip 4))" for e
    by (intro local_buffer local_intro)
  show ?thesis
    unfolding SkipNews_def by (intro buffer_local h s p o)
qed

lemma candle_skip_branch: "wire_reader (rbind (rtimes 7 (field m Reader_Int32)) (\<lambda>_.
     rbind (rwhen (flag \<noteq> (0 :: byte)) 0 (field ''R_HISTORY openinterest'' Reader_Int32)) (\<lambda>_. ret (Inl ()))))"
  "advances (rbind (rtimes 7 (field m Reader_Int32)) (\<lambda>_.
     rbind (rwhen (flag \<noteq> 0) 0 (field ''R_HISTORY openinterest'' Reader_Int32)) (\<lambda>_. ret (Inl ()))))"
proof -
  have "advances (rtimes 7 (field m Reader_Int32))"
    unfolding numeral_eq_Suc rtimes.simps by (intro wire_local)
  then show "advances (rbind (rtimes 7 (field m Reader_Int32)) (\<lambda>_.
     rbind (rwhen (flag \<noteq> 0) 0 (field ''R_HISTORY openinterest'' Reader_Int32)) (\<lambda>_. ret (Inl ()))))"
    by (intro wire_local)
qed (intro wire_local)

interpretation candle_skip: consuming_loop "candle_skip_step flag" for flag
proof
  fix u r x r' assume v: "valid r" and e: "candle_skip_step flag u r = (x, r')"
  have "buffer_reader (candle_skip_step flag u)"
    unfolding candle_skip_step_def Let_def
    by (intro buffer_local wire_reader_buffer [OF candle_skip_branch(1)])
  from buffer_reader.keeps [OF this v e] show "rbuf r' = rbuf r \<and> roff r \<le> roff r' \<and> valid r'" .
next
  fix u r u' r' assume v: "valid r" and e: "candle_skip_step flag u r = (Inr (Inl u'), r')"
  have n: "fst (rbind (field m Reader_Int32) (\<lambda>_. ret (Inr ())) r) \<noteq> Inr (Inl u')" for m
    by (auto simp: rbind_def ret_def split: prod.splits sum.splits)
  have g: "\<not> Reader_Len r \<le> 5"
  proof
    assume "Reader_Len r \<le> 5"
    with e n [of "''R_HISTORY: unexpected data after the record status (unsized record)''"] show False
      by (cases "Reader_Len r = 0") (auto simp add: candle_skip_step_def with_len_def ret_def Let_def)
  qed
  show "roff r < roff r'"
    by (rule candle_skip_branch(2) [unfolded advances_def, rule_format, OF v])
      (use e g in \<open>simp add: candle_skip_step_def with_len_def Let_def\<close>)
qed

lemma buffer_candle_walk: "buffer_reader candle_walk"
  unfolding candle_walk_def by (intro buffer_local candle_skip.loop_keeps)

text \<open>A candle record takes the whole rest of the payload.\<close>

lemma skipCandles_rest:
  assumes "valid r" and "skipCandles r = (Inr b, r')"
  shows "b = Reader_Remaining r \<and> rbuf r' = rbuf r \<and> roff r' = length (rbuf r)
    \<and> (\<exists>c. candle_walk (NewReader (Reader_Remaining r)) = (Inr (), c) \<and> Reader_Len c = 0)"
proof -
  from assms(2) obtain c where w: "candle_walk (NewReader (Reader_Remaining r)) = (Inr (), c)"
    by (auto simp: skipCandles_def split: prod.splits sum.splits)
  from buffer_reader.keeps [OF buffer_candle_walk _ w] have c: "Reader_Len c \<le> Reader_Len r"
    by (auto simp: NewReader_def Reader_Remaining_def Reader_Len_def valid_def)
  with assms w show ?thesis
    by (auto simp: skipCandles_def rbind_def field_def Reader_Raw_def at_end_def ret_def Reader_Len_def
        Reader_Remaining_def valid_def split: if_splits)
qed

lemma buffer_skipCandles [buffer_local]: "buffer_reader skipCandles"
proof
  fix r x r' assume v: "valid r" and e: "skipCandles r = (x, r')"
  have w: "buffer_reader (rbind (field s (Reader_Raw n)) (\<lambda>body. rbind (at_end t) (\<lambda>_. ret body)))" for s n t
    by (intro buffer_local)
  show "rbuf r' = rbuf r \<and> roff r \<le> roff r' \<and> valid r'"
    using v e buffer_reader.keeps [OF w v] unfolding skipCandles_def
    by (auto split: prod.splits sum.splits)
qed

lemma buffer_split_record: "buffer_reader (split_record zlen nested bounded tag)"
proof -
  have l: "buffer_reader (SkipOptionRecord tag)" "buffer_reader SkipTickRecord" "buffer_reader skipResult"
    "buffer_reader skipBoard" "buffer_reader SkipMessage" "buffer_reader skipSecRate" "buffer_reader skipUnion"
    "buffer_reader skipQuotes" "buffer_reader skipEdpRate" "buffer_reader skipAmBook"
    "buffer_reader skipQuotation" "buffer_reader skipURT" "buffer_reader skipSysParams"
    by (intro local_buffer local_intro)+
  have f: "buffer_reader (skipFortsSession bounded)"
    unfolding skipFortsSession_def discard_def by (intro buffer_local)
  have u: "buffer_reader (\<lambda>r. fail (E r) r)" for E
    by unfold_locales (auto simp: fail_def)
  have w: "buffer_reader (case wrapper nested body of Inl e \<Rightarrow> fail e | Inr recs \<Rightarrow> ret recs)" for body
    by (cases "wrapper nested body") (auto intro: buffer_local)
  show ?thesis
    unfolding split_record_def
    by (cases "sizedTags tag"; cases "attrTags tag"; simp only: option.case)
      (intro buffer_local buffer_reader_fieldN l f u w)+
qed

lemma records_step_keeps: "buffer_reader (records_step zlen nested bounded out)"
proof
  fix r x r' assume v: "valid r" and e: "records_step zlen nested bounded out r = (x, r')"
  show "rbuf r' = rbuf r \<and> roff r \<le> roff r' \<and> valid r'"
  proof (cases "Reader_Byte r")
    case (Pair y r1)
    from wire_keeps [OF wire_reader_Byte v Pair] have k: "rbuf r1 = rbuf r" "roff r \<le> roff r1" "valid r1" by auto
    with e v Pair buffer_reader.keeps [OF buffer_split_record k(3)] show ?thesis
      by (fastforce simp: records_step_def split: if_splits sum.splits prod.splits)
  qed
qed

lemma records_step_progress:
  assumes "valid r" and "records_step zlen nested bounded out r = (Inr (Inl out'), r')"
  shows "roff r < roff r'"
proof -
  from assms(2) obtain tag r1 recs where b: "Reader_Byte r = (Inr tag, r1)"
    and s: "split_record zlen nested bounded tag r1 = (Inr recs, r')"
    by (auto simp: records_step_def split: if_splits sum.splits prod.splits)
  from advances_Byte assms(1) b have "roff r < roff r1" by (auto simp: advances_def)
  moreover have "valid r1" using wire_keeps [OF wire_reader_Byte assms(1) b] by simp
  from buffer_reader.keeps [OF buffer_split_record this s] have "roff r1 \<le> roff r'" by simp
  ultimately show ?thesis by simp
qed

interpretation splitting: consuming_loop "records_step zlen nested bounded" for zlen nested bounded
  by (unfold_locales, rule records_step_keeps [THEN buffer_reader.keeps]) (auto intro: records_step_progress)


subsection \<open>The recursion on wrapper bodies\<close>

lemma wrapper_cong:
  fixes nested nested' :: "bool \<Rightarrow> bytes \<Rightarrow> Record list \<times> err option"
  assumes "\<And>b q. length q \<le> length body \<Longrightarrow> nested b q = nested' b q"
  shows "wrapper nested body = wrapper nested' body"
  unfolding wrapper_def
  by (simp add: assms Let_def split: prod.split option.split)

lemma split_record_cong:
  fixes nested nested' :: "bool \<Rightarrow> bytes \<Rightarrow> Record list \<times> err option"
  assumes "\<And>b q. length q < Reader_Len r \<Longrightarrow> nested b q = nested' b q"
  shows "split_record zlen nested bounded tag r = split_record zlen nested' bounded tag r"
proof (cases "sizedTags tag")
  case (Some name)
  have "wrapper nested body = wrapper nested' body"
    if "Reader_Uint16 r = (Inr n, r1)" "Reader_Raw (uint n) r1 = (Inr body, r2)" for n r1 r2 body
  proof (rule wrapper_cong)
    fix b :: bool and q :: bytes assume "length q \<le> length body"
    with that have "length q < Reader_Len r"
      by (auto simp: Reader_Uint16_def Reader_Raw_def Reader_Len_def split: if_splits)
    then show "nested b q = nested' b q" by (rule assms)
  qed
  with Some show ?thesis
    by (auto simp: split_record_def rbind_def field_def split: prod.splits sum.splits)
qed (simp add: split_record_def)

lemma records_step_cong:
  fixes nested nested' :: "bool \<Rightarrow> bytes \<Rightarrow> Record list \<times> err option"
  assumes "valid r" and "\<And>b q. length q < Reader_Len r \<Longrightarrow> nested b q = nested' b q"
  shows "records_step zlen nested bounded out r = records_step zlen nested' bounded out r"
proof (cases "Reader_Byte r")
  case (Pair y r1)
  have "split_record zlen nested bounded tag r1 = split_record zlen nested' bounded tag r1" if "y = Inr tag" for tag
  proof (rule split_record_cong)
    fix b :: bool and q :: bytes assume "length q < Reader_Len r1"
    with Pair that have "length q < Reader_Len r"
      by (auto simp: Reader_Byte_def Reader_Len_def split: if_splits)
    then show "nested b q = nested' b q" by (rule assms(2))
  qed
  with Pair show ?thesis by (cases y) (simp_all add: records_step_def)
qed

lemma records_loop_cong:
  fixes nested nested' :: "bool \<Rightarrow> bytes \<Rightarrow> Record list \<times> err option"
  assumes "valid r" and "\<And>b q. length q < Reader_Len r \<Longrightarrow> nested b q = nested' b q"
  shows "rfor (records_step zlen nested bounded) out r = rfor (records_step zlen nested' bounded) out r"
  using assms
proof (induction out r rule: splitting.loop_induct [where zlen = zlen and nested = nested and bounded = bounded])
  case (step out r)
  have e: "records_step zlen nested' bounded out r = records_step zlen nested bounded out r"
    by (rule records_step_cong [OF step.hyps(1), symmetric]) (rule step.prems)
  have "rfor (records_step zlen nested bounded) out' r' = rfor (records_step zlen nested' bounded) out' r'"
    if s: "records_step zlen nested bounded out r = (Inr (Inl out'), r')" for out' r'
    by (rule step.IH [OF s]) (use splitting.shorter [OF step.hyps(1) s] step.prems in auto)
  then show ?case
    unfolding splitting.unfold [OF step.hyps(1)] e
    by (auto split: prod.splits sum.splits)
qed

lemma records_n_fuel:
  "length p < n \<Longrightarrow> length p < m \<Longrightarrow> records_n n zlen bounded p = records_n m zlen bounded p"
proof (induction n arbitrary: m p bounded)
  case (Suc n)
  then obtain k where m: "m = Suc k" by (cases m) auto
  have "records_n n zlen b q = records_n k zlen b q" if "length q < Reader_Len (NewReader p)" for b q
    by (rule Suc.IH) (use that Suc.prems m in \<open>auto simp: Reader_Len_def NewReader_def\<close>)
  then show ?case
    unfolding m records_n.simps by (subst records_loop_cong [of _ _ "records_n k zlen"]) auto
qed simp

text \<open>The splitter as the code writes it, without fuel.\<close>

lemma records_unfold:
  "records zlen p bounded =
     (case fst (rfor (records_step zlen (\<lambda>b q. records zlen q b) bounded) [] (NewReader p)) of
        Inl e \<Rightarrow> ([], Some e) | Inr res \<Rightarrow> res)"
proof -
  have "records_n (length p) zlen b q = records zlen q b" if "length q < Reader_Len (NewReader p)" for b q
    unfolding records_def
    by (rule records_n_fuel) (use that in \<open>auto simp: Reader_Len_def NewReader_def\<close>)
  then have "rfor (records_step zlen (records_n (length p) zlen) bounded) [] (NewReader p) =
      rfor (records_step zlen (\<lambda>b q. records zlen q b) bounded) [] (NewReader p)"
    by (intro records_loop_cong) auto
  then show ?thesis by (simp only: records_def records_n.simps)
qed

text \<open>
  One round: what stands at the front of the rest of the payload, and the splitting of what
  is behind it. \<open>split_rest\<close> is the loop from a position on.
\<close>

definition split_rest :: "(bytes \<Rightarrow> nat option) \<Rightarrow> bool \<Rightarrow> Record list \<Rightarrow> Reader \<Rightarrow> Record list \<times> err option" where
  "split_rest zlen bounded out r =
     (case fst (rfor (records_step zlen (\<lambda>b q. records zlen q b) bounded) out r) of
        Inl e \<Rightarrow> ([], Some e) | Inr res \<Rightarrow> res)"

abbreviation split_one where
  "split_one zlen bounded \<equiv> split_record zlen (\<lambda>b q. records zlen q b) bounded"

lemma records_split_rest: "records zlen p bounded = split_rest zlen bounded [] (NewReader p)"
  unfolding split_rest_def by (rule records_unfold)

lemma split_rest_unfold:
  assumes "valid r"
  shows "split_rest zlen bounded out r =
    (if Reader_Len r = 0 then (out, None)
     else case split_one zlen bounded (rbuf r ! roff r) (r\<lparr>roff := roff r + 1\<rparr>) of
        (Inl e, r') \<Rightarrow> (out, Some e)
      | (Inr recs, r') \<Rightarrow> split_rest zlen bounded (out @ recs) r')"
  unfolding split_rest_def
  by (subst splitting.unfold [OF assms])
    (auto simp: records_step_def Reader_Byte_def split: prod.split sum.split)

lemma split_rest_induct [consumes 1, case_names step]:
  assumes "valid r"
    and "\<And>out r. valid r \<Longrightarrow>
      (\<And>recs r'. Reader_Len r \<noteq> 0 \<Longrightarrow>
         split_one zlen bounded (rbuf r ! roff r) (r\<lparr>roff := roff r + 1\<rparr>) = (Inr recs, r') \<Longrightarrow> P (out @ recs) r')
      \<Longrightarrow> P out r"
  shows "P out r"
proof (rule splitting.loop_induct [where zlen = zlen and nested = "\<lambda>b q. records zlen q b" and bounded = bounded, OF assms(1)])
  fix out r assume v: "valid r"
    and IH: "\<And>s' r'. records_step zlen (\<lambda>b q. records zlen q b) bounded out r = (Inr (Inl s'), r') \<Longrightarrow> P s' r'"
  show "P out r"
  proof (rule assms(2) [OF v])
    fix recs r' assume "Reader_Len r \<noteq> 0"
      and "split_one zlen bounded (rbuf r ! roff r) (r\<lparr>roff := roff r + 1\<rparr>) = (Inr recs, r')"
    then show "P (out @ recs) r'"
      by (intro IH) (simp add: records_step_def Reader_Byte_def)
  qed
qed

text \<open>The records found so far stay in front of the result.\<close>

lemma split_rest_append:
  assumes "valid r"
  shows "split_rest zlen bounded (pre @ out) r =
    (case split_rest zlen bounded out r of (rs, e) \<Rightarrow> (pre @ rs, e))"
  using assms
proof (induction out r rule: split_rest_induct [where zlen = zlen and bounded = bounded])
  case (step out r)
  note u = split_rest_unfold [OF step.hyps(1), of zlen bounded]
  obtain x r' where s: "split_one zlen bounded (rbuf r ! roff r) (r\<lparr>roff := roff r + 1\<rparr>) = (x, r')"
    by fastforce
  show ?case
  proof (cases "Reader_Len r = 0")
    case True
    then show ?thesis unfolding u by simp
  next
    case False
    show ?thesis
    proof (cases x)
      case (Inl e)
      show ?thesis by (simp only: u s Inl False if_False prod.case sum.case)
    next
      case (Inr recs)
      have "split_rest zlen bounded (pre @ out @ recs) r' =
          (case split_rest zlen bounded (out @ recs) r' of (rs, e) \<Rightarrow> (pre @ rs, e))"
        by (rule step.IH [OF False]) (use s Inr in simp)
      then show ?thesis by (simp only: u s Inr False if_False prod.case sum.case append_assoc)
    qed
  qed
qed


subsection \<open>The errors of the splitter\<close>

text \<open>An error the splitter may report on a payload of \<open>n\<close> bytes.\<close>

definition decoded_tags :: "byte set" where
  "decoded_tags = {TagMessage, TagTick, TagFamily, TagEndOfFamily, TagEndOfFamilies, TagStrikes, TagNews,
     TagSecRate, TagEdpRate, TagAmBook, TagQuotation, TagDate, TagUnion, TagOvernight, 0x0e, TagFortsSession}"

definition located :: "nat \<Rightarrow> err \<Rightarrow> bool" where
  "located n e \<longleftrightarrow> plain e \<or> (\<exists>t k. e = UnknownRecordError t k \<and> k \<le> n \<and> t \<notin> decoded_tags)"

lemma not_decoded [simp]: "TagServerMessage \<notin> decoded_tags" "0x69 \<notin> decoded_tags" "TagNewsUpload \<notin> decoded_tags"
  by (simp_all add: decoded_tags_def tag_defs)

lemma returningD: "returning p \<Longrightarrow> valid r \<Longrightarrow> p r = (Inl e, r') \<Longrightarrow> plain e"
  by (simp add: returning_def)

lemma plain_as_unknown: "plain e \<Longrightarrow> as_unknown e = None"
  by (induction e) auto

lemma returning_walks [returning_intro]:
  "returning (SkipOptionRecord tag)" "returning SkipTickRecord" "returning SkipMessage"
  "returning readNewsHeaderFields" "returning skipSecRate" "returning skipUnion" "returning skipEdpRate"
  "returning skipQuotation" "returning skipBoard"
proof -
  have st: "returning (rfor strikes_step s)" "returning (rfor tick_step t)" for s t
    by (intro strikes.loop_returning ticks.loop_returning returning_intro)+
  note ws = wire_reader_rfor [OF strikes_loop]
  show "returning (SkipOptionRecord tag)" "returning SkipTickRecord" "returning SkipMessage"
    "returning readNewsHeaderFields" "returning skipSecRate" "returning skipUnion" "returning skipEdpRate"
    "returning skipQuotation"
    unfolding SkipOptionRecord_def SkipTickRecord_def SkipMessage_def readFamily_def readEndOfFamily_def
      readEndOfFamilies_def readStrikes_def readTicks_def readNewsHeaderFields_def skipSecRate_def
      skipUnion_def skipEdpRate_def skipQuotation_def
    by (intro returning_intro st wire_reader_buffer wire_local ws tick_loop; simp)+
  show "returning skipBoard"
    unfolding skipBoard_def discard_def sequence_rd.simps
    by (intro returning_intro wire_reader_buffer wire_local)
qed

lemma returning_skip_loops [returning_intro]: "returning skipQuotes" "returning skipAmBook"
proof -
  have "returning (quotes_skip_step u)" "returning (am_book_skip_step u)" for u
    unfolding quotes_skip_step_def am_book_skip_step_def
    by (intro returning_intro wire_reader_buffer wire_local; simp)+
  then show "returning skipQuotes" "returning skipAmBook"
    unfolding skipQuotes_def skipAmBook_def
    by (intro returning_intro quotes_skip.loop_returning am_book_skip.loop_returning
        wire_reader_buffer wire_local; simp)+
qed

lemma returning_sys_params [returning_intro]: "returning skipSysParams" "returning (skipFortsSession bounded)"
  unfolding skipSysParams_def skipFortsSession_def discard_def
  by (intro returning_intro wire_reader_buffer wire_local; simp)+

lemma returning_candle_walk: "returning candle_walk"
proof -
  have "returning (candle_skip_step flag u)" for flag u
    unfolding candle_skip_step_def Let_def
    by (intro returning_intro wire_reader_buffer wire_local)
  then show ?thesis
    unfolding candle_walk_def
    by (intro returning_intro candle_skip.loop_returning wire_reader_buffer wire_local)
qed

lemma returning_skipCandles [returning_intro]: "returning skipCandles"
proof -
  have p: "returning (rbind (field s (Reader_Raw n)) (\<lambda>body. rbind (at_end t) (\<lambda>_. ret body)))" for s n t
    by (intro returning_intro buffer_local)
  show ?thesis
    unfolding returning_def
  proof (intro allI impI)
    fix r e r' assume "valid r" "skipCandles r = (Inl e, r')"
    then show "plain e"
      unfolding skipCandles_def
      by (auto split: prod.splits sum.splits intro: returningD [OF p] returningD [OF returning_candle_walk valid_NewReader])
  qed
qed

lemma located_result: "valid r \<Longrightarrow> skipResult r = (Inl e, r') \<Longrightarrow> located (length (rbuf r)) e"
proof -
  assume v: "valid r" and e: "skipResult r = (Inl e, r')"
  define q where "q = rbind (field ''R_RES type'' Reader_Byte) (\<lambda>trnType.
     rbind (field ''R_RES status'' Reader_Byte) (\<lambda>trrStatus.
     rbind (field ''R_RES text'' (readCString 512)) (\<lambda>_.
     rbind (field ''R_RES transactionid'' Reader_Int64) (\<lambda>_.
       if (trnType \<noteq> 1 \<and> trnType \<noteq> 2) \<or> trrStatus = 4 then fail ErrUnknownRecord else ret ()))))"
  have q: "returning q" unfolding q_def by (intro returning_intro wire_reader_buffer wire_local; simp)
  have "e = UnknownRecordError TagServerMessage (roff r) \<or> q r = (Inl e, r')"
    using e unfolding skipResult_def q_def
    by (auto simp: rbind_def fail_def ret_def split: prod.splits sum.splits if_splits)
  with q v show "located (length (rbuf r)) e"
    by (auto simp: located_def returning_def valid_def)
qed

lemma located_urt: "valid r \<Longrightarrow> skipURT r = (Inl e, r') \<Longrightarrow> located (length (rbuf r)) e"
proof -
  assume v: "valid r" and e: "skipURT r = (Inl e, r')"
  have "returning (urt_step u)" for u
    unfolding urt_step_def by (intro returning_intro wire_reader_buffer wire_local)
  then have q: "returning (rfor urt_step ())" by (rule urt.loop_returning)
  have "e = UnknownRecordError 0x69 (roff r) \<or> rfor urt_step () r = (Inl e, r')"
    using e unfolding skipURT_def
    by (auto simp: rbind_def fail_def ret_def split: prod.splits sum.splits if_splits)
  with q v show "located (length (rbuf r)) e"
    by (auto simp: located_def returning_def valid_def)
qed

lemma located_news: "valid r \<Longrightarrow> SkipNews zlen tag r = (Inl e, r') \<Longrightarrow> plain e \<or> e = UnknownRecordError TagNewsUpload 0"
proof -
  assume v: "valid r" and e: "SkipNews zlen tag r = (Inl e, r')"
  define ok where "ok e \<longleftrightarrow> plain e \<or> e = UnknownRecordError TagNewsUpload 0" for e
  define news where "news p \<longleftrightarrow> (\<forall>r e r'. valid r \<longrightarrow> p r = (Inl e, r') \<longrightarrow> ok e)" for p :: "unit rd"
  have n: "news p" if "returning p" for p using that by (auto simp: news_def returning_def ok_def)
  have c: "news (rbind p f)" if p: "\<And>r e r'. valid r \<Longrightarrow> p r = (Inl e, r') \<Longrightarrow> ok e" and k: "buffer_reader p"
    and f: "\<And>a. news (f a)" for p :: "'z rd" and f
    unfolding news_def
  proof (intro allI impI)
    fix r e r' assume v: "valid r" and e: "rbind p f r = (Inl e, r')"
    obtain y r1 where y: "p r = (y, r1)" by fastforce
    have "valid r1" using buffer_reader.keeps [OF k v y] by simp
    with y e v p f show "ok e" by (cases y) (fastforce simp: rbind_def news_def)+
  qed
  have b: "news (rbind p f)" if "returning p" "buffer_reader p" "\<And>a. news (f a)" for p :: "'z rd" and f
    by (rule c [OF _ that(2,3)]) (auto simp: ok_def dest: returningD [OF that(1)])
  have pk: "news (\<lambda>r. case newsBodyPackageLen zlen (Reader_Remaining r) of
      Inl e \<Rightarrow> (Inl e, r) | Inr n \<Rightarrow> Reader_Skip (int n) r)"
    using returning_prims(4)
    by (auto simp: news_def ok_def returning_def newsBodyPackageLen_def split: sum.splits if_splits option.splits)
  have sz: "news (\<lambda>r. if sint n < 0 \<or> sint n > int (Reader_Len r)
      then (Inl (UnknownRecordError TagNewsUpload 0), r) else Reader_Skip (sint n) r)" for n :: i32
    using returning_prims(4) by (auto simp: news_def ok_def returning_def split: if_splits)
  have oe: "\<And>r e r'. valid r \<Longrightarrow> on_error (UnknownRecordError TagNewsUpload 0) (Reader_Skip 4) r = (Inl e, r') \<Longrightarrow> ok e"
    by (auto simp: on_error_def ok_def split: prod.splits sum.splits)
  have if': "news (if c then p else q)" if "news p" "news q" for c p q using that by simp
  have bo: "buffer_reader (on_error e (Reader_Skip 4))" for e by (intro local_buffer local_intro)
  have "news (SkipNews zlen tag)"
    unfolding SkipNews_def
    by (intro if' b c [OF oe bo] pk sz returning_intro wire_reader_buffer wire_local n; simp?)
  with v e show ?thesis by (auto simp: news_def ok_def)
qed

lemma spanned_error: "spanned tag p r = (Inl e, r') \<longleftrightarrow> p r = (Inl e, r')"
  by (auto simp: spanned_def split: prod.splits sum.splits)

lemma whole_error: "whole tag p r = (Inl e, r') \<longleftrightarrow> p r = (Inl e, r')"
  by (auto simp: whole_def rmap_def rbind_def ret_def split: prod.splits sum.splits)

text \<open>Unsized records: the branches of \<open>split_record\<close> that walk over fields.\<close>

lemma located_unsized:
  assumes v: "valid r" and u: "sizedTags tag = None" and p: "0 < roff r"
    and e: "split_record zlen nested bounded tag r = (Inl e, r')"
  shows "located (length (rbuf r)) e"
proof -
  have plain: "located n e" if "returning p" "p r = (Inl e, r')" for p :: "'z rd" and n
    using returningD [OF that(1) v that(2)] by (simp add: located_def)
  have news: "located (length (rbuf r)) e" if "SkipNews zlen tag r = (Inl e, r')"
    using located_news [OF v that] by (auto simp: located_def)
  have ica: "returning (rbind (field s Reader_Byte) (\<lambda>n. whole tag (field t (Reader_Raw (uint n)))))" for s t
    unfolding whole_def rmap_def by (intro returning_intro buffer_local)
  have raw: "returning (field s (Reader_Raw n))" "returning (fieldN s a (Reader_Raw n))" for s n a
    by (intro returning_intro)+
  have date: "returning (field s Reader_Int32)" for s by (intro returning_intro)
  have un: "located (length (rbuf r)) e"
    if "fail (UnknownRecordError tag (roff r - 1)) r = (Inl e, r')" "tag \<notin> decoded_tags"
    using that v by (auto simp: fail_def located_def valid_def)
  have at: "attrTags tag = None \<Longrightarrow> tag \<noteq> 0x0e" by (auto simp: attrTags_def)
  show ?thesis
    using e at unfolding split_record_def u option.case
    by (cases "attrTags tag"; simp only: option.case split: if_splits)
      (auto simp: decoded_tags_def spanned_error whole_error ret_def intro: plain [OF date] plain [OF raw(1)] plain [OF raw(2)]
        plain [OF ica] news un located_result [OF v] located_urt [OF v]
        plain [OF returning_walks(1)] plain [OF returning_walks(2)] plain [OF returning_walks(3)]
        plain [OF returning_walks(5)] plain [OF returning_walks(6)] plain [OF returning_walks(7)]
        plain [OF returning_walks(8)] plain [OF returning_walks(9)] plain [OF returning_skip_loops(1)]
        plain [OF returning_skip_loops(2)] plain [OF returning_sys_params(1)] plain [OF returning_sys_params(2)]
        plain [OF returning_skipCandles])
qed

lemma located_sized:
  assumes v: "valid r" and u: "sizedTags tag = Some name"
    and n: "\<And>q rs e. length q < Reader_Len r \<Longrightarrow> nested True q = (rs, Some e) \<Longrightarrow> located (length q) e"
    and e: "split_record zlen nested bounded tag r = (Inl e, r')"
  shows "plain e"
proof (cases "rbind (field (name @ '' size'') Reader_Uint16) (\<lambda>n. field (name @ '' body'') (Reader_Raw (uint n))) r")
  case (Pair x r1)
  have q: "returning (rbind (field (name @ '' size'') Reader_Uint16) (\<lambda>n. field (name @ '' body'') (Reader_Raw (uint n))))"
    by (intro returning_intro buffer_local)
  show ?thesis
  proof (cases x)
    case (Inl e')
    then have "e' = e"
      using e u Pair by (auto simp: split_record_def rbind_def split: prod.splits sum.splits if_splits)
    with returningD [OF q v] Pair Inl show ?thesis by simp
  next
    case (Inr body)
    then have l: "length body < Reader_Len r"
      using Pair by (auto simp: rbind_def field_def Reader_Uint16_def Reader_Raw_def Reader_Len_def
          split: prod.splits sum.splits if_splits)
    have "wrapper nested body = Inl e"
      using e u Pair Inr
      by (auto simp: split_record_def rbind_def fail_def ret_def split: prod.splits sum.splits if_splits)
    then obtain rs where "nested True body = (rs, Some e)" "as_unknown e = None"
      by (auto simp: wrapper_def Let_def split: prod.splits option.splits)
    with n [OF l] show ?thesis by (auto simp: located_def)
  qed
qed

lemma split_rest_located:
  assumes "valid r" and "rbuf r = p"
    and n: "\<And>q rs e. length q < length p \<Longrightarrow> records zlen q True = (rs, Some e) \<Longrightarrow> located (length q) e"
    and "split_rest zlen bounded out r = (rs, Some e)"
  shows "located (length p) e"
  using assms(1,2,4)
proof (induction out r rule: split_rest_induct [where zlen = zlen and bounded = bounded])
  case (step out r)
  note v = step.hyps(1)
  let ?r = "r\<lparr>roff := roff r + 1\<rparr>" and ?tag = "rbuf r ! roff r"
  have l: "Reader_Len r \<noteq> 0" using step.prems by (cases "Reader_Len r = 0") (simp_all add: split_rest_unfold [OF v])
  then have v1: "valid ?r" by (auto simp: valid_def Reader_Len_def)
  obtain x r' where s: "split_one zlen bounded ?tag ?r = (x, r')" by fastforce
  show ?case
  proof (cases x)
    case (Inl e')
    with step.prems s l have e: "e' = e" by (simp add: split_rest_unfold [OF v])
    show ?thesis
    proof (cases "sizedTags ?tag")
      case None
      from located_unsized [OF v1 None _ s [unfolded Inl e]] step.prems show ?thesis by simp
    next
      case (Some name)
      have "plain e"
        by (rule located_sized [OF v1 Some _ s [unfolded Inl e]])
          (use n step.prems in \<open>auto simp: Reader_Len_def\<close>)
      then show ?thesis by (simp add: located_def)
    qed
  next
    case (Inr recs)
    from buffer_reader.keeps [OF buffer_split_record v1 s] have "rbuf r' = p" using step.prems by simp
    moreover have "split_rest zlen bounded (out @ recs) r' = (rs, Some e)"
      using step.prems s l Inr by (simp add: split_rest_unfold [OF v])
    ultimately show ?thesis using step.IH [OF l] s Inr by blast
  qed
qed

lemma records_located: "records zlen p bounded = (rs, Some e) \<Longrightarrow> located (length p) e"
proof (induction "length p" arbitrary: p bounded rs e rule: less_induct)
  case less
  show ?case
    by (rule split_rest_located [OF valid_NewReader [of p], where zlen = zlen and bounded = bounded and out = "[]" and rs = rs])
      (use less in \<open>auto simp: NewReader_def records_split_rest\<close>)
qed

text \<open>C8: the splitter returns on every payload, however the wrappers are nested (the model's
  fuel is never used up), and the offset of an unknown record lies inside the payload, so the
  slices \<open>body[:unknown.Offset]\<close> of the code never panic.\<close>

theorem Records_returns:
  "case snd (Records zlen p) of
     None \<Rightarrow> True
   | Some e \<Rightarrow> \<not> out_of_fuel e \<and> (case as_unknown e of None \<Rightarrow> True | Some (t, n) \<Rightarrow> n \<le> length p)"
  using records_located [of zlen p False] unfolding Records_def
  by (cases "records zlen p False")
    (auto simp: located_def plain_as_unknown plain_not_out_of_fuel split: option.split)

subsection \<open>The contracts, as the splitter relies on them\<close>

interpretation history_walk: buffer_reader skipCandles by (rule buffer_skipCandles)
interpretation tick_walk: local_reader readTicks by (rule local_ticks)
interpretation message_walk: local_reader r_msg by (rule local_messages)

end
