(* ===== verification/Record_Decoding.thy ===== *)
theory Record_Decoding
  imports Record_Splitting
begin

text \<open>
  The splitter of \<open>native/records/records.go\<close> and the typed decoders read the same layouts
  twice: the splitter's walk finds where a record ends, the decoder later reads the body. This
  theory proves that they agree: each of the sixteen decoders accepts every body the splitter
  cuts out for its tag (\<open>Records_decodable\<close>).
\<close>

unbundle bit_operations_syntax

definition accepted :: "err + 'a \<Rightarrow> bool" where
  "accepted x \<longleftrightarrow> (case x of Inl e \<Rightarrow> False | Inr a \<Rightarrow> True)"

lemma accepted_iff: "accepted (decode_body p b) \<longleftrightarrow> (\<exists>v r'. p (NewReader b) = (Inr v, r'))"
  by (cases "p (NewReader b)") (auto simp: accepted_def decode_body_def split: sum.split)

lemma local_body:
  assumes "local_reader p" and "valid r" and "p r = (Inr v, r')"
  shows "p (NewReader (consumed r r')) = (Inr v, at (consumed r r') [] [])"
  using local_reader.local [OF assms, of "[]" "[]"] by (simp add: at_def NewReader_def)

lemma accepted_body:
  assumes "local_reader p" and "valid r" and "p r = (Inr v, r')"
  shows "accepted (decode_body p (consumed r r'))"
    and "accepted (decode_body (rbind p (\<lambda>m. rbind (at_end s) (\<lambda>_. ret (g m)))) (consumed r r'))"
  using local_body [OF assms]
  by (simp_all add: accepted_def decode_body_def rbind_def at_end_def ret_def at_def Reader_Len_def)

lemma spanned_consumed:
  "spanned tag p r = (Inr recs, r') \<longleftrightarrow>
     (\<exists>a. p r = (Inr a, r')) \<and> recs = [\<lparr>Record_Tag = tag, Record_Body = consumed r r'\<rparr>]"
  by (auto simp: spanned_def consumed_def Reader_Remaining_def split: prod.splits sum.splits)

lemma rbind_unit: "rbind p (\<lambda>_. ret ()) r = (Inr u, r') \<longleftrightarrow> (\<exists>a. p r = (Inr a, r'))"
  by (auto simp: rbind_def ret_def split: prod.splits sum.splits)

lemma SkipMessage_r_msg: "SkipMessage r = (Inr (), r') \<Longrightarrow> \<exists>m. r_msg r = (Inr m, r')"
  by (auto simp: SkipMessage_def r_msg_def rbind_def ret_def split: prod.splits sum.splits)

lemma field_ok [simp]: "field s p r = (Inr a, r') \<longleftrightarrow> p r = (Inr a, r')"
  by (auto simp: field_def split: prod.splits sum.splits)

lemma fieldN_ok [simp]: "fieldN s x p r = (Inr a, r') \<longleftrightarrow> p r = (Inr a, r')"
  by (auto simp: fieldN_def split: prod.splits sum.splits)

lemma rbind_ok: "rbind p f r = (Inr b, r') \<longleftrightarrow> (\<exists>a r1. p r = (Inr a, r1) \<and> f a r1 = (Inr b, r'))"
  by (auto simp: rbind_def split: prod.splits sum.splits)

lemma ret_ok [simp]: "ret a r = (Inr b, r') \<longleftrightarrow> b = a \<and> r' = r"
  by (auto simp: ret_def)

lemma fail_ok [simp]: "fail e r \<noteq> (Inr b, r')"
  by (simp add: fail_def)

lemma rwhen_ok: "rwhen c d p r = (Inr a, r') \<longleftrightarrow> (if c then p r = (Inr a, r') else a = d \<and> r' = r)"
  by (auto simp: rwhen_def)

lemma skip_quotation_values:
  "rtimes (length (filter (bit m) bs)) (field s Reader_Int32) r = (Inr vs, r') \<Longrightarrow>
   \<exists>w. quotation_values m bs w0 r = (Inr w, r')"
proof (induction bs arbitrary: w0 r vs)
  case (Cons b bs)
  show ?case
  proof (cases "bit m b")
    case False
    with Cons show ?thesis by (simp add: mask_bit_iff)
  next
    case True
    with Cons.prems obtain v r1 ws where "Reader_Int32 r = (Inr v, r1)"
      "rtimes (length (filter (bit m) bs)) (field s Reader_Int32) r1 = (Inr ws, r')"
      by (auto simp: rbind_ok)
    with Cons.IH [OF this(2)] True show ?thesis by (auto simp: mask_bit_iff rbind_ok)
  qed
qed simp

lemma skipQuotation_rd: "skipQuotation r = (Inr (), r') \<Longrightarrow> \<exists>q. quotation_rd r = (Inr q, r')"
  unfolding skipQuotation_def quotation_rd_def rbind_ok field_ok ret_ok OnesCount64_def
  by (elim exE conjE) (drule skip_quotation_values, blast)

lemma am_book_skip_rel:
  assumes "valid r" and "rfor am_book_skip_step u r = (Inr (), r')"
  shows "\<exists>ls. rfor am_book_step levels r = (Inr ls, r')"
  using assms
proof (induction u r arbitrary: levels rule: am_book_skip.loop_induct)
  case (step u r)
  note v = step.hyps(1)
  have e: "am_book_skip_step () r = (Inr (Inr ()), r1) \<Longrightarrow> am_book_step levels r = (Inr (Inr levels), r1)"
    "am_book_skip_step () r = (Inr (Inl ()), r1) \<Longrightarrow> \<exists>ls. am_book_step levels r = (Inr (Inl ls), r1)" for r1
    by (auto simp: am_book_skip_step_def am_book_step_def rbind_ok split: if_splits) blast
  obtain y r1 where s: "am_book_skip_step () r = (Inr y, r1)"
    using step.prems by (auto simp: am_book_skip.unfold [OF v] split: prod.splits sum.splits)
  show ?case
  proof (cases y)
    case (Inr u)
    with s step.prems e(1) [of r1] show ?thesis
      by (simp add: am_book_skip.unfold [OF v] am_book.unfold [OF v])
  next
    case (Inl u)
    with s e(2) [of r1] obtain ls where "am_book_step levels r = (Inr (Inl ls), r1)" by auto
    moreover from s step.prems Inl have rest: "rfor am_book_skip_step () r1 = (Inr (), r')"
      by (simp add: am_book_skip.unfold [OF v])
    ultimately show ?thesis using step.IH [of "()" r1 ls] s Inl by (simp add: am_book.unfold [OF v])
  qed
qed

lemma skipAmBook_rd: "valid r \<Longrightarrow> skipAmBook r = (Inr (), r') \<Longrightarrow> \<exists>a. am_book r = (Inr a, r')"
proof -
  assume v: "valid r" and "skipAmBook r = (Inr (), r')"
  then obtain secid r1 where u: "Reader_Uint16 r = (Inr secid, r1)" and l: "rfor am_book_skip_step () r1 = (Inr (), r')"
    by (auto simp: skipAmBook_def rbind_ok)
  have "valid r1" using wire_keeps [OF wire_reader_Uint16 v u] by simp
  from am_book_skip_rel [OF this l, of "[]"] u show ?thesis by (auto simp: am_book_def rbind_ok)
qed

definition decodable :: "(bytes \<Rightarrow> bytes option) \<Rightarrow> Record \<Rightarrow> bool" where
  "decodable win rec' \<longleftrightarrow> (let tag = Record_Tag rec'; body = Record_Body rec' in
     (tag = TagMessage \<longrightarrow> accepted (ParseRMsg body))
     \<and> (tag = TagTick \<longrightarrow> accepted (ParseTickRecord body))
     \<and> (tag = TagFamily \<longrightarrow> accepted (ParseFamily body))
     \<and> (tag = TagEndOfFamily \<longrightarrow> accepted (ParseEndOfFamily body))
     \<and> (tag = TagEndOfFamilies \<longrightarrow> accepted (ParseEndOfFamilies body))
     \<and> (tag = TagStrikes \<longrightarrow> accepted (ParseStrikes body))
     \<and> (tag = TagNews \<longrightarrow> accepted (ParseNewsHeader body))
     \<and> (tag = TagSecRate \<longrightarrow> accepted (ParseSecRate body))
     \<and> (tag = TagEdpRate \<longrightarrow> accepted (ParseEdpRate body))
     \<and> (tag = TagAmBook \<longrightarrow> accepted (ParseAmBook body))
     \<and> (tag = TagQuotation \<longrightarrow> accepted (ParseQuotation body))
     \<and> (tag = TagDate \<longrightarrow> accepted (TradeDate rec'))
     \<and> (tag = TagUnion \<longrightarrow> accepted (ParseUnionCategory body))
     \<and> (tag = TagOvernight \<longrightarrow> accepted (ParseOvernight body))
     \<and> (tag = 0x0e \<longrightarrow> accepted (ParseSecMktPermit body))
     \<and> (tag = TagFortsSession \<longrightarrow> accepted (ParseFortsSession body)))"

lemma decodable_other: "Record_Tag rec' \<notin> decoded_tags \<Longrightarrow> decodable win rec'"
  by (auto simp: decodable_def decoded_tags_def Let_def)

text \<open>One lemma per walk: the decoder of the record reads the same bytes.\<close>

lemma walk_decoders:
  assumes v: "valid r"
  shows "SkipMessage r = (Inr (), r') \<Longrightarrow> accepted (ParseRMsg (consumed r r'))"
    and "SkipTickRecord r = (Inr (), r') \<Longrightarrow> accepted (ParseTickRecord (consumed r r'))"
    and "SkipNews zlen TagNews r = (Inr (), r') \<Longrightarrow> accepted (ParseNewsHeader (consumed r r'))"
    and "skipAmBook r = (Inr (), r') \<Longrightarrow> accepted (ParseAmBook (consumed r r'))"
    and "skipQuotation r = (Inr (), r') \<Longrightarrow> accepted (ParseQuotation (consumed r r'))"
    and "SkipOptionRecord TagFamily r = (Inr (), r') \<Longrightarrow> accepted (ParseFamily (consumed r r'))"
    and "SkipOptionRecord TagEndOfFamily r = (Inr (), r') \<Longrightarrow> accepted (ParseEndOfFamily (consumed r r'))"
    and "SkipOptionRecord TagEndOfFamilies r = (Inr (), r') \<Longrightarrow> accepted (ParseEndOfFamilies (consumed r r'))"
    and "SkipOptionRecord TagStrikes r = (Inr (), r') \<Longrightarrow> accepted (ParseStrikes (consumed r r'))"
  unfolding ParseRMsg_def ParseTickRecord_def ParseNewsHeader_def ParseAmBook_def ParseQuotation_def
    ParseFamily_def ParseEndOfFamily_def ParseEndOfFamilies_def ParseStrikes_def
  using accepted_body(2) [OF local_messages(1) v, where g = "\<lambda>m. m"] SkipMessage_r_msg [of r r']
    accepted_body(2) [OF local_ticks(1) v, where g = "\<lambda>m. m"]
    accepted_body(2) [OF local_messages(3) v, where g = "\<lambda>m. m"]
    accepted_body(1) [OF local_am_book v] skipAmBook_rd [OF v, of r']
    accepted_body(1) [OF local_quotation(1) v] skipQuotation_rd [of r r']
    accepted_body(2) [OF local_options(1) v, where g = "\<lambda>m. m"]
    accepted_body(2) [OF local_options(2) v, where g = "\<lambda>m. m"]
    accepted_body(2) [OF local_options(3) v, where g = "\<lambda>m. m"]
    accepted_body(2) [OF local_options(4) v, where g = "\<lambda>m. m"]
  by (auto simp: SkipTickRecord_def SkipNews_def SkipOptionRecord_def tag_defs rbind_unit)

lemma walk_decoders2:
  assumes v: "valid r"
  shows "skipSecRate r = (Inr (), r') \<Longrightarrow> accepted (ParseSecRate (consumed r r'))"
    and "skipEdpRate r = (Inr (), r') \<Longrightarrow> accepted (ParseEdpRate (consumed r r'))"
    and "skipUnion r = (Inr (), r') \<Longrightarrow> accepted (ParseUnionCategory (consumed r r'))"
    and "Reader_Int32 r = (Inr d, r') \<Longrightarrow> Record_Body rec' = consumed r r' \<Longrightarrow> accepted (TradeDate rec')"
    and "skipFortsSession bounded r = (Inr (), r') \<Longrightarrow> accepted (ParseFortsSession (consumed r r'))"
proof -
  let ?rate = "rbind (field ''R_SEC_RATE secid'' Reader_Uint16) (\<lambda>secid.
      rbind (field ''R_SEC_RATE value'' Reader_Int64) (\<lambda>value'. ret \<lparr>SecRate_SecID = secid, SecRate_Value = value'\<rparr>))"
  have rate: "local_reader ?rate" by (intro local_intro)
  show "accepted (ParseSecRate (consumed r r'))" if skip: "skipSecRate r = (Inr (), r')"
  proof -
    from skip obtain m where "?rate r = (Inr m, r')"
      by (auto simp: skipSecRate_def rbind_ok)
    from local_body [OF rate v this] have "\<exists>m. ?rate (NewReader (consumed r r')) = (Inr m, at (consumed r r') [] [])"
      by blast
    moreover have "at_end s (at c [] []) = (Inr (), at c [] [])" for s c
      by (simp add: at_end_def at_def Reader_Len_def)
    ultimately show ?thesis
      unfolding ParseSecRate_def accepted_iff rbind_ok ret_ok field_ok by blast
  qed
  show "accepted (ParseEdpRate (consumed r r'))" if "skipEdpRate r = (Inr (), r')"
    using that accepted_body(1) [OF local_misc(1) v]
    by (auto simp: skipEdpRate_def edp_rate_def ParseEdpRate_def rbind_ok)
  let ?u = "rbind (field ''R_UNION id'' Reader_Int64) (\<lambda>_.
        rbind (field ''R_UNION name'' (Reader_String 20)) (\<lambda>name.
        rbind (field ''R_UNION category'' (Reader_String 32)) (\<lambda>_.
        rbind (field ''R_UNION unicat'' Reader_Byte) (\<lambda>unicat. ret (name, unicat)))))"
  have u: "local_reader ?u" by (intro local_intro)
  show "accepted (ParseUnionCategory (consumed r r'))" if "skipUnion r = (Inr (), r')"
    using that accepted_body(1) [OF u v] by (auto simp: skipUnion_def ParseUnionCategory_def rbind_ok)
  show "accepted (TradeDate rec')" if "Reader_Int32 r = (Inr d, r')" "Record_Body rec' = consumed r r'"
    using local_body [OF local_Int32 v that(1)] that(2) by (simp add: TradeDate_def accepted_def)
  show "accepted (ParseFortsSession (consumed r r'))" if s: "skipFortsSession bounded r = (Inr (), r')"
  proof -
    from s obtain x r1 where x: "Reader_Int32 r = (Inr x, r1)"
      and t: "r' = r1 \<or> (\<exists>b. Reader_Byte r1 = (Inr b, r'))"
      by (auto simp: skipFortsSession_def rbind_ok with_len_def discard_def split: if_splits)
    from wire_keeps [OF wire_reader_Int32 v x] have k: "rbuf r1 = rbuf r" "roff r \<le> roff r1" "valid r1" by auto
    have k': "rbuf r' = rbuf r1 \<and> roff r1 \<le> roff r' \<and> valid r'"
      using t k(3) wire_keeps [OF wire_reader_Byte k(3)] by auto
    have "consumed r r' = consumed r r1 @ consumed r1 r'"
      using k k' by (intro consumed_append) auto
    with local_reader.local [OF local_Int32 v x, of "[]" "consumed r1 r'"] show ?thesis
      by (simp add: ParseFortsSession_def accepted_def decode_body_def field_def at_def NewReader_def)
  qed
qed

text \<open>The branch of each decoded tag.\<close>

lemma split_record_tags:
  "split_record zlen nested bounded TagMessage = spanned TagMessage SkipMessage"
  "split_record zlen nested bounded TagTick = spanned TagTick SkipTickRecord"
  "split_record zlen nested bounded TagFamily = spanned TagFamily (SkipOptionRecord TagFamily)"
  "split_record zlen nested bounded TagEndOfFamily = spanned TagEndOfFamily (SkipOptionRecord TagEndOfFamily)"
  "split_record zlen nested bounded TagEndOfFamilies = spanned TagEndOfFamilies (SkipOptionRecord TagEndOfFamilies)"
  "split_record zlen nested bounded TagStrikes = spanned TagStrikes (SkipOptionRecord TagStrikes)"
  "split_record zlen nested bounded TagNews = spanned TagNews (SkipNews zlen TagNews)"
  "split_record zlen nested bounded TagSecRate = spanned TagSecRate skipSecRate"
  "split_record zlen nested bounded TagEdpRate = spanned TagEdpRate skipEdpRate"
  "split_record zlen nested bounded TagAmBook = spanned TagAmBook skipAmBook"
  "split_record zlen nested bounded TagQuotation = spanned TagQuotation skipQuotation"
  "split_record zlen nested bounded TagDate = spanned TagDate (field ''R_DATE'' Reader_Int32)"
  "split_record zlen nested bounded TagUnion = spanned TagUnion skipUnion"
  "split_record zlen nested bounded TagOvernight = whole TagOvernight (field ''R_OVERNIGHT'' (Reader_Raw 1))"
  "split_record zlen nested bounded 0x0e = whole 0x0e (field ''R_SEC_0E'' (Reader_Raw 3))"
  "split_record zlen nested bounded TagFortsSession = spanned TagFortsSession (skipFortsSession bounded)"
  unfolding split_record_def by (simp_all add: sizedTags_def attrTags_def tag_defs)

lemma Raw_prefix: "valid r \<Longrightarrow> Reader_Raw n r = (Inr b, r') \<Longrightarrow> int (length b) = n"
  by (auto simp: Reader_Raw_def Reader_Len_def valid_def split: if_splits)

lemma accepted_fixed:
  "int (length b) = 1 \<Longrightarrow> accepted (ParseOvernight b)"
  "int (length b) = 3 \<Longrightarrow> accepted (ParseSecMktPermit b)"
proof -
  show "int (length b) = 1 \<Longrightarrow> accepted (ParseOvernight b)"
    by (simp add: accepted_def ParseOvernight_def)
  assume "int (length b) = 3"
  then have "length b = Suc (Suc (Suc 0))" by simp
  then obtain x y z where b: "b = [x, y, z]" by (auto simp: length_Suc_conv)
  show "accepted (ParseSecMktPermit b)"
    unfolding b by (simp add: accepted_def ParseSecMktPermit_def decode_body_def rbind_def field_def Reader_Uint16_def
        Reader_Byte_def Reader_Len_def NewReader_def at_end_def ret_def)
qed

lemma decodable_tags:
  "decodable win \<lparr>Record_Tag = TagMessage, Record_Body = b\<rparr> \<longleftrightarrow> accepted (ParseRMsg b)"
  "decodable win \<lparr>Record_Tag = TagTick, Record_Body = b\<rparr> \<longleftrightarrow> accepted (ParseTickRecord b)"
  "decodable win \<lparr>Record_Tag = TagFamily, Record_Body = b\<rparr> \<longleftrightarrow> accepted (ParseFamily b)"
  "decodable win \<lparr>Record_Tag = TagEndOfFamily, Record_Body = b\<rparr> \<longleftrightarrow> accepted (ParseEndOfFamily b)"
  "decodable win \<lparr>Record_Tag = TagEndOfFamilies, Record_Body = b\<rparr> \<longleftrightarrow> accepted (ParseEndOfFamilies b)"
  "decodable win \<lparr>Record_Tag = TagStrikes, Record_Body = b\<rparr> \<longleftrightarrow> accepted (ParseStrikes b)"
  "decodable win \<lparr>Record_Tag = TagNews, Record_Body = b\<rparr> \<longleftrightarrow> accepted (ParseNewsHeader b)"
  "decodable win \<lparr>Record_Tag = TagSecRate, Record_Body = b\<rparr> \<longleftrightarrow> accepted (ParseSecRate b)"
  "decodable win \<lparr>Record_Tag = TagEdpRate, Record_Body = b\<rparr> \<longleftrightarrow> accepted (ParseEdpRate b)"
  "decodable win \<lparr>Record_Tag = TagAmBook, Record_Body = b\<rparr> \<longleftrightarrow> accepted (ParseAmBook b)"
  "decodable win \<lparr>Record_Tag = TagQuotation, Record_Body = b\<rparr> \<longleftrightarrow> accepted (ParseQuotation b)"
  "decodable win \<lparr>Record_Tag = TagDate, Record_Body = b\<rparr> \<longleftrightarrow> accepted (TradeDate \<lparr>Record_Tag = TagDate, Record_Body = b\<rparr>)"
  "decodable win \<lparr>Record_Tag = TagUnion, Record_Body = b\<rparr> \<longleftrightarrow> accepted (ParseUnionCategory b)"
  "decodable win \<lparr>Record_Tag = TagOvernight, Record_Body = b\<rparr> \<longleftrightarrow> accepted (ParseOvernight b)"
  "decodable win \<lparr>Record_Tag = 0x0e, Record_Body = b\<rparr> \<longleftrightarrow> accepted (ParseSecMktPermit b)"
  "decodable win \<lparr>Record_Tag = TagFortsSession, Record_Body = b\<rparr> \<longleftrightarrow> accepted (ParseFortsSession b)"
  by (simp_all add: decodable_def tag_defs)

text \<open>Every record one round of the splitter yields, given that the nested call yields such records.\<close>

lemma split_record_decodable:
  assumes v: "valid r" and s: "split_record zlen nested bounded tag r = (Inr recs, r')"
    and n: "\<And>b q. length q < Reader_Len r \<Longrightarrow> \<forall>rec' \<in> set (fst (nested b q)). decodable win rec'"
    and e: "\<And>b q rs e. length q < Reader_Len r \<Longrightarrow> nested b q = (rs, Some e) \<Longrightarrow> located (length q) e"
  shows "\<forall>rec' \<in> set recs. decodable win rec'"
proof (cases "sizedTags tag")
  case (Some name)
  then have "tag \<notin> decoded_tags" by (auto simp: sizedTags_def decoded_tags_def tag_defs)
  then have plain: "decodable win \<lparr>Record_Tag = tag, Record_Body = b\<rparr>" for b
    by (intro decodable_other) simp
  from s Some obtain m r1 body where h: "Reader_Uint16 r = (Inr m, r1)" "Reader_Raw (uint m) r1 = (Inr body, r')"
    and recs: "if tag = TagWrapper then wrapper nested body = Inr recs else recs = [\<lparr>Record_Tag = tag, Record_Body = body\<rparr>]"
    by (auto simp: split_record_def rbind_ok split: if_splits sum.splits)
  from h have l: "length q \<le> length body \<Longrightarrow> length q < Reader_Len r" for q :: bytes
    by (auto simp: Reader_Uint16_def Reader_Raw_def Reader_Len_def split: if_splits)
  show ?thesis
  proof (cases "tag = TagWrapper")
    case False
    with recs plain show ?thesis by simp
  next
    case True
    with recs have w: "wrapper nested body = Inr recs" by simp
    obtain rs oe where nb: "nested True body = (rs, oe)" by fastforce
    show ?thesis
    proof (cases oe)
      case None
      with w nb n [OF l, of body True] show ?thesis by (auto simp: wrapper_def)
    next
      case (Some err)
      with w nb obtain t k where u: "as_unknown err = Some (t, k)"
        by (auto simp: wrapper_def split: option.splits)
      with e [OF l nb [unfolded Some]] have "t \<notin> decoded_tags"
        by (auto simp: located_def plain_as_unknown)
      then have t: "decodable win \<lparr>Record_Tag = t, Record_Body = b\<rparr>" for b
        by (intro decodable_other) simp
      have i: "\<forall>rec' \<in> set (fst (nested False (take k body))). decodable win rec'"
        by (intro n l) simp
      show ?thesis
        using w nb Some u t i
        by (auto simp: wrapper_def Let_def split: if_splits prod.splits option.splits)
    qed
  qed
next
  case None
  note wd = walk_decoders [OF v, where r' = r'] walk_decoders2 [OF v, where r' = r']
  have other: ?thesis if "recs = [\<lparr>Record_Tag = tag, Record_Body = b\<rparr>]" "tag \<notin> decoded_tags" for b
    using that decodable_other [of "\<lparr>Record_Tag = tag, Record_Body = b\<rparr>" win] by simp
  show ?thesis
  proof (cases "tag \<in> decoded_tags")
    case False
    have "\<exists>b. recs = [\<lparr>Record_Tag = tag, Record_Body = b\<rparr>]"
      using s None unfolding split_record_def option.case
      by (cases "attrTags tag"; simp only: option.case split: if_splits)
        (auto simp: spanned_consumed whole_def rmap_def rbind_ok)
    with other False show ?thesis by auto
  next
    case True
    have tags: "tag = TagMessage \<or> tag = TagTick \<or> tag = TagFamily \<or> tag = TagEndOfFamily \<or> tag = TagEndOfFamilies
      \<or> tag = TagStrikes \<or> tag = TagNews \<or> tag = TagSecRate \<or> tag = TagEdpRate \<or> tag = TagAmBook
      \<or> tag = TagQuotation \<or> tag = TagDate \<or> tag = TagUnion \<or> tag = TagOvernight \<or> tag = 0x0e
      \<or> tag = TagFortsSession"
      using True by (auto simp: decoded_tags_def)
    have span: "\<forall>rec' \<in> set recs. decodable win rec'"
      if "split_record zlen nested bounded tag = spanned tag p"
        "\<And>a. p r = (Inr a, r') \<Longrightarrow> decodable win \<lparr>Record_Tag = tag, Record_Body = consumed r r'\<rparr>" for p :: "'z rd"
      using s that by (auto simp: spanned_consumed)
    have whl: "\<forall>rec' \<in> set recs. decodable win rec'"
      if "split_record zlen nested bounded tag = whole tag (field m (Reader_Raw k))"
        "\<And>b. int (length b) = k \<Longrightarrow> decodable win \<lparr>Record_Tag = tag, Record_Body = b\<rparr>" for m k
      using s that Raw_prefix [OF v] by (auto simp: whole_def rmap_def rbind_ok)
    have t1: ?thesis if t: "tag = TagMessage"
      by (rule span, simp only: t split_record_tags(1)) (simp add: t decodable_tags wd accepted_fixed)
    have t2: ?thesis if t: "tag = TagTick"
      by (rule span, simp only: t split_record_tags(2)) (simp add: t decodable_tags wd accepted_fixed)
    have t3: ?thesis if t: "tag = TagFamily"
      by (rule span, simp only: t split_record_tags(3)) (simp add: t decodable_tags wd accepted_fixed)
    have t4: ?thesis if t: "tag = TagEndOfFamily"
      by (rule span, simp only: t split_record_tags(4)) (simp add: t decodable_tags wd accepted_fixed)
    have t5: ?thesis if t: "tag = TagEndOfFamilies"
      by (rule span, simp only: t split_record_tags(5)) (simp add: t decodable_tags wd accepted_fixed)
    have t6: ?thesis if t: "tag = TagStrikes"
      by (rule span, simp only: t split_record_tags(6)) (simp add: t decodable_tags wd accepted_fixed)
    have t7: ?thesis if t: "tag = TagNews"
      by (rule span, simp only: t split_record_tags(7)) (simp add: t decodable_tags wd accepted_fixed)
    have t8: ?thesis if t: "tag = TagSecRate"
      by (rule span, simp only: t split_record_tags(8)) (simp add: t decodable_tags wd accepted_fixed)
    have t9: ?thesis if t: "tag = TagEdpRate"
      by (rule span, simp only: t split_record_tags(9)) (simp add: t decodable_tags wd accepted_fixed)
    have t10: ?thesis if t: "tag = TagAmBook"
      by (rule span, simp only: t split_record_tags(10)) (simp add: t decodable_tags wd accepted_fixed)
    have t11: ?thesis if t: "tag = TagQuotation"
      by (rule span, simp only: t split_record_tags(11)) (simp add: t decodable_tags wd accepted_fixed)
    have t12: ?thesis if t: "tag = TagDate"
      by (rule span, simp only: t split_record_tags(12)) (simp add: t decodable_tags wd accepted_fixed)
    have t13: ?thesis if t: "tag = TagUnion"
      by (rule span, simp only: t split_record_tags(13)) (simp add: t decodable_tags wd accepted_fixed)
    have t14: ?thesis if t: "tag = TagOvernight"
      by (rule whl, simp only: t split_record_tags(14)) (simp add: t decodable_tags wd accepted_fixed)
    have t15: ?thesis if t: "tag = 0x0e"
      by (rule whl, simp only: t split_record_tags(15)) (simp add: t decodable_tags wd accepted_fixed)
    have t16: ?thesis if t: "tag = TagFortsSession"
      by (rule span, simp only: t split_record_tags(16)) (simp add: t decodable_tags wd accepted_fixed)
    from tags show ?thesis
      by (elim disjE) (fact t1 t2 t3 t4 t5 t6 t7 t8 t9 t10 t11 t12 t13 t14 t15 t16)+
  qed
qed

lemma records_decodable:
  "\<forall>rec' \<in> set (fst (records zlen p bounded)). decodable win rec'"
proof (induction "length p" arbitrary: p bounded rule: less_induct)
  case less
  have "\<forall>rec' \<in> set (fst (split_rest zlen bounded out r)). decodable win rec'"
    if "valid r" "rbuf r = p" "\<forall>rec' \<in> set out. decodable win rec'" for out r
    using that
  proof (induction out r rule: split_rest_induct [where zlen = zlen and bounded = bounded])
    case (step out r)
    note v = step.hyps(1)
    let ?r = "r\<lparr>roff := roff r + 1\<rparr>" and ?tag = "rbuf r ! roff r"
    obtain x r' where s: "split_one zlen bounded ?tag ?r = (x, r')" by fastforce
    show ?case
    proof (cases "Reader_Len r = 0")
      case True
      with step.prems show ?thesis by (simp add: split_rest_unfold [OF v])
    next
      case False
      then have v1: "valid ?r" by (auto simp: valid_def Reader_Len_def)
      show ?thesis
      proof (cases x)
        case (Inl e)
        with False s step.prems show ?thesis by (simp add: split_rest_unfold [OF v])
      next
        case (Inr recs)
        have sh: "length q < length p" if "length q < Reader_Len ?r" for q :: bytes
          using that step.prems by (simp add: Reader_Len_def)
        have "\<forall>rec' \<in> set recs. decodable win rec'"
          by (rule split_record_decodable [OF v1 s [unfolded Inr]])
            (rule less [OF sh], assumption, rule records_located, assumption)
        moreover have "rbuf r' = p" using buffer_reader.keeps [OF buffer_split_record v1 s] step.prems by simp
        ultimately have "\<forall>rec' \<in> set (fst (split_rest zlen bounded (out @ recs) r')). decodable win rec'"
          using step.prems Inr s by (intro step.IH [OF False]) auto
        with False s Inr show ?thesis by (simp add: split_rest_unfold [OF v])
      qed
    qed
  qed
  from this [of "NewReader p" "[]"] show ?case
    by (simp add: records_split_rest) (simp add: NewReader_def)
qed

text \<open>C11: whatever payload the splitter is given, the bodies it cuts out for the sixteen decoded
  record types are accepted by their decoders (\<open>ParseRMsg\<close>, \<open>ParseTickRecord\<close>, the option
  records, news headers, rates, books, quotations, dates, unions, permissions, sessions), also
  inside wrappers: the walk over the fields and the decoder never disagree about a record.\<close>

theorem Records_decodable:
  "list_all (decodable win) (fst (Records zlen p))"
  using records_decodable by (auto simp: Records_def list_all_iff)

end
