(* ===== verification/Record_Tiling.thy ===== *)
theory Record_Tiling
  imports Record_Decoding
begin

text \<open>
  What the splitter of \<open>native/records/records.go\<close> does with the bytes of a payload: the chunks it
  cuts tile it (\<open>Records_tile\<close>), the splitting of a concatenation is the concatenation of the
  splittings (\<open>Records_append\<close>), and a sequence of records written one after the other is split
  into exactly these records (\<open>Records_wire_form\<close>).
\<close>

subsection \<open>No byte is lost\<close>

text \<open>A record as it stands in the payload: tag, size where the layout has one, body.\<close>

definition wire_form :: "Record \<Rightarrow> bytes" where
  "wire_form rec' = Record_Tag rec' #
     (if sizedTags (Record_Tag rec') \<noteq> None then Writer_Uint16 [] (of_nat (length (Record_Body rec')))
      else if Record_Tag rec' = TagReadICA then [of_nat (length (Record_Body rec'))] else []) @ Record_Body rec'"

lemma wire_form_plain:
  "sizedTags t = None \<Longrightarrow> t \<noteq> TagReadICA \<Longrightarrow> wire_form \<lparr>Record_Tag = t, Record_Body = b\<rparr> = t # b"
  by (simp add: wire_form_def)

lemma tag_neq_ReadICA:
  "TagDate \<noteq> TagReadICA" "TagFamily \<noteq> TagReadICA" "TagEndOfFamily \<noteq> TagReadICA" "TagEndOfFamilies \<noteq> TagReadICA"
  "TagStrikes \<noteq> TagReadICA" "TagTick \<noteq> TagReadICA" "TagServerMessage \<noteq> TagReadICA" "TagBoard \<noteq> TagReadICA"
  "TagMessage \<noteq> TagReadICA" "TagNews \<noteq> TagReadICA" "TagNewsUpload \<noteq> TagReadICA" "TagSecRate \<noteq> TagReadICA"
  "TagOvernight \<noteq> TagReadICA" "TagCandles \<noteq> TagReadICA" "TagUnion \<noteq> TagReadICA" "TagQuotes \<noteq> TagReadICA"
  "TagFortsSession \<noteq> TagReadICA" "TagEdpRate \<noteq> TagReadICA" "TagAmBook \<noteq> TagReadICA"
  "TagQuotation \<noteq> TagReadICA" "TagSysParams \<noteq> TagReadICA" "TagState \<noteq> TagReadICA"
  "0x62 \<noteq> TagReadICA" "0x67 \<noteq> TagReadICA" "0x69 \<noteq> TagReadICA"
  by (simp_all add: tag_defs)

lemma attrTags_neq: "attrTags tag = Some name \<Longrightarrow> tag \<noteq> TagReadICA"
  by (auto simp: attrTags_def tag_defs)

lemma ex_singleton: "(\<exists>rec'. [x] = [rec'] \<and> P rec') \<longleftrightarrow> P x"
  by auto

lemma consumed_Byte: "valid r \<Longrightarrow> Reader_Byte r = (Inr b, r') \<Longrightarrow> consumed r r' = [b]"
  by (auto simp: Reader_Byte_def Reader_Len_def consumed_def take_Suc_drop_conv split: if_splits)

lemma consumed_Uint16: "valid r \<Longrightarrow> Reader_Uint16 r = (Inr b, r') \<Longrightarrow> consumed r r' = Writer_Uint16 [] b"
proof -
  assume v: "valid r" and e: "Reader_Uint16 r = (Inr b, r')"
  then have l: "roff r + 2 \<le> length (rbuf r)" and b: "b = be16 (rbuf r ! roff r) (rbuf r ! (roff r + 1))"
    and r': "r' = r\<lparr>roff := roff r + 2\<rparr>"
    by (auto simp: Reader_Uint16_def Reader_Len_def valid_def split: if_splits)
  have "consumed r r' = [rbuf r ! roff r, rbuf r ! (roff r + 1)]"
    using l by (simp add: r' consumed_def numeral_2_eq_2 take_Suc_drop_conv)
  then show ?thesis
    by (simp add: b Writer_Uint16_def be16_bytes)
qed

lemma consumed_Raw: "valid r \<Longrightarrow> Reader_Raw n r = (Inr b, r') \<Longrightarrow> consumed r r' = b"
  by (auto simp: Reader_Raw_def Reader_Len_def consumed_def split: if_splits)

lemma unat_of_uint: "(of_nat (length (b :: bytes)) :: u16) = n" if "int (length b) = uint n"
  using that by (metis of_int_of_nat_eq word_of_int_uint)

lemma byte_of_uint: "(of_nat (length (b :: bytes)) :: byte) = n" if "int (length b) = uint n"
  using that by (metis of_int_of_nat_eq word_of_int_uint)

text \<open>One round outside a wrapper: exactly one record, and its wire form is what was consumed.\<close>

lemma split_record_wire:
  assumes v: "valid r" and s: "split_record zlen nested bounded tag r = (Inr recs, r')" and t: "tag \<noteq> TagWrapper"
  shows "\<exists>rec'. recs = [rec'] \<and> wire_form rec' = tag # consumed r r'"
proof (cases "sizedTags tag")
  case (Some name)
  with s t obtain n r1 body where u: "Reader_Uint16 r = (Inr n, r1)" and b: "Reader_Raw (uint n) r1 = (Inr body, r')"
    and recs: "recs = [\<lparr>Record_Tag = tag, Record_Body = body\<rparr>]"
    by (auto simp: split_record_def rbind_ok)
  from wire_keeps [OF wire_reader_Uint16 v u] have k: "rbuf r1 = rbuf r" "roff r \<le> roff r1" "valid r1" by auto
  from wire_keeps [OF wire_reader_Raw k(3) b] have k': "rbuf r' = rbuf r1" "roff r1 \<le> roff r'" "valid r'" by auto
  have "consumed r r' = Writer_Uint16 [] n @ body"
    using k k' by (subst consumed_append [of r1]) (auto simp: consumed_Uint16 [OF v u] consumed_Raw [OF k(3) b])
  moreover have "(of_nat (length body) :: u16) = n" by (rule unat_of_uint) (rule Raw_prefix [OF k(3) b])
  ultimately show ?thesis using Some recs by (simp add: wire_form_def)
next
  case None
  have raw: "\<exists>rec'. recs = [rec'] \<and> wire_form rec' = T # consumed r r'"
    if "whole T p r = (Inr recs, r')" "T \<noteq> TagReadICA" "sizedTags T = None"
      "\<And>b. p r = (Inr b, r') \<Longrightarrow> consumed r r' = b" for p T
    using that by (auto simp: whole_def rmap_def rbind_ok wire_form_plain simp del: list.inject simp add: ex_singleton)
  have rawf: "\<exists>rec'. recs = [rec'] \<and> wire_form rec' = T # consumed r r'"
    if "whole T (field m (Reader_Raw k)) r = (Inr recs, r')" "T \<noteq> TagReadICA" "sizedTags T = None" for m k T
    by (rule raw [OF that]) (simp add: consumed_Raw [OF v])
  have rawN: "\<exists>rec'. recs = [rec'] \<and> wire_form rec' = T # consumed r r'"
    if "whole T (fieldN m x (Reader_Raw k)) r = (Inr recs, r')" "T \<noteq> TagReadICA" "sizedTags T = None" for m x k T
    by (rule raw [OF that]) (simp add: consumed_Raw [OF v])
  have span: "\<exists>rec'. recs = [rec'] \<and> wire_form rec' = T # consumed r r'"
    if "spanned T p r = (Inr recs, r')" "T \<noteq> TagReadICA" "sizedTags T = None" for p :: "'z rd" and T
    using that by (auto simp: spanned_consumed wire_form_plain simp del: list.inject simp add: ex_singleton)
  have cand: "\<exists>rec'. recs = [rec'] \<and> wire_form rec' = T # consumed r r'"
    if "whole T skipCandles r = (Inr recs, r')" "T \<noteq> TagReadICA" "sizedTags T = None" for T
    by (rule raw [OF that]) (use skipCandles_rest [OF v] in \<open>auto simp: consumed_def Reader_Remaining_def\<close>)
  have ica: "\<exists>rec'. recs = [rec'] \<and> wire_form rec' = T # consumed r r'"
    if e: "rbind (field m1 Reader_Byte) (\<lambda>n. whole T (field m2 (Reader_Raw (uint n)))) r = (Inr recs, r')"
      and tg: "T = TagReadICA" "sizedTags T = None" for m1 m2 T
  proof -
    from e obtain n r1 body where u: "Reader_Byte r = (Inr n, r1)" and b: "Reader_Raw (uint n) r1 = (Inr body, r')"
      and recs: "recs = [\<lparr>Record_Tag = T, Record_Body = body\<rparr>]"
      by (auto simp: rbind_ok whole_def rmap_def)
    from wire_keeps [OF wire_reader_Byte v u] have k: "rbuf r1 = rbuf r" "roff r \<le> roff r1" "valid r1" by auto
    from wire_keeps [OF wire_reader_Raw k(3) b] have k': "rbuf r' = rbuf r1" "roff r1 \<le> roff r'" "valid r'" by auto
    have "consumed r r' = [n] @ body"
      using k k' by (subst consumed_append [of r1]) (auto simp: consumed_Byte [OF v u] consumed_Raw [OF k(3) b])
    moreover have "(of_nat (length body) :: byte) = n" by (rule byte_of_uint) (rule Raw_prefix [OF k(3) b])
    ultimately show ?thesis using recs tg by (simp add: wire_form_def)
  qed
  have state: "consumed r r = []" "wire_form \<lparr>Record_Tag = TagState, Record_Body = []\<rparr> = [TagState]"
    by (simp_all add: consumed_def wire_form_def tag_defs sizedTags_def)
  show ?thesis
    using s None unfolding split_record_def option.case
    by (cases "attrTags tag"; simp only: option.case split: if_splits)
      (auto intro: span ica [OF _ refl] rawf rawN cand simp: state tag_neq_ReadICA dest: attrTags_neq)
qed

text \<open>
  A chunk of the payload and the records it became: one record in its wire form, or a wrapper
  whose body was split.
\<close>

definition chunk :: "(bytes \<Rightarrow> nat option) \<Rightarrow> bytes \<times> Record list \<Rightarrow> bool" where
  "chunk zlen c \<longleftrightarrow>
     (\<exists>rec'. snd c = [rec'] \<and> Record_Tag rec' \<noteq> TagWrapper \<and> fst c = wire_form rec')
     \<or> (\<exists>body. fst c = wire_form \<lparr>Record_Tag = TagWrapper, Record_Body = body\<rparr>
          \<and> wrapper (\<lambda>b q. records zlen q b) body = Inr (snd c))"

lemma lift_ok: "(case w of Inl e \<Rightarrow> fail e | Inr a \<Rightarrow> ret a) r = (Inr b, r') \<longleftrightarrow> w = Inr b \<and> r' = r"
  by (cases w) auto

lemma consumed_remaining:
  "rbuf r' = rbuf r \<Longrightarrow> roff r \<le> roff r' \<Longrightarrow> Reader_Remaining r = consumed r r' @ Reader_Remaining r'"
  using append_take_drop_id [of "roff r' - roff r" "drop (roff r) (rbuf r)"]
  by (simp add: Reader_Remaining_def consumed_def)

lemma split_wrapper_wire:
  assumes v: "valid r" and s: "split_record zlen nested bounded TagWrapper r = (Inr recs, r')"
  shows "\<exists>body. TagWrapper # consumed r r' = wire_form \<lparr>Record_Tag = TagWrapper, Record_Body = body\<rparr>
    \<and> wrapper nested body = Inr recs"
proof -
  have t: "sizedTags TagWrapper = Some ''R_WRAPPER''" by (simp add: sizedTags_def tag_defs)
  from s t obtain n r1 body where u: "Reader_Uint16 r = (Inr n, r1)" and b: "Reader_Raw (uint n) r1 = (Inr body, r')"
    and w: "wrapper nested body = Inr recs"
    by (auto simp: split_record_def rbind_ok lift_ok)
  from wire_keeps [OF wire_reader_Uint16 v u] have k: "rbuf r1 = rbuf r" "roff r \<le> roff r1" "valid r1" by auto
  from wire_keeps [OF wire_reader_Raw k(3) b] have k': "rbuf r' = rbuf r1" "roff r1 \<le> roff r'" "valid r'" by auto
  have "consumed r r' = Writer_Uint16 [] n @ body"
    using k k' by (subst consumed_append [of r1]) (auto simp: consumed_Uint16 [OF v u] consumed_Raw [OF k(3) b])
  moreover have "(of_nat (length body) :: u16) = n" by (rule unat_of_uint) (rule Raw_prefix [OF k(3) b])
  ultimately show ?thesis using t w by (auto simp: wire_form_def)
qed

lemma split_one_chunk:
  assumes v: "valid r" and s: "split_one zlen bounded tag r = (Inr recs, r')"
  shows "chunk zlen (tag # consumed r r', recs)"
proof (cases "tag = TagWrapper")
  case True
  with split_wrapper_wire [OF v] s show ?thesis by (fastforce simp: chunk_def)
next
  case False
  from split_record_wire [OF v s False] obtain rec' where r: "recs = [rec']" "wire_form rec' = tag # consumed r r'" by blast
  then have "Record_Tag rec' = tag" by (simp add: wire_form_def)
  with r False show ?thesis by (auto simp: chunk_def)
qed

lemma split_rest_chunks:
  assumes "valid r" and "split_rest zlen bounded out r = (rs, eo)"
  shows "\<exists>cs rest. Reader_Remaining r = concat (map fst cs) @ rest \<and> rs = out @ concat (map snd cs)
    \<and> list_all (chunk zlen) cs \<and> (rest = [] \<or> (\<exists>e. eo = Some e))"
  using assms
proof (induction out r rule: split_rest_induct [where zlen = zlen and bounded = bounded])
  case (step out r)
  note v = step.hyps(1)
  let ?r = "r\<lparr>roff := roff r + 1\<rparr>" and ?tag = "rbuf r ! roff r"
  obtain x r' where s: "split_one zlen bounded ?tag ?r = (x, r')" by fastforce
  note u = step.prems [unfolded split_rest_unfold [OF v] s prod.case]
  consider (fin) "Reader_Len r = 0" | (bad) e where "Reader_Len r \<noteq> 0" "x = Inl e" | (good) recs where "Reader_Len r \<noteq> 0" "x = Inr recs"
    by (cases x) auto
  then show ?case
  proof cases
    case fin
    with u v show ?thesis by (intro exI [of _ "[]"]) (auto simp: Reader_Remaining_def Reader_Len_def)
  next
    case bad
    with u show ?thesis by (intro exI [of _ "[]"] exI [of _ "Reader_Remaining r"]) auto
  next
    case good
    then have v1: "valid ?r" by (auto simp: valid_def Reader_Len_def)
    from step.IH [OF good(1) s [unfolded good(2)]] u good obtain cs rest where
      i: "Reader_Remaining r' = concat (map fst cs) @ rest" "rs = (out @ recs) @ concat (map snd cs)"
      "list_all (chunk zlen) cs" "rest = [] \<or> (\<exists>e. eo = Some e)"
      by auto
    from buffer_reader.keeps [OF buffer_split_record v1 s]
    have k: "rbuf r' = rbuf r" "roff r + 1 \<le> roff r'" by auto
    have "Reader_Remaining r = (?tag # consumed ?r r') @ Reader_Remaining r'"
      using good(1) consumed_remaining [of r' ?r] k
        Cons_nth_drop_Suc [of "roff r" "rbuf r"]
      by (simp add: Reader_Remaining_def Reader_Len_def)
    with i split_one_chunk [OF v1 s [unfolded good(2)]] show ?thesis
      by (intro exI [of _ "(?tag # consumed ?r r', recs) # cs"]) auto
  qed
qed


subsection \<open>Splitting is compositional\<close>

lemma consumed_at: "consumed (at pre c post) (at (pre @ c) [] post) = c"
  by (simp add: consumed_def at_def)

lemma local_spanned [local_intro]:
  assumes "local_reader p" shows "local_reader (spanned tag p)"
proof (intro local_reader.intro local_reader_axioms.intro buffer_reader_spanned [OF local_buffer [OF assms]])
  fix r a r' pre post assume v: "valid r" and e: "spanned tag p r = (Inr a, r')"
  then obtain x where p: "p r = (Inr x, r')" and a: "a = [\<lparr>Record_Tag = tag, Record_Body = consumed r r'\<rparr>]"
    by (auto simp: spanned_consumed)
  from local_reader.local [OF assms v p, of pre post]
  show "spanned tag p (at pre (consumed r r') post) = (Inr a, at (pre @ consumed r r') [] post)"
    by (simp only: spanned_consumed a consumed_at) blast
qed

lemma local_whole [local_intro]: "local_reader p \<Longrightarrow> local_reader (whole tag p)"
  unfolding whole_def by (intro local_intro)

lemma local_lift [local_intro]: "local_reader (case w of Inl e \<Rightarrow> fail e | Inr a \<Rightarrow> ret a)"
  by (cases w) (simp_all add: local_intro)

lemma local_never: "(\<And>r. p r = (Inl (e r), r)) \<Longrightarrow> local_reader p"
  by unfold_locales auto

lemma local_SkipNews [local_intro]:
  assumes "zlib_stream zlen" shows "local_reader (SkipNews zlen tag)"
proof (cases "tag = TagNewsUpload")
  case True
  have m: "local_reader (rmap (\<lambda>_. ()) (news_upload zlen))" by (intro local_intro assms)
  show ?thesis unfolding True
    by (rule local_cong [OF m]) (auto intro: buffer_local simp: SkipNews_upload rmap_def rbind_ok)
next
  case False
  then show ?thesis unfolding SkipNews_def by (simp add: local_intro)
qed

lemma local_session: "local_reader (skipFortsSession False)"
  unfolding skipFortsSession_def by (simp add: local_intro)

lemma local_split_record:
  assumes z: "zlib_stream zlen" and t: "tag \<noteq> TagCandles"
  shows "local_reader (split_record zlen nested False tag)"
proof -
  have f: "local_reader (\<lambda>r. fail (UnknownRecordError tag (roff r - 1)) r)"
    by (rule local_never) (simp add: fail_def)
  show ?thesis
    unfolding split_record_def
    by (cases "sizedTags tag"; cases "attrTags tag"; simp only: option.case t if_False)
      (intro local_intro z f local_session)+
qed

text \<open>A candle record goes to the end of the payload: it may have anything before it, nothing after it.\<close>

lemma candles_at:
  assumes "valid r" and "skipCandles r = (Inr b, r')"
  shows "skipCandles (at pre (consumed r r') []) = (Inr b, at (pre @ consumed r r') [] [])"
proof -
  from skipCandles_rest [OF assms] obtain c where b: "b = Reader_Remaining r" and e: "rbuf r' = rbuf r" "roff r' = length (rbuf r)"
    and w: "candle_walk (NewReader b) = (Inr (), c)" "Reader_Len c = 0" by auto
  have "consumed r r' = b" using e by (simp add: consumed_def b Reader_Remaining_def)
  with w show ?thesis
    by (simp add: skipCandles_def Reader_Remaining_def at_def rbind_def field_def Reader_Raw_def at_end_def
        ret_def Reader_Len_def)
qed

lemma split_one_candles: "split_record zlen nested bounded TagCandles = whole TagCandles skipCandles"
  by (simp add: split_record_def sizedTags_def attrTags_def tag_defs)

lemma split_one_at:
  assumes z: "zlib_stream zlen" and v: "valid r" and s: "split_one zlen False tag r = (Inr recs, r')"
    and c: "post = [] \<or> tag \<noteq> TagCandles"
  shows "split_one zlen False tag (at pre (consumed r r') (Reader_Remaining r' @ post)) =
    (Inr recs, at (pre @ consumed r r') [] (Reader_Remaining r' @ post))"
proof (cases "tag = TagCandles")
  case False
  from local_reader.local [OF local_split_record [OF z False] v s] show ?thesis .
next
  case True
  with s obtain b where b: "skipCandles r = (Inr b, r')" and recs: "recs = [\<lparr>Record_Tag = tag, Record_Body = b\<rparr>]"
    by (auto simp: split_one_candles whole_def rmap_def rbind_ok)
  from skipCandles_rest [OF v b] have "Reader_Remaining r' = []" by (auto simp: Reader_Remaining_def)
  with True c recs candles_at [OF v b] show ?thesis
    by (simp add: split_one_candles whole_def rmap_def rbind_def ret_def)
qed

lemma split_one_tags: "split_record zlen nested bounded TagCandles r = (Inr recs, r') \<Longrightarrow> TagCandles \<in> Record_Tag ` set recs"
  by (auto simp: split_one_candles whole_def rmap_def rbind_ok)

lemma split_rest_contains:
  assumes "valid r" and "split_rest zlen bounded out r = (rs, eo)"
  shows "set out \<subseteq> set rs"
  using split_rest_chunks [OF assms] by auto

lemma split_rest_move:
  assumes z: "zlib_stream zlen" and "valid r" and "split_rest zlen False out r = (rs, None)"
    and "post = [] \<or> TagCandles \<notin> Record_Tag ` set rs"
  shows "split_rest zlen False out (at pre (Reader_Remaining r) post) =
    split_rest zlen False rs (at (pre @ Reader_Remaining r) [] post)"
  using assms(2-4)
proof (induction out r arbitrary: pre rule: split_rest_induct [where zlen = zlen and bounded = False])
  case (step out r)
  note v = step.hyps(1)
  let ?r = "r\<lparr>roff := roff r + 1\<rparr>" and ?tag = "rbuf r ! roff r"
  show ?case
  proof (cases "Reader_Len r = 0")
    case True
    with step.prems v show ?thesis
      by (simp add: split_rest_unfold [OF v] Reader_Remaining_def Reader_Len_def)
  next
    case False
    then have v1: "valid ?r" by (auto simp: valid_def Reader_Len_def)
    obtain x r' where s: "split_one zlen False ?tag ?r = (x, r')" by fastforce
    with False step.prems(1) obtain recs where x: "x = Inr recs"
      and rest: "split_rest zlen False (out @ recs) r' = (rs, None)"
      by (cases x) (auto simp: split_rest_unfold [OF v])
    note s = s [unfolded x]
    from buffer_reader.keeps [OF buffer_split_record v1 s]
    have k: "rbuf r' = rbuf r" "roff r + 1 \<le> roff r'" "valid r'" by auto
    let ?c = "consumed ?r r'" and ?rest = "Reader_Remaining r'"
    have split: "Reader_Remaining r = ?tag # ?c @ ?rest"
      using False consumed_remaining [of r' ?r] k Cons_nth_drop_Suc [of "roff r" "rbuf r"]
      by (simp add: Reader_Remaining_def Reader_Len_def)
    have cand: "post = [] \<or> ?tag \<noteq> TagCandles"
    proof (rule disjCI)
      assume "\<not> ?tag \<noteq> TagCandles"
      with s have "TagCandles \<in> Record_Tag ` set recs" by (simp add: split_one_tags)
      with split_rest_contains [OF k(3) rest] step.prems(2) show "post = []" by auto
    qed
    let ?at = "at pre (Reader_Remaining r) post"
    have a: "rbuf ?at ! roff ?at = ?tag" "Reader_Len ?at \<noteq> 0"
      "?at\<lparr>roff := roff ?at + 1\<rparr> = at (pre @ [?tag]) ?c (?rest @ post)"
      by (simp_all add: at_def split Reader_Len_def)
    have "split_rest zlen False out ?at = split_rest zlen False (out @ recs) (at (pre @ ?tag # ?c) ?rest post)"
      by (subst split_rest_unfold [OF valid_at])
        (simp only: a if_False split_one_at [OF z v1 s cand] prod.case sum.case at_next append_assoc append_Cons append_Nil)
    also have "\<dots> = split_rest zlen False rs (at ((pre @ ?tag # ?c) @ ?rest) [] post)"
      by (rule step.IH [OF False s rest step.prems(2)])
    finally show ?thesis by (simp add: split)
  qed
qed

text \<open>C10: splitting is compositional. When the payload \<open>a\<close> splits without an error into records
  among which is no R_HISTORY (the one record that takes all the rest of its payload), and \<open>b\<close>
  splits without an error, \<open>a @ b\<close> splits into the records of \<open>a\<close> followed by those of \<open>b\<close>: no
  record's end depends on what follows it, and none depends on what came before. The hypothesis on
  \<open>zlen\<close> is what compress/zlib documents: a stream ends at its own checksum.\<close>

theorem Records_append:
  assumes "zlib_stream zlen" and "Records zlen a = (ra, None)" and "TagCandles \<notin> Record_Tag ` set ra"
    and "Records zlen b = (rb, None)"
  shows "Records zlen (a @ b) = (ra @ rb, None)"
proof -
  have n: "NewReader p = at [] p []" "Reader_Remaining (NewReader p) = p" for p
    by (simp_all add: NewReader_def at_def Reader_Remaining_def)
  have ab: "NewReader (a @ b) = at [] (Reader_Remaining (NewReader a)) b" by (simp add: NewReader_def at_def Reader_Remaining_def)
  have "split_rest zlen False [] (NewReader (a @ b)) = split_rest zlen False ra (at a [] b)"
    unfolding ab using split_rest_move [OF assms(1) valid_NewReader, of "[]" a ra b "[]"] assms(2,3)
    by (simp add: Records_def records_split_rest n(2))
  also have "at a [] b = at a b []" by (simp add: at_def)
  also have "split_rest zlen False ra (at a b []) =
      (case split_rest zlen False [] (at a b []) of (rs, e) \<Rightarrow> (ra @ rs, e))"
    using split_rest_append [OF valid_at, of zlen False ra "[]" a b "[]"] by simp
  also have "split_rest zlen False [] (at a b []) = split_rest zlen False rb (at (a @ b) [] [])"
    using split_rest_move [OF assms(1) valid_NewReader, of "[]" b rb "[]" a] assms(4)
    by (simp add: Records_def records_split_rest n(2))
  also have "\<dots> = (rb, None)"
    by (subst split_rest_unfold [OF valid_at]) (simp add: at_def Reader_Len_def)
  finally show ?thesis by (simp add: Records_def records_split_rest)
qed

subsection \<open>Records written one after the other\<close>

text \<open>The records whose length is in the bytes or in the tag.\<close>

definition framed :: "Record \<Rightarrow> bool" where
  "framed rec' \<longleftrightarrow> (let t = Record_Tag rec'; n = length (Record_Body rec') in
     (sizedTags t \<noteq> None \<and> t \<noteq> TagWrapper \<and> n < 2 ^ 16)
     \<or> (t = TagReadICA \<and> n < 2 ^ 8)
     \<or> (attrTags t \<noteq> None \<and> n = 3)
     \<or> (t = TagOvernight \<and> n = 1)
     \<or> ((t = 0x62 \<or> t = 0x67) \<and> n = 2)
     \<or> (t = TagState \<and> n = 0))"

lemma Raw_end: "Reader_Raw (int (length b)) (at pre b post) = (Inr b, at (pre @ b) [] post)"
  by (simp add: Reader_Raw_def at_def Reader_Len_def)

lemma Uint16_at: "Reader_Uint16 (at pre (Writer_Uint16 [] n @ b) post) = (Inr n, at (pre @ Writer_Uint16 [] n) b post)"
  by (simp add: Reader_Uint16_def Writer_Uint16_def at_def Reader_Len_def be16_join nth_append)

lemma Byte_at: "Reader_Byte (at pre (n # b) post) = (Inr n, at (pre @ [n]) b post)"
  by (simp add: Reader_Byte_def at_def Reader_Len_def)

lemma attrTags_unsized: "attrTags t = Some n \<Longrightarrow> sizedTags t = None"
  by (auto simp: attrTags_def sizedTags_def split: if_splits)

lemma read_sized:
  assumes "length b < 2 ^ 16"
  shows "rbind (field s Reader_Uint16) (\<lambda>n. rbind (field m (Reader_Raw (uint n))) f)
      (at pre (Writer_Uint16 [] (of_nat (length b)) @ b) post) =
    f b (at (pre @ Writer_Uint16 [] (of_nat (length b)) @ b) [] post)"
proof -
  have "uint (of_nat (length b) :: u16) = int (length b)"
    using assms by (simp add: uint_nat unat_of_nat)
  with Raw_end [of b "pre @ Writer_Uint16 [] (of_nat (length b))" post] show ?thesis
    by (simp add: rbind_def field_def Uint16_at)
qed

lemma read_framed:
  assumes "length b < 2 ^ 8"
  shows "rbind (field s Reader_Byte) (\<lambda>n. whole t (field m (Reader_Raw (uint n))))
      (at pre (of_nat (length b) # b) post) =
    (Inr [\<lparr>Record_Tag = t, Record_Body = b\<rparr>], at (pre @ of_nat (length b) # b) [] post)"
proof -
  have "uint (of_nat (length b) :: byte) = int (length b)"
    using assms by (simp add: uint_nat unat_of_nat)
  with Raw_end [of b "pre @ [of_nat (length b)]" post] show ?thesis
    by (simp add: rbind_def field_def whole_def rmap_def ret_def Byte_at)
qed

lemma read_fixed:
  assumes "int (length b) = n"
  shows "whole t (field m (Reader_Raw n)) (at pre b post) = (Inr [\<lparr>Record_Tag = t, Record_Body = b\<rparr>], at (pre @ b) [] post)"
    and "whole t (fieldN m a (Reader_Raw n)) (at pre b post) = (Inr [\<lparr>Record_Tag = t, Record_Body = b\<rparr>], at (pre @ b) [] post)"
  using Raw_end [of b pre post] assms by (simp_all add: whole_def rmap_def rbind_def field_def fieldN_def ret_def)

lemma split_framed:
  assumes "framed \<lparr>Record_Tag = t, Record_Body = b\<rparr>"
  shows "split_record zlen nested bounded t (at (pre @ [t]) (tl (wire_form \<lparr>Record_Tag = t, Record_Body = b\<rparr>)) post) =
    (Inr [\<lparr>Record_Tag = t, Record_Body = b\<rparr>], at (pre @ wire_form \<lparr>Record_Tag = t, Record_Body = b\<rparr>) [] post)"
proof -
  consider (sized) n where "sizedTags t = Some n" "t \<noteq> TagWrapper" "length b < 2 ^ 16"
    | (ica) "t = TagReadICA" "length b < 2 ^ 8"
    | (attr) n where "sizedTags t = None" "attrTags t = Some n" "length b = 3"
    | (overnight) "t = TagOvernight" "length b = 1"
    | (two) "t = 0x62 \<or> t = 0x67" "length b = 2"
    | (state) "t = TagState" "b = []"
    using assms by (cases "sizedTags t") (auto simp: framed_def Let_def dest: attrTags_unsized)
  then show ?thesis
  proof cases
    case sized
    then show ?thesis by (simp add: split_record_def wire_form_def read_sized ret_def)
  next
    case ica
    then show ?thesis
      by (simp add: split_record_def wire_form_def sizedTags_def tag_defs read_framed)
  next
    case attr
    then have "t \<in> {0x0b, 0x0c, 0x0d, 0x0e}" by (auto simp: attrTags_def split: if_splits)
    with attr attrTags_neq [OF attr(2)] show ?thesis
      by (auto simp: split_record_def wire_form_def sizedTags_def tag_defs read_fixed)
  next
    case overnight
    then show ?thesis
      by (simp add: split_record_def wire_form_def sizedTags_def attrTags_def tag_defs read_fixed)
  next
    case two
    then show ?thesis
      by (elim disjE) (simp_all add: split_record_def wire_form_def sizedTags_def attrTags_def tag_defs read_fixed)
  next
    case state
    then show ?thesis
      by (simp add: split_record_def wire_form_def sizedTags_def attrTags_def tag_defs ret_def at_def)
  qed
qed

lemma split_rest_framed:
  assumes "list_all framed rs"
  shows "split_rest zlen bounded out (at pre (concat (map wire_form rs)) []) = (out @ rs, None)"
  using assms
proof (induction rs arbitrary: out pre)
  case Nil
  show ?case by (subst split_rest_unfold [OF valid_at]) (simp add: at_def Reader_Len_def)
next
  case (Cons rec' rs)
  obtain t b where r: "rec' = \<lparr>Record_Tag = t, Record_Body = b\<rparr>" by (cases rec')
  obtain w where w: "wire_form rec' = t # w" by (simp add: wire_form_def r)
  let ?post = "concat (map wire_form rs)"
  have a: "(at pre (t # w @ ?post) [])\<lparr>roff := length pre + 1\<rparr> = at (pre @ [t]) w ?post"
    "rbuf (at pre (t # w @ ?post) []) ! length pre = t" "Reader_Len (at pre (t # w @ ?post) []) \<noteq> 0"
    "roff (at pre (t # w @ ?post) []) = length pre"
    by (simp_all add: at_def Reader_Len_def)
  have s: "split_one zlen bounded t (at (pre @ [t]) w ?post) = (Inr [rec'], at (pre @ t # w) [] ?post)"
    using split_framed [of t b zlen _ bounded pre ?post, folded r, unfolded w] Cons.prems by (simp add: r)
  have "split_rest zlen bounded out (at pre (t # w @ ?post) []) = split_rest zlen bounded (out @ [rec']) (at (pre @ t # w) ?post [])"
    by (subst split_rest_unfold [OF valid_at]) (simp only: a if_False s prod.case sum.case at_next [of _ "[]", symmetric], simp add: at_def)
  also have "\<dots> = ((out @ [rec']) @ rs, None)" using Cons by simp
  finally show ?case by (simp add: w)
qed

text \<open>C12: a payload made of records written one after the other (sized records that are no
  wrappers, the attribute records and the other records of known length) is split into exactly
  these records, without an error.\<close>

theorem Records_wire_form:
  assumes "list_all framed rs"
  shows "Records zlen (concat (map wire_form rs)) = (rs, None)"
  using split_rest_framed [OF assms, of zlen False "[]" "[]"]
  by (simp add: Records_def records_split_rest NewReader_def at_def)

theorem Records_wire_form_witness:
  "Records (\<lambda>s. None) [0x02, 0, 1, 9, 0x05, 0x7c, 2, 7, 8] =
     ([\<lparr>Record_Tag = 0x02, Record_Body = [9]\<rparr>, \<lparr>Record_Tag = 0x05, Record_Body = []\<rparr>,
       \<lparr>Record_Tag = 0x7c, Record_Body = [7, 8]\<rparr>], None)"
  using Records_wire_form [of "[\<lparr>Record_Tag = 0x02, Record_Body = [9]\<rparr>, \<lparr>Record_Tag = 0x05, Record_Body = []\<rparr>,
       \<lparr>Record_Tag = 0x7c, Record_Body = [7, 8]\<rparr>]" "\<lambda>s. None"]
  by (simp add: framed_def wire_form_def sizedTags_def attrTags_def tag_defs Writer_Uint16_def)

theorem Records_append_witness:
  "Records (\<lambda>s. None) [0x02, 0, 1, 9, 0x05] =
     ([\<lparr>Record_Tag = 0x02, Record_Body = [9]\<rparr>, \<lparr>Record_Tag = 0x05, Record_Body = []\<rparr>], None)"
proof -
  have one: "Records (\<lambda>s. None) [0x02, 0, 1, 9] = ([\<lparr>Record_Tag = 0x02, Record_Body = [9]\<rparr>], None)"
    "Records (\<lambda>s. None) [0x05] = ([\<lparr>Record_Tag = 0x05, Record_Body = []\<rparr>], None)"
    using split_rest_framed [of "[\<lparr>Record_Tag = 0x02, Record_Body = [9]\<rparr>]" "\<lambda>s. None" False "[]" "[]"]
      split_rest_framed [of "[\<lparr>Record_Tag = 0x05, Record_Body = []\<rparr>]" "\<lambda>s. None" False "[]" "[]"]
    by (simp_all add: Records_def records_split_rest NewReader_def at_def framed_def wire_form_def sizedTags_def
        attrTags_def tag_defs Writer_Uint16_def)
  show ?thesis
    using Records_append [OF _ one(1) _ one(2)] by (simp add: zlib_stream_def tag_defs)
qed

text \<open>a wrapper around such records is transparent: it is split into the records of its body, as
  if they stood in the payload themselves.\<close>

theorem Wrapper_transparent:
  assumes "list_all framed rs" and "length (concat (map wire_form rs)) < 2 ^ 16"
  shows "Records zlen (wire_form \<lparr>Record_Tag = TagWrapper, Record_Body = concat (map wire_form rs)\<rparr>) = (rs, None)"
proof -
  let ?b = "concat (map wire_form rs)"
  let ?w = "Writer_Uint16 [] (of_nat (length ?b)) @ ?b"
  have w: "wire_form \<lparr>Record_Tag = TagWrapper, Record_Body = ?b\<rparr> = TagWrapper # ?w"
    by (simp add: wire_form_def sizedTags_def tag_defs)
  have n: "records zlen ?b True = (rs, None)"
    using split_rest_framed [OF assms(1), of zlen True "[]" "[]"] by (simp add: records_split_rest NewReader_def at_def)
  have s: "split_one zlen False TagWrapper (at [TagWrapper] ?w []) = (Inr rs, at ([TagWrapper] @ ?w) [] [])"
    using assms(2) by (simp add: split_record_def sizedTags_def tag_defs read_sized wrapper_def n ret_def del: length_concat)
  have a: "(NewReader (TagWrapper # ?w))\<lparr>roff := roff (NewReader (TagWrapper # ?w)) + 1\<rparr> = at [TagWrapper] ?w []"
    "rbuf (NewReader (TagWrapper # ?w)) ! roff (NewReader (TagWrapper # ?w)) = TagWrapper"
    "Reader_Len (NewReader (TagWrapper # ?w)) \<noteq> 0"
    by (simp_all add: NewReader_def at_def Reader_Len_def)
  have "split_rest zlen False rs (at ([TagWrapper] @ ?w) [] []) = (rs, None)"
    by (subst split_rest_unfold [OF valid_at]) (simp add: at_def Reader_Len_def)
  then show ?thesis
    unfolding w Records_def records_split_rest
    by (subst split_rest_unfold [OF valid_NewReader]) (use s in \<open>simp only: a if_False prod.case sum.case append_Nil\<close>)
qed

theorem Wrapper_transparent_witness:
  "Records (\<lambda>s. None) [0x5f, 0, 4, 0x0c, 1, 2, 3] = ([\<lparr>Record_Tag = 0x0c, Record_Body = [1, 2, 3]\<rparr>], None)"
  using Wrapper_transparent [of "[\<lparr>Record_Tag = 0x0c, Record_Body = [1, 2, 3]\<rparr>]" "\<lambda>s. None"]
  by (simp add: framed_def wire_form_def sizedTags_def attrTags_def tag_defs Writer_Uint16_def)

text \<open>
  A wrapper around a good record (R_STATE) and an R_RES of an unknown type: the offset of the error
  is behind the tag of the R_RES, so the nested second pass fails on that tag and the good record
  is dropped.
\<close>

lemma Wrapper_drops_state:
  "Records (\<lambda>s. None) [0x5f, 0, 6, 0x05, 0x0f, 3, 0, 0, 0] =
     ([\<lparr>Record_Tag = 0x0f, Record_Body = [3, 0, 0, 0]\<rparr>], None)"
  by code_simp

end
