(* ===== verification/Catalog.thy ===== *)
theory Catalog
  imports Splitter "HOL-Library.Signed_Division"
begin

text \<open>
  The session catalog of \<open>native/records/catalog.go\<close>: what the client knows of boards and
  securities, how records change it, and the trades it resolves (\<open>Trade\<close>). The state is the
  record \<open>Catalog\<close>; a map of Go is a map of HOL, a method that changes the catalog returns the
  new one. \<open>time.Time\<close> is the pair of seconds since year 1 and nanoseconds that the Go library
  keeps.
\<close>

unbundle bit_operations_syntax

subsection \<open>time.Time and time.Duration\<close>

record GoTime =
  T_sec :: i64
  T_nsec :: int

text \<open>\<open>time.Time{}\<close> is 1 January of year 1; \<open>unixToInternal\<close> are the seconds from there to 1970.\<close>

definition zeroTime :: GoTime where
  "zeroTime = \<lparr>T_sec = 0, T_nsec = 0\<rparr>"

definition unixToInternal :: i64 where
  "unixToInternal = 62135596800"

definition Unix :: "i64 \<Rightarrow> GoTime" where
  "Unix sec = \<lparr>T_sec = sec + unixToInternal, T_nsec = 0\<rparr>"

text \<open>\<open>addSec\<close> saturates.\<close>

definition addSec :: "i64 \<Rightarrow> int \<Rightarrow> i64" where
  "addSec t d =
     (let sum = t + word_of_int d in
      if (sint sum > sint t) = (d > 0) then sum
      else if d > 0 then 2 ^ 63 - 1 else - (2 ^ 63 - 1))"

definition Time_Add :: "GoTime \<Rightarrow> i64 \<Rightarrow> GoTime" where
  "Time_Add t d =
     (let dsec = sint d sdiv 1000000000;
          nsec = T_nsec t + sint d smod 1000000000;
          (dsec, nsec) = (if nsec \<ge> 1000000000 then (dsec + 1, nsec - 1000000000)
                          else if nsec < 0 then (dsec - 1, nsec + 1000000000) else (dsec, nsec))
      in \<lparr>T_sec = addSec (T_sec t) dsec, T_nsec = nsec\<rparr>)"

text \<open>The instant in nanoseconds since 1970, as a number.\<close>

definition instant :: "GoTime \<Rightarrow> int" where
  "instant t = (sint (T_sec t) - 62135596800) * 1000000000 + T_nsec t"

subsection \<open>The state\<close>

record Catalog =
  Cat_startup :: Startup
  Cat_boards :: "u16 \<rightharpoonup> Board"
  Cat_codes :: "bytes \<rightharpoonup> Board"
  Cat_secs :: "u16 \<rightharpoonup> SecNew"
  Cat_symbols :: "bytes \<times> bytes \<rightharpoonup> u16"
  Cat_order :: "u16 list"
  Cat_delivered :: nat
  Cat_tradeDate :: i64

definition add_board :: "Catalog \<Rightarrow> Board \<Rightarrow> Catalog" where
  "add_board c b = c\<lparr>Cat_boards := (Cat_boards c)(Board_Num b \<mapsto> b),
     Cat_codes := (Cat_codes c)(Board_Code b \<mapsto> b)\<rparr>"

definition NewCatalog :: "Startup \<Rightarrow> Catalog" where
  "NewCatalog st = foldl add_board
     \<lparr>Cat_startup = st, Cat_boards = Map.empty, Cat_codes = Map.empty, Cat_secs = Map.empty,
      Cat_symbols = Map.empty, Cat_order = [], Cat_delivered = 0, Cat_tradeDate = 0\<rparr> (Boards st)"

text \<open>The securities of a list of ids, \<open>for _, id := range ids { if s, ok := c.secs[id]; ok ...\<close>.\<close>

definition secs_of :: "Catalog \<Rightarrow> u16 list \<Rightarrow> SecNew list" where
  "secs_of c ids = List.map_filter (Cat_secs c) ids"

definition DrainPending :: "Catalog \<Rightarrow> SecNew list \<times> Catalog" where
  "DrainPending c =
     (if Cat_delivered c \<ge> length (Cat_order c) then ([], c)
      else (secs_of c (drop (Cat_delivered c) (Cat_order c)), c\<lparr>Cat_delivered := length (Cat_order c)\<rparr>))"

definition add_symbol :: "SecNew \<Rightarrow> Catalog \<Rightarrow> Pit \<Rightarrow> Catalog" where
  "add_symbol s c p =
     (case Cat_boards c (Pit_Board p) of
        None \<Rightarrow> c
      | Some b \<Rightarrow> c\<lparr>Cat_symbols := (Cat_symbols c)((Board_Code b, SecNew_SecCode s) \<mapsto> SecNew_SecID s)\<rparr>)"

definition AddSecurity :: "SecNew \<Rightarrow> Catalog \<Rightarrow> Catalog" where
  "AddSecurity s c =
     (let i = SecNew_SecID s;
          c = (if Cat_secs c i = None then c\<lparr>Cat_order := Cat_order c @ [i]\<rparr> else c);
          c = c\<lparr>Cat_secs := (Cat_secs c)(i \<mapsto> s)\<rparr>
      in foldl (add_symbol s) c (SecNew_Pits s))"

definition Apply :: "(bytes \<Rightarrow> bytes option) \<Rightarrow> Record \<Rightarrow> Catalog \<Rightarrow> (err + bool) \<times> Catalog" where
  "Apply win rec' c =
     (if Record_Tag rec' = TagSecNew then
        (case ParseSecNew win (Record_Body rec') of
           Inl e \<Rightarrow> (Inl e, c)
         | Inr s \<Rightarrow> (Inr True, AddSecurity s c))
      else if Record_Tag rec' = TagDate then
        (case TradeDate rec' of
           Inl e \<Rightarrow> (Inl e, c)
         | Inr d \<Rightarrow> (Inr True, c\<lparr>Cat_tradeDate := d\<rparr>))
      else (Inr False, c))"

subsection \<open>Lookups\<close>

definition Len :: "Catalog \<Rightarrow> nat" where
  "Len c = card (dom (Cat_secs c))"

definition Security :: "Catalog \<Rightarrow> u16 \<Rightarrow> SecNew option" where
  "Security c secid = Cat_secs c secid"

definition Catalog_Board :: "Catalog \<Rightarrow> u16 \<Rightarrow> Board option" where
  "Catalog_Board c num = Cat_boards c num"

definition BoardByCode :: "Catalog \<Rightarrow> bytes \<Rightarrow> Board option" where
  "BoardByCode c code = Cat_codes c code"

text \<open>\<open>c.secs[id]\<close> and \<open>c.codes[board]\<close> are read without a check; \<open>None\<close> inside stands for Go's
  zero value. The invariant shows that it does not occur.\<close>

definition Lookup :: "Catalog \<Rightarrow> bytes \<Rightarrow> bytes \<Rightarrow> (SecNew option \<times> Board option) option" where
  "Lookup c board seccode =
     (case Cat_symbols c (board, seccode) of
        None \<Rightarrow> None
      | Some i \<Rightarrow> Some (Cat_secs c i, Cat_codes c board))"

definition Decimals :: "Catalog \<Rightarrow> u16 \<Rightarrow> u16 \<Rightarrow> byte option" where
  "Decimals c secid board =
     (case Cat_secs c secid of
        None \<Rightarrow> None
      | Some s \<Rightarrow>
          (case List.find (\<lambda>p. Pit_Board p = board) (SecNew_Pits s) of
             Some p \<Rightarrow> Some (Pit_Decimals p)
           | None \<Rightarrow> (case SecNew_DefaultPit s of Some p \<Rightarrow> Some (Pit_Decimals p) | None \<Rightarrow> None)))"

definition Catalog_List :: "Catalog \<Rightarrow> SecNew list" where
  "Catalog_List c = secs_of c (Cat_order c)"

subsection \<open>Trades\<close>

record Trade =
  Trade_SecID :: u16
  Trade_Board :: bytes
  Trade_SecCode :: bytes
  Trade_TradeNo :: i64
  Trade_Time :: GoTime
  Trade_WallTime :: i64
  Trade_Millis :: u16
  Trade_Price :: Decimal
  Trade_Quantity :: i64
  Trade_BuySell :: byte
  Trade_Period :: byte
  Trade_OpenInterest :: i64
  Trade_HasOpenInterest :: bool
  Trade_Raw :: AllTrade

text \<open>The trade instant: wall clock, shifted by the bias, and the milliseconds when there are any.\<close>

definition trade_time :: "i64 \<Rightarrow> u16 \<Rightarrow> i64 \<Rightarrow> GoTime" where
  "trade_time wall millis bias =
     (let ts = Time_Add (Unix wall) bias
      in if millis < 1000 then Time_Add ts (ucast millis * 1000000) else ts)"

definition Catalog_Trade :: "Catalog \<Rightarrow> AllTrade \<Rightarrow> i64 \<Rightarrow> Trade" where
  "Catalog_Trade c a bias =
     (let wall = (if AllTrade_Time a = 0 then Cat_tradeDate c else AllTrade_Time a);
          ts = trade_time wall (AllTrade_Millis a) bias;
          oi = AllTrade_Flags a AND AllTradeOpenInterest \<noteq> 0
      in \<lparr>Trade_SecID = AllTrade_SecID a,
          Trade_Board = (case Cat_boards c (AllTrade_Board a) of Some b \<Rightarrow> Board_Code b | None \<Rightarrow> []),
          Trade_SecCode = (case Cat_secs c (AllTrade_SecID a) of Some s \<Rightarrow> SecNew_SecCode s | None \<Rightarrow> []),
          Trade_TradeNo = AllTrade_TradeNo a, Trade_Time = ts, Trade_WallTime = wall,
          Trade_Millis = AllTrade_Millis a,
          Trade_Price = \<lparr>Units = AllTrade_Price a,
            Scale = (case Decimals c (AllTrade_SecID a) (AllTrade_Board a) of Some d \<Rightarrow> d | None \<Rightarrow> 0)\<rparr>,
          Trade_Quantity = AllTrade_Quantity a, Trade_BuySell = AllTrade_BuySell a,
          Trade_Period = AllTrade_Period a,
          Trade_OpenInterest = (if oi then AllTrade_OpenInt a else 0), Trade_HasOpenInterest = oi,
          Trade_Raw = a\<rparr>)"

subsection \<open>Attribute records\<close>

definition isAttrTag :: "byte \<Rightarrow> bool" where
  "isAttrTag tag \<longleftrightarrow> attrTags tag \<noteq> None"

text \<open>The rewrite of one security; other tags of the family leave it as it is.\<close>

definition mutate :: "byte \<Rightarrow> byte \<Rightarrow> SecNew \<Rightarrow> SecNew" where
  "mutate tag v s =
     (if tag = 0x0d then s\<lparr>SecNew_Flags := (SecNew_Flags s AND 0xfc) OR v\<rparr>
      else if tag = 0x0e then
        (if v \<noteq> 0 then s\<lparr>SecNew_Flags := SecNew_Flags s OR 4\<rparr>
         else s\<lparr>SecNew_Flags := SecNew_Flags s AND NOT 4\<rparr>)
      else s)"

definition ApplyMutations :: "(bytes \<Rightarrow> bytes option) \<Rightarrow> Record \<Rightarrow> Catalog \<Rightarrow> (err + bool) \<times> Catalog" where
  "ApplyMutations win rec' c =
     (let tag = Record_Tag rec'; body = Record_Body rec' in
      if tag = TagSecNew \<or> tag = TagDate then Apply win rec' c
      else if \<not> isAttrTag tag then (Inr False, c)
      else if length body < 3 then (Inl (Errorf ''attribute record %#02x: short body'' [uint tag]), c)
      else
        let i = be16 (body ! 0) (body ! 1); v = body ! 2 in
        (case Cat_secs c i of
           None \<Rightarrow> (Inr True, c)
         | Some s \<Rightarrow>
             if tag = 0x0d \<or> tag = 0x0e
             then (Inr True, c\<lparr>Cat_secs := (Cat_secs c)(i \<mapsto> mutate tag v s)\<rparr>)
             else (Inr True, c)))"

end
