(* ===== verification/Catalog_Properties.thy ===== *)
theory Catalog_Properties
  imports Catalog
begin

text \<open>
  What the session catalog guarantees: an invariant of every catalog that can be reached from
  \<open>NewCatalog\<close>, the delivery of each security exactly once and in arrival order, the lookups, the
  effect of attribute records and the instants of trades.
\<close>

unbundle bit_operations_syntax

subsection \<open>Reachable catalogs\<close>

text \<open>One call on the catalog, with the securities it hands out.\<close>

inductive cat_step :: "(bytes \<Rightarrow> bytes option) \<Rightarrow> Catalog \<Rightarrow> SecNew list \<Rightarrow> Catalog \<Rightarrow> bool" for win where
  add: "cat_step win c [] (AddSecurity s c)"
| apply_rec: "cat_step win c [] (snd (Apply win rec' c))"
| mutate_rec: "cat_step win c [] (snd (ApplyMutations win rec' c))"
| drain: "cat_step win c (fst (DrainPending c)) (snd (DrainPending c))"

text \<open>A session from its startup dictionaries, with all the securities handed out so far.\<close>

inductive cat_run :: "(bytes \<Rightarrow> bytes option) \<Rightarrow> Startup \<Rightarrow> SecNew list \<Rightarrow> Catalog \<Rightarrow> bool" for win st where
  start: "cat_run win st [] (NewCatalog st)"
| step: "cat_run win st ds c \<Longrightarrow> cat_step win c d c' \<Longrightarrow> cat_run win st (ds @ d) c'"

inductive_cases cat_stepE: "cat_step win c d c'"

definition catalog_ok :: "Catalog \<Rightarrow> bool" where
  "catalog_ok c \<longleftrightarrow>
     distinct (Cat_order c) \<and> set (Cat_order c) = dom (Cat_secs c)
     \<and> Cat_delivered c \<le> length (Cat_order c)
     \<and> (\<forall>i s. Cat_secs c i = Some s \<longrightarrow> SecNew_SecID s = i)
     \<and> (\<forall>b code i. Cat_symbols c (b, code) = Some i \<longrightarrow> i \<in> dom (Cat_secs c) \<and> b \<in> dom (Cat_codes c))
     \<and> (\<forall>n b. Cat_boards c n = Some b \<longrightarrow> Board_Num b = n \<and> Board_Code b \<in> dom (Cat_codes c))
     \<and> (\<forall>code b. Cat_codes c code = Some b \<longrightarrow> Board_Code b = code)"

lemma add_symbol_simps [simp]:
  "Cat_secs (add_symbol s c p) = Cat_secs c" "Cat_order (add_symbol s c p) = Cat_order c"
  "Cat_delivered (add_symbol s c p) = Cat_delivered c" "Cat_boards (add_symbol s c p) = Cat_boards c"
  "Cat_codes (add_symbol s c p) = Cat_codes c" "Cat_startup (add_symbol s c p) = Cat_startup c"
  "Cat_tradeDate (add_symbol s c p) = Cat_tradeDate c"
  by (simp_all add: add_symbol_def split: option.split)

lemma add_symbols_simps [simp]:
  "Cat_secs (foldl (add_symbol s) c ps) = Cat_secs c" "Cat_order (foldl (add_symbol s) c ps) = Cat_order c"
  "Cat_delivered (foldl (add_symbol s) c ps) = Cat_delivered c" "Cat_boards (foldl (add_symbol s) c ps) = Cat_boards c"
  "Cat_codes (foldl (add_symbol s) c ps) = Cat_codes c" "Cat_startup (foldl (add_symbol s) c ps) = Cat_startup c"
  "Cat_tradeDate (foldl (add_symbol s) c ps) = Cat_tradeDate c"
  by (induction ps arbitrary: c) simp_all

text \<open>The names under which a security is registered: its code on every known board it has a pit for.\<close>

definition names_of :: "Catalog \<Rightarrow> SecNew \<Rightarrow> Pit list \<Rightarrow> (bytes \<times> bytes) set" where
  "names_of c s ps =
     {(Board_Code b, SecNew_SecCode s) |b. \<exists>p \<in> set ps. Cat_boards c (Pit_Board p) = Some b}"

lemma names_of_iff:
  "(code, sc) \<in> names_of c s ps \<longleftrightarrow>
     sc = SecNew_SecCode s \<and> (\<exists>p \<in> set ps. \<exists>b. Cat_boards c (Pit_Board p) = Some b \<and> Board_Code b = code)"
  by (auto simp: names_of_def)

lemma names_of_Cons:
  "k \<in> names_of c s (p # ps) \<longleftrightarrow>
     (\<exists>b. Cat_boards c (Pit_Board p) = Some b \<and> k = (Board_Code b, SecNew_SecCode s)) \<or> k \<in> names_of c s ps"
  by (auto simp: names_of_def)

lemma names_of_cong: "Cat_boards c' = Cat_boards c \<Longrightarrow> names_of c' s ps = names_of c s ps"
  by (simp add: names_of_def)

lemma add_symbols_lookup:
  "Cat_symbols (foldl (add_symbol s) c ps) k =
     (if k \<in> names_of c s ps then Some (SecNew_SecID s) else Cat_symbols c k)"
proof (induction ps arbitrary: c)
  case (Cons p ps)
  have "names_of (add_symbol s c p) s ps = names_of c s ps" by (rule names_of_cong) simp
  with Cons [of "add_symbol s c p"] show ?case
    by (simp add: names_of_Cons) (simp add: add_symbol_def split: option.split)
qed (simp add: names_of_def)

lemma AddSecurity_simps:
  "Cat_order (AddSecurity s c) =
     (if Cat_secs c (SecNew_SecID s) = None then Cat_order c @ [SecNew_SecID s] else Cat_order c)"
  "Cat_secs (AddSecurity s c) = (Cat_secs c)(SecNew_SecID s \<mapsto> s)"
  "Cat_delivered (AddSecurity s c) = Cat_delivered c" "Cat_boards (AddSecurity s c) = Cat_boards c"
  "Cat_codes (AddSecurity s c) = Cat_codes c" "Cat_tradeDate (AddSecurity s c) = Cat_tradeDate c"
  by (simp_all add: AddSecurity_def Let_def)

lemma AddSecurity_symbols:
  "Cat_symbols (AddSecurity s c) k =
     (if k \<in> names_of c s (SecNew_Pits s) then Some (SecNew_SecID s) else Cat_symbols c k)"
proof -
  have "names_of (c\<lparr>Cat_order := o', Cat_secs := m\<rparr>) s ps = names_of c s ps"
    "names_of (c\<lparr>Cat_secs := m\<rparr>) s ps = names_of c s ps" for o' m ps
    by (simp_all add: names_of_def)
  then show ?thesis by (simp add: AddSecurity_def Let_def add_symbols_lookup)
qed

lemma ok_add:
  assumes "catalog_ok c"
  shows "catalog_ok (AddSecurity s c)"
proof -
  have "b \<in> dom (Cat_codes c)" if "(b, code) \<in> names_of c s ps" for b code ps
    using that assms by (auto simp: names_of_def catalog_ok_def)
  note names = this
  let ?c = "AddSecurity s c"
  have "distinct (Cat_order ?c)" "set (Cat_order ?c) = dom (Cat_secs ?c)" "Cat_delivered ?c \<le> length (Cat_order ?c)"
    using assms by (auto simp: catalog_ok_def AddSecurity_simps)
  moreover have "\<forall>i s'. Cat_secs ?c i = Some s' \<longrightarrow> SecNew_SecID s' = i"
    using assms by (simp add: catalog_ok_def AddSecurity_simps)
  moreover have "i \<in> dom (Cat_secs ?c) \<and> b \<in> dom (Cat_codes ?c)" if "Cat_symbols ?c (b, code) = Some i" for b code i
  proof (cases "(b, code) \<in> names_of c s (SecNew_Pits s)")
    case True
    with that names [OF True] show ?thesis by (simp add: AddSecurity_simps AddSecurity_symbols)
  next
    case False
    with that have "Cat_symbols c (b, code) = Some i" by (simp add: AddSecurity_symbols)
    with assms have "i \<in> dom (Cat_secs c) \<and> b \<in> dom (Cat_codes c)" unfolding catalog_ok_def by blast
    then show ?thesis by (simp add: AddSecurity_simps)
  qed
  moreover have "\<forall>n b. Cat_boards ?c n = Some b \<longrightarrow> Board_Num b = n \<and> Board_Code b \<in> dom (Cat_codes ?c)"
    "\<forall>code b. Cat_codes ?c code = Some b \<longrightarrow> Board_Code b = code"
    using assms unfolding catalog_ok_def AddSecurity_simps by blast+
  ultimately show ?thesis unfolding catalog_ok_def by blast
qed

text \<open>The other updates.\<close>

lemma ok_date: "catalog_ok c \<Longrightarrow> catalog_ok (c\<lparr>Cat_tradeDate := d\<rparr>)"
  by (simp add: catalog_ok_def)

lemma ok_delivered: "catalog_ok c \<Longrightarrow> n \<le> length (Cat_order c) \<Longrightarrow> catalog_ok (c\<lparr>Cat_delivered := n\<rparr>)"
  by (simp add: catalog_ok_def)

lemma ok_replace:
  assumes "catalog_ok c" and "Cat_secs c i = Some s" and "SecNew_SecID s' = SecNew_SecID s"
  shows "catalog_ok (c\<lparr>Cat_secs := (Cat_secs c)(i \<mapsto> s')\<rparr>)"
proof -
  have "dom ((Cat_secs c)(i \<mapsto> s')) = dom (Cat_secs c)" using assms(2) by auto
  with assms show ?thesis by (simp add: catalog_ok_def del: dom_fun_upd)
qed

lemma mutate_id [simp]: "SecNew_SecID (mutate tag v s) = SecNew_SecID s"
  by (simp add: mutate_def)

lemma ok_apply: "catalog_ok c \<Longrightarrow> catalog_ok (snd (Apply win rec' c))"
  by (simp add: Apply_def ok_add ok_date split: sum.split)

lemma ok_mutations: "catalog_ok c \<Longrightarrow> catalog_ok (snd (ApplyMutations win rec' c))"
  by (simp add: ApplyMutations_def Let_def ok_apply ok_replace split: option.split)

lemma ok_drain: "catalog_ok c \<Longrightarrow> catalog_ok (snd (DrainPending c))"
  by (simp add: DrainPending_def ok_delivered)

lemma ok_board:
  assumes "catalog_ok c"
  shows "catalog_ok (add_board c b)"
proof -
  note ok = assms [unfolded catalog_ok_def]
  let ?c = "add_board c b"
  have c: "Cat_order ?c = Cat_order c" "Cat_secs ?c = Cat_secs c" "Cat_delivered ?c = Cat_delivered c"
    "Cat_symbols ?c = Cat_symbols c" "dom (Cat_codes ?c) = insert (Board_Code b) (dom (Cat_codes c))"
    "Cat_boards ?c n = (if n = Board_Num b then Some b else Cat_boards c n)"
    "Cat_codes ?c code = (if code = Board_Code b then Some b else Cat_codes c code)" for n code
    by (simp_all add: add_board_def)
  have "\<forall>d code i. Cat_symbols ?c (d, code) = Some i \<longrightarrow> i \<in> dom (Cat_secs ?c) \<and> d \<in> dom (Cat_codes ?c)"
    unfolding c using ok by blast
  moreover have "\<forall>n b'. Cat_boards ?c n = Some b' \<longrightarrow> Board_Num b' = n \<and> Board_Code b' \<in> dom (Cat_codes ?c)"
    unfolding c using ok by (metis insertCI option.inject)
  moreover have "\<forall>code b'. Cat_codes ?c code = Some b' \<longrightarrow> Board_Code b' = code"
    unfolding c using ok by (metis option.inject)
  ultimately show ?thesis using ok unfolding catalog_ok_def c(1-4) by blast
qed

lemma ok_new: "catalog_ok (NewCatalog st)"
proof -
  have "catalog_ok c \<Longrightarrow> catalog_ok (foldl add_board c bs)" for c bs
  proof (induction bs arbitrary: c)
    case (Cons b bs)
    then show ?case by (simp only: foldl.simps ok_board)
  qed (simp only: foldl.simps)
  moreover have "catalog_ok \<lparr>Cat_startup = st, Cat_boards = Map.empty, Cat_codes = Map.empty, Cat_secs = Map.empty,
      Cat_symbols = Map.empty, Cat_order = [], Cat_delivered = 0, Cat_tradeDate = 0\<rparr>"
    by (simp add: catalog_ok_def)
  ultimately show ?thesis unfolding NewCatalog_def by blast
qed

lemma ok_step: "cat_step win c d c' \<Longrightarrow> catalog_ok c \<Longrightarrow> catalog_ok c'"
  by (erule cat_stepE) (auto intro: ok_add ok_apply ok_mutations ok_drain)

lemma ok_run: "cat_run win st ds c \<Longrightarrow> catalog_ok c"
  by (induction rule: cat_run.induct) (auto intro: ok_new ok_step)

text \<open>Concrete values for the witnesses: a board with one security and its pit.\<close>

definition example_board :: Board where
  "example_board = \<lparr>Board_Num = 4, Board_Market = 1, Board_Code = [84], Board_Name = [], Board_Word = 0,
     Board_Byte1 = 0, Board_Text = [], Board_Byte2 = 0, Board_Type = 0\<rparr>"

definition example_startup :: Startup where
  "example_startup = \<lparr>Markets = [], MarketsTail = 0, BoardTypes = [], Boards = [example_board], SecTypes = [],
     CandleKinds = [], Columns = []\<rparr>"

definition example_pit :: Pit where
  "example_pit = \<lparr>Pit_Board = 4, Pit_LotSize = 1, Pit_LotDivider = 1, Pit_MinStep = 1, Pit_Decimals = 2,
     Pit_Byte1 = 0, Pit_PointCost = 0, Pit_Text = [], Pit_Default = True, Pit_Int1 = 0, Pit_Currency = []\<rparr>"

definition example_sec :: SecNew where
  "example_sec = \<lparr>SecNew_SecID = 7, SecNew_Market = 1, SecNew_Kind = 0, SecNew_Class = 0, SecNew_SecCode = [65],
     SecNew_ShortName = [], SecNew_ISIN = [], SecNew_Byte1 = 0, SecNew_Int1 = 0, SecNew_Flags = 3,
     SecNew_Int2 = 0, SecNew_DerivFlags = 0, SecNew_Underlying = [], SecNew_Props = 0,
     SecNew_Pits = [example_pit], SecNew_Currency = [], SecNew_Tail1 = 0, SecNew_Tail2 = 0, SecNew_Tail3 = 0,
     SecNew_TimeZone = [], SecNew_HasTimeZone = False, SecNew_MIC = [], SecNew_Ticker = [], SecNew_Tail4 = 0,
     SecNew_Tail5 = 0, SecNew_Text1 = [], SecNew_Text2 = [], SecNew_Tail6 = 0, SecNew_Extra = []\<rparr>"

lemmas example_defs = example_board_def example_startup_def example_pit_def example_sec_def

lemma example_run: "cat_run Some example_startup [] (AddSecurity example_sec (NewCatalog example_startup))"
  using cat_run.step [OF cat_run.start cat_step.add, of Some example_startup example_sec] by simp

subsection \<open>The invariant\<close>

text \<open>C13: in every catalog of a session, whatever records arrived in whatever order, each known
  security stands once in the arrival order and under its own id, no more has been handed out than
  has arrived, and every name leads to a known security on a known board, so \<open>Lookup\<close> never
  returns a zero value.\<close>

theorem catalog_invariant:
  assumes "cat_run win st ds c"
  shows "distinct (Cat_order c) \<and> set (Cat_order c) = dom (Cat_secs c) \<and> Len c = length (Cat_order c)
    \<and> Cat_delivered c \<le> length (Cat_order c)
    \<and> (\<forall>i s. Security c i = Some s \<longrightarrow> SecNew_SecID s = i)
    \<and> (\<forall>board code so bo. Lookup c board code = Some (so, bo) \<longrightarrow> so \<noteq> None \<and> bo \<noteq> None)"
proof (intro conjI)
  from ok_run [OF assms] have ok: "catalog_ok c" .
  note o = ok [unfolded catalog_ok_def]
  show "distinct (Cat_order c)" "set (Cat_order c) = dom (Cat_secs c)" "Cat_delivered c \<le> length (Cat_order c)"
    using o by blast+
  then show "Len c = length (Cat_order c)" by (metis Len_def distinct_card)
  show "\<forall>i s. Security c i = Some s \<longrightarrow> SecNew_SecID s = i" using o unfolding Security_def by blast
  show "\<forall>board code so bo. Lookup c board code = Some (so, bo) \<longrightarrow> so \<noteq> None \<and> bo \<noteq> None"
    using o unfolding Lookup_def by (fastforce split: option.splits)
qed

theorem catalog_invariant_witness:
  "Len (AddSecurity example_sec (NewCatalog example_startup)) = 1"
  using catalog_invariant [OF example_run]
  by (simp add: AddSecurity_simps) (simp add: NewCatalog_def example_defs add_board_def)

subsection \<open>Every security once, in arrival order\<close>

lemma secs_of_known:
  assumes "catalog_ok c" and "set ids \<subseteq> dom (Cat_secs c)"
  shows "map SecNew_SecID (secs_of c ids) = ids"
  using assms(2)
proof (induction ids)
  case (Cons i ids)
  then obtain s where s: "Cat_secs c i = Some s" by auto
  with assms(1) have "SecNew_SecID s = i" unfolding catalog_ok_def by blast
  with Cons s show ?case by (simp add: secs_of_def map_filter_simps)
qed (simp add: secs_of_def map_filter_simps)

lemma Apply_order:
  "Cat_delivered (snd (Apply win rec' c)) = Cat_delivered c"
  "\<exists>new. Cat_order (snd (Apply win rec' c)) = Cat_order c @ new"
  by (simp_all add: Apply_def AddSecurity_simps split: sum.split)

lemma ApplyMutations_order:
  "Cat_delivered (snd (ApplyMutations win rec' c)) = Cat_delivered c"
  "\<exists>new. Cat_order (snd (ApplyMutations win rec' c)) = Cat_order c @ new"
  by (simp_all add: ApplyMutations_def Let_def Apply_order split: option.split)

lemma step_order:
  assumes "cat_step win c d c'" and ok: "catalog_ok c"
  shows "\<exists>new. Cat_order c' = Cat_order c @ new
    \<and> map SecNew_SecID d = drop (Cat_delivered c) (take (Cat_delivered c') (Cat_order c'))
    \<and> Cat_delivered c \<le> Cat_delivered c'"
  using assms(1)
proof (cases rule: cat_step.cases)
  case (add s)
  have "Cat_delivered c \<le> length (Cat_order c)" using ok unfolding catalog_ok_def by blast
  with add show ?thesis by (simp add: AddSecurity_simps)
next
  case (apply_rec rec')
  with Apply_order [of win rec' c] show ?thesis by simp
next
  case (mutate_rec rec')
  with ApplyMutations_order [of win rec' c] show ?thesis by simp
next
  case drain
  have "set (drop (Cat_delivered c) (Cat_order c)) \<subseteq> dom (Cat_secs c)"
    using ok set_drop_subset [of "Cat_delivered c" "Cat_order c"] unfolding catalog_ok_def by blast
  with secs_of_known [OF ok this] drain show ?thesis by (simp add: DrainPending_def)
qed

lemma run_delivered:
  assumes "cat_run win st ds c"
  shows "map SecNew_SecID ds = take (Cat_delivered c) (Cat_order c)"
  using assms
proof (induction rule: cat_run.induct)
  case start
  have "Cat_delivered (foldl add_board c bs) = Cat_delivered c" for c bs
    by (induction bs arbitrary: c) (simp_all add: add_board_def)
  then show ?case by (simp add: NewCatalog_def)
next
  case (step ds c d c')
  from step_order [OF step.hyps(2) ok_run [OF step.hyps(1)]] obtain new where
    n: "Cat_order c' = Cat_order c @ new" "map SecNew_SecID d = drop (Cat_delivered c) (take (Cat_delivered c') (Cat_order c'))"
    "Cat_delivered c \<le> Cat_delivered c'" by blast
  have "Cat_delivered c \<le> length (Cat_order c)" using ok_run [OF step.hyps(1)] unfolding catalog_ok_def by blast
  then have "take (Cat_delivered c) (Cat_order c) = take (Cat_delivered c) (take (Cat_delivered c') (Cat_order c'))"
    using n by (simp add: min_absorb1)
  with step.IH n show ?case by (metis append_take_drop_id map_append)
qed

text \<open>C14: the \<open>securities\<close> chunks of a session hand out every known security exactly once and in the
  order of arrival: what has been handed out so far, followed by what the next \<open>DrainPending\<close>
  returns, is the list of all known securities, none twice. A security whose record arrives again
  is not handed out again.\<close>

theorem drained_once:
  assumes "cat_run win st ds c"
  shows "map SecNew_SecID (ds @ fst (DrainPending c)) = Cat_order c \<and> distinct (map SecNew_SecID (ds @ fst (DrainPending c)))"
proof -
  have ok: "catalog_ok c" by (rule ok_run [OF assms])
  have "cat_run win st (ds @ fst (DrainPending c)) (snd (DrainPending c))"
    by (rule cat_run.step [OF assms cat_step.drain])
  from run_delivered [OF this] have "map SecNew_SecID (ds @ fst (DrainPending c)) = Cat_order c"
    using ok unfolding catalog_ok_def by (auto simp: DrainPending_def split: if_splits)
  moreover have "distinct (Cat_order c)" using ok unfolding catalog_ok_def by blast
  ultimately show ?thesis by metis
qed

theorem drained_once_witness:
  "map SecNew_SecID (fst (DrainPending (AddSecurity example_sec (NewCatalog example_startup)))) = [7]"
  using drained_once [OF example_run]
  by (simp add: AddSecurity_simps) (simp add: NewCatalog_def example_defs add_board_def)

subsection \<open>The catalog as a list of securities\<close>

text \<open>The abstract catalog: the securities in arrival order, a later record replacing an earlier one.\<close>

definition upsert :: "SecNew \<Rightarrow> SecNew list \<Rightarrow> SecNew list" where
  "upsert s xs =
     (if \<exists>x \<in> set xs. SecNew_SecID x = SecNew_SecID s
      then map (\<lambda>x. if SecNew_SecID x = SecNew_SecID s then s else x) xs else xs @ [s])"

lemma list_ids: "catalog_ok c \<Longrightarrow> map SecNew_SecID (Catalog_List c) = Cat_order c"
  unfolding Catalog_List_def by (rule secs_of_known) (auto simp: catalog_ok_def)

lemma secs_of_map:
  assumes "set ids \<subseteq> dom (Cat_secs c)"
  shows "secs_of c ids = map (\<lambda>i. the (Cat_secs c i)) ids"
  using assms by (induction ids) (auto simp: secs_of_def map_filter_simps)

lemma list_map: "catalog_ok c \<Longrightarrow> Catalog_List c = map (\<lambda>i. the (Cat_secs c i)) (Cat_order c)"
  unfolding Catalog_List_def by (rule secs_of_map) (auto simp: catalog_ok_def)

text \<open>C15: for the securities alone the catalog behaves as a list with replacement: \<open>AddSecurity\<close> appends
  an unknown security and replaces a known one in its place, draining does not change the list, and
  \<open>Security\<close> finds the entry of the list with the id.\<close>

theorem Catalog_refines_list:
  assumes "cat_run win st ds c"
  shows "Catalog_List (AddSecurity s c) = upsert s (Catalog_List c)
    \<and> Catalog_List (snd (DrainPending c)) = Catalog_List c
    \<and> Security c i = List.find (\<lambda>x. SecNew_SecID x = i) (Catalog_List c)
    \<and> Catalog_List (NewCatalog st) = []"
proof (intro conjI)
  have ok: "catalog_ok c" by (rule ok_run [OF assms])
  let ?i = "SecNew_SecID s"
  have dom: "set (Cat_order c) = dom (Cat_secs c)" using ok unfolding catalog_ok_def by blast
  have ids: "SecNew_SecID (the (Cat_secs c j)) = j" if "j \<in> set (Cat_order c)" for j
    using that dom ok unfolding catalog_ok_def by (metis domD option.sel)
  have known: "(\<exists>x \<in> set (Catalog_List c). SecNew_SecID x = ?i) \<longleftrightarrow> Cat_secs c ?i \<noteq> None"
    using list_ids [OF ok] dom by (metis (no_types, lifting) domIff image_iff list.set_map)
  have l: "Catalog_List (AddSecurity s c) =
      map (\<lambda>j. if j = ?i then s else the (Cat_secs c j)) (Cat_order (AddSecurity s c))"
    unfolding list_map [OF ok_add [OF ok]] by (simp add: AddSecurity_simps)
  show "Catalog_List (AddSecurity s c) = upsert s (Catalog_List c)"
  proof (cases "Cat_secs c ?i")
    case None
    then have "?i \<notin> set (Cat_order c)" using dom by auto
    with None show ?thesis
      unfolding l upsert_def known by (auto simp: AddSecurity_simps list_map [OF ok])
  next
    case (Some old)
    then show ?thesis
      unfolding l upsert_def known by (simp add: AddSecurity_simps list_map [OF ok] ids)
  qed
  show "Catalog_List (snd (DrainPending c)) = Catalog_List c"
    by (simp add: DrainPending_def Catalog_List_def secs_of_def)
  have "List.find (\<lambda>x. SecNew_SecID x = i) (map (\<lambda>j. the (Cat_secs c j)) js) =
      (if i \<in> set js then Some (the (Cat_secs c i)) else None)" if "set js \<subseteq> set (Cat_order c)" for js
    using that ids by (induction js) auto
  from this [OF order_refl] show "Security c i = List.find (\<lambda>x. SecNew_SecID x = i) (Catalog_List c)"
    unfolding list_map [OF ok] using dom by (auto simp: Security_def)
  show "Catalog_List (NewCatalog st) = []"
  proof -
    have "Cat_order (foldl add_board c bs) = Cat_order c" for c bs
      by (induction bs arbitrary: c) (simp_all add: add_board_def)
    then show ?thesis by (simp add: Catalog_List_def NewCatalog_def secs_of_def map_filter_simps)
  qed
qed

theorem Catalog_refines_list_witness:
  "Catalog_List (AddSecurity example_sec (AddSecurity example_sec (NewCatalog example_startup))) = [example_sec]"
  using Catalog_refines_list [OF cat_run.start [of Some example_startup], where s = example_sec]
    Catalog_refines_list [OF example_run, where s = example_sec] by (simp add: upsert_def)

subsection \<open>Names\<close>



text \<open>
  A security that arrives again under another code stays reachable under the old code: the old
  name then leads to a security with a different code.
\<close>

lemma stale_name:
  "Lookup (AddSecurity (example_sec\<lparr>SecNew_SecCode := [66]\<rparr>) (AddSecurity example_sec (NewCatalog example_startup))) [84] [65] =
     Some (Some (example_sec\<lparr>SecNew_SecCode := [66]\<rparr>), Some example_board)"
  by (simp add: Lookup_def AddSecurity_symbols AddSecurity_simps names_of_iff)
    (simp add: example_defs NewCatalog_def add_board_def)

subsection \<open>Attribute records\<close>

lemma bit_fc: "bit (0xfc :: byte) n \<longleftrightarrow> 2 \<le> n \<and> n < 8"
proof -
  have "(0xfc :: byte) = NOT (mask 2)" by (simp add: mask_eq_exp_minus_1)
  then show ?thesis by (simp only: bit_not_iff bit_mask_iff) auto
qed

lemma bit_four: "bit (4 :: byte) n \<longleftrightarrow> n = 2"
proof -
  have "(4 :: byte) = push_bit 2 1" by simp
  then show ?thesis by (simp only: bit_push_bit_iff bit_1_iff) auto
qed

lemma bit_not_four: "bit (- 5 :: byte) n \<longleftrightarrow> n < 8 \<and> n \<noteq> 2"
proof -
  have "(- 5 :: byte) = NOT 4" by simp
  then show ?thesis by (simp only: bit_not_iff bit_four) auto
qed

text \<open>an attribute record rewrites at most the flag byte of the security it names and nothing else
  in the catalog. R_SEC_MKT_PERMIT sets or clears exactly bit 2. R_SEC_ONOFF replaces the two low
  bits and adds every other bit of its value: the value is not masked, so a value above 3 turns on
  flags outside the two bits, and nothing turns them off again. The other attribute tags change
  nothing.\<close>

theorem attribute_effect:
  assumes "isAttrTag tag" and "3 \<le> length body" and "Security c (be16 (body ! 0) (body ! 1)) = Some s"
  shows "\<exists>f. ApplyMutations win \<lparr>Record_Tag = tag, Record_Body = body\<rparr> c =
      (Inr True, c\<lparr>Cat_secs := (Cat_secs c)(be16 (body ! 0) (body ! 1) \<mapsto> s\<lparr>SecNew_Flags := f\<rparr>)\<rparr>)
    \<and> (\<forall>n < 8. bit f n =
        (if tag = 0x0d then (2 \<le> n \<and> bit (SecNew_Flags s) n) \<or> bit (body ! 2) n
         else if tag = 0x0e \<and> n = 2 then body ! 2 \<noteq> 0
         else bit (SecNew_Flags s) n))"
proof -
  let ?i = "be16 (body ! 0) (body ! 1)" and ?v = "body ! 2"
  define f where "f = SecNew_Flags (mutate tag ?v s)"
  have m: "mutate tag ?v s = s\<lparr>SecNew_Flags := f\<rparr>" by (simp add: f_def mutate_def)
  have t: "tag \<noteq> TagSecNew" "tag \<noteq> TagDate"
    using assms(1) by (auto simp: isAttrTag_def attrTags_def tag_defs)
  have same: "c\<lparr>Cat_secs := (Cat_secs c)(?i \<mapsto> s)\<rparr> = c" using assms(3) by (simp add: Security_def fun_upd_idem)
  have o: "s\<lparr>SecNew_Flags := f\<rparr> = s" if "tag \<noteq> 0x0d" "tag \<noteq> 0x0e"
    using that by (simp add: f_def mutate_def)
  have "ApplyMutations win \<lparr>Record_Tag = tag, Record_Body = body\<rparr> c =
      (Inr True, c\<lparr>Cat_secs := (Cat_secs c)(?i \<mapsto> s\<lparr>SecNew_Flags := f\<rparr>)\<rparr>)"
    using assms t o same by (simp add: ApplyMutations_def Let_def Security_def m)
  moreover have "bit f n = (if tag = 0x0d then (2 \<le> n \<and> bit (SecNew_Flags s) n) \<or> bit ?v n
      else if tag = 0x0e \<and> n = 2 then ?v \<noteq> 0 else bit (SecNew_Flags s) n)" if "n < 8" for n
    using that unfolding f_def mutate_def
    by (auto simp add: bit_and_iff bit_or_iff bit_fc bit_four bit_not_four
        simp del: bit_numeral_word_iff bit_neg_numeral_word_iff)
  ultimately show ?thesis by blast
qed

theorem attribute_effect_witness:
  "\<exists>f. Security (snd (ApplyMutations Some \<lparr>Record_Tag = 0x0d, Record_Body = [0, 7, 8]\<rparr>
      (AddSecurity example_sec (NewCatalog example_startup)))) 7 = Some (example_sec\<lparr>SecNew_Flags := f\<rparr>) \<and> bit f 3"
proof -
  have "isAttrTag 0x0d" by (simp add: isAttrTag_def attrTags_def)
  moreover have "Security (AddSecurity example_sec (NewCatalog example_startup)) (be16 ([0, 7, 8] ! 0) ([0, 7, 8] ! 1)) = Some example_sec"
    by (simp add: Security_def AddSecurity_simps be16_def example_sec_def)
  ultimately show ?thesis
    using attribute_effect [of "0x0d" "[0, 7, 8]" "AddSecurity example_sec (NewCatalog example_startup)" example_sec Some]
    by (auto simp: Security_def be16_def)
qed

subsection \<open>The instant of a trade\<close>

lemma sdiv_billion: "(x sdiv 1000000000) * 1000000000 + x smod 1000000000 = (x :: int)"
  by (rule sdiv_mult_smod_eq)

lemma smod_billion: "\<bar>x smod 1000000000\<bar> < (1000000000 :: int)"
proof -
  have "\<bar>x smod 1000000000\<bar> = \<bar>x\<bar> mod 1000000000"
    by (cases "x \<ge> 0") (auto simp: signed_modulo_int_def signed_divide_int_def sgn_if minus_div_mult_eq_mod abs_if)
  then show ?thesis by simp
qed

lemma sint_of_int64: "- (2 ^ 63) \<le> k \<Longrightarrow> k < 2 ^ 63 \<Longrightarrow> sint (word_of_int k :: i64) = k"
  by (simp only: sint_sbintrunc') (simp add: signed_take_bit_int_eq_self)

lemma sint_add64:
  "- (2 ^ 63) \<le> sint a + sint b \<Longrightarrow> sint a + sint b < 2 ^ 63 \<Longrightarrow> sint (a + b :: i64) = sint a + sint b"
  by (simp add: sint_word_ariths signed_take_bit_int_eq_self)

lemma addSec_exact:
  assumes "- (2 ^ 62) \<le> sint t" "sint t < 2 ^ 62" and "\<bar>d\<bar> < 2 ^ 62"
  shows "sint (addSec t d) = sint t + d"
proof -
  have d: "sint (word_of_int d :: i64) = d" using assms(3) by (intro sint_of_int64) auto
  have "sint (t + word_of_int d) = sint t + d"
    using sint_add64 [of t "word_of_int d"] assms unfolding d by (simp add: abs_if split: if_splits)
  then show ?thesis by (simp add: addSec_def)
qed

lemma Time_Add_exact:
  assumes "- (2 ^ 61) \<le> sint (T_sec t)" "sint (T_sec t) < 2 ^ 61" and "0 \<le> T_nsec t" "T_nsec t < 1000000000"
  shows "instant (Time_Add t d) = instant t + sint d \<and> 0 \<le> T_nsec (Time_Add t d) \<and> T_nsec (Time_Add t d) < 1000000000
    \<and> \<bar>sint (T_sec (Time_Add t d)) - sint (T_sec t)\<bar> < 17179869184"
proof -
  let ?q = "sint d sdiv 1000000000" and ?m = "sint d smod 1000000000"
  have e: "?q * 1000000000 + ?m = sint d" by (rule sdiv_billion)
  have m: "\<bar>?m\<bar> < 1000000000" by (rule smod_billion)
  have b: "- (2 ^ 63) \<le> sint d" "sint d < 2 ^ 63" using sint_range_size [of d] by (simp_all add: word_size)
  have q: "\<bar>?q\<bar> < 17179869183" using e m b by (simp add: abs_less_iff)
  define k where "k = (if T_nsec t + ?m \<ge> 1000000000 then 1 else if T_nsec t + ?m < 0 then - 1 else 0 :: int)"
  have k: "\<bar>k\<bar> \<le> 1" by (simp add: k_def)
  have n: "0 \<le> T_nsec t + ?m - k * 1000000000" "T_nsec t + ?m - k * 1000000000 < 1000000000"
    using assms(3,4) m by (auto simp: k_def abs_if split: if_splits)
  have a: "Time_Add t d = \<lparr>T_sec = addSec (T_sec t) (?q + k), T_nsec = T_nsec t + ?m - k * 1000000000\<rparr>"
    by (simp add: Time_Add_def k_def Let_def)
  have s: "sint (addSec (T_sec t) (?q + k)) = sint (T_sec t) + (?q + k)"
    using assms(1,2) q k by (intro addSec_exact) auto
  show ?thesis
    unfolding a instant_def using s e n q k by (auto simp: algebra_simps)
qed

text \<open>As long as the wall clock of a trade lies within plus or minus \<open>2 ^ 60\<close> seconds, the instant of the
  trade is exact: wall clock plus bias plus the milliseconds, when the record carries any (a value
  below 1000), without wrap-around or saturation.\<close>

theorem trade_time_exact:
  assumes "- (2 ^ 60) \<le> sint wall" and "sint wall \<le> 2 ^ 60"
  shows "instant (trade_time wall millis bias) =
    sint wall * 1000000000 + sint bias + (if millis < 1000 then uint millis * 1000000 else 0)"
proof -
  have u: "sint (T_sec (Unix wall)) = sint wall + 62135596800"
    using assms by (simp add: Unix_def unixToInternal_def) (subst sint_add64; simp)
  then have i: "instant (Unix wall) = sint wall * 1000000000" by (simp add: instant_def Unix_def)
  let ?t = "Time_Add (Unix wall) bias"
  have t: "instant ?t = sint wall * 1000000000 + sint bias" "0 \<le> T_nsec ?t" "T_nsec ?t < 1000000000"
    "\<bar>sint (T_sec ?t) - (sint wall + 62135596800)\<bar> < 17179869184"
    using Time_Add_exact [of "Unix wall" bias] assms u i by (simp_all add: Unix_def)
  show ?thesis
  proof (cases "millis < 1000")
    case False
    with t show ?thesis by (simp add: trade_time_def)
  next
    case True
    have "uint (ucast millis :: i64) = uint millis" by (simp add: uint_up_ucast is_up)
    moreover have m: "0 \<le> uint millis" "uint millis < 1000" using True by (simp_all add: word_less_def)
    moreover have "signed_take_bit 63 (uint millis * 1000000) = uint millis * 1000000"
    proof -
      have "signed_take_bit 63 x = x" if "0 \<le> x" "x < 1000000000" for x :: int
        using that by (intro signed_take_bit_int_eq_self) auto
      then show ?thesis using m by simp
    qed
    ultimately have "sint (ucast millis * 1000000 :: i64) = uint millis * 1000000"
      by (simp add: sint_uint uint_word_ariths)
    moreover have "instant (Time_Add ?t (ucast millis * 1000000)) = instant ?t + sint (ucast millis * 1000000 :: i64)"
      using Time_Add_exact [of ?t "ucast millis * 1000000"] t assms by (simp add: abs_less_iff)
    ultimately show ?thesis using True t by (simp add: trade_time_def)
  qed
qed

theorem trade_time_exact_witness:
  "instant (trade_time 1000 500 (- 10800000000000)) = 1000 * 1000000000 - 10800000000000 + 500000000"
  using trade_time_exact [of 1000 500 "- 10800000000000"] by simp

end
