(* ===== verification/Session_Conn.thy ===== *)
theory Session_Conn
  imports Frame Field_Reader
begin

text \<open>
  The connection of \<open>native/session/login.go\<close> and \<open>transact.go\<close>: one request and its reply at a
  time (\<open>exchange\<close>), the replies of cancelled requests that are skipped (\<open>readReply\<close>), and
  transactions, whose outcome must not be misreported (\<open>Transact\<close>).

  The methods hold the mutex of the connection from the first to the last access, so a session is
  a sequence of such calls. The socket is the record \<open>Net\<close>: the bytes that arrive before the
  deadline, and the frames handed to \<open>Write\<close>. What the operating system and the context decide is
  in \<open>Env\<close>: errors of \<open>SetDeadline\<close> and \<open>Write\<close>, the error a read reports when no more bytes come
  although the stream has not ended, and \<open>ctx.Err()\<close> at the moment an error is handled.
\<close>

unbundle bit_operations_syntax

subsection \<open>Errors\<close>

text \<open>\<open>CtxErr True\<close> is \<open>context.DeadlineExceeded\<close>, \<open>CtxErr False\<close> is \<open>context.Canceled\<close>; \<open>NetErr\<close>
  is any \<open>net.Error\<close>.\<close>

datatype serr =
    Low err
  | NetClosed
  | NetErr
  | CtxErr bool
  | ErrBye
  | ByeError bytes
  | IncorrectResponse byte byte
  | LoginError int bytes "serr option"
  | OutcomeError u64 serr
  | TransactionError byte bytes
  | EmptyTransactReply
  | IncorrectRelogin "serr option"
  | IncorrectRecover byte byte
  | NotSameServer byte byte
  | TooManyAddresses
  | ErrChangePasswordFatal
  | ErrUnsupportedRequest
  | ServerTextError bytes
  | OptionsServerError bytes
  | SErrorf string "int list"
  | SWrap string serr

definition KindRequest :: byte where "KindRequest = 0x01"
definition KindReply :: byte where "KindReply = 0x02"
definition KindBye :: byte where "KindBye = 0x03"

definition RqLogin :: byte where "RqLogin = 1"
definition RqLogout :: byte where "RqLogout = 2"
definition RqMain :: byte where "RqMain = 5"
definition RqStartup :: byte where "RqStartup = 9"
definition RqSubscribe :: byte where "RqSubscribe = 10"
definition RqTransact :: byte where "RqTransact = 14"
definition RqPwd :: byte where "RqPwd = 46"
definition RqTime :: byte where "RqTime = 50"
definition RqRelogin :: byte where "RqRelogin = 63"
definition RqRecover :: byte where "RqRecover = 64"

subsection \<open>The connection\<close>

record Conn =
  C_open :: bool
  C_keys :: Keys
  C_timeout :: i64
  C_sid :: byte
  C_seq :: i32
  C_lastType :: byte
  C_abandoned :: "byte list"

record Net =
  N_in :: bytes
  N_out :: "bytes list"

record Env =
  E_deadline :: "serr option"
  E_write :: "serr option"
  E_stall :: "serr option"
  E_ctx :: "serr option"
  E_close :: "serr option"

definition ctxErr :: "Env \<Rightarrow> serr \<Rightarrow> serr" where
  "ctxErr env e = (case E_ctx env of Some c \<Rightarrow> c | None \<Rightarrow> e)"

text \<open>The error of a failed read: the end of the stream, unless the socket reports another one.\<close>

definition read_error :: "Env \<Rightarrow> err \<Rightarrow> serr" where
  "read_error env e =
     (if e = ErrEOF \<or> e = ErrUnexpectedEOF
      then (case E_stall env of Some s \<Rightarrow> s | None \<Rightarrow> Low e) else Low e)"

text \<open>\<open>readReply\<close> skips the replies of abandoned requests; a reply of another type drops the list.\<close>

primrec readReply :: "Keys \<Rightarrow> byte list \<Rightarrow> bytes \<Rightarrow> (err + Frame) \<times> byte list \<times> bytes" where
  "readReply k [] s = (case Decode k ServerToClient s of (x, s') \<Rightarrow> (x, [], s'))"
| "readReply k (t # ts) s =
     (case Decode k ServerToClient s of
        (Inl e, s') \<Rightarrow> (Inl e, t # ts, s')
      | (Inr f, s') \<Rightarrow>
          if Frame_Kind f \<noteq> KindReply then (Inr f, t # ts, s')
          else if Typ f = t then readReply k ts s'
          else (Inr f, [], s'))"

definition sendRequest :: "byte \<Rightarrow> bytes \<Rightarrow> Frame" where
  "sendRequest typ payload = \<lparr>Flags = KindRequest, Typ = typ, Payload = payload\<rparr>"

text \<open>The send counter and the type of the last ordinary request.\<close>

definition count_request :: "byte \<Rightarrow> Conn \<Rightarrow> Conn" where
  "count_request typ c =
     (if typ \<noteq> RqRelogin \<and> typ \<noteq> RqRecover then c\<lparr>C_seq := C_seq c + 1, C_lastType := typ\<rparr> else c)"

text \<open>What becomes of the frame that was read.\<close>

definition check_reply :: "byte \<Rightarrow> Frame \<Rightarrow> serr + Frame" where
  "check_reply typ f =
     (if Frame_Kind f = KindBye then Inl (ByeError (Payload f))
      else if Frame_Kind f \<noteq> KindReply \<or> Typ f \<noteq> typ then Inl (IncorrectResponse (Flags f) (Typ f))
      else Inr f)"

definition exchange :: "Env \<Rightarrow> byte \<Rightarrow> bytes \<Rightarrow> bool \<Rightarrow> Conn \<Rightarrow> Net \<Rightarrow> (serr + Frame) \<times> Conn \<times> Net" where
  "exchange env typ payload wait c net =
     (if \<not> C_open c then (Inl NetClosed, c, net)
      else (case E_deadline env of
          Some e \<Rightarrow> (Inl e, c, net)
        | None \<Rightarrow>
            let c = count_request typ c in
            (case Encode (C_keys c) ClientToServer (sendRequest typ payload) of
               Inl e \<Rightarrow> (Inl (Low e), c, net)
             | Inr out \<Rightarrow>
                 let net = net\<lparr>N_out := N_out net @ [out]\<rparr> in
                 (case E_write env of
                    Some e \<Rightarrow> (Inl (ctxErr env e), c, net)
                  | None \<Rightarrow>
                      if \<not> wait then (Inr \<lparr>Flags = 0, Typ = 0, Payload = []\<rparr>, c, net)
                      else
                        (case readReply (C_keys c) (C_abandoned c) (N_in net) of
                           (x, ab, s) \<Rightarrow>
                             let c = c\<lparr>C_abandoned := ab\<rparr>; net = net\<lparr>N_in := s\<rparr> in
                             (case x of
                                Inl e \<Rightarrow>
                                  (Inl (ctxErr env (read_error env e)),
                                   (if E_ctx env \<noteq> None then c\<lparr>C_abandoned := C_abandoned c @ [typ]\<rparr> else c), net)
                              | Inr f \<Rightarrow> (check_reply typ f, c, net)))))))"

definition Request :: "Env \<Rightarrow> byte \<Rightarrow> bytes \<Rightarrow> Conn \<Rightarrow> Net \<Rightarrow> (serr + bytes) \<times> Conn \<times> Net" where
  "Request env typ payload c net =
     (case exchange env typ payload True c net of
        (Inl e, c, net) \<Rightarrow> (Inl e, c, net)
      | (Inr f, c, net) \<Rightarrow> (Inr (Payload f), c, net))"

text \<open>\<open>Close\<close> forgets the socket; the error of the socket is the environment's.\<close>

definition Conn_Close :: "Env \<Rightarrow> Conn \<Rightarrow> serr option \<times> Conn" where
  "Conn_Close env c = ((if C_open c then E_close env else None), c\<lparr>C_open := False\<rparr>)"

definition SetRequestTimeout :: "i64 \<Rightarrow> Conn \<Rightarrow> Conn" where
  "SetRequestTimeout d c = c\<lparr>C_timeout := d\<rparr>"

definition LastSeq :: "Conn \<Rightarrow> i32" where
  "LastSeq c = C_seq c"

definition SID :: "Conn \<Rightarrow> byte" where
  "SID c = C_sid c"

subsection \<open>RQ_MAIN, RQ_STARTUP, RQ_SUBSCRIBE, RQ_LOGOUT\<close>

definition ClientBufferSize :: int where "ClientBufferSize = 65512"
definition mainFullThreshold :: int where "mainFullThreshold = 500"

record MainReply =
  MainReply_Flags :: byte
  MainReply_Payload :: bytes
  MainReply_More :: bool

definition Conn_Main :: "Env \<Rightarrow> Conn \<Rightarrow> Net \<Rightarrow> (serr + MainReply) \<times> Conn \<times> Net" where
  "Conn_Main env c net =
     (case exchange env RqMain [] True c net of
        (Inl e, c, net) \<Rightarrow> (Inl (SWrap ''RQ_MAIN'' e), c, net)
      | (Inr f, c, net) \<Rightarrow>
          (Inr \<lparr>MainReply_Flags = Flags f, MainReply_Payload = Payload f,
             MainReply_More = (ClientBufferSize + int HeaderSize - int (length (Payload f)) < mainFullThreshold)\<rparr>,
           c, net))"

definition Conn_Startup :: "Env \<Rightarrow> Conn \<Rightarrow> Net \<Rightarrow> (serr + bytes) \<times> Conn \<times> Net" where
  "Conn_Startup env c net =
     (case Request env RqStartup [] c net of
        (Inl e, c, net) \<Rightarrow> (Inl (SWrap ''RQ_STARTUP'' e), c, net)
      | (Inr p, c, net) \<Rightarrow> (Inr p, c, net))"

record SubscribeItem =
  Item_SecID :: u16
  Item_Board :: u16
  Item_Mask :: byte

definition put_item :: "bytes \<Rightarrow> SubscribeItem \<Rightarrow> bytes" where
  "put_item w it = Writer_Byte (Writer_Uint16 (Writer_Uint16 w (Item_SecID it)) (Item_Board it)) (Item_Mask it)"

definition SubscribePayload :: "SubscribeItem list \<Rightarrow> bytes" where
  "SubscribePayload items = foldl put_item [] items"

definition Conn_Subscribe :: "Env \<Rightarrow> SubscribeItem list \<Rightarrow> Conn \<Rightarrow> Net \<Rightarrow> (serr + unit) \<times> Conn \<times> Net" where
  "Conn_Subscribe env items c net =
     (if items = [] then (Inr (), c, net)
      else (case Request env RqSubscribe (SubscribePayload items) c net of
          (Inl e, c, net) \<Rightarrow> (Inl (SWrap ''RQ_SUBSCRIBE'' e), c, net)
        | (Inr _, c, net) \<Rightarrow> (Inr (), c, net)))"

definition Logout :: "Env \<Rightarrow> Env \<Rightarrow> Conn \<Rightarrow> Net \<Rightarrow> serr option \<times> Conn \<times> Net" where
  "Logout env cenv c net =
     (case exchange env RqLogout [] False c net of
        (x, c, net) \<Rightarrow>
          (case Conn_Close cenv c of
             (cerr, c) \<Rightarrow> ((case x of Inl e \<Rightarrow> Some e | Inr _ \<Rightarrow> cerr), c, net)))"

subsection \<open>RQ_TRANSACT\<close>

text \<open>
  The process-wide transaction counter: \<open>local\<close> is its value after the increment of this call,
  \<open>loaded\<close> what \<open>transactionSeq.Load()\<close> reads when an error is built, which is larger when another
  transaction has started meanwhile.
\<close>

definition transactExchange ::
  "Env \<Rightarrow> u64 \<Rightarrow> bytes \<Rightarrow> Conn \<Rightarrow> Net \<Rightarrow> (serr + bytes) \<times> Conn \<times> Net" where
  "transactExchange env loaded payload c net =
     (if \<not> C_open c then (Inl NetClosed, c, net)
      else (case E_deadline env of
          Some e \<Rightarrow> (Inl e, c, net)
        | None \<Rightarrow>
            let c = c\<lparr>C_seq := C_seq c + 1, C_lastType := RqTransact\<rparr> in
            (case Encode (C_keys c) ClientToServer (sendRequest RqTransact payload) of
               Inl e \<Rightarrow> (Inl (Low e), c, net)
             | Inr out \<Rightarrow>
                 let net = net\<lparr>N_out := N_out net @ [out]\<rparr> in
                 (case E_write env of
                    Some e \<Rightarrow> (Inl (OutcomeError loaded (ctxErr env e)), c, net)
                  | None \<Rightarrow>
                      (case readReply (C_keys c) (C_abandoned c) (N_in net) of
                         (x, ab, s) \<Rightarrow>
                           let c = c\<lparr>C_abandoned := ab\<rparr>; net = net\<lparr>N_in := s\<rparr> in
                           (case x of
                              Inl e \<Rightarrow>
                                (Inl (OutcomeError loaded (ctxErr env (read_error env e))),
                                 (if E_ctx env \<noteq> None then c\<lparr>C_abandoned := C_abandoned c @ [RqTransact]\<rparr> else c), net)
                            | Inr f \<Rightarrow>
                                ((if Frame_Kind f = KindBye then Inl (OutcomeError loaded ErrBye)
                                  else if Frame_Kind f \<noteq> KindReply \<or> Typ f \<noteq> RqTransact
                                  then Inl (OutcomeError loaded (IncorrectResponse (Flags f) (Typ f)))
                                  else Inr (Payload f)), c, net)))))))"

text \<open>The texts of the codes 1 to 6, in UTF-8.\<close>

definition TransactionErrorText :: "byte \<Rightarrow> bytes option" where
  "TransactionErrorText code =
     (if code = 1 then Some [208, 154, 208, 187, 208, 184, 208, 181, 208, 189, 209, 130, 32, 208, 189, 208, 181, 32, 208, 180,
        208, 190, 208, 191, 209, 131, 209, 137, 208, 181, 208, 189, 32, 208, 186, 32, 209, 130, 208, 190,
        209, 128, 208, 179, 208, 176, 208, 188, 46]
      else if code = 2 then Some [208, 162, 209, 128, 208, 181, 208, 185, 208, 180, 208, 181, 209, 128, 32, 208, 189, 208, 181, 32,
        208, 180, 208, 190, 208, 191, 209, 131, 209, 137, 208, 181, 208, 189, 32, 208, 186, 32, 209, 130,
        208, 190, 209, 128, 208, 179, 208, 176, 208, 188, 46]
      else if code = 3 then Some [208, 154, 208, 187, 208, 184, 208, 181, 208, 189, 209, 130, 32, 208, 189, 208, 181, 32, 208, 190,
        208, 177, 209, 129, 208, 187, 209, 131, 208, 182, 208, 184, 208, 178, 208, 176, 208, 181, 209, 130,
        209, 129, 209, 143, 32, 208, 180, 208, 176, 208, 189, 208, 189, 209, 139, 208, 188, 32, 208, 162,
        209, 128, 208, 181, 208, 185, 208, 180, 208, 181, 209, 128, 208, 190, 208, 188, 46]
      else if code = 4 then Some [208, 161, 208, 180, 208, 181, 208, 187, 208, 186, 208, 184, 32, 209, 129, 32, 209, 129, 208, 190,
        208, 177, 208, 190, 208, 185, 32, 208, 183, 208, 176, 208, 191, 209, 128, 208, 181, 209, 137, 208,
        181, 208, 189, 209, 139, 46]
      else if code = 5 then Some [208, 159, 208, 190, 208, 191, 209, 139, 209, 130, 208, 186, 208, 176, 32, 209, 129, 208, 189, 209,
        143, 209, 130, 209, 140, 32, 208, 189, 208, 181, 209, 129, 209, 131, 209, 137, 208, 181, 209, 129,
        209, 130, 208, 178, 209, 131, 209, 142, 209, 137, 209, 131, 209, 142, 32, 208, 183, 208, 176, 209,
        143, 208, 178, 208, 186, 209, 131, 46]
      else if code = 6 then Some [208, 162, 209, 128, 208, 176, 208, 189, 208, 183, 208, 176, 208, 186, 209, 134, 208, 184, 208, 184,
        32, 208, 189, 208, 181, 32, 209, 128, 208, 176, 208, 183, 209, 128, 208, 181, 209, 136, 208, 181,
        208, 189, 209, 139, 46]
      else None)"

definition unknownError :: bytes where
  "unknownError = [85, 110, 107, 110, 111, 119, 110, 32, 101, 114, 114, 111, 114]"

definition Transact ::
  "Env \<Rightarrow> u64 \<Rightarrow> u64 \<Rightarrow> byte \<Rightarrow> bytes \<Rightarrow> Conn \<Rightarrow> Net
     \<Rightarrow> u64 \<times> serr option \<times> Conn \<times> Net" where
  "Transact env local loaded kind body c net =
     (case transactExchange env loaded (kind # body) c net of
        (Inl e, c, net) \<Rightarrow> (local, Some e, c, net)
      | (Inr reply, c, net) \<Rightarrow>
          if reply = [] then (local, Some (OutcomeError local EmptyTransactReply), c, net)
          else if reply ! 0 \<noteq> 0
          then (local, Some (TransactionError (reply ! 0)
                 (case TransactionErrorText (reply ! 0) of
                    Some m \<Rightarrow> (if m = [] then unknownError else m) | None \<Rightarrow> unknownError)), c, net)
          else (case fst (Reader_Int32 (NewReader (drop 1 reply))) of
              Inl e \<Rightarrow> (local, Some (OutcomeError local (SWrap ''RQ_TRANSACT reply'' (Low e))), c, net)
            | Inr tid \<Rightarrow> (scast tid, None, c, net)))"

end
