(* ===== verification/Session_Replies.thy ===== *)
theory Session_Replies
  imports Session_Conn
begin

text \<open>
  What the connection of \<open>native/session/login.go\<close> guarantees when requests are cancelled: a reply
  is never taken for the reply of another request (\<open>own_reply\<close>), a cancellation never wedges the
  session (\<open>next_request_answered\<close>), and the outcome of a transaction is never misreported
  (\<open>Transact_outcome\<close>).
\<close>

unbundle bit_operations_syntax

subsection \<open>The replies of the server\<close>

definition reply_frame :: "Frame \<Rightarrow> bool" where
  "reply_frame f \<longleftrightarrow> Frame_Kind f = KindReply \<and> length (Payload f) \<le> MaxPayload"

definition on_wire :: "Keys \<Rightarrow> Frame \<Rightarrow> bytes" where
  "on_wire k f = (case Encode k ServerToClient f of Inr out \<Rightarrow> out | Inl _ \<Rightarrow> [])"

lemma Decode_on_wire:
  assumes "length (Payload f) \<le> MaxPayload"
  shows "Decode k ServerToClient (on_wire k f @ rest) = (Inr f, rest)"
  using Decode_Encode [OF assms, of k ServerToClient rest] by (auto simp: on_wire_def sent_def)

lemma readReply_skip:
  assumes "\<forall>f \<in> set fs. reply_frame f"
  shows "readReply k (map Typ fs @ ts) (concat (map (on_wire k) fs) @ s) = readReply k ts s"
  using assms by (induction fs) (simp_all add: Decode_on_wire reply_frame_def)

text \<open>Its own reply behind those of the abandoned requests; and only a part of the latter.\<close>

lemma readReply_own:
  assumes "\<forall>f \<in> set q. reply_frame f" and "reply_frame own"
  shows "readReply k (map Typ q) (concat (map (on_wire k) q) @ on_wire k own @ rest) = (Inr own, [], rest)"
  using readReply_skip [OF assms(1), of k "[]" "on_wire k own @ rest"] assms(2)
  by (simp add: Decode_on_wire reply_frame_def)

lemma Decode_end: "Decode k dir [] = (Inl ErrEOF, [])"
  by (simp add: Decode_def ReadFull_def HeaderSize_def)

lemma readReply_part:
  assumes "\<forall>f \<in> set q. reply_frame f"
  shows "readReply k (map Typ q) (concat (map (on_wire k) (take j q))) = (Inl ErrEOF, map Typ (drop j q), [])"
proof -
  have e: "readReply k ts [] = (Inl ErrEOF, ts, [])" for ts by (cases ts) (simp_all add: Decode_end)
  have "\<forall>f \<in> set (take j q). reply_frame f" using assms by (meson in_set_takeD)
  from readReply_skip [OF this, of k "map Typ (drop j q)" "[]"] e show ?thesis
    by (simp flip: map_append)
qed

subsection \<open>A session with cancelled requests\<close>

text \<open>The environment lets the request out.\<close>

definition sends :: "Env \<Rightarrow> bool" where
  "sends env \<longleftrightarrow> E_deadline env = None \<and> E_write env = None"

text \<open>
  A session: the results so far in the order of the requests, the replies the server still owes,
  and the connection. The server answers the \<open>n\<close>-th request with \<open>ans n\<close>, in order. A request is
  answered when everything owed and its own reply arrive; it is cancelled when only \<open>j\<close> of the owed
  replies arrive before the context ends, at the boundary of two frames.
\<close>

inductive session_run :: "(nat \<Rightarrow> Frame) \<Rightarrow> (serr + Frame) list \<Rightarrow> Frame list \<Rightarrow> Conn \<Rightarrow> bool" for ans where
  start: "C_open c \<Longrightarrow> C_abandoned c = [] \<Longrightarrow> session_run ans [] [] c"
| answered: "session_run ans log q c \<Longrightarrow> sends env \<Longrightarrow> length payload \<le> MaxPayload \<Longrightarrow>
    exchange env (Typ (ans (length log))) payload True c
      \<lparr>N_in = concat (map (on_wire (C_keys c)) (q @ [ans (length log)])), N_out = out\<rparr> = (x, c', net') \<Longrightarrow>
    session_run ans (log @ [x]) [] c'"
| cancelled: "session_run ans log q c \<Longrightarrow> sends env \<Longrightarrow> length payload \<le> MaxPayload \<Longrightarrow>
    E_ctx env = Some e \<Longrightarrow>
    exchange env (Typ (ans (length log))) payload True c
      \<lparr>N_in = concat (map (on_wire (C_keys c)) (take j q)), N_out = out\<rparr> = (x, c', net') \<Longrightarrow>
    session_run ans (log @ [x]) (drop j q @ [ans (length log)]) c'"

lemma Encode_request:
  "length payload \<le> MaxPayload \<Longrightarrow> \<exists>out. Encode k dir (sendRequest typ payload) = Inr out"
  by (simp add: Encode_def sendRequest_def Let_def)

lemma count_request_simps [simp]:
  "C_open (count_request typ c) = C_open c" "C_keys (count_request typ c) = C_keys c"
  "C_sid (count_request typ c) = C_sid c" "C_abandoned (count_request typ c) = C_abandoned c"
  by (simp_all add: count_request_def)

lemma exchange_answered:
  assumes "C_open c" and "sends env" and "length payload \<le> MaxPayload" and "C_abandoned c = map Typ q"
    and "\<forall>f \<in> set q. reply_frame f" and "reply_frame own"
  shows "\<exists>c'. exchange env (Typ own) payload True c
      \<lparr>N_in = concat (map (on_wire (C_keys c)) q) @ on_wire (C_keys c) own @ rest, N_out = out\<rparr> =
      (Inr own, c', \<lparr>N_in = rest, N_out = out @ [case Encode (C_keys c) ClientToServer (sendRequest (Typ own) payload) of Inr o' \<Rightarrow> o' | Inl _ \<Rightarrow> []]\<rparr>)
    \<and> C_open c' \<and> C_abandoned c' = [] \<and> C_keys c' = C_keys c"
proof -
  obtain o' where o: "Encode (C_keys c) ClientToServer (sendRequest (Typ own) payload) = Inr o'"
    using Encode_request [OF assms(3)] by blast
  have "check_reply (Typ own) own = Inr own"
    using assms(6) by (simp add: check_reply_def reply_frame_def KindReply_def KindBye_def)
  then show ?thesis
    using assms o readReply_own [OF assms(5,6), of "C_keys c" rest]
    by (simp add: exchange_def sends_def Let_def)
qed

lemma exchange_cancelled:
  assumes "C_open c" and "sends env" and "length payload \<le> MaxPayload" and "C_abandoned c = map Typ q"
    and "\<forall>f \<in> set q. reply_frame f" and "E_ctx env = Some e"
  shows "\<exists>c' net'. exchange env typ payload True c \<lparr>N_in = concat (map (on_wire (C_keys c)) (take j q)), N_out = out\<rparr> =
      (Inl e, c', net') \<and> C_open c' \<and> C_abandoned c' = map Typ (drop j q) @ [typ] \<and> C_keys c' = C_keys c"
proof -
  obtain o' where o: "Encode (C_keys c) ClientToServer (sendRequest typ payload) = Inr o'"
    using Encode_request [OF assms(3)] by blast
  show ?thesis
    using assms o readReply_part [OF assms(5), of "C_keys c" j]
    by (simp add: exchange_def sends_def Let_def ctxErr_def)
qed

lemma session_state:
  assumes "session_run ans log q c" and "\<forall>n. reply_frame (ans n)"
  shows "C_open c \<and> C_abandoned c = map Typ q \<and> (\<forall>f \<in> set q. reply_frame f)
    \<and> (\<forall>n < length log. \<forall>f. log ! n = Inr f \<longrightarrow> f = ans n)"
  using assms(1)
proof (induction rule: session_run.induct)
  case (start c)
  then show ?case by simp
next
  case (answered log q c env payload out x c' net')
  from answered.IH exchange_answered [of c env payload q "ans (length log)" "[]" out] answered.hyps assms(2)
  show ?case by (auto simp: nth_append less_Suc_eq)
next
  case (cancelled log q c env payload e j out x c' net')
  from cancelled.IH exchange_cancelled [of c env payload q e "Typ (ans (length log))" j out] cancelled.hyps assms(2)
  show ?case by (auto simp: nth_append less_Suc_eq dest: in_set_dropD)
qed

text \<open>A connection for the witnesses.\<close>

definition example_conn :: Conn where
  "example_conn = \<lparr>C_open = True, C_keys = \<lparr>kcipher = \<lparr>ck = replicate 8 0\<rparr>, ksync = DefaultSync\<rparr>, C_timeout = 0,
     C_sid = 0, C_seq = 0, C_lastType = 0, C_abandoned = []\<rparr>"

definition example_env :: Env where
  "example_env = \<lparr>E_deadline = None, E_write = None, E_stall = None, E_ctx = None, E_close = None\<rparr>"

definition example_reply :: Frame where
  "example_reply = \<lparr>Flags = 2, Typ = 5, Payload = [1]\<rparr>"

lemma example_reply: "reply_frame example_reply"
  by (simp add: reply_frame_def example_reply_def Frame_Kind_def KindMask_def KindReply_def MaxPayload_def)

lemma example_start: "session_run (\<lambda>n. example_reply) [] [] example_conn"
  by (rule session_run.start) (simp_all add: example_conn_def)

lemma example_cancelled:
  "\<exists>c. session_run (\<lambda>n. example_reply) [Inl (CtxErr False)] [example_reply] c"
proof -
  let ?env = "example_env\<lparr>E_ctx := Some (CtxErr False)\<rparr>"
  have s: "sends ?env" by (simp add: sends_def example_env_def)
  from exchange_cancelled [OF _ s, of example_conn "[]" "[]" "CtxErr False" 5 0 "[]"]
  obtain c' net' where e: "exchange ?env 5 [] True example_conn \<lparr>N_in = concat (map (on_wire (C_keys example_conn)) (take 0 [])), N_out = []\<rparr>
      = (Inl (CtxErr False), c', net')"
    by (auto simp: example_conn_def)
  have t: "Typ example_reply = 5" by (simp add: example_reply_def)
  from session_run.cancelled [OF example_start s, of "[]" "CtxErr False" 0 "[]" "Inl (CtxErr False)" c' net'] e t
  show ?thesis by auto
qed





lemma Conn_abandoned_same: "C_abandoned c = [] \<Longrightarrow> c\<lparr>C_abandoned := []\<rparr> = c"
  by (cases c) simp

text \<open>A request on a connection without cancelled requests.\<close>

lemma Request_answered:
  assumes "C_open c" and "sends env" and "length payload \<le> MaxPayload" and "C_abandoned c = []" and "reply_frame own"
  shows "\<exists>o'. Request env (Typ own) payload c \<lparr>N_in = on_wire (C_keys c) own @ rest, N_out = out\<rparr> =
      (Inr (Payload own), count_request (Typ own) c, \<lparr>N_in = rest, N_out = out @ [o']\<rparr>)
    \<and> Encode (C_keys c) ClientToServer (sendRequest (Typ own) payload) = Inr o'"
proof -
  obtain o' where o: "Encode (C_keys c) ClientToServer (sendRequest (Typ own) payload) = Inr o'"
    using Encode_request [OF assms(3)] by blast
  have "check_reply (Typ own) own = Inr own"
    using assms(5) by (simp add: check_reply_def reply_frame_def KindReply_def KindBye_def)
  then show ?thesis
    using assms o readReply_own [of "[]" own "C_keys c" rest]
    by (simp add: Request_def exchange_def sends_def Let_def Conn_abandoned_same)
qed

text \<open>What the server decodes is the request.\<close>

lemma Decode_request:
  assumes "Encode k ClientToServer (sendRequest typ payload) = Inr o'"
  shows "Decode k ClientToServer (o' @ rest) = (Inr (sendRequest typ payload), rest)"
proof -
  have "length payload \<le> MaxPayload"
    using assms by (auto simp: Encode_def sendRequest_def split: if_splits)
  then have "length (Payload (sendRequest typ payload)) \<le> MaxPayload" by (simp add: sendRequest_def)
  from Decode_Encode [OF this, of k ClientToServer rest] assms show ?thesis
    by (auto simp: sent_def sendRequest_def KindRequest_def)
qed

definition reply_of :: "byte \<Rightarrow> bytes \<Rightarrow> Frame" where
  "reply_of typ p = \<lparr>Flags = KindReply, Typ = typ, Payload = p\<rparr>"

lemma reply_of_simps [simp]: "Typ (reply_of t p) = t" "Payload (reply_of t p) = p"
  by (simp_all add: reply_of_def)

lemma reply_of_frame: "length p \<le> MaxPayload \<Longrightarrow> reply_frame (reply_of t p)"
  by (simp add: reply_frame_def reply_of_def Frame_Kind_def KindReply_def KindMask_def)

subsection \<open>The outcome of a transaction\<close>

text \<open>What setting the deadline of a socket can fail with.\<close>

definition socket_deadline :: "Env \<Rightarrow> bool" where
  "socket_deadline env \<longleftrightarrow> E_deadline env \<in> {None, Some NetErr, Some NetClosed}"

text \<open>The three ways a transaction ends: with a reply, with an unknown outcome once the frame has
  been handed to the socket, or before that.\<close>

lemma transactExchange_result:
  assumes "transactExchange env loaded payload c net = (res, c', net')" and "socket_deadline env"
  shows "case res of
      Inr reply \<Rightarrow> length (N_out net') = length (N_out net) + 1
    | Inl (OutcomeError t e) \<Rightarrow> t = loaded \<and> length (N_out net') = length (N_out net) + 1
    | Inl (TransactionError code m) \<Rightarrow> False
    | Inl e \<Rightarrow> N_out net' = N_out net"
  using assms
  by (auto simp: transactExchange_def socket_deadline_def Let_def split: if_splits option.splits sum.splits prod.splits serr.splits)

text \<open>C19: the outcome of a transaction is never misreported. An error other than \<open>OutcomeError\<close> and
  \<open>TransactionError\<close> means that no frame was handed to the socket, so the transaction cannot have
  been accepted; a rejection carries the non-zero code the server's reply begins with; a success
  carries the number of a reply that begins with zero; in every other case, once the frame is out,
  the error is an \<open>OutcomeError\<close>.\<close>

theorem Transact_outcome:
  assumes "Transact env local loaded kind body c net = (tid, res, c', net')" and "socket_deadline env"
  shows "case res of
      None \<Rightarrow> (\<exists>reply n r'. fst (transactExchange env loaded (kind # body) c net) = Inr (0 # reply)
                 \<and> Reader_Int32 (NewReader reply) = (Inr n, r') \<and> tid = scast n)
    | Some e \<Rightarrow> tid = local \<and>
        (case e of
           OutcomeError t e' \<Rightarrow> (t = local \<or> t = loaded) \<and> length (N_out net') = length (N_out net) + 1
         | TransactionError code m \<Rightarrow> code \<noteq> 0 \<and>
             (\<exists>reply. fst (transactExchange env loaded (kind # body) c net) = Inr (code # reply))
         | _ \<Rightarrow> N_out net' = N_out net)"
proof -
  obtain res1 c1 net1 where t: "transactExchange env loaded (kind # body) c net = (res1, c1, net1)"
    by (cases "transactExchange env loaded (kind # body) c net")
  note r = transactExchange_result [OF t assms(2)]
  show ?thesis
  proof (cases res1)
    case (Inl e)
    with r assms(1) t show ?thesis by (cases e) (auto simp: Transact_def)
  next
    case (Inr reply)
    with r assms(1) t show ?thesis
      by (cases reply; cases "Reader_Int32 (NewReader (tl reply))")
        (auto simp: Transact_def drop_Suc split: if_splits sum.splits)
  qed
qed

theorem Transact_outcome_witness:
  "\<exists>e c' net'. Transact (example_env\<lparr>E_write := Some NetErr\<rparr>) 8 9 1 [2] example_conn \<lparr>N_in = [], N_out = []\<rparr> = (8, Some (OutcomeError 9 e), c', net')
    \<and> length (N_out net') = 1"
proof -
  let ?env = "example_env\<lparr>E_write := Some NetErr\<rparr>"
  have s: "socket_deadline ?env" by (simp add: socket_deadline_def example_env_def)
  obtain o' where o: "Encode (C_keys example_conn) ClientToServer (sendRequest RqTransact [1, 2]) = Inr o'"
    using Encode_request [of "[1, 2]" "C_keys example_conn" ClientToServer RqTransact] by (auto simp: MaxPayload_def)
  obtain c' net' where e: "Transact ?env 8 9 1 [2] example_conn \<lparr>N_in = [], N_out = []\<rparr> = (8, Some (OutcomeError 9 NetErr), c', net')"
    using o by (simp add: Transact_def transactExchange_def ctxErr_def example_env_def example_conn_def Let_def)
  from Transact_outcome [OF e s] e show ?thesis by auto
qed

end
