(* ===== verification/Session_Requests.thy ===== *)
theory Session_Requests
  imports Session_Replies Service_Records
begin

text \<open>
  The other requests of \<open>native/session\<close>: the payloads they are built from, the replies they parse,
  the option requests, the change of the password (\<open>changepwd.go\<close>), the transactions in progress
  (\<open>transact.go\<close>) and the download of a margin template in chunks (\<open>inquireut.go\<close>).
\<close>

unbundle bit_operations_syntax

subsection \<open>The payloads of requests\<close>

definition RqChangePwd :: byte where "RqChangePwd = 3"
definition RqHistoryExt :: byte where "RqHistoryExt = 148"
definition RqTicks :: byte where "RqTicks = 13"
definition RqSubscribeTicks :: byte where "RqSubscribeTicks = 120"
definition RqSecSpec :: byte where "RqSecSpec = 15"
definition RqClientLimits :: byte where "RqClientLimits = 43"
definition RqMakeCondOwn :: byte where "RqMakeCondOwn = 112"
definition RqInquireUT :: byte where "RqInquireUT = 152"
definition RqTrnsInProgress :: byte where "RqTrnsInProgress = 156"
definition RqOptionFamilies :: byte where "RqOptionFamilies = 149"
definition RqFamiliyOptions :: byte where "RqFamiliyOptions = 150"
definition RqCertainOptions :: byte where "RqCertainOptions = 151"
definition RqFamilyStrikes :: byte where "RqFamilyStrikes = 153"

definition HistoryExtPayload :: "bool \<Rightarrow> u16 \<Rightarrow> u16 \<Rightarrow> byte \<Rightarrow> u16 \<Rightarrow> bytes" where
  "HistoryExtPayload reset secID board period cnt =
     (let w = Writer_Byte [] (if reset then 1 else 0);
          w = Writer_Uint16 w secID;
          w = Writer_Uint16 w board;
          w = Writer_Byte w period;
          w = Writer_Uint16 w cnt;
          w = Writer_Int32 w (-1)
      in Writer_Int32 w 0)"

record TickItem =
  TickItem_SecID :: u16
  TickItem_Board :: u16
  TickItem_TradeNo :: i64

definition put_tick_item :: "bytes \<Rightarrow> TickItem \<Rightarrow> bytes" where
  "put_tick_item w it =
     Writer_Int64 (Writer_Uint16 (Writer_Uint16 w (TickItem_SecID it)) (TickItem_Board it)) (TickItem_TradeNo it)"

definition TicksPayload :: "bool \<Rightarrow> TickItem list \<Rightarrow> bytes" where
  "TicksPayload filt items = foldl put_tick_item (Writer_Byte [] (if filt then 1 else 0)) items"

definition SecSpecRequest :: "u16 list \<Rightarrow> bytes" where
  "SecSpecRequest secIDs = foldl Writer_Uint16 [] secIDs"

definition ClientLimitsRequest :: "i64 \<Rightarrow> bytes" where
  "ClientLimitsRequest clientID = Writer_Int32 [] (ucast clientID)"

definition InquireUTPayload :: "byte \<Rightarrow> i32 \<Rightarrow> bytes" where
  "InquireUTPayload category offset = Writer_Int32 (Writer_Byte [] category) offset"

definition OptionFamiliesPayload :: "u16 \<Rightarrow> bytes" where
  "OptionFamiliesPayload secID = Writer_Uint16 [] secID"

definition FamilyStrikesPayload :: "u16 \<Rightarrow> i64 \<Rightarrow> bytes" where
  "FamilyStrikesPayload secID familyID = Writer_Int32 (Writer_Uint16 [] secID) (ucast familyID)"

definition FamilyOptionsPayload :: "u16 \<Rightarrow> bytes \<Rightarrow> i64 \<Rightarrow> i64 \<Rightarrow> bytes" where
  "FamilyOptionsPayload secID txt first second =
     Writer_Int32 (Writer_Int32 (Writer_String (Writer_Uint16 [] secID) txt 6) (ucast first)) (ucast second)"

definition CertainOptionsPayload :: "bytes list \<Rightarrow> bytes" where
  "CertainOptionsPayload optCodes = foldl (\<lambda>w code. Writer_String w code 25) [] optCodes"

definition ChangePasswordPayload :: "(bytes \<Rightarrow> bytes) \<Rightarrow> bytes \<Rightarrow> bytes \<Rightarrow> bytes" where
  "ChangePasswordPayload sha1 oldPassword newPassword =
     sha1 oldPassword @ replicate 8 0 @ sha1 newPassword @ replicate 8 0"

subsection \<open>Replies\<close>

record ServerTime =
  ServerTime_Wall :: int
  ServerTime_Zone :: bytes

text \<open>\<open>Wall\<close> is the number of seconds given to \<open>time.Unix\<close>.\<close>

definition time_rd :: "ServerTime rd" where
  "time_rd =
     rbind (field ''RQ_TIME'' Reader_Int32) (\<lambda>secs.
     rbind (field ''RQ_TIME timezone'' (Reader_Raw 16)) (\<lambda>zone.
     ret \<lparr>ServerTime_Wall = uint secs, ServerTime_Zone = zone\<rparr>))"

definition parseTime :: "bytes \<Rightarrow> err + ServerTime" where
  "parseTime p = decode_body time_rd p"

definition Conn_Time :: "Env \<Rightarrow> Conn \<Rightarrow> Net \<Rightarrow> (serr + ServerTime) \<times> Conn \<times> Net" where
  "Conn_Time env c net =
     (case Request env RqTime [] c net of
        (Inl e, c, net) \<Rightarrow> (Inl (SWrap ''RQ_TIME'' e), c, net)
      | (Inr p, c, net) \<Rightarrow> ((case parseTime p of Inl e \<Rightarrow> Inl (Low e) | Inr t \<Rightarrow> Inr t), c, net))"

text \<open>\<open>for i := 0; i <= max; i++\<close>: the first argument counts the bytes that may still be appended.\<close>

primrec cstring_limit_loop :: "nat \<Rightarrow> int \<Rightarrow> bytes \<Rightarrow> bytes rd" where
  "cstring_limit_loop 0 mx out =
     rbind (field ''C-string'' Reader_Byte) (\<lambda>b.
       if b = 0 then ret out else fail (Errorf ''C-string longer than %d bytes'' [mx]))"
| "cstring_limit_loop (Suc k) mx out =
     rbind (field ''C-string'' Reader_Byte) (\<lambda>b.
       if b = 0 then ret out else cstring_limit_loop k mx (out @ [b]))"

definition readCStringLimit :: "nat \<Rightarrow> bytes rd" where
  "readCStringLimit mx = cstring_limit_loop mx (int mx) []"

record ChangePasswordReply =
  ChangePwd_Status :: byte
  ChangePwd_Message :: bytes

definition ParseChangePasswordReply :: "bytes \<Rightarrow> serr + ChangePasswordReply" where
  "ParseChangePasswordReply payload =
     (if payload = [] then Inl ErrChangePasswordFatal
      else
        let status = payload ! 0 in
        if status = 0 \<or> status = 1
        then (if length payload \<noteq> 1 then Inl ErrChangePasswordFatal
              else Inr \<lparr>ChangePwd_Status = status, ChangePwd_Message = []\<rparr>)
        else if status = 2
        then (if length payload < 3 then Inl ErrChangePasswordFatal
              else (case readCStringLimit 0xfff0 (NewReader (drop 1 payload)) of
                  (Inl e, r) \<Rightarrow> Inl ErrChangePasswordFatal
                | (Inr message, r) \<Rightarrow>
                    if message = [] \<or> Reader_Len r > 0 then Inl ErrChangePasswordFatal
                    else Inr \<lparr>ChangePwd_Status = status, ChangePwd_Message = message\<rparr>))
        else Inl ErrChangePasswordFatal)"

definition ChangePassword ::
  "(bytes \<Rightarrow> bytes) \<Rightarrow> Env \<Rightarrow> bytes \<Rightarrow> bytes \<Rightarrow> Conn \<Rightarrow> Net
     \<Rightarrow> (serr + ChangePasswordReply) \<times> Conn \<times> Net" where
  "ChangePassword sha1 env oldPassword newPassword c net =
     (case Request env RqChangePwd (ChangePasswordPayload sha1 oldPassword newPassword) c net of
        (Inl e, c, net) \<Rightarrow> (Inl e, c, net)
      | (Inr reply, c, net) \<Rightarrow>
          ((case ParseChangePasswordReply reply of
              Inl e \<Rightarrow> Inl ErrChangePasswordFatal | Inr parsed \<Rightarrow> Inr parsed), c, net))"

definition OptionsReply :: "bytes \<Rightarrow> serr + bytes" where
  "OptionsReply payload =
     (if payload = [] then Inl (SErrorf ''incorrect server buffer'' [])
      else (case readCStringLimit 0x200 (NewReader payload) of
          (Inl e, r) \<Rightarrow> Inl (SWrap ''options reply'' (Low e))
        | (Inr message, r) \<Rightarrow>
            if Reader_Len r > 0 then Inl (SErrorf ''options reply: %d trailing bytes'' [int (Reader_Len r)])
            else Inr message))"

definition optionsReplyError :: "bytes \<Rightarrow> serr option" where
  "optionsReplyError payload =
     (if payload = [] then None
      else (case OptionsReply payload of
          Inl e \<Rightarrow> Some e
        | Inr message \<Rightarrow> if message \<noteq> [] then Some (OptionsServerError message) else None))"

text \<open>A request whose reply is an error text or nothing.\<close>

definition option_request :: "string \<Rightarrow> Env \<Rightarrow> byte \<Rightarrow> bytes \<Rightarrow> Conn \<Rightarrow> Net \<Rightarrow> serr option \<times> Conn \<times> Net" where
  "option_request name env typ payload c net =
     (case Request env typ payload c net of
        (Inl e, c, net) \<Rightarrow> (Some (SWrap name e), c, net)
      | (Inr reply, c, net) \<Rightarrow> (optionsReplyError reply, c, net))"

definition OptionFamilies :: "Env \<Rightarrow> u16 \<Rightarrow> Conn \<Rightarrow> Net \<Rightarrow> serr option \<times> Conn \<times> Net" where
  "OptionFamilies env secID = option_request ''RQ_OPTION_FAMILIES'' env RqOptionFamilies (OptionFamiliesPayload secID)"

definition FamilyStrikes :: "Env \<Rightarrow> u16 \<Rightarrow> i64 \<Rightarrow> Conn \<Rightarrow> Net \<Rightarrow> serr option \<times> Conn \<times> Net" where
  "FamilyStrikes env secID familyID =
     option_request ''RQ_FAMILY_STRIKES'' env RqFamilyStrikes (FamilyStrikesPayload secID familyID)"

definition FamilyOptions :: "Env \<Rightarrow> u16 \<Rightarrow> bytes \<Rightarrow> i64 \<Rightarrow> i64 \<Rightarrow> Conn \<Rightarrow> Net \<Rightarrow> serr option \<times> Conn \<times> Net" where
  "FamilyOptions env secID txt first second =
     option_request ''RQ_FAMILIY_OPTIONS'' env RqFamiliyOptions (FamilyOptionsPayload secID txt first second)"

definition CertainOptions :: "Env \<Rightarrow> bytes list \<Rightarrow> Conn \<Rightarrow> Net \<Rightarrow> serr option \<times> Conn \<times> Net" where
  "CertainOptions env optCodes =
     option_request ''RQ_CERTAIN_OPTIONS'' env RqCertainOptions (CertainOptionsPayload optCodes)"

definition MakeCondOwn :: "Env \<Rightarrow> i32 \<Rightarrow> Conn \<Rightarrow> Net \<Rightarrow> serr option \<times> Conn \<times> Net" where
  "MakeCondOwn env transactionID c net =
     (case Request env RqMakeCondOwn (Writer_Int32 [] transactionID) c net of
        (Inl e, c, net) \<Rightarrow> (Some (SWrap ''RQ_MAKE_COND_OWN'' e), c, net)
      | (Inr reply, c, net) \<Rightarrow>
          ((if reply = [] then None
            else (case fst (Reader_String 0x200 (NewReader reply)) of
                Inl e \<Rightarrow> Some (SWrap ''RQ_MAKE_COND_OWN invalid buffer'' (Low e))
              | Inr txt \<Rightarrow> if txt \<noteq> [] then Some (ServerTextError txt) else None)), c, net))"

text \<open>The requests that return the payload of their reply or nothing.\<close>

definition named_request :: "string \<Rightarrow> Env \<Rightarrow> byte \<Rightarrow> bytes \<Rightarrow> Conn \<Rightarrow> Net \<Rightarrow> (serr + bytes) \<times> Conn \<times> Net" where
  "named_request name env typ payload c net =
     (case Request env typ payload c net of
        (Inl e, c, net) \<Rightarrow> (Inl (SWrap name e), c, net)
      | (Inr p, c, net) \<Rightarrow> (Inr p, c, net))"

definition HistoryExt :: "Env \<Rightarrow> bytes \<Rightarrow> Conn \<Rightarrow> Net \<Rightarrow> serr option \<times> Conn \<times> Net" where
  "HistoryExt env payload c net =
     (case named_request ''RQ_HISTORY_EXT'' env RqHistoryExt payload c net of
        (Inl e, c, net) \<Rightarrow> (Some e, c, net) | (Inr _, c, net) \<Rightarrow> (None, c, net))"

definition SubscribeTicks :: "Env \<Rightarrow> bytes \<Rightarrow> Conn \<Rightarrow> Net \<Rightarrow> serr option \<times> Conn \<times> Net" where
  "SubscribeTicks env payload c net =
     (case named_request ''RQ_SUBSCRIBE_TICKS'' env RqSubscribeTicks payload c net of
        (Inl e, c, net) \<Rightarrow> (Some e, c, net) | (Inr _, c, net) \<Rightarrow> (None, c, net))"

definition PollTicks :: "Env \<Rightarrow> bytes \<Rightarrow> Conn \<Rightarrow> Net \<Rightarrow> (serr + bytes) \<times> Conn \<times> Net" where
  "PollTicks env payload = named_request ''RQ_TICKS'' env RqTicks payload"

definition Conn_ClientLimits :: "Env \<Rightarrow> i64 \<Rightarrow> Conn \<Rightarrow> Net \<Rightarrow> (serr + bytes) \<times> Conn \<times> Net" where
  "Conn_ClientLimits env clientID =
     named_request ''RQ_CLIENT_LIMITS'' env RqClientLimits (ClientLimitsRequest clientID)"

definition Conn_SecSpec :: "Env \<Rightarrow> u16 list \<Rightarrow> Conn \<Rightarrow> Net \<Rightarrow> (serr + bytes) \<times> Conn \<times> Net" where
  "Conn_SecSpec env secIDs c net =
     (if secIDs = [] then (Inr [], c, net)
      else named_request ''RQ_SEC_SPEC'' env RqSecSpec (SecSpecRequest secIDs) c net)"

subsection \<open>RQ_TRNS_IN_PROGRESS\<close>

text \<open>The rest of a record behind the transaction number.\<close>

definition progress_rest :: "unit rd" where
  "progress_rest =
     rbind Reader_Int32 (\<lambda>_. rbind Reader_Byte (\<lambda>_. rbind Reader_Int64 (\<lambda>_.
     rbind (Reader_String 12) (\<lambda>_. rbind Reader_Byte (\<lambda>_. rbind (Reader_String 25) (\<lambda>_.
     rbind Reader_Byte (\<lambda>_. rbind Reader_Int32 (\<lambda>_. rbind (Reader_String 15) (\<lambda>_.
     rbind (Reader_String 15) (\<lambda>_. ret ()))))))))))"

text \<open>The loop leaves at the first failed read and keeps the numbers it has.\<close>

definition progress_step :: "u64 list \<Rightarrow> (u64 list + u64 list) rd" where
  "progress_step ids r =
     (if Reader_Len r = 0 then (Inr (Inr ids), r)
      else (case Reader_Int32 r of
          (Inl e, r) \<Rightarrow> (Inr (Inr ids), r)
        | (Inr n, r) \<Rightarrow>
            let ids = ids @ [scast n] in
            (case progress_rest r of
               (Inl e, r) \<Rightarrow> (Inr (Inr ids), r)
             | (Inr _, r) \<Rightarrow> (Inr (Inl ids), r))))"

definition progress_ids :: "bytes \<Rightarrow> err + u64 list" where
  "progress_ids payload = decode_body (rfor progress_step []) payload"

definition TransactionsInProgress :: "Env \<Rightarrow> Conn \<Rightarrow> Net \<Rightarrow> (serr + u64 list) \<times> Conn \<times> Net" where
  "TransactionsInProgress env c net =
     (case Request env RqTrnsInProgress [] c net of
        (Inl e, c, net) \<Rightarrow> (Inl e, c, net)
      | (Inr payload, c, net) \<Rightarrow>
          ((case progress_ids payload of Inl e \<Rightarrow> Inl (Low e) | Inr ids \<Rightarrow> Inr ids), c, net))"


subsection \<open>RQ_INQUIRE_UT\<close>

text \<open>One reply: inflated size, compressed size, and the chunk.\<close>

definition inquire_rd :: "(i32 \<times> i32 \<times> bytes) rd" where
  "inquire_rd =
     rbind (field ''RQ_INQUIRE_UT header'' Reader_Byte) (\<lambda>_.
     rbind (field ''RQ_INQUIRE_UT header'' Reader_Int32) (\<lambda>full.
     rbind (field ''RQ_INQUIRE_UT header'' Reader_Int32) (\<lambda>tot.
     rbind (field ''RQ_INQUIRE_UT header'' Reader_Int32) (\<lambda>n.
     if sint n \<le> 0 \<or> sint tot \<le> 0
     then fail (Errorf ''RQ_INQUIRE_UT: empty chunk (total %d)'' [sint tot])
     else rbind (field ''RQ_INQUIRE_UT chunk'' (Reader_Raw (sint n))) (\<lambda>chunk.
     ret (full, tot, chunk))))))"

text \<open>
  The download loop. Each round has the environment of its request and the bytes that arrive during
  it; \<open>None\<close> means that the rounds given have ended before the document was complete.
\<close>

fun inquire_loop ::
  "(Env \<times> bytes) list \<Rightarrow> byte \<Rightarrow> bytes \<Rightarrow> Conn \<Rightarrow> Net \<Rightarrow> (serr + (bytes \<times> i32)) option \<times> Conn \<times> Net" where
  "inquire_loop [] category compressed c net = (None, c, net)"
| "inquire_loop ((env, arriving) # rounds) category compressed c net =
     (case Request env RqInquireUT (InquireUTPayload category (word_of_nat (length compressed))) c
             (net\<lparr>N_in := N_in net @ arriving\<rparr>) of
        (Inl e, c, net) \<Rightarrow> (Some (Inl (SWrap ''RQ_INQUIRE_UT'' e)), c, net)
      | (Inr reply, c, net) \<Rightarrow>
          (case decode_body inquire_rd reply of
             Inl e \<Rightarrow> (Some (Inl (Low e)), c, net)
           | Inr (full, tot, chunk) \<Rightarrow>
               let compressed = compressed @ chunk in
               if sint (word_of_nat (length compressed) :: i32) \<ge> sint tot
               then (Some (Inr (compressed, full)), c, net)
               else inquire_loop rounds category compressed c net))"

text \<open>\<open>inflate\<close> is \<open>zlib.NewReader\<close> and \<open>io.ReadAll\<close>.\<close>

definition InquireUT ::
  "(bytes \<Rightarrow> err + bytes) \<Rightarrow> (Env \<times> bytes) list \<Rightarrow> byte \<Rightarrow> Conn \<Rightarrow> Net \<Rightarrow> (serr + bytes) option \<times> Conn \<times> Net" where
  "InquireUT inflate rounds category c net =
     (case inquire_loop rounds category [] c net of
        (None, c, net) \<Rightarrow> (None, c, net)
      | (Some (Inl e), c, net) \<Rightarrow> (Some (Inl e), c, net)
      | (Some (Inr (compressed, full)), c, net) \<Rightarrow>
          (Some (case inflate compressed of
              Inl e \<Rightarrow> Inl (SWrap ''RQ_INQUIRE_UT inflate'' (Low e))
            | Inr doc \<Rightarrow>
                if word_of_nat (length doc) \<noteq> full
                then Inl (SErrorf ''RQ_INQUIRE_UT: inflated %d bytes, header says %d'' [int (length doc), sint full])
                else Inr doc), c, net))"

subsection \<open>Change of the password\<close>

lemma cstring_limit_eq:
  "fst (cstring_limit_loop k m out r) = Inr v \<longleftrightarrow> fst (cstring_loop k out r) = Inr v"
  "fst (cstring_loop k out r) = Inr v \<Longrightarrow> snd (cstring_limit_loop k m out r) = snd (cstring_loop k out r)"
proof (induction k arbitrary: out r)
  case 0
  { case 1 then show ?case by (auto simp: rbind_def field_def ret_def fail_def split: sum.splits prod.splits) }
  { case 2 then show ?case by (auto simp: rbind_def field_def ret_def fail_def split: sum.splits prod.splits if_splits) }
next
  case (Suc k)
  { case 1 then show ?case using Suc.IH by (auto simp: rbind_def field_def ret_def split: sum.splits prod.splits) }
  { case 2 then show ?case using Suc.IH by (auto simp: rbind_def field_def ret_def split: sum.splits prod.splits if_splits) }
qed

lemma readCStringLimit_whole:
  "(\<exists>r. readCStringLimit n (NewReader p) = (Inr s, r) \<and> Reader_Len r = 0) \<longleftrightarrow>
    p = s @ [0] \<and> 0 \<notin> set s \<and> length s \<le> n"
proof
  assume "\<exists>r. readCStringLimit n (NewReader p) = (Inr s, r) \<and> Reader_Len r = 0"
  then obtain r where r: "readCStringLimit n (NewReader p) = (Inr s, r)" "Reader_Len r = 0" by blast
  then have f: "fst (cstring_loop n [] (NewReader p)) = Inr s"
    using cstring_limit_eq(1) [of n "int n" "[]" "NewReader p" s] by (simp add: readCStringLimit_def)
  from cstring_loop_suffix(1) [OF valid_NewReader, of n "[]" p s] f
  have t: "length (takeWhile (\<lambda>c. c \<noteq> 0) p) < length p" "length s \<le> n" "s = takeWhile (\<lambda>c. c \<noteq> 0) p"
    by (auto simp: NewReader_def Let_def)
  from cstring_loop_suffix(2) [OF valid_NewReader f] cstring_limit_eq(2) [OF f, of "int n"] r
  have "length p \<le> length s + 1" by (auto simp: readCStringLimit_def NewReader_def Reader_Len_def)
  with t(1,3) have l: "length p = length s + 1" by simp
  have "dropWhile (\<lambda>c. c \<noteq> 0) p \<noteq> []"
    using t(1) by (metis append_Nil2 takeWhile_dropWhile_id less_irrefl)
  then obtain y ys where d: "dropWhile (\<lambda>c. c \<noteq> 0) p = y # ys" by (metis list.exhaust)
  then have "y = 0" using hd_dropWhile [of "\<lambda>c. c \<noteq> 0" p] by simp
  moreover have p: "p = s @ y # ys" using takeWhile_dropWhile_id [of "\<lambda>c. c \<noteq> 0" p] d t(3) by simp
  moreover have "ys = []" using l p by simp
  ultimately have "p = s @ [0]" by simp
  moreover have "0 \<notin> set s" using t(3) set_takeWhileD by fastforce
  ultimately show "p = s @ [0] \<and> 0 \<notin> set s \<and> length s \<le> n" using t(2) by blast
next
  assume a: "p = s @ [0] \<and> 0 \<notin> set s \<and> length s \<le> n"
  then have "takeWhile (\<lambda>c. c \<noteq> 0) p = s" by (auto intro!: takeWhile_append_stop)
  with a have f: "fst (cstring_loop n [] (NewReader p)) = Inr s"
    using cstring_loop_suffix(1) [OF valid_NewReader, of n "[]" p s] by (simp add: NewReader_def Let_def)
  have "snd (cstring_loop n [] (NewReader p)) = \<lparr>rbuf = p, roff = length s + 1\<rparr>"
    using cstring_loop_suffix(2) [OF valid_NewReader f] by (simp add: NewReader_def)
  with cstring_limit_eq(2) [OF f, of "int n"] cstring_limit_eq(1) [of n "int n" "[]" "NewReader p" s] f a
  show "\<exists>r. readCStringLimit n (NewReader p) = (Inr s, r) \<and> Reader_Len r = 0"
    by (intro exI [of _ "\<lparr>rbuf = p, roff = length s + 1\<rparr>"])
      (auto simp: readCStringLimit_def Reader_Len_def prod_eq_iff)
qed

text \<open>The reply to a change of password is accepted exactly when it is the single byte 0 or 1, or the
  byte 2 with a non-empty terminated text of at most 65520 bytes and nothing behind it.\<close>

theorem ParseChangePasswordReply_accepts:
  "ParseChangePasswordReply p = Inr \<lparr>ChangePwd_Status = st, ChangePwd_Message = m\<rparr> \<longleftrightarrow>
    (st = 0 \<or> st = 1) \<and> p = [st] \<and> m = []
    \<or> st = 2 \<and> p = 2 # m @ [0] \<and> m \<noteq> [] \<and> 0 \<notin> set m \<and> length m \<le> 0xfff0"
proof (cases p)
  case (Cons b q)
  show ?thesis
  proof (cases "b = 2")
    case False
    with Cons show ?thesis by (auto simp: ParseChangePasswordReply_def Let_def)
  next
    case True
    note w = readCStringLimit_whole [where n = "0xfff0" and p = q and s = m]
    obtain x r where x: "readCStringLimit 65520 (NewReader q) = (x, r)" by fastforce
    have short: "\<not> (q = m @ [0] \<and> m \<noteq> [])" if "length q < 2" using that by (cases m) auto
    show ?thesis
      using True Cons w x short
      by (cases x) (auto simp: ParseChangePasswordReply_def Let_def)
  qed
qed (simp add: ParseChangePasswordReply_def)

subsection \<open>Transactions in progress\<close>

lemma wire_reader_progress_rest: "wire_reader progress_rest"
  unfolding progress_rest_def by (intro wire_local)

interpretation progress: consuming_loop progress_step
proof
  fix ids r x r'
  assume v: "valid r" and p: "progress_step ids r = (x, r')"
  obtain y r1 where i: "Reader_Int32 r = (y, r1)" by fastforce
  obtain z r2 where j: "progress_rest r1 = (z, r2)" by fastforce
  from wire_keeps [OF wire_reader_Int32 v i] wire_keeps [OF wire_reader_progress_rest _ j] p v i j
  show "rbuf r' = rbuf r \<and> roff r \<le> roff r' \<and> valid r'"
    by (auto simp: progress_step_def Let_def split: if_splits sum.splits)
next
  fix ids ids' and r r' :: Reader
  assume v: "valid r" and p: "progress_step ids r = (Inr (Inl ids'), r')"
  obtain y r1 where i: "Reader_Int32 r = (y, r1)" by fastforce
  obtain z r2 where j: "progress_rest r1 = (z, r2)" by fastforce
  from wire_keeps [OF wire_reader_Int32 v i] wire_keeps [OF wire_reader_progress_rest _ j] advances_Int32 p v i j
  show "roff r < roff r'"
    by (auto simp: progress_step_def Let_def advances_def split: if_splits sum.splits)
qed

text \<open>Whatever the server sends, the loop ends with a list and no error.\<close>

lemma progress_ids_total: "\<exists>ids. progress_ids payload = Inr ids"
proof -
  have "\<exists>ids'. fst (rfor progress_step ids r) = Inr ids'" if "valid r" for ids r
    using that
  proof (induction ids r rule: progress.loop_induct)
    case (step ids r)
    have "\<not> (\<exists>e r'. progress_step ids r = (Inl e, r'))"
      by (auto simp: progress_step_def Let_def split: sum.splits prod.splits if_splits)
    with step show ?case
      by (subst progress.unfold [OF step.hyps(1)]) (auto split: prod.splits sum.splits)
  qed
  then show ?thesis by (simp add: progress_ids_def decode_body_def)
qed

text \<open>A record is a transaction number and a rest that the ten reads use up.\<close>

definition progress_record :: "i32 \<times> bytes \<Rightarrow> bytes" where
  "progress_record nr = Writer_Int32 [] (fst nr) @ snd nr"

definition rest_ok :: "bytes \<Rightarrow> bool" where
  "rest_ok b \<longleftrightarrow> (\<exists>r. progress_rest (NewReader b) = (Inr (), r) \<and> Reader_Len r = 0)"

lemma progress_rest_at:
  assumes "rest_ok b"
  shows "progress_rest \<lparr>rbuf = pre @ b @ post, roff = length pre\<rparr> =
    (Inr (), \<lparr>rbuf = pre @ b @ post, roff = length pre + length b\<rparr>)"
proof -
  obtain r where r: "progress_rest (NewReader b) = (Inr (), r)" "Reader_Len r = 0"
    using assms by (auto simp: rest_ok_def)
  from wire_keeps [OF wire_reader_progress_rest valid_NewReader r(1)] r(2)
  have "r = \<lparr>rbuf = b, roff = length b\<rparr>"
    by (cases r) (simp add: NewReader_def Reader_Len_def valid_def)
  with wire_reader.shifts [OF wire_reader_progress_rest _
      wire_reader.extends [OF wire_reader_progress_rest valid_NewReader r(1), of post], of pre]
  show ?thesis by (simp add: Field_Reader.extend_def shift_def NewReader_def valid_def)
qed

lemma progress_loop_records:
  assumes "list_all (rest_ok \<circ> snd) recs"
  shows "fst (rfor progress_step ids \<lparr>rbuf = pre @ concat (map progress_record recs), roff = length pre\<rparr>) =
    Inr (ids @ map (scast \<circ> fst) recs)"
  using assms
proof (induction recs arbitrary: ids pre)
  case Nil
  then show ?case by (subst progress.unfold) (simp_all add: progress_step_def Reader_Len_def valid_def)
next
  case (Cons nr recs)
  obtain n b where nr: "nr = (n, b)" by fastforce
  let ?post = "concat (map progress_record recs)"
  let ?buf = "pre @ Writer_Int32 [] n @ b @ ?post"
  let ?r = "\<lparr>rbuf = ?buf, roff = length pre\<rparr>"
  let ?r1 = "\<lparr>rbuf = ?buf, roff = length pre + length (Writer_Int32 [] n)\<rparr>"
  let ?r2 = "\<lparr>rbuf = ?buf, roff = length pre + length (Writer_Int32 [] n) + length b\<rparr>"
  have i: "Reader_Int32 ?r = (Inr n, ?r1)"
    using i32_codec.get_put [where v = n and r = ?r and pre = pre and post = "b @ ?post"] by simp
  have b: "progress_rest ?r1 = (Inr (), ?r2)"
    using progress_rest_at [of b "pre @ Writer_Int32 [] n" ?post] Cons.prems nr by simp
  have w: "0 < length (Writer_Int32 [] n)"
    using packed_form_length(1) [of "scast n"] by (simp add: Writer_Int32_def appendPacked_append flip: length_greater_0_conv)
  then have s: "progress_step ids ?r = (Inr (Inl (ids @ [scast n])), ?r2)"
    using i b by (simp add: progress_step_def Reader_Len_def Let_def)
  have "fst (rfor progress_step (ids @ [scast n]) ?r2) = Inr ((ids @ [scast n]) @ map (scast \<circ> fst) recs)"
    using Cons.IH [of "ids @ [scast n]" "pre @ Writer_Int32 [] n @ b"] Cons.prems by (simp add: add.assoc)
  moreover have "valid ?r" by (simp add: valid_def)
  moreover have "concat (map progress_record (nr # recs)) = Writer_Int32 [] n @ b @ ?post"
    by (simp add: nr progress_record_def)
  ultimately show ?case
    using s progress.unfold [OF \<open>valid ?r\<close>, of ids] nr by simp
qed

text \<open>A reply of complete records yields the number of each, in order.\<close>

lemma progress_ids_records:
  "list_all (rest_ok \<circ> snd) recs \<Longrightarrow> progress_ids (concat (map progress_record recs)) = Inr (map (scast \<circ> fst) recs)"
  using progress_loop_records [of recs "[]" "[]"] by (simp add: progress_ids_def decode_body_def NewReader_def)

subsection \<open>The download of a margin template\<close>

text \<open>The reply of a server that serves a document of \<open>tot\<close> compressed and \<open>full\<close> plain bytes.\<close>

definition inquire_reply :: "i32 \<Rightarrow> i32 \<Rightarrow> bytes \<Rightarrow> bytes" where
  "inquire_reply full tot chunk =
     0 # Writer_Int32 [] full @ Writer_Int32 [] tot @ Writer_Int32 [] (word_of_nat (length chunk)) @ chunk"

lemma sint_small_nat: "n < 2 ^ 31 \<Longrightarrow> sint (word_of_nat n :: i32) = int n"
  by (simp add: sint_uint unsigned_of_nat take_bit_nat_eq_self signed_take_bit_int_eq_self take_bit_nat_def
      flip: of_nat_mod)

lemma Int32_at:
  "Reader_Int32 \<lparr>rbuf = pre @ Writer_Int32 [] v @ post, roff = n\<rparr> =
     (Inr v, \<lparr>rbuf = pre @ Writer_Int32 [] v @ post, roff = n + length (Writer_Int32 [] v)\<rparr>)" if "n = length pre"
  using i32_codec.get_put [where v = v and pre = pre and post = post and r = "\<lparr>rbuf = pre @ Writer_Int32 [] v @ post, roff = n\<rparr>"]
    that by simp

lemma inquire_rd_reply:
  assumes "0 < length chunk" and "length chunk < 2 ^ 31" and "0 < sint tot"
  shows "decode_body inquire_rd (inquire_reply full tot chunk) = Inr (full, tot, chunk)"
proof -
  let ?a = "Writer_Int32 [] full" and ?b = "Writer_Int32 [] tot" and ?n = "Writer_Int32 [] (word_of_nat (length chunk))"
  let ?buf = "0 # ?a @ ?b @ ?n @ chunk"
  have 0: "Reader_Byte \<lparr>rbuf = ?buf, roff = 0\<rparr> = (Inr 0, \<lparr>rbuf = ?buf, roff = 1\<rparr>)"
    by (simp add: Reader_Byte_def Reader_Len_def)
  have 1: "Reader_Int32 \<lparr>rbuf = ?buf, roff = 1\<rparr> = (Inr full, \<lparr>rbuf = ?buf, roff = 1 + length ?a\<rparr>)"
    using Int32_at [where n = 1 and pre = "[0]" and v = full] by simp
  have 2: "Reader_Int32 \<lparr>rbuf = ?buf, roff = 1 + length ?a\<rparr> = (Inr tot, \<lparr>rbuf = ?buf, roff = 1 + length ?a + length ?b\<rparr>)"
    using Int32_at [where n = "1 + length ?a" and pre = "0 # ?a" and v = tot] by simp
  have 3: "Reader_Int32 \<lparr>rbuf = ?buf, roff = 1 + length ?a + length ?b\<rparr> =
      (Inr (word_of_nat (length chunk)), \<lparr>rbuf = ?buf, roff = 1 + length ?a + length ?b + length ?n\<rparr>)"
    using Int32_at [where n = "1 + length ?a + length ?b" and pre = "0 # ?a @ ?b" and v = "word_of_nat (length chunk)" and post = chunk]
    by simp
  have 4: "Reader_Raw (int (length chunk)) \<lparr>rbuf = ?buf, roff = 1 + length ?a + length ?b + length ?n\<rparr> =
      (Inr chunk, \<lparr>rbuf = ?buf, roff = length ?buf\<rparr>)"
    by (simp add: Reader_Raw_def Reader_Len_def)
  have s: "sint (word_of_nat (length chunk) :: i32) = int (length chunk)" by (rule sint_small_nat [OF assms(2)])
  show ?thesis
    unfolding decode_body_def inquire_rd_def inquire_reply_def NewReader_def
    using assms by (simp only: rbind_def field_def prod.case sum.case 0 1 2 3 s) (simp add: 4 [simplified] rbind_def field_def ret_def)
qed

lemma inquire_loop_complete:
  assumes "\<forall>(env, chunk) \<in> set served. sends env \<and> chunk \<noteq> [] \<and> length chunk \<le> 65000"
    and "served \<noteq> []" and "C_open c" and "C_abandoned c = []" and "C_keys c = k"
    and "length compressed + length (concat (map snd served)) = t" and "t < 2 ^ 31"
  shows "\<exists>c' out'. inquire_loop
      (map (\<lambda>(env, chunk). (env, on_wire k (reply_of RqInquireUT (inquire_reply full (word_of_nat t) chunk)))) served)
      category compressed c \<lparr>N_in = [], N_out = out\<rparr> =
    (Some (Inr (compressed @ concat (map snd served), full)), c', \<lparr>N_in = [], N_out = out'\<rparr>)
    \<and> length out' = length out + length served"
  using assms
proof (induction served arbitrary: compressed c out)
  case (Cons es served)
  obtain env chunk where es: "es = (env, chunk)" by fastforce
  let ?tot = "word_of_nat t :: i32"
  let ?f = "reply_of RqInquireUT (inquire_reply full ?tot chunk)"
  let ?req = "InquireUTPayload category (word_of_nat (length compressed))"
  have ok: "sends env" "chunk \<noteq> []" "length chunk \<le> 65000" using Cons.prems(1) es by auto
  have t: "sint ?tot = int t" by (rule sint_small_nat [OF Cons.prems(7)])
  have w: "length (Writer_Int32 [] v) \<le> 5" for v
    using packed_form_i32_length [of v] by (simp add: Writer_Int32_def appendPacked_append)
  have l: "length (inquire_reply full ?tot chunk) \<le> MaxPayload"
    using ok(3) w [of full] w [of ?tot] w [of "word_of_nat (length chunk)"]
    by (simp add: inquire_reply_def MaxPayload_def)
  have lr: "length ?req \<le> MaxPayload"
    using packed_form_i32_length [of "word_of_nat (length compressed)"]
    by (simp add: MaxPayload_def InquireUTPayload_def Writer_Byte_def Writer_Int32_def appendPacked_append)
  from Request_answered [OF Cons.prems(3) ok(1) lr Cons.prems(4) reply_of_frame [OF l, of RqInquireUT],
      where rest = "[]" and out = out] Cons.prems(5)
  obtain o' where r: "Request env RqInquireUT ?req c \<lparr>N_in = on_wire k ?f, N_out = out\<rparr> =
      (Inr (inquire_reply full ?tot chunk), count_request RqInquireUT c, \<lparr>N_in = [], N_out = out @ [o']\<rparr>)"
    by auto
  have pos: "0 < length chunk" "length chunk < 2 ^ 31" "0 < sint ?tot"
    using ok Cons.prems(6) es t by auto
  have d: "decode_body inquire_rd (inquire_reply full ?tot chunk) = Inr (full, ?tot, chunk)"
    by (rule inquire_rd_reply [OF pos])
  have len: "sint (word_of_nat (length (compressed @ chunk)) :: i32) = int (length (compressed @ chunk))"
    using Cons.prems(6,7) es by (intro sint_small_nat) simp
  show ?case
  proof (cases "served = []")
    case True
    with Cons.prems(6) es have "length (compressed @ chunk) = t" by simp
    with len t have "sint ?tot \<le> sint (word_of_nat (length (compressed @ chunk)) :: i32)" by simp
    with True es r d show ?thesis by (simp add: Let_def)
  next
    case False
    then have "hd served \<in> set served" by simp
    with Cons.prems(1) have "concat (map snd served) \<noteq> []" by (cases "hd served") fastforce
    with Cons.prems(6) es have "length (compressed @ chunk) < t" by (cases "concat (map snd served)") auto
    with len t have "\<not> sint ?tot \<le> sint (word_of_nat (length (compressed @ chunk)) :: i32)" by simp
    with es r d Cons.IH [of "count_request RqInquireUT c" "compressed @ chunk" "out @ [o']"] False Cons.prems
    show ?thesis by (simp add: Let_def)
  qed
qed simp



end
