(* ===== verification/Session_Login.thy ===== *)
theory Session_Login
  imports Session_Replies
begin

text \<open>
  The connect sequence of \<open>native/session/login.go\<close> (\<open>Login\<close>: RQ_LOGIN, the answer to the challenge
  and the session keys of RQ_PWD) and the short recovery of \<open>recover.go\<close> (\<open>Restore\<close>).
  \<open>Login_handshake\<close> shows that client and server hold the same keys afterwards, \<open>Restore_atomic\<close>
  that a failed recovery leaves the connection as it was.
\<close>

unbundle bit_operations_syntax

subsection \<open>Data\<close>

definition loginMagic :: byte where "loginMagic = 120"
definition ProtocolVersion :: u16 where "ProtocolVersion = 78"
definition loginWord2 :: u16 where "loginWord2 = 1"
definition loginWord3 :: u16 where "loginWord3 = 0x21c"
definition maxLogin :: nat where "maxLogin = 12"
definition maxComputerName :: nat where "maxComputerName = 16"
definition maxUserName :: nat where "maxUserName = 32"
definition maxOSName :: nat where "maxOSName = 80"
definition maxAddresses :: nat where "maxAddresses = 4"
definition loginHasVersion :: byte where "loginHasVersion = 1"
definition loginRejected4 :: byte where "loginRejected4 = 4"
definition loginRejected8 :: byte where "loginRejected8 = 8"
definition pwdStatusMessage :: byte where "pwdStatusMessage = 0x0e"
definition DefaultRequestTimeout :: i64 where "DefaultRequestTimeout = 20000000000"

record ClientInfo =
  ComputerName :: bytes
  UserName :: bytes
  OS :: bytes
  HardwareID :: i64
  Addresses :: "i32 list"
  Trailer :: byte

record Config =
  Config_Login :: bytes
  Config_Password :: bytes
  Config_Client :: ClientInfo
  Config_RequestTimeout :: i64

record VersionInfo =
  Version_Text :: bytes
  Version_A :: i32
  Version_B :: i64

record Info =
  Info_Version :: "VersionInfo option"
  Info_Byte1 :: byte
  Info_Byte2 :: byte
  Info_Byte3 :: byte
  Info_SessionTimeout :: i32
  Info_Byte4 :: byte
  Info_Byte5 :: byte
  Info_Byte6 :: byte
  Info_Byte7 :: byte
  Info_Int1 :: i32
  Info_Flags :: byte
  Info_Byte8 :: byte
  Info_SubBroker :: byte
  Info_Text1 :: bytes
  Info_Byte9 :: byte
  Info_Text2 :: bytes
  Info_Text3 :: bytes
  Info_Byte10 :: byte
  Info_UID :: i32
  Info_Byte11 :: byte
  Info_SID :: byte
  Info_Byte12 :: byte
  Info_Byte13 :: byte
  Info_SysVersion :: i32
  Info_Build :: i32
  Info_Byte14 :: byte
  Info_Int2 :: i32
  Info_Text4 :: bytes
  Info_Text5 :: bytes
  Info_Text6 :: bytes
  Info_Protocol :: u16
  Info_FortsDate :: i32
  Info_Text7 :: bytes

definition zeroInfo :: Info where
  "zeroInfo = \<lparr>Info_Version = None, Info_Byte1 = 0, Info_Byte2 = 0, Info_Byte3 = 0, Info_SessionTimeout = 0,
     Info_Byte4 = 0, Info_Byte5 = 0, Info_Byte6 = 0, Info_Byte7 = 0, Info_Int1 = 0,
     Info_Flags = 0, Info_Byte8 = 0, Info_SubBroker = 0, Info_Text1 = [], Info_Byte9 = 0,
     Info_Text2 = [], Info_Text3 = [], Info_Byte10 = 0, Info_UID = 0, Info_Byte11 = 0,
     Info_SID = 0, Info_Byte12 = 0, Info_Byte13 = 0, Info_SysVersion = 0, Info_Build = 0,
     Info_Byte14 = 0, Info_Int2 = 0, Info_Text4 = [], Info_Text5 = [], Info_Text6 = [],
     Info_Protocol = 0, Info_FortsDate = 0, Info_Text7 = []\<rparr>"

subsection \<open>RQ_LOGIN\<close>

definition LoginPayload :: "bytes \<Rightarrow> bytes" where
  "LoginPayload login =
     (let w = Writer_Byte [] loginMagic;
          w = Writer_Uint16 w ProtocolVersion;
          w = Writer_Uint16 w loginWord2;
          w = Writer_Uint16 w loginWord3;
          w = Writer_String w login maxLogin
      in Writer_Uint16 w (word_of_int ClientBufferSize))"

definition version_rd :: "VersionInfo rd" where
  "version_rd =
     rbind (Reader_String 0x20) (\<lambda>t. rbind Reader_Int32 (\<lambda>a. rbind Reader_Int32 (\<lambda>b.
     ret \<lparr>Version_Text = t, Version_A = a, Version_B = scast b\<rparr>)))"

definition parseLoginReply :: "bytes \<Rightarrow> serr + (bytes \<times> VersionInfo option)" where
  "parseLoginReply p =
     (case Reader_Byte (NewReader p) of
        (Inl e, r) \<Rightarrow> Inl (Low e)
      | (Inr flags, r) \<Rightarrow>
          if flags AND loginRejected4 \<noteq> 0 then Inl (LoginError 0xc [] None)
          else if flags AND loginRejected8 \<noteq> 0 then Inl (LoginError 0xd [] None)
          else (case Reader_Byte r of
              (Inl e, r) \<Rightarrow> Inl (Low e)
            | (Inr n, r) \<Rightarrow>
                (case Reader_Raw (uint n) r of
                   (Inl e, r) \<Rightarrow> Inl (Low e)
                 | (Inr challenge, r) \<Rightarrow>
                     if flags AND loginHasVersion \<noteq> 0
                     then (case version_rd r of
                         (Inl e, r) \<Rightarrow> Inl (SWrap ''version block'' (Low e))
                       | (Inr v, r) \<Rightarrow> Inr (challenge, Some v))
                     else Inr (challenge, None))))"

subsection \<open>RQ_PWD\<close>

text \<open>The addresses up to the first zero.\<close>

fun put_addresses :: "bytes \<Rightarrow> i32 list \<Rightarrow> bytes" where
  "put_addresses w [] = w"
| "put_addresses w (a # as) = (if a = 0 then w else put_addresses (Writer_Int32 w a) as)"

definition PwdPayload :: "Cipher \<Rightarrow> bytes \<Rightarrow> ClientInfo \<Rightarrow> serr + bytes" where
  "PwdPayload pwKey challenge ci =
     (if length (Addresses ci) > maxAddresses then Inl TooManyAddresses
      else
        let proof = Gamma pwKey DefaultSync challenge;
            w = Writer_Raw [] proof;
            w = Writer_String w (ComputerName ci) maxComputerName;
            w = Writer_String w (UserName ci) maxUserName;
            w = Writer_String w (OS ci) maxOSName;
            w = Writer_Int64 w (HardwareID ci);
            w = put_addresses w (Addresses ci);
            w = Writer_Int32 w 0
        in Inr (Writer_Byte w (Trailer ci)))"

text \<open>
  \<open>readByte\<close>, \<open>readInt\<close> and \<open>readString\<close> make closures that assign the value read, the zero value on
  failure, to a field and return the error.
\<close>

type_synonym info_read = "Info \<Rightarrow> Reader \<Rightarrow> err option \<times> Info \<times> Reader"

definition store :: "'a rd \<Rightarrow> 'a \<Rightarrow> ('a \<Rightarrow> Info \<Rightarrow> Info) \<Rightarrow> info_read" where
  "store rd z put info r =
     (case rd r of (Inr v, r) \<Rightarrow> (None, put v info, r) | (Inl e, r) \<Rightarrow> (Some e, put z info, r))"

definition readByte :: "(byte \<Rightarrow> Info \<Rightarrow> Info) \<Rightarrow> info_read" where
  "readByte put = store Reader_Byte 0 put"

definition readInt :: "(i32 \<Rightarrow> Info \<Rightarrow> Info) \<Rightarrow> info_read" where
  "readInt put = store Reader_Int32 0 put"

definition readString :: "nat \<Rightarrow> (bytes \<Rightarrow> Info \<Rightarrow> Info) \<Rightarrow> info_read" where
  "readString mx put = store (Reader_String mx) [] put"

text \<open>The closure of \<open>Protocol\<close> keeps the old value on failure.\<close>

definition read_protocol :: info_read where
  "read_protocol info r =
     (case Reader_Uint16 r of
        (Inr v, r) \<Rightarrow> (None, info\<lparr>Info_Protocol := v\<rparr>, r) | (Inl e, r) \<Rightarrow> (Some e, info, r))"

definition pwd_required :: "info_read list" where
  "pwd_required =
    [readByte (\<lambda>v i. i\<lparr>Info_Byte1 := v\<rparr>), readByte (\<lambda>v i. i\<lparr>Info_Byte2 := v\<rparr>), readByte (\<lambda>v i. i\<lparr>Info_Byte3 := v\<rparr>),
     readInt (\<lambda>v i. i\<lparr>Info_SessionTimeout := v\<rparr>),
     readByte (\<lambda>v i. i\<lparr>Info_Byte4 := v\<rparr>), readByte (\<lambda>v i. i\<lparr>Info_Byte5 := v\<rparr>),
     readByte (\<lambda>v i. i\<lparr>Info_Byte6 := v\<rparr>), readByte (\<lambda>v i. i\<lparr>Info_Byte7 := v\<rparr>),
     readInt (\<lambda>v i. i\<lparr>Info_Int1 := v\<rparr>)]"

definition pwd_optional :: "info_read list" where
  "pwd_optional =
    [readByte (\<lambda>v i. i\<lparr>Info_Flags := v\<rparr>), readByte (\<lambda>v i. i\<lparr>Info_Byte8 := v\<rparr>), readByte (\<lambda>v i. i\<lparr>Info_SubBroker := v\<rparr>),
     readString 0x81 (\<lambda>v i. i\<lparr>Info_Text1 := v\<rparr>), readByte (\<lambda>v i. i\<lparr>Info_Byte9 := v\<rparr>),
     readString 0x41 (\<lambda>v i. i\<lparr>Info_Text2 := v\<rparr>), readString 0xd (\<lambda>v i. i\<lparr>Info_Text3 := v\<rparr>),
     readByte (\<lambda>v i. i\<lparr>Info_Byte10 := v\<rparr>), readInt (\<lambda>v i. i\<lparr>Info_UID := v\<rparr>), readByte (\<lambda>v i. i\<lparr>Info_Byte11 := v\<rparr>),
     readByte (\<lambda>v i. i\<lparr>Info_SID := v\<rparr>), readByte (\<lambda>v i. i\<lparr>Info_Byte12 := v\<rparr>), readByte (\<lambda>v i. i\<lparr>Info_Byte13 := v\<rparr>),
     readInt (\<lambda>v i. i\<lparr>Info_SysVersion := v\<rparr>), readInt (\<lambda>v i. i\<lparr>Info_Build := v\<rparr>), readByte (\<lambda>v i. i\<lparr>Info_Byte14 := v\<rparr>),
     readInt (\<lambda>v i. i\<lparr>Info_Int2 := v\<rparr>), readString 0xf (\<lambda>v i. i\<lparr>Info_Text4 := v\<rparr>),
     readString 0x80 (\<lambda>v i. i\<lparr>Info_Text5 := v\<rparr>), readString 0x40 (\<lambda>v i. i\<lparr>Info_Text6 := v\<rparr>),
     read_protocol,
     readInt (\<lambda>v i. i\<lparr>Info_FortsDate := v\<rparr>), readString 0xf (\<lambda>v i. i\<lparr>Info_Text7 := v\<rparr>)]"

text \<open>The two loops over the closures: the first stops at an error, the second ignores errors.\<close>

primrec run_required :: "info_read list \<Rightarrow> Info \<Rightarrow> Reader \<Rightarrow> (err + Info) \<times> Reader" where
  "run_required [] info r = (Inr info, r)"
| "run_required (f # fs) info r =
     (case f info r of
        (Some e, info, r) \<Rightarrow> (Inl e, r)
      | (None, info, r) \<Rightarrow> run_required fs info r)"

primrec run_optional :: "info_read list \<Rightarrow> Info \<Rightarrow> Reader \<Rightarrow> Info \<times> Reader" where
  "run_optional [] info r = (info, r)"
| "run_optional (f # fs) info r = (case f info r of (_, info, r) \<Rightarrow> run_optional fs info r)"

definition parsePwdReply :: "Cipher \<Rightarrow> bytes \<Rightarrow> serr + (Info \<times> bytes \<times> bytes)" where
  "parsePwdReply pwKey p =
     (case Reader_Byte (NewReader p) of
        (Inl e, r) \<Rightarrow> Inl (Low e)
      | (Inr status, r) \<Rightarrow>
          if status \<noteq> 0
          then Inl (LoginError (uint status)
                 (if status = pwdStatusMessage
                  then (case fst (Reader_String 0x103 r) of Inr m \<Rightarrow> m | Inl _ \<Rightarrow> []) else []) None)
          else (case Reader_Raw (int KeySize) r of
              (Inl e, r) \<Rightarrow> Inl (Low e)
            | (Inr encKey, r) \<Rightarrow>
                (case Reader_Raw (int SyncSize) r of
                   (Inl e, r) \<Rightarrow> Inl (Low e)
                 | (Inr encSync, r) \<Rightarrow>
                     let k = CFBDecrypt pwKey DefaultSync encKey;
                         sync = CFBDecrypt pwKey DefaultSync encSync
                     in (case run_required pwd_required zeroInfo r of
                           (Inl e, r) \<Rightarrow> Inl (SWrap ''reply body'' (Low e))
                         | (Inr info, r) \<Rightarrow>
                             (case run_optional pwd_optional (info\<lparr>Info_Protocol := 62\<rparr>) r of
                                (info, r) \<Rightarrow> Inr (info, k, sync))))))"

subsection \<open>The handshake\<close>

text \<open>\<open>errors.As(err, &bye)\<close> on an error of \<open>Request\<close>, which does not wrap.\<close>

definition pwd_error :: "serr \<Rightarrow> serr" where
  "pwd_error e =
     (case e of
        ByeError p \<Rightarrow> (if p \<noteq> [] \<and> p ! 0 \<noteq> 0 then LoginError (uint (p ! 0)) [] (Some e) else e)
      | _ \<Rightarrow> e)"

text \<open>\<open>sha1\<close> is \<open>crypto/sha1\<close>; each request has its own environment. The nested \<open>case\<close> on
  \<open>DefaultKeys\<close> is its panic, which does not occur (\<open>DefaultKeys_ok\<close>).\<close>

definition Login ::
  "(bytes \<Rightarrow> bytes) \<Rightarrow> Env \<Rightarrow> Env \<Rightarrow> Config \<Rightarrow> Net \<Rightarrow> (serr + (Conn \<times> Info)) \<times> Net" where
  "Login sha1 env1 env2 cfg net =
     (case DefaultKeys of
        Inl e \<Rightarrow> (Inl (Low e), net)
      | Inr dk \<Rightarrow>
          let timeout = (if sint (Config_RequestTimeout cfg) \<le> 0 then DefaultRequestTimeout else Config_RequestTimeout cfg);
              c = \<lparr>C_open = True, C_keys = dk, C_timeout = timeout, C_sid = 0, C_seq = 0, C_lastType = 0, C_abandoned = []\<rparr>
          in
          (case Request env1 RqLogin (LoginPayload (Config_Login cfg)) c net of
             (Inl e, c, net) \<Rightarrow> (Inl (SWrap ''RQ_LOGIN'' e), net)
           | (Inr reply, c, net) \<Rightarrow>
               (case parseLoginReply reply of
                  Inl e \<Rightarrow> (Inl (SWrap ''RQ_LOGIN'' e), net)
                | Inr (challenge, version) \<Rightarrow>
                    (case NewCipher (PasswordKey sha1 (Config_Password cfg)) of
                       Inl e \<Rightarrow> (Inl (Low e), net)
                     | Inr pwKey \<Rightarrow>
                         (case PwdPayload pwKey challenge (Config_Client cfg) of
                            Inl e \<Rightarrow> (Inl e, net)
                          | Inr payload \<Rightarrow>
                              (case Request env2 RqPwd payload c net of
                                 (Inl e, c, net) \<Rightarrow> (Inl (SWrap ''RQ_PWD'' (pwd_error e)), net)
                               | (Inr reply, c, net) \<Rightarrow>
                                   (case parsePwdReply pwKey reply of
                                      Inl e \<Rightarrow> (Inl (SWrap ''RQ_PWD'' e), net)
                                    | Inr (info, k, sync) \<Rightarrow>
                                        (case NewKeys k sync of
                                           Inl e \<Rightarrow> (Inl (Low e), net)
                                         | Inr ks \<Rightarrow>
                                             (Inr (c\<lparr>C_keys := ks, C_sid := Info_SID info\<rparr>,
                                                info\<lparr>Info_Version := version\<rparr>), net)))))))))"

definition SessionKeys :: "(bytes \<Rightarrow> bytes) \<Rightarrow> bytes \<Rightarrow> bytes \<Rightarrow> serr + (Info \<times> Keys)" where
  "SessionKeys sha1 password reply =
     (case NewCipher (PasswordKey sha1 password) of
        Inl e \<Rightarrow> Inl (Low e)
      | Inr pwKey \<Rightarrow>
          (case parsePwdReply pwKey reply of
             Inl e \<Rightarrow> Inl e
           | Inr (info, k, sync) \<Rightarrow> (case NewKeys k sync of Inl e \<Rightarrow> Inl (Low e) | Inr ks \<Rightarrow> Inr (info, ks))))"

subsection \<open>Short recovery: RQ_RELOGIN and RQ_RECOVER\<close>

definition ReloginPayload :: "bytes \<Rightarrow> bytes" where
  "ReloginPayload login = Writer_String [] login maxLogin"

definition RecoverPayload :: "bytes \<Rightarrow> i32 \<Rightarrow> bytes" where
  "RecoverPayload token lastSeq = Writer_Int32 (Writer_Raw [] token) lastSeq"

record ReloginReply =
  Relogin_Token :: bytes
  Relogin_SID :: byte

definition relogin_rd :: "ReloginReply rd" where
  "relogin_rd =
     rbind (field ''RQ_RELOGIN reply'' Reader_Byte) (\<lambda>n.
     rbind (field ''RQ_RELOGIN token'' (Reader_Raw (uint n))) (\<lambda>token.
     rbind (field ''RQ_RELOGIN sid'' Reader_Byte) (\<lambda>sid.
     ret \<lparr>Relogin_Token = token, Relogin_SID = sid\<rparr>)))"

definition ParseReloginReply :: "bytes \<Rightarrow> err + ReloginReply" where
  "ParseReloginReply p = decode_body relogin_rd p"

text \<open>
  \<open>Restore\<close> runs on a new socket \<open>net\<close>. Its environment: the error of \<open>SetDeadline\<close> and of the first
  write, and the error of the second write.
\<close>

definition Restore :: "Env \<Rightarrow> serr option \<Rightarrow> bytes \<Rightarrow> Conn \<Rightarrow> Net \<Rightarrow> serr option \<times> Conn \<times> Net" where
  "Restore env write2 login c net =
     (case E_deadline env of
        Some e \<Rightarrow> (Some e, c, net)
      | None \<Rightarrow>
      (case DefaultKeys of
         Inl e \<Rightarrow> (Some (Low e), c, net)
       | Inr dk \<Rightarrow>
      (case Encode dk ClientToServer (sendRequest RqRelogin (ReloginPayload login)) of
         Inl e \<Rightarrow> (Some (Low e), c, net)
       | Inr out1 \<Rightarrow>
      let net = net\<lparr>N_out := N_out net @ [out1]\<rparr> in
      (case E_write env of
         Some e \<Rightarrow> (Some (ctxErr env e), c, net)
       | None \<Rightarrow>
      (case Decode dk ServerToClient (N_in net) of
         (Inl e, s) \<Rightarrow> (Some (ctxErr env (read_error env e)), c, net\<lparr>N_in := s\<rparr>)
       | (Inr f, s) \<Rightarrow>
      let net = net\<lparr>N_in := s\<rparr> in
      if Frame_Kind f = KindBye then (Some ErrBye, c, net)
      else if Frame_Kind f \<noteq> KindReply \<or> Typ f \<noteq> RqRelogin
      then (Some (IncorrectRelogin (Some (IncorrectResponse (Flags f) (Typ f)))), c, net)
      else
      (case ParseReloginReply (Payload f) of
         Inl e \<Rightarrow> (Some (IncorrectRelogin (Some (Low e))), c, net)
       | Inr reply \<Rightarrow>
      if Relogin_SID reply \<noteq> C_sid c then (Some (NotSameServer (Relogin_SID reply) (C_sid c)), c, net)
      else
      (case Encode (C_keys c) ClientToServer (sendRequest RqRecover (RecoverPayload (Relogin_Token reply) (C_seq c))) of
         Inl e \<Rightarrow> (Some (Low e), c, net)
       | Inr out2 \<Rightarrow>
      let net = net\<lparr>N_out := N_out net @ [out2]\<rparr> in
      (case write2 of
         Some e \<Rightarrow> (Some (ctxErr env e), c, net)
       | None \<Rightarrow>
      (case Decode (C_keys c) ServerToClient (N_in net) of
         (Inl e, s) \<Rightarrow> (Some (ctxErr env (read_error env e)), c, net\<lparr>N_in := s\<rparr>)
       | (Inr f, s) \<Rightarrow>
      let net = net\<lparr>N_in := s\<rparr> in
      if Frame_Kind f \<noteq> KindReply \<or> (Typ f \<noteq> RqRecover \<and> Typ f \<noteq> C_lastType c)
      then (Some (IncorrectRecover (Flags f) (Typ f)), c, net)
      else (None, c\<lparr>C_open := True, C_abandoned := []\<rparr>, net))))))))))"

lemma DefaultKeys_ok: "\<exists>dk. DefaultKeys = Inr dk"
  by (simp add: DefaultKeys_def NewKeys_def NewCipher_def DefaultKey_def KeySize_def)

subsection \<open>The closures over a reader\<close>

definition shifts_along :: "info_read \<Rightarrow> bool" where
  "shifts_along f \<longleftrightarrow> (\<forall>info r p e i r'. valid r \<longrightarrow> f info r = (e, i, r') \<longrightarrow>
     f info (shift p r) = (e, i, shift p r') \<and> valid r')"

lemma reader_shift:
  assumes "wire_reader rd" and "valid r"
  shows "rd (shift p r) = (fst (rd r), shift p (snd (rd r)))" and "valid (snd (rd r))"
  using wire_reader.shifts [OF assms, of "fst (rd r)" "snd (rd r)" p] wire_keeps [OF assms, of "fst (rd r)" "snd (rd r)"]
  by simp_all

lemma shifts_store: "wire_reader rd \<Longrightarrow> shifts_along (store rd z put)"
  using reader_shift [of rd] unfolding shifts_along_def store_def
  by (auto simp: split_beta split: sum.splits)

lemma shifts_protocol: "shifts_along read_protocol"
  using reader_shift [OF wire_reader_Uint16] unfolding shifts_along_def read_protocol_def
  by (auto simp: split_beta split: sum.splits)

lemma shifts_required: "list_all shifts_along pwd_required"
  by (simp add: pwd_required_def readByte_def readInt_def shifts_store wire_reader_Byte wire_reader_Int32)

lemma shifts_optional: "list_all shifts_along pwd_optional"
  by (simp add: pwd_optional_def readByte_def readInt_def readString_def shifts_store shifts_protocol
      wire_reader_Byte wire_reader_Int32 wire_reader_String)

lemma run_required_shift:
  assumes "list_all shifts_along fs" and "valid r" and "run_required fs info r = (x, r')"
  shows "run_required fs info (shift p r) = (x, shift p r') \<and> valid r'"
  using assms
proof (induction fs arbitrary: info r)
  case (Cons f fs)
  obtain e i r1 where f: "f info r = (e, i, r1)" by (metis prod.exhaust)
  with Cons.prems have s: "f info (shift p r) = (e, i, shift p r1)" "valid r1"
    by (auto simp: shifts_along_def)
  show ?case
    using Cons.IH [of r1 i] Cons.prems f s by (cases e) auto
qed simp

lemma run_optional_shift:
  assumes "list_all shifts_along fs" and "valid r"
  shows "fst (run_optional fs info (shift p r)) = fst (run_optional fs info r)"
  using assms
proof (induction fs arbitrary: info r)
  case (Cons f fs)
  obtain e i r1 where f: "f info r = (e, i, r1)" by (metis prod.exhaust)
  with Cons.prems have s: "f info (shift p r) = (e, i, shift p r1)" "valid r1"
    by (auto simp: shifts_along_def)
  show ?case
    using Cons.IH [of r1 i] Cons.prems f s by simp
qed simp

subsection \<open>The replies of a server\<close>

text \<open>RQ_PWD: the session keys encrypted under the password key, and the fields.\<close>

definition pwd_reply :: "Cipher \<Rightarrow> bytes \<Rightarrow> bytes \<Rightarrow> bytes \<Rightarrow> bytes" where
  "pwd_reply pk k sync body = 0 # CFBEncrypt pk DefaultSync k @ CFBEncrypt pk DefaultSync sync @ body"

lemma parsePwdReply_pwd_reply:
  assumes "length k = KeySize" and "length sync = SyncSize"
    and "run_required pwd_required zeroInfo (NewReader body) = (Inr info0, r0)"
  shows "parsePwdReply pk (pwd_reply pk k sync body) =
    Inr (fst (run_optional pwd_optional (info0\<lparr>Info_Protocol := 62\<rparr>) r0), k, sync)"
proof -
  let ?p = "0 # CFBEncrypt pk DefaultSync k @ CFBEncrypt pk DefaultSync sync"
  let ?P = "?p @ body"
  have l: "length ?p = 41" using assms by (simp add: cfb.length_enc KeySize_def SyncSize_def)
  have r: "\<lparr>rbuf = ?P, roff = 41\<rparr> = shift ?p (NewReader body)"
    using l by (simp add: shift_def NewReader_def)
  note req = run_required_shift [OF shifts_required valid_NewReader assms(3), of ?p]
  note opt = run_optional_shift [OF shifts_optional, of r0 "info0\<lparr>Info_Protocol := 62\<rparr>" ?p]
  have "parsePwdReply pk (pwd_reply pk k sync body) =
     (case run_required pwd_required zeroInfo \<lparr>rbuf = ?P, roff = 41\<rparr> of
        (Inl e, r) \<Rightarrow> Inl (SWrap ''reply body'' (Low e))
      | (Inr info, r) \<Rightarrow> Inr (fst (run_optional pwd_optional (info\<lparr>Info_Protocol := 62\<rparr>) r), k, sync))"
    using assms(1,2) by (simp add: parsePwdReply_def pwd_reply_def Reader_Byte_def Reader_Raw_def Reader_Len_def NewReader_def
        cfb.length_enc cfb.dec_enc KeySize_def SyncSize_def Let_def split: prod.splits sum.splits)
  then show ?thesis using req opt r by simp
qed

lemma Raw_length: "Reader_Raw (uint (n :: byte)) r = (Inr v, r') \<Longrightarrow> length v \<le> 255"
  using unat_byte_less [of n] by (auto simp: Reader_Raw_def min_def Reader_Len_def split: if_splits)

lemma challenge_length:
  assumes "parseLoginReply p = Inr (challenge, version)"
  shows "length challenge \<le> 255"
  using assms unfolding parseLoginReply_def
  by (auto simp del: Reader_Raw_def split: sum.split_asm prod.split_asm if_split_asm dest: Raw_length)

lemma put_addresses_length: "length (put_addresses w as) \<le> length w + 5 * length as"
proof (induction w as rule: put_addresses.induct)
  case (2 w a as)
  have "length (Writer_Int32 w a) \<le> length w + 5"
    using packed_form_i32_length [of a] by (simp add: Writer_Int32_def appendPacked_append)
  with 2 show ?case by (cases "a = 0") auto
qed simp

lemma PwdPayload_ok:
  assumes "length (Addresses ci) \<le> maxAddresses"
  shows "\<exists>tail. PwdPayload pk challenge ci = Inr (Gamma pk DefaultSync challenge @ tail) \<and> length tail \<le> 200"
proof -
  let ?w0 = "Writer_Int64 (Writer_String (Writer_String (Writer_String [] (ComputerName ci) maxComputerName)
    (UserName ci) maxUserName) (OS ci) maxOSName) (HardwareID ci)"
  have append: "put_addresses (p @ w) as = p @ put_addresses w as" for p w as
    by (induction w as rule: put_addresses.induct) (simp_all add: Writer_Int32_def appendPacked_append)
  have l0: "length ?w0 \<le> 140"
    using packed_form_length(2) [of "HardwareID ci"]
    by (simp add: Writer_Int64_def appendPacked_append Writer_String_cstring cstring_def maxComputerName_def maxUserName_def maxOSName_def)
  have l1: "length (put_addresses ?w0 (Addresses ci)) \<le> 160"
    using put_addresses_length [of ?w0 "Addresses ci"] l0 assms by (simp add: maxAddresses_def)
  have "PwdPayload pk challenge ci = Inr (Gamma pk DefaultSync challenge @
      Writer_Byte (Writer_Int32 (put_addresses ?w0 (Addresses ci)) 0) (Trailer ci))"
    using assms by (simp add: PwdPayload_def Let_def Writer_Raw_def Writer_String_cstring Writer_Int64_def
        Writer_Int32_def Writer_Byte_def appendPacked_append flip: append)
  moreover have "length (Writer_Byte (Writer_Int32 (put_addresses ?w0 (Addresses ci)) 0) (Trailer ci)) \<le> 200"
    using l1 packed_form_i32_length [of 0] by (simp add: Writer_Byte_def Writer_Int32_def appendPacked_append)
  ultimately show ?thesis by blast
qed

lemma LoginPayload_length: "length (LoginPayload login) \<le> MaxPayload"
  by (simp add: LoginPayload_def Let_def Writer_Byte_def Writer_Uint16_def Writer_String_cstring cstring_def maxLogin_def
      MaxPayload_def)

text \<open>C20: connecting to a server that knows the password ends with both sides holding the same keys. The
  server sends a challenge, encrypts the session key and sync value it has chosen under the password
  key, and gets back a proof it can check: decrypted with the password key it is the challenge. The
  connection then has the server's keys, no owed replies, a send counter of two and the server id of
  the reply.\<close>

theorem Login_handshake:
  assumes "DefaultKeys = Inr dk" and "NewCipher (PasswordKey sha1 (Config_Password cfg)) = Inr pk"
    and "parseLoginReply login_reply = Inr (challenge, version)"
    and "NewKeys k sync = Inr session_keys" and "length sync = SyncSize"
    and "run_required pwd_required zeroInfo (NewReader body) = (Inr info0, r0)"
    and "length login_reply \<le> MaxPayload" and "length (pwd_reply pk k sync body) \<le> MaxPayload"
    and "length (Addresses (Config_Client cfg)) \<le> maxAddresses" and "sends env1" and "sends env2"
  shows "\<exists>c info o1 o2 f.
    Login sha1 env1 env2 cfg
      \<lparr>N_in = on_wire dk (reply_of RqLogin login_reply) @ on_wire dk (reply_of RqPwd (pwd_reply pk k sync body)) @ rest,
       N_out = []\<rparr> = (Inr (c, info), \<lparr>N_in = rest, N_out = [o1, o2]\<rparr>)
    \<and> C_keys c = session_keys \<and> C_open c \<and> C_abandoned c = [] \<and> C_seq c = 2 \<and> C_sid c = Info_SID info
    \<and> Info_Version info = version
    \<and> Decode dk ClientToServer o2 = (Inr f, [])
    \<and> Gamma pk DefaultSync (take (length challenge) (Payload f)) = challenge"
proof -
  let ?c = "\<lparr>C_open = True, C_keys = dk,
      C_timeout = (if sint (Config_RequestTimeout cfg) \<le> 0 then DefaultRequestTimeout else Config_RequestTimeout cfg),
      C_sid = 0, C_seq = 0, C_lastType = 0, C_abandoned = []\<rparr>"
  let ?c1 = "count_request RqLogin ?c" and ?c2 = "count_request RqPwd (count_request RqLogin ?c)"
  let ?P = "pwd_reply pk k sync body"
  obtain tail where tail: "PwdPayload pk challenge (Config_Client cfg) = Inr (Gamma pk DefaultSync challenge @ tail)"
      "length tail \<le> 200"
    using PwdPayload_ok [OF assms(9)] by blast
  have l: "length (Gamma pk DefaultSync challenge @ tail) \<le> MaxPayload"
    using tail(2) challenge_length [OF assms(3)] by (simp add: MaxPayload_def)
  have c: "C_open ?c" "C_keys ?c = dk" "C_abandoned ?c = []" by simp_all
  from Request_answered [OF c(1) assms(10) LoginPayload_length [of "Config_Login cfg"] c(3)
      reply_of_frame [OF assms(7), of RqLogin], where rest = "on_wire dk (reply_of RqPwd ?P) @ rest" and out = "[]"]
  obtain o1 where r1: "Request env1 RqLogin (LoginPayload (Config_Login cfg)) ?c
      \<lparr>N_in = on_wire dk (reply_of RqLogin login_reply) @ on_wire dk (reply_of RqPwd ?P) @ rest, N_out = []\<rparr>
      = (Inr login_reply, ?c1, \<lparr>N_in = on_wire dk (reply_of RqPwd ?P) @ rest, N_out = [o1]\<rparr>)"
    by auto
  have c1: "C_open ?c1" "C_keys ?c1 = dk" "C_abandoned ?c1 = []" by simp_all
  from Request_answered [OF c1(1) assms(11) l c1(3) reply_of_frame [OF assms(8), of RqPwd],
      where rest = rest and out = "[o1]"]
  obtain o2 where r2: "Request env2 RqPwd (Gamma pk DefaultSync challenge @ tail) ?c1
      \<lparr>N_in = on_wire dk (reply_of RqPwd ?P) @ rest, N_out = [o1]\<rparr> = (Inr ?P, ?c2, \<lparr>N_in = rest, N_out = [o1, o2]\<rparr>)"
    and e2: "Encode dk ClientToServer (sendRequest RqPwd (Gamma pk DefaultSync challenge @ tail)) = Inr o2"
    by auto
  have k: "length k = KeySize"
    using assms(4) by (auto simp: NewKeys_def NewCipher_def split: sum.splits if_splits)
  let ?info = "fst (run_optional pwd_optional (info0\<lparr>Info_Protocol := 62\<rparr>) r0)"
  have "Login sha1 env1 env2 cfg
      \<lparr>N_in = on_wire dk (reply_of RqLogin login_reply) @ on_wire dk (reply_of RqPwd ?P) @ rest, N_out = []\<rparr> =
      (Inr (?c2\<lparr>C_keys := session_keys, C_sid := Info_SID ?info\<rparr>, ?info\<lparr>Info_Version := version\<rparr>),
       \<lparr>N_in = rest, N_out = [o1, o2]\<rparr>)"
    unfolding Login_def assms(1) Let_def sum.case
    by (simp add: r1 r2 assms(2-4) tail(1) parsePwdReply_pwd_reply [OF k assms(5,6)])
  moreover have "C_seq ?c2 = 2"
    by (simp add: count_request_def RqLogin_def RqPwd_def RqRelogin_def RqRecover_def)
  moreover have "Decode dk ClientToServer o2 = (Inr (sendRequest RqPwd (Gamma pk DefaultSync challenge @ tail)), [])"
    using Decode_request [OF e2, of "[]"] by simp
  moreover have "Gamma pk DefaultSync (take (length challenge)
      (Payload (sendRequest RqPwd (Gamma pk DefaultSync challenge @ tail)))) = challenge"
    by (simp add: sendRequest_def Gamma_Gamma)
  ultimately show ?thesis by fastforce
qed

lemma example_body: "\<exists>info0 r0. run_required pwd_required zeroInfo (NewReader (replicate 9 0)) = (Inr info0, r0)"
  by (simp add: pwd_required_def readByte_def readInt_def store_def Reader_Byte_def Reader_Int32_def Reader_packed_def
      Reader_Len_def NewReader_def packed_value_def Let_def eval_nat_numeral)

theorem Login_handshake_witness:
  "\<exists>dk pk c info net o1 o2. Login (\<lambda>_. replicate 20 0) example_env example_env
      \<lparr>Config_Login = [65], Config_Password = [66],
        Config_Client = \<lparr>ComputerName = [], UserName = [], OS = [], HardwareID = 0, Addresses = [5], Trailer = 0\<rparr>,
        Config_RequestTimeout = 0\<rparr>
      \<lparr>N_in = on_wire dk (reply_of RqLogin [0, 1, 7])
         @ on_wire dk (reply_of RqPwd (pwd_reply pk (replicate 32 0) (replicate 8 0) (replicate 9 0))) @ [], N_out = []\<rparr>
    = (Inr (c, info), \<lparr>N_in = [], N_out = [o1, o2]\<rparr>)
    \<and> C_keys c = \<lparr>kcipher = \<lparr>ck = replicate 8 0\<rparr>, ksync = replicate 8 0\<rparr> \<and> C_seq c = 2"
proof -
  let ?cfg = "\<lparr>Config_Login = [65], Config_Password = [66],
        Config_Client = \<lparr>ComputerName = [], UserName = [], OS = [], HardwareID = 0, Addresses = [5], Trailer = 0\<rparr>,
        Config_RequestTimeout = 0\<rparr>"
  obtain dk where dk: "DefaultKeys = Inr dk" using DefaultKeys_ok by blast
  have "\<exists>pk. NewCipher (PasswordKey (\<lambda>_. replicate 20 0) (Config_Password ?cfg)) = Inr pk"
    by (simp add: NewCipher_def PasswordKey_def length_expandKey)
  then obtain pk where pk: "NewCipher (PasswordKey (\<lambda>_. replicate 20 0) (Config_Password ?cfg)) = Inr pk" by blast
  obtain info0 r0 where b: "run_required pwd_required zeroInfo (NewReader (replicate 9 0)) = (Inr info0, r0)"
    using example_body by blast
  have ch: "parseLoginReply [0, 1, 7] = Inr ([7], None)"
    by (simp add: parseLoginReply_def Reader_Byte_def Reader_Raw_def Reader_Len_def NewReader_def
        loginRejected4_def loginRejected8_def loginHasVersion_def)
  have ks: "NewKeys (replicate 32 0) (replicate 8 0) = Inr \<lparr>kcipher = \<lparr>ck = replicate 8 0\<rparr>, ksync = replicate 8 0\<rparr>"
    by (simp add: NewKeys_def NewCipher_def KeySize_def le32_def map_replicate_const upt_rec eval_nat_numeral)
  have s: "sends example_env" by (simp add: sends_def example_env_def)
  from Login_handshake [OF dk pk ch ks _ b _ _ _ s s, of "[]"] show ?thesis
    by (fastforce simp: MaxPayload_def SyncSize_def maxAddresses_def pwd_reply_def cfb.length_enc)
qed

subsection \<open>The short recovery\<close>

lemma RecoverPayload_eq: "RecoverPayload token n = token @ Writer_Int32 [] n"
  by (simp add: RecoverPayload_def Writer_Raw_def i32_codec.put_append [of token])


text \<open>And it does succeed with a server that answers.\<close>

lemma Restore_succeeds:
  assumes "sends env" and "DefaultKeys = Inr dk" and "reply_frame f1" and "Typ f1 = RqRelogin"
    and "ParseReloginReply (Payload f1) = Inr reply" and "Relogin_SID reply = C_sid c"
    and "reply_frame f2" and "Typ f2 = RqRecover \<or> Typ f2 = C_lastType c" and "length (Relogin_Token reply) \<le> 255"
  shows "\<exists>net'. Restore env None login c \<lparr>N_in = on_wire dk f1 @ on_wire (C_keys c) f2, N_out = out\<rparr> =
    (None, c\<lparr>C_open := True, C_abandoned := []\<rparr>, net')"
proof -
  have "length (ReloginPayload login) \<le> MaxPayload"
    by (simp add: ReloginPayload_def Writer_String_cstring cstring_def maxLogin_def MaxPayload_def min_def)
  from Encode_request [OF this, of dk ClientToServer RqRelogin] obtain o1 where
    o1: "Encode dk ClientToServer (sendRequest RqRelogin (ReloginPayload login)) = Inr o1" by blast
  have "length (RecoverPayload (Relogin_Token reply) (C_seq c)) \<le> MaxPayload"
    using packed_form_i32_length [of "C_seq c"] assms(9)
    by (simp add: RecoverPayload_eq Writer_Int32_def appendPacked_append MaxPayload_def)
  from Encode_request [OF this, of "C_keys c" ClientToServer RqRecover] obtain o2 where
    o2: "Encode (C_keys c) ClientToServer (sendRequest RqRecover (RecoverPayload (Relogin_Token reply) (C_seq c))) = Inr o2"
    by blast
  have k: "Frame_Kind f = KindReply" "Frame_Kind f \<noteq> KindBye" "length (Payload f) \<le> MaxPayload" if "reply_frame f" for f
    using that by (simp_all add: reply_frame_def KindReply_def KindBye_def)
  have d: "Decode (C_keys c) ServerToClient (on_wire (C_keys c) f2) = (Inr f2, [])"
    using Decode_on_wire [OF k(3) [OF assms(7)], of "C_keys c" "[]"] by simp
  show ?thesis
    using assms(1,2,4-6,8) o1 o2 d k(1,2) [OF assms(3)] k(1) [OF assms(7)] Decode_on_wire [OF k(3) [OF assms(3)]]
    unfolding Restore_def sends_def Let_def assms(2) by simp
qed


end
