(* ===== verification/Market_Events.thy ===== *)
theory Market_Events
  imports Catalog
begin

text \<open>
  The typed market events the client builds from decoded records and the catalog: order books
  (\<open>records/quote.go\<close>), quotations (\<open>quotation.go\<close>), candle series (\<open>candles.go\<close>), ticks
  (\<open>ticks.go\<close>), parameter updates (\<open>secparam.go\<close>), client trades (\<open>clienttrade.go\<close>), stop orders
  (\<open>stoporder.go\<close>), and the filter of repeated trades (\<open>TradeDedup\<close> of \<open>alltrade.go\<close>). A catalog that
  may be nil is an option; a Go pointer field that is nil when absent is an option.

  Parameters: \<open>fmt6g\<close> is \<open>fmt.Sprintf("%.6g")\<close> on a float64, \<open>hundredths\<close> is
  \<open>int64(math.Round(v * 100))\<close>. Both are floating-point arithmetic.
\<close>

unbundle bit_operations_syntax

record Symbol =
  Symbol_Board :: bytes
  Symbol_SecCode :: bytes

definition zeroSymbol :: Symbol where
  "zeroSymbol = \<lparr>Symbol_Board = [], Symbol_SecCode = []\<rparr>"

subsection \<open>Order books\<close>

record Quote =
  Quote_Symbol :: Symbol
  Quote_SecID :: u16
  Quote_Price :: Decimal
  Quote_Buy :: i64
  Quote_Sell :: i64

record QuotesEvent =
  QuotesEvent_Symbol :: Symbol
  QuotesEvent_SecID :: u16
  QuotesEvent_Board :: bytes
  QuotesEvent_Levels :: "Quote list"

definition quote_of :: "Symbol \<Rightarrow> u16 \<Rightarrow> byte \<Rightarrow> QuoteLevel \<Rightarrow> Quote" where
  "quote_of sm secid decimals level =
     (let quote = \<lparr>Quote_Symbol = sm, Quote_SecID = secid,
            Quote_Price = \<lparr>Units = QuoteLevel_Price level, Scale = decimals\<rparr>, Quote_Buy = 0, Quote_Sell = 0\<rparr>
      in if QuoteLevel_Deleted level
         then (if QuoteLevel_Side level = 66 then quote\<lparr>Quote_Buy := -1\<rparr> else quote\<lparr>Quote_Sell := -1\<rparr>)
         else if QuoteLevel_Side level = 66 then quote\<lparr>Quote_Buy := QuoteLevel_Qty level\<rparr>
         else quote\<lparr>Quote_Sell := QuoteLevel_Qty level\<rparr>)"

definition board_code :: "Catalog \<Rightarrow> u16 \<Rightarrow> bytes" where
  "board_code cat num = (case Catalog_Board cat num of Some b \<Rightarrow> Board_Code b | None \<Rightarrow> [])"

definition Quotes_Event :: "Catalog option \<Rightarrow> Quotes \<Rightarrow> QuotesEvent" where
  "Quotes_Event cat q =
     (let (sm, board, decimals) =
        (case cat of
           None \<Rightarrow> (zeroSymbol, [], 0)
         | Some cat \<Rightarrow>
             (case Security cat (Quotes_SecID q) of
                None \<Rightarrow> (zeroSymbol, [], 0)
              | Some sec \<Rightarrow>
                  let sm = \<lparr>Symbol_Board = board_code cat (Quotes_Board q), Symbol_SecCode = SecNew_SecCode sec\<rparr>
                  in (sm, Symbol_Board sm,
                      (case Decimals cat (Quotes_SecID q) (Quotes_Board q) of Some d \<Rightarrow> d | None \<Rightarrow> 0))))
      in \<lparr>QuotesEvent_Symbol = sm, QuotesEvent_SecID = Quotes_SecID q, QuotesEvent_Board = board,
          QuotesEvent_Levels = map (quote_of sm (Quotes_SecID q) decimals) (Quotes_Levels q)\<rparr>)"

subsection \<open>point_cost\<close>

text \<open>\<open>pointCostDecimal\<close> on the text of \<open>%.6g\<close>; \<open>Atoi\<close> and \<open>ParseInt\<close> read the same digits.\<close>

definition index_byte :: "(char \<Rightarrow> bool) \<Rightarrow> string \<Rightarrow> nat option" where
  "index_byte P s = (let i = length (takeWhile (\<lambda>c. \<not> P c) s) in if i < length s then Some i else None)"

primrec times10 :: "nat \<Rightarrow> i64 \<Rightarrow> i64" where
  "times10 0 v = v"
| "times10 (Suc n) v = times10 n (v * 10)"

definition pointCostDecimal :: "(float64 \<Rightarrow> string) \<Rightarrow> float64 \<Rightarrow> Decimal" where
  "pointCostDecimal fmt6g v =
     (let s = fmt6g v;
          neg = (case s of c # _ \<Rightarrow> c = CHR ''-'' | [] \<Rightarrow> False);
          s = (if neg then tl s else s)
      in case index_byte (\<lambda>c. c = CHR ''e'' \<or> c = CHR ''E'') s of
           Some i \<Rightarrow>
             let mantissa = take i s in
             (case ParseInt (drop (i + 1) s) of
                Inl e \<Rightarrow> zeroDecimal
              | Inr expo \<Rightarrow>
                  let (frac, mantissa) =
                    (case index_byte (\<lambda>c. c = CHR ''.'') mantissa of
                       Some d \<Rightarrow> (int (length mantissa) - int d - 1, take d mantissa @ drop (d + 1) mantissa)
                     | None \<Rightarrow> (0, mantissa))
                  in (case ParseInt mantissa of
                        Inl e \<Rightarrow> zeroDecimal
                      | Inr units \<Rightarrow>
                          let scale = frac - sint expo;
                              units = times10 (nat (- scale)) units;
                              scale = max 0 scale
                          in \<lparr>Units = (if neg then - units else units), Scale = word_of_int scale\<rparr>))
         | None \<Rightarrow>
             (case (case index_byte (\<lambda>c. c = CHR ''.'') s of
                      Some i \<Rightarrow> (case ParseInt (take i s @ drop (i + 1) s) of
                          Inr units \<Rightarrow> Some (units, int (length s) - int i - 1) | Inl _ \<Rightarrow> None)
                    | None \<Rightarrow> None) of
                Some (units, scale) \<Rightarrow> \<lparr>Units = (if neg then - units else units), Scale = word_of_int scale\<rparr>
              | None \<Rightarrow>
                  (case ParseInt s of
                     Inl e \<Rightarrow> zeroDecimal
                   | Inr units \<Rightarrow> \<lparr>Units = (if neg then - units else units), Scale = 0\<rparr>)))"

text \<open>\<open>v == 0\<close> holds of both zeros.\<close>

definition pointCostPtr :: "(float64 \<Rightarrow> string) \<Rightarrow> float64 \<Rightarrow> Decimal option" where
  "pointCostPtr fmt6g v = (if v = 0 \<or> v = push_bit 63 1 then None else Some (pointCostDecimal fmt6g v))"

subsection \<open>Wall-clock text\<close>

definition two :: "int \<Rightarrow> string" where
  "two v = (if v < 10 then ''0'' @ FormatUint (nat v) else FormatUint (nat v))"

definition formatSecondsOfDay :: "int \<Rightarrow> string" where
  "formatSecondsOfDay sec = two (sec div 3600) @ '':'' @ two ((sec mod 3600) div 60) @ '':'' @ two (sec mod 60)"

text \<open>Day, month and year of a day count since 1970 (proleptic Gregorian calendar, in years that
  begin in March).\<close>

definition civil :: "int \<Rightarrow> int \<times> int \<times> int" where
  "civil days =
     (let z = days + 719468;
          era = z div 146097;
          doe = z mod 146097;
          yoe = (doe - doe div 1460 + doe div 36524 - doe div 146096) div 365;
          doy = doe - (365 * yoe + yoe div 4 - yoe div 100);
          mp = (5 * doy + 2) div 153;
          d = doy - (153 * mp + 2) div 5 + 1;
          m = (if mp < 10 then mp + 3 else mp - 9);
          y = yoe + era * 400 + (if m \<le> 2 then 1 else 0)
      in (d, m, y))"

text \<open>\<open>time.Unix(raw, 0).UTC().Format("02.01.2006 15:04:05")\<close> in the years 1000 to 9999.\<close>

definition format_unix :: "int \<Rightarrow> string" where
  "format_unix raw =
     (case civil (raw div 86400) of
        (d, m, y) \<Rightarrow> two d @ ''.'' @ two m @ ''.'' @ FormatUint (nat y) @ '' '' @ formatSecondsOfDay (raw mod 86400))"

definition quotationTimePtr :: "i64 \<Rightarrow> string" where
  "quotationTimePtr raw =
     (if sint raw \<ge> 0 \<and> sint raw < 86400 then formatSecondsOfDay (sint raw) else format_unix (sint raw))"

subsection \<open>Quotations\<close>

text \<open>The fields the code can set; those the protocol names but the code never sets are left out.\<close>

record QuotationFields =
  QF_BidDepth :: "i64 option"
  QF_NumBids :: "i64 option"
  QF_OfferDepth :: "i64 option"
  QF_NumOffers :: "i64 option"
  QF_BidDepthT :: "i64 option"
  QF_OfferDepthT :: "i64 option"
  QF_Bid :: "Decimal option"
  QF_Offer :: "Decimal option"
  QF_NumTrades :: "i64 option"
  QF_VolToday :: "i64 option"
  QF_OpenPositions :: "i64 option"
  QF_Quantity :: "i64 option"
  QF_Time :: "string option"
  QF_Last :: "Decimal option"
  QF_Change :: "Decimal option"
  QF_PriceMinusPrevWaPrice :: "Decimal option"
  QF_ValToday :: "Decimal option"
  QF_WaPrice :: "Decimal option"
  QF_HighBid :: "Decimal option"
  QF_LowOffer :: "Decimal option"
  QF_High :: "Decimal option"
  QF_Low :: "Decimal option"
  QF_Open :: "Decimal option"
  QF_ClosePrice :: "Decimal option"
  QF_Status :: "byte option"
  QF_TradingStatus :: "byte option"
  QF_LCurrentPrice :: "Decimal option"
  QF_BuyDeposit :: "Decimal option"
  QF_SellDeposit :: "Decimal option"
  QF_PointCost :: "Decimal option"

definition noFields :: QuotationFields where
  "noFields = \<lparr>QF_BidDepth = None, QF_NumBids = None, QF_OfferDepth = None, QF_NumOffers = None,
     QF_BidDepthT = None, QF_OfferDepthT = None, QF_Bid = None, QF_Offer = None, QF_NumTrades = None,
     QF_VolToday = None, QF_OpenPositions = None, QF_Quantity = None, QF_Time = None, QF_Last = None,
     QF_Change = None, QF_PriceMinusPrevWaPrice = None, QF_ValToday = None, QF_WaPrice = None,
     QF_HighBid = None, QF_LowOffer = None, QF_High = None, QF_Low = None, QF_Open = None,
     QF_ClosePrice = None, QF_Status = None, QF_TradingStatus = None, QF_LCurrentPrice = None,
     QF_BuyDeposit = None, QF_SellDeposit = None, QF_PointCost = None\<rparr>"

record Quotation =
  Quotation_Symbol :: Symbol
  Quotation_SecID :: u16
  Quotation_Board :: bytes
  Quotation_Fields :: QuotationFields

text \<open>
  \<open>quotationIntBits\<close>, \<open>quotationPriceBits\<close> and \<open>quotationOtherBits\<close>, each with the field its name
  selects. A status is kept as the byte that \<open>string(rune(byte(raw)))\<close> encodes.
\<close>

definition quotationIntBits :: "(nat \<times> (i64 \<Rightarrow> QuotationFields \<Rightarrow> QuotationFields)) list" where
  "quotationIntBits =
    [(0, \<lambda>v f. f\<lparr>QF_BidDepthT := Some v\<rparr>), (1, \<lambda>v f. f\<lparr>QF_NumBids := Some v\<rparr>),
     (2, \<lambda>v f. f\<lparr>QF_OfferDepthT := Some v\<rparr>), (3, \<lambda>v f. f\<lparr>QF_NumOffers := Some v\<rparr>),
     (4, \<lambda>v f. f\<lparr>QF_BidDepth := Some v\<rparr>), (5, \<lambda>v f. f\<lparr>QF_OfferDepth := Some v\<rparr>),
     (8, \<lambda>v f. f\<lparr>QF_NumTrades := Some v\<rparr>), (9, \<lambda>v f. f\<lparr>QF_VolToday := Some v\<rparr>),
     (10, \<lambda>v f. f\<lparr>QF_OpenPositions := Some v\<rparr>), (12, \<lambda>v f. f\<lparr>QF_Quantity := Some v\<rparr>)]"

definition quotationPriceBits :: "(nat \<times> (Decimal \<Rightarrow> QuotationFields \<Rightarrow> QuotationFields)) list" where
  "quotationPriceBits =
    [(6, \<lambda>v f. f\<lparr>QF_Bid := Some v\<rparr>), (7, \<lambda>v f. f\<lparr>QF_Offer := Some v\<rparr>),
     (14, \<lambda>v f. f\<lparr>QF_Last := Some v\<rparr>), (15, \<lambda>v f. f\<lparr>QF_Change := Some v\<rparr>),
     (16, \<lambda>v f. f\<lparr>QF_PriceMinusPrevWaPrice := Some v\<rparr>), (20, \<lambda>v f. f\<lparr>QF_WaPrice := Some v\<rparr>),
     (26, \<lambda>v f. f\<lparr>QF_HighBid := Some v\<rparr>), (27, \<lambda>v f. f\<lparr>QF_LowOffer := Some v\<rparr>),
     (28, \<lambda>v f. f\<lparr>QF_High := Some v\<rparr>), (29, \<lambda>v f. f\<lparr>QF_Low := Some v\<rparr>),
     (30, \<lambda>v f. f\<lparr>QF_Open := Some v\<rparr>), (31, \<lambda>v f. f\<lparr>QF_ClosePrice := Some v\<rparr>),
     (42, \<lambda>v f. f\<lparr>QF_LCurrentPrice := Some v\<rparr>)]"

definition quotationOtherBits :: "(nat \<times> (i64 \<Rightarrow> QuotationFields \<Rightarrow> QuotationFields)) list" where
  "quotationOtherBits =
    [(13, \<lambda>v f. f\<lparr>QF_Time := Some (quotationTimePtr v)\<rparr>),
     (18, \<lambda>v f. f\<lparr>QF_ValToday := Some \<lparr>Units = v, Scale = 3\<rparr>\<rparr>),
     (33, \<lambda>v f. f\<lparr>QF_Status := Some (ucast v)\<rparr>), (34, \<lambda>v f. f\<lparr>QF_TradingStatus := Some (ucast v)\<rparr>),
     (54, \<lambda>v f. f\<lparr>QF_BuyDeposit := Some \<lparr>Units = v, Scale = 2\<rparr>\<rparr>),
     (55, \<lambda>v f. f\<lparr>QF_SellDeposit := Some \<lparr>Units = v, Scale = 2\<rparr>\<rparr>)]"

definition apply_bit :: "byte option \<Rightarrow> nat \<Rightarrow> i64 \<Rightarrow> QuotationFields \<Rightarrow> QuotationFields" where
  "apply_bit decimals b raw f =
     (case map_of quotationIntBits b of
        Some put \<Rightarrow> put raw f
      | None \<Rightarrow>
          (case map_of quotationPriceBits b of
             Some put \<Rightarrow> (case decimals of None \<Rightarrow> f | Some d \<Rightarrow> put \<lparr>Units = raw, Scale = d\<rparr> f)
           | None \<Rightarrow> (case map_of quotationOtherBits b of Some put \<Rightarrow> put raw f | None \<Rightarrow> f)))"

definition quotationPit :: "SecNew \<Rightarrow> u16 \<Rightarrow> Pit option" where
  "quotationPit sec board = List.find (\<lambda>p. Pit_Board p = board) (SecNew_Pits sec)"

text \<open>\<open>for bit, raw := range q.Values\<close>: \<open>bits\<close> is the order in which the range visits the map.\<close>

definition apply_values :: "byte option \<Rightarrow> (nat \<rightharpoonup> i64) \<Rightarrow> nat list \<Rightarrow> QuotationFields \<Rightarrow> QuotationFields" where
  "apply_values decimals values bits f =
     fold (\<lambda>b f. case values b of Some raw \<Rightarrow> apply_bit decimals b raw f | None \<Rightarrow> f) bits f"

definition Quotation_Event ::
  "(float64 \<Rightarrow> string) \<Rightarrow> nat list \<Rightarrow> Catalog option \<Rightarrow> WireQuotation \<Rightarrow> Quotation" where
  "Quotation_Event fmt6g bits cat q =
     (let ev = \<lparr>Quotation_Symbol = zeroSymbol, Quotation_SecID = WireQuotation_SecID q, Quotation_Board = [],
                Quotation_Fields = noFields\<rparr>
      in case cat of
           None \<Rightarrow> ev
         | Some cat \<Rightarrow>
             (case Security cat (WireQuotation_SecID q) of
                None \<Rightarrow> ev\<lparr>Quotation_Fields := apply_values None (WireQuotation_Values q) bits noFields\<rparr>
              | Some sec \<Rightarrow>
                  let sm = \<lparr>Symbol_Board = board_code cat (WireQuotation_Board q), Symbol_SecCode = SecNew_SecCode sec\<rparr>;
                      decimals = (case Decimals cat (WireQuotation_SecID q) (WireQuotation_Board q) of
                          Some d \<Rightarrow> Some d
                        | None \<Rightarrow> map_option Pit_Decimals (quotationPit sec (WireQuotation_Board q)));
                      f = (case quotationPit sec (WireQuotation_Board q) of
                          Some p \<Rightarrow> noFields\<lparr>QF_PointCost := pointCostPtr fmt6g (Pit_PointCost p)\<rparr>
                        | None \<Rightarrow> noFields)
                  in ev\<lparr>Quotation_Symbol := sm, Quotation_Board := Symbol_Board sm,
                        Quotation_Fields := apply_values decimals (WireQuotation_Values q) bits f\<rparr>))"

subsection \<open>Candles\<close>

record Candle =
  Candle_Time :: GoTime
  Candle_Open :: Decimal
  Candle_Close :: Decimal
  Candle_High :: Decimal
  Candle_Low :: Decimal
  Candle_Volume :: i64
  Candle_OpenInterest :: "i64 option"

text \<open>The only warning is the one of an unknown period, which carries the period.\<close>

record Candles =
  Candles_Symbol :: Symbol
  Candles_SecID :: u16
  Candles_Period :: int
  Candles_Status :: int
  Candles_Items :: "Candle list"
  Candles_Warnings :: "byte list"
  Candles_ZoneBias :: i64

definition noCandles :: Candles where
  "noCandles = \<lparr>Candles_Symbol = zeroSymbol, Candles_SecID = 0, Candles_Period = 0, Candles_Status = 0,
     Candles_Items = [], Candles_Warnings = [], Candles_ZoneBias = 0\<rparr>"

definition periodSeconds :: "Catalog option \<Rightarrow> byte \<Rightarrow> i64 option" where
  "periodSeconds cat period =
     (case (case cat of
              None \<Rightarrow> None
            | Some cat \<Rightarrow> List.find (\<lambda>k. CandleKind_ID k = period \<and> sint (CandleKind_Period k) > 0)
                (CandleKinds (Cat_startup cat))) of
        Some k \<Rightarrow> Some (scast (CandleKind_Period k))
      | None \<Rightarrow> if period = 1 then Some 60 else None)"

definition candle_of_item :: "i64 option \<Rightarrow> byte \<Rightarrow> i64 \<Rightarrow> i64 \<Rightarrow> WireCandle \<Rightarrow> Candle" where
  "candle_of_item seconds decimals bias units item =
     \<lparr>Candle_Time = (case seconds of Some s \<Rightarrow> Time_Add (Unix (units * s)) bias | None \<Rightarrow> zeroTime),
      Candle_Open = \<lparr>Units = WireCandle_Open item, Scale = decimals\<rparr>,
      Candle_Close = \<lparr>Units = WireCandle_Open item + WireCandle_Close item, Scale = decimals\<rparr>,
      Candle_High = \<lparr>Units = WireCandle_Open item + WireCandle_High item, Scale = decimals\<rparr>,
      Candle_Low = \<lparr>Units = WireCandle_Open item + WireCandle_Low item, Scale = decimals\<rparr>,
      Candle_Volume = WireCandle_Volume item,
      Candle_OpenInterest = (if WireCandle_HasOI item then Some (WireCandle_OI item) else None)\<rparr>"

text \<open>The loop over the items: the time of the first is absolute, the others are differences.\<close>

primrec candle_loop :: "i64 option \<Rightarrow> byte \<Rightarrow> i64 \<Rightarrow> i64 \<Rightarrow> WireCandle list \<Rightarrow> Candle list" where
  "candle_loop seconds decimals bias units [] = []"
| "candle_loop seconds decimals bias units (item # items) =
     (let units = units + WireCandle_Time item
      in candle_of_item seconds decimals bias units item # candle_loop seconds decimals bias units items)"

text \<open>\<open>units\<close> starts at 0, so that the first round assigns the absolute time.\<close>

definition Candles_Event :: "Catalog option \<Rightarrow> i64 \<Rightarrow> WireCandles \<Rightarrow> Candles" where
  "Candles_Event cat bias c =
     (let (sm, decimals) =
        (case cat of
           None \<Rightarrow> (zeroSymbol, 0)
         | Some cat \<Rightarrow>
             (case Security cat (WireCandles_SecID c) of
                None \<Rightarrow> (zeroSymbol, 0)
              | Some sec \<Rightarrow>
                  let decimals = (case Decimals cat (WireCandles_SecID c) (WireCandles_Board c) of Some d \<Rightarrow> d | None \<Rightarrow> 0)
                  in (\<lparr>Symbol_Board = board_code cat (WireCandles_Board c), Symbol_SecCode = SecNew_SecCode sec\<rparr>,
                      if decimals = 0
                      then (case quotationPit sec (WireCandles_Board c) of Some p \<Rightarrow> Pit_Decimals p | None \<Rightarrow> decimals)
                      else decimals)));
          seconds = periodSeconds cat (WireCandles_Period c)
      in \<lparr>Candles_Symbol = sm, Candles_SecID = WireCandles_SecID c, Candles_Period = uint (WireCandles_Period c),
          Candles_Status = WireCandles_Status c,
          Candles_Items = rev (candle_loop seconds decimals bias 0 (WireCandles_Items c)),
          Candles_Warnings = (if seconds = None then [WireCandles_Period c] else []),
          Candles_ZoneBias = bias\<rparr>)"

definition combine_part :: "Catalog option \<Rightarrow> i64 \<Rightarrow> Candles \<Rightarrow> WireCandles \<Rightarrow> Candles" where
  "combine_part cat bias out part =
     (let ev = Candles_Event cat bias part
      in \<lparr>Candles_Symbol = Candles_Symbol ev, Candles_SecID = Candles_SecID ev, Candles_Period = Candles_Period ev,
          Candles_Status = Candles_Status ev, Candles_Items = Candles_Items ev @ Candles_Items out,
          Candles_Warnings = Candles_Warnings out @ filter (\<lambda>w. w \<notin> set (Candles_Warnings out)) (Candles_Warnings ev),
          Candles_ZoneBias = Candles_ZoneBias ev\<rparr>)"

definition CombineCandles :: "Catalog option \<Rightarrow> i64 \<Rightarrow> WireCandles list \<Rightarrow> Candles" where
  "CombineCandles cat bias parts = foldl (combine_part cat bias) noCandles parts"

subsection \<open>Ticks of RQ_TICKS\<close>

record Tick =
  Tick_Symbol :: Symbol
  Tick_Board :: bytes
  Tick_SecID :: u16
  Tick_TradeNo :: i64
  Tick_Time :: GoTime
  Tick_Price :: Decimal
  Tick_Quantity :: i64
  Tick_Period :: byte
  Tick_BuySell :: byte

definition Tick_Event :: "Catalog option \<Rightarrow> WireTick \<Rightarrow> Tick" where
  "Tick_Event cat t =
     (let ev = \<lparr>Tick_Symbol = zeroSymbol, Tick_Board = [], Tick_SecID = WireTick_SecID t, Tick_TradeNo = WireTick_TradeNo t,
            Tick_Time = Unix (WireTick_Time t), Tick_Price = zeroDecimal, Tick_Quantity = WireTick_Volume t,
            Tick_Period = WireTick_Field t, Tick_BuySell = 0\<rparr>
      in case cat of
           None \<Rightarrow> ev
         | Some cat \<Rightarrow>
             (case Security cat (WireTick_SecID t) of
                None \<Rightarrow> ev
              | Some sec \<Rightarrow>
                  ev\<lparr>Tick_Symbol := \<lparr>Symbol_Board = board_code cat (WireTick_Board t), Symbol_SecCode = SecNew_SecCode sec\<rparr>,
                     Tick_Price := (case Decimals cat (WireTick_SecID t) (WireTick_Board t) of
                        Some d \<Rightarrow> \<lparr>Units = WireTick_Price t, Scale = d\<rparr> | None \<Rightarrow> zeroDecimal)\<rparr>))"

subsection \<open>Security parameters and specifications\<close>

text \<open>\<open>moneyDecimal\<close>: the wire value is hundredths; the model's \<open>money\<close>.\<close>

record SecInfoUpdate =
  SIU_Symbol :: Symbol
  SIU_SecID :: u16
  SIU_Market :: int
  SIU_Kind :: byte
  SIU_BuyDeposit :: "Decimal option"
  SIU_SellDeposit :: "Decimal option"
  SIU_MinPrice :: "Decimal option"
  SIU_MaxPrice :: "Decimal option"
  SIU_BgoC :: "Decimal option"
  SIU_BgoNC :: "Decimal option"
  SIU_BgoBuy :: "Decimal option"
  SIU_PointCost :: "Decimal option"

definition defaultPitDecimals :: "SecNew \<Rightarrow> byte" where
  "defaultPitDecimals sec =
     (case SecNew_DefaultPit sec of
        Some p \<Rightarrow> Pit_Decimals p
      | None \<Rightarrow> (case SecNew_Pits sec of p # _ \<Rightarrow> Pit_Decimals p | [] \<Rightarrow> 0))"

definition opt_when :: "bool \<Rightarrow> 'a \<Rightarrow> 'a option" where
  "opt_when c v = (if c then Some v else None)"

definition SecParam_SecInfoUpdate :: "(float64 \<Rightarrow> string) \<Rightarrow> SecParam \<Rightarrow> SecNew \<Rightarrow> SecInfoUpdate" where
  "SecParam_SecInfoUpdate fmt6g p sec =
     (let u = \<lparr>SIU_Symbol = \<lparr>Symbol_Board = [], Symbol_SecCode = SecNew_SecCode sec\<rparr>, SIU_SecID = SecParam_SecID p,
            SIU_Market = uint (SecNew_Market sec), SIU_Kind = SecNew_Kind sec, SIU_BuyDeposit = None,
            SIU_SellDeposit = None, SIU_MinPrice = None, SIU_MaxPrice = None, SIU_BgoC = None, SIU_BgoNC = None,
            SIU_BgoBuy = None, SIU_PointCost = None\<rparr>;
          m = SecParam_Mask p;
          opt = (SecNew_Kind sec = 5 \<or> (SecNew_Kind sec \<noteq> 4 \<and> m AND 4 \<noteq> 0));
          u = (if opt
               then u\<lparr>SIU_BgoC := opt_when (m AND 1 \<noteq> 0) (money (SecParam_BgoC p)),
                      SIU_BgoNC := opt_when (m AND 2 \<noteq> 0) (money (SecParam_BgoNC p)),
                      SIU_BgoBuy := opt_when (m AND 4 \<noteq> 0) (money (SecParam_BgoBuy p))\<rparr>
               else u\<lparr>SIU_BuyDeposit := opt_when (m AND 1 \<noteq> 0) (money (SecParam_BuyDeposit p)),
                      SIU_SellDeposit := opt_when (m AND 2 \<noteq> 0) (money (SecParam_SellDeposit p)),
                      SIU_MinPrice := opt_when (SecParam_HasMin p) \<lparr>Units = SecParam_MinPrice p, Scale = defaultPitDecimals sec\<rparr>,
                      SIU_MaxPrice := opt_when (SecParam_HasMax p) \<lparr>Units = SecParam_MaxPrice p, Scale = defaultPitDecimals sec\<rparr>\<rparr>)
      in u\<lparr>SIU_PointCost := opt_when (SecParam_HasPointCost p) (pointCostDecimal fmt6g (SecParam_PointCost p))\<rparr>)"

text \<open>The fields of \<open>SecInfo\<close> that \<open>Info\<close> sets.\<close>

record SecInfo =
  SecInfo_Symbol :: Symbol
  SecInfo_SecID :: u16
  SecInfo_SecName :: bytes
  SecInfo_SecCode :: bytes
  SecInfo_Market :: int
  SecInfo_PName :: bytes
  SecInfo_MatDate :: "GoTime option"
  SecInfo_ClearingPrice :: "Decimal option"
  SecInfo_MinPrice :: "Decimal option"
  SecInfo_MaxPrice :: "Decimal option"
  SecInfo_BuyDeposit :: "Decimal option"
  SecInfo_SellDeposit :: "Decimal option"
  SecInfo_CouponValue :: "Decimal option"
  SecInfo_CouponDate :: "GoTime option"
  SecInfo_CouponPeriod :: "i64 option"
  SecInfo_FaceValue :: "Decimal option"
  SecInfo_PointCost :: "Decimal option"
  SecInfo_LotVolume :: "i64 option"
  SecInfo_ISIN :: bytes
  SecInfo_CurrencyID :: bytes

definition specDate :: "i64 \<Rightarrow> GoTime" where
  "specDate days = Unix (days * 86400)"

definition xmlCurrency :: "bytes \<Rightarrow> bytes" where
  "xmlCurrency i = (if i = [82, 85, 82] then [82, 85, 66] else i)"

definition SecSpec_Info :: "(float64 \<Rightarrow> string) \<Rightarrow> SecSpec \<Rightarrow> SecNew \<Rightarrow> SecInfo" where
  "SecSpec_Info fmt6g s sec =
     (let decimals = defaultPitDecimals sec;
          deriv = (SecNew_Kind sec = 4 \<or> SecNew_Kind sec = 5);
          bit = mask_bit (SecSpec_Mask s);
          price = (\<lambda>v. \<lparr>Units = v, Scale = decimals\<rparr>)
      in \<lparr>SecInfo_Symbol = \<lparr>Symbol_Board = [], Symbol_SecCode = SecNew_SecCode sec\<rparr>, SecInfo_SecID = SecSpec_SecID s,
          SecInfo_SecName = SecSpec_SecName s, SecInfo_SecCode = SecNew_SecCode sec,
          SecInfo_Market = uint (SecNew_Market sec), SecInfo_PName = SecSpec_PName s,
          SecInfo_MatDate = opt_when (bit 8) (specDate (SecSpec_MatDate s)),
          SecInfo_ClearingPrice = opt_when (bit 5 \<and> deriv) (price (SecSpec_ClearingPrice s)),
          SecInfo_MinPrice = opt_when (bit 19) (price (SecSpec_MinPrice s)),
          SecInfo_MaxPrice = opt_when (bit 20) (price (SecSpec_MaxPrice s)),
          SecInfo_BuyDeposit = opt_when (bit 24) (money (SecSpec_BuyDeposit s)),
          SecInfo_SellDeposit = opt_when (bit 25) (money (SecSpec_SellDeposit s)),
          SecInfo_CouponValue = opt_when (bit 9) (money (SecSpec_CouponValue s)),
          SecInfo_CouponDate = opt_when (bit 11) (specDate (SecSpec_CouponDate s)),
          SecInfo_CouponPeriod = opt_when (bit 10) (SecSpec_CouponPeriod s),
          SecInfo_FaceValue = opt_when (bit 3) (price (SecSpec_FaceValue s)),
          SecInfo_PointCost = (case SecNew_DefaultPit sec of
             Some p \<Rightarrow> pointCostPtr fmt6g (Pit_PointCost p) | None \<Rightarrow> None),
          SecInfo_LotVolume = (case SecNew_DefaultPit sec of
             Some p \<Rightarrow> opt_when (deriv \<and> sint (Pit_LotSize p) > 0) (scast (Pit_LotSize p)) | None \<Rightarrow> None),
          SecInfo_ISIN = SecSpec_ISIN s,
          SecInfo_CurrencyID = (if SecSpec_CurrencyID s \<noteq> [] then xmlCurrency (SecSpec_CurrencyID s) else [])\<rparr>)"

subsection \<open>Client trades and stop orders\<close>

record ClientTradeEvent =
  CTE_SecID :: u16
  CTE_Board :: bytes
  CTE_SecCode :: bytes
  CTE_TradeNo :: u64
  CTE_OrderNo :: u64
  CTE_Client :: bytes
  CTE_Union :: bytes
  CTE_BrokerRef :: bytes
  CTE_SettleCode :: bytes
  CTE_TradeType :: byte
  CTE_BuySell :: byte
  CTE_Time :: i64
  CTE_Price :: Decimal
  CTE_Value :: Decimal
  CTE_Comission :: Decimal
  CTE_Quantity :: i64
  CTE_Items :: i64
  CTE_CurrentPos :: i64
  CTE_Yield :: Decimal
  CTE_AccruedInt :: Decimal
  CTE_Bypass :: byte

text \<open>The code of a security, empty when the catalog is nil or does not know it; the same for boards.\<close>

definition sec_code :: "Catalog option \<Rightarrow> u16 \<Rightarrow> bytes" where
  "sec_code cat i =
     (case cat of None \<Rightarrow> [] | Some c \<Rightarrow> (case Security c i of Some s \<Rightarrow> SecNew_SecCode s | None \<Rightarrow> []))"

definition board_code' :: "Catalog option \<Rightarrow> u16 \<Rightarrow> bytes" where
  "board_code' cat num = (case cat of None \<Rightarrow> [] | Some c \<Rightarrow> board_code c num)"

definition ClientTrade_Event :: "(float64 \<Rightarrow> i64) \<Rightarrow> Catalog option \<Rightarrow> ClientTrade \<Rightarrow> ClientTradeEvent" where
  "ClientTrade_Event hundredths cat t =
     \<lparr>CTE_SecID = ClientTrade_SecID t, CTE_Board = board_code' cat (ClientTrade_BoardID t),
      CTE_SecCode = sec_code cat (ClientTrade_SecID t), CTE_TradeNo = ClientTrade_TradeNo t,
      CTE_OrderNo = ClientTrade_OrderNo t, CTE_Client = [], CTE_Union = [], CTE_BrokerRef = ClientTrade_BrokerRef t,
      CTE_SettleCode = ClientTrade_SettleCode t, CTE_TradeType = ClientTrade_TradeType t,
      CTE_BuySell = ClientTrade_BuySell t, CTE_Time = scast (ClientTrade_Time t), CTE_Price = money (ClientTrade_Price t),
      CTE_Value = money (ClientTrade_Value t), CTE_Comission = money (ClientTrade_Comission t),
      CTE_Quantity = ClientTrade_Quantity t, CTE_Items = ClientTrade_Quantity t, CTE_CurrentPos = 0,
      CTE_Yield = zeroDecimal, CTE_AccruedInt = money (hundredths (ClientTrade_Accrued t)),
      CTE_Bypass = ClientTrade_Bypass t\<rparr>"

record StopOrderEvent =
  SOE_TransactionID :: u64
  SOE_Mask :: u64
  SOE_HasSec :: bool
  SOE_HasBoard :: bool
  SOE_HasClient :: bool
  SOE_HasBuySell :: bool
  SOE_HasStatus :: bool
  SOE_SecID :: u16
  SOE_Board :: bytes
  SOE_SecCode :: bytes
  SOE_Client :: bytes
  SOE_BuySell :: byte
  SOE_Author :: bytes
  SOE_Status :: int
  SOE_Result :: bytes

text \<open>"{50} Status of the order is not defined.", in Russian and UTF-8.\<close>

definition stopStatusResult :: bytes where
  "stopStatusResult =
    [123, 53, 48, 125, 32, 208, 161, 209, 130, 208, 176, 209, 130, 209, 131, 209, 129, 32, 208, 183, 208, 176, 209, 143,
     208, 178, 208, 186, 208, 184, 32, 208, 189, 208, 181, 32, 208, 190, 208, 191, 209, 128, 208, 181, 208, 180, 208, 181,
     208, 187, 208, 181, 208, 189, 46]"

definition StopOrder_Event :: "Catalog option \<Rightarrow> StopOrder \<Rightarrow> StopOrderEvent" where
  "StopOrder_Event cat s =
     \<lparr>SOE_TransactionID = StopOrder_ID s, SOE_Mask = StopOrder_Mask s, SOE_HasSec = StopOrder_HasSec s,
      SOE_HasBoard = StopOrder_HasBoard s, SOE_HasClient = StopOrder_HasClient s,
      SOE_HasBuySell = StopOrder_HasBuySell s, SOE_HasStatus = StopOrder_HasStatus s, SOE_SecID = StopOrder_SecID s,
      SOE_Board = board_code' cat (StopOrder_BoardID s),
      SOE_SecCode = (if StopOrder_HasSec s then sec_code cat (StopOrder_SecID s) else []), SOE_Client = [],
      SOE_BuySell = StopOrder_BuySell s, SOE_Author = [], SOE_Status = StopOrder_Status s,
      SOE_Result = (if StopOrder_HasStatus s then [] else stopStatusResult)\<rparr>"

subsection \<open>Repeated trades\<close>

record TradeDedup =
  Dedup_last :: "Symbol \<rightharpoonup> i64"
  Dedup_lastRaw :: "u16 \<times> u16 \<rightharpoonup> i64"

definition FreshSymbol :: "AllTrade \<Rightarrow> Symbol \<Rightarrow> TradeDedup \<Rightarrow> bool \<times> TradeDedup" where
  "FreshSymbol t sm d =
     (case Dedup_last d sm of
        Some prev \<Rightarrow>
          if sint (AllTrade_TradeNo t) \<le> sint prev then (False, d)
          else (True, d\<lparr>Dedup_last := (Dedup_last d)(sm \<mapsto> AllTrade_TradeNo t)\<rparr>)
      | None \<Rightarrow> (True, d\<lparr>Dedup_last := (Dedup_last d)(sm \<mapsto> AllTrade_TradeNo t)\<rparr>))"

definition Fresh :: "AllTrade \<Rightarrow> TradeDedup \<Rightarrow> bool \<times> TradeDedup" where
  "Fresh t d =
     (let k = (AllTrade_SecID t, AllTrade_Board t) in
      case Dedup_lastRaw d k of
        Some prev \<Rightarrow>
          if sint (AllTrade_TradeNo t) \<le> sint prev then (False, d)
          else (True, d\<lparr>Dedup_lastRaw := (Dedup_lastRaw d)(k \<mapsto> AllTrade_TradeNo t)\<rparr>)
      | None \<Rightarrow> (True, d\<lparr>Dedup_lastRaw := (Dedup_lastRaw d)(k \<mapsto> AllTrade_TradeNo t)\<rparr>))"

end
