(* ===== verification/Market_Events_Properties.thy ===== *)
theory Market_Events_Properties
  imports Market_Events Catalog_Properties "HOL-Library.Multiset"
begin

text \<open>
  Correctness of the market events: a quotation does not depend on the order in which a map is
  visited, the candles of a combined series stand in the order of their times, and the filter of
  repeated trades passes a trade exactly when its number is new.
\<close>

subsection \<open>Quotations do not depend on the order of the map\<close>

definition commuting :: "('a \<Rightarrow> 'c \<Rightarrow> 'c) \<Rightarrow> ('b \<Rightarrow> 'c \<Rightarrow> 'c) \<Rightarrow> bool" where
  "commuting p q = (\<forall>v w f. p v (q w f) = q w (p v f))"

lemma commuting_sym: "commuting p q \<Longrightarrow> commuting q p"
  by (simp add: commuting_def)

lemma commutingD: "commuting p q \<Longrightarrow> p v (q w f) = q w (p v f)"
  by (simp add: commuting_def)

primrec pairs_commute :: "(nat \<times> ('a \<Rightarrow> 'c \<Rightarrow> 'c)) list \<Rightarrow> bool" where
  "pairs_commute [] = True"
| "pairs_commute (x # xs) = (list_all (\<lambda>y. commuting (snd x) (snd y)) xs \<and> pairs_commute xs)"

lemma pairs_commuteD:
  assumes "pairs_commute xs" "map_of xs b = Some p" "map_of xs b' = Some q" "b \<noteq> b'"
  shows "commuting p q"
  using assms by (induction xs) (force simp: list_all_iff split: if_splits dest: map_of_SomeD commuting_sym)+

definition tables_commute :: "(nat \<times> ('a \<Rightarrow> 'c \<Rightarrow> 'c)) list \<Rightarrow> (nat \<times> ('b \<Rightarrow> 'c \<Rightarrow> 'c)) list \<Rightarrow> bool" where
  "tables_commute xs ys = list_all (\<lambda>p. list_all (\<lambda>q. commuting (snd p) (snd q)) ys) xs"

lemma tables_commuteD:
  assumes "tables_commute xs ys" "map_of xs b = Some p" "map_of ys b' = Some q"
  shows "commuting p q" "commuting q p"
  using assms by (force simp: tables_commute_def list_all_iff dest!: map_of_SomeD intro: commuting_sym)+

lemma int_int: "pairs_commute quotationIntBits"
  by (simp add: quotationIntBits_def commuting_def)
lemma price_price: "pairs_commute quotationPriceBits"
  by (simp add: quotationPriceBits_def commuting_def)
lemma other_other: "pairs_commute quotationOtherBits"
  by (simp add: quotationOtherBits_def commuting_def)
lemma int_price: "tables_commute quotationIntBits quotationPriceBits"
  by (simp add: tables_commute_def quotationIntBits_def quotationPriceBits_def commuting_def)
lemma int_other: "tables_commute quotationIntBits quotationOtherBits"
  by (simp add: tables_commute_def quotationIntBits_def quotationOtherBits_def commuting_def)
lemma price_other: "tables_commute quotationPriceBits quotationOtherBits"
  by (simp add: tables_commute_def quotationPriceBits_def quotationOtherBits_def commuting_def)

lemmas bits_commute = pairs_commuteD [OF int_int] pairs_commuteD [OF price_price] pairs_commuteD [OF other_other]
  tables_commuteD [OF int_price] tables_commuteD [OF int_other] tables_commuteD [OF price_other]

lemma apply_bit_commute:
  assumes "b \<noteq> b'"
  shows "apply_bit decimals b v (apply_bit decimals b' v' f) = apply_bit decimals b' v' (apply_bit decimals b v f)"
proof -
  have c: "\<And>p q. map_of quotationIntBits b = Some p \<Longrightarrow> map_of quotationIntBits b' = Some q \<Longrightarrow> commuting p q"
    "\<And>p q. map_of quotationPriceBits b = Some p \<Longrightarrow> map_of quotationPriceBits b' = Some q \<Longrightarrow> commuting p q"
    "\<And>p q. map_of quotationOtherBits b = Some p \<Longrightarrow> map_of quotationOtherBits b' = Some q \<Longrightarrow> commuting p q"
    using assms bits_commute(1-3) by blast+
  show ?thesis
    by (auto simp: apply_bit_def split: option.split
        intro: commutingD c bits_commute(4-) dest: sym)
qed

lemma apply_values_perm:
  assumes "mset bits = mset bits'"
  shows "apply_values decimals values bits f = apply_values decimals values bits' f"
proof -
  let ?g = "\<lambda>b f. case values b of Some raw \<Rightarrow> apply_bit decimals b raw f | None \<Rightarrow> f"
  have "?g b \<circ> ?g b' = ?g b' \<circ> ?g b" for b b'
    by (cases "b = b'") (auto simp: fun_eq_iff apply_bit_commute split: option.split)
  then have "fold ?g bits = fold ?g bits'"
    using assms by (intro fold_multiset_equiv) auto
  then show ?thesis by (simp add: apply_values_def)
qed

text \<open>
  A quotation does not depend on the order in which Go's map iteration visits the values: any
  two orders of the same bits give the same event, with or without a catalog.
\<close>

theorem Quotation_Event_order:
  assumes "mset bits = mset bits'"
  shows "Quotation_Event fmt6g bits cat q = Quotation_Event fmt6g bits' cat q"
  by (simp add: Quotation_Event_def apply_values_perm [OF assms] Let_def split: option.split)

theorem Quotation_Event_order_witness:
  "let q = \<lparr>WireQuotation_SecID = 7, WireQuotation_Board = 4, WireQuotation_Mask = 67,
            WireQuotation_Values = [0 \<mapsto> 5, 1 \<mapsto> 6, 6 \<mapsto> 1000]\<rparr>;
       cat = AddSecurity example_sec (NewCatalog example_startup)
   in Quotation_Event (\<lambda>v. ''0.1'') [0, 1, 6] (Some cat) q = Quotation_Event (\<lambda>v. ''0.1'') [6, 1, 0] (Some cat) q"
  unfolding Let_def by (rule Quotation_Event_order) simp

subsection \<open>Candle times\<close>

text \<open>The absolute interval counts of a series, as integers.\<close>

primrec unit_counts :: "int \<Rightarrow> WireCandle list \<Rightarrow> int list" where
  "unit_counts u [] = []"
| "unit_counts u (item # items) = (u + sint (WireCandle_Time item)) # unit_counts (u + sint (WireCandle_Time item)) items"

lemma sint_mult64:
  "\<bar>sint a * sint b\<bar> \<le> 2 ^ 60 \<Longrightarrow> sint (a * b :: i64) = sint a * sint b"
  by (simp add: sint_word_ariths signed_take_bit_int_eq_self abs_le_iff)

lemma candle_instant:
  assumes "\<bar>sint units * sint s\<bar> \<le> 2 ^ 60"
  shows "instant (Candle_Time (candle_of_item (Some s) d bias units item)) = sint units * sint s * 1000000000 + sint bias"
proof -
  have m: "sint (units * s) = sint units * sint s" by (rule sint_mult64) (rule assms)
  have "instant (trade_time (units * s) 1000 bias) = sint (units * s) * 1000000000 + sint bias"
    using trade_time_exact [of "units * s" 1000 bias] assms by (simp add: m abs_le_iff)
  then show ?thesis by (simp add: candle_of_item_def trade_time_def m)
qed

lemma abs_factor:
  fixes u s :: int
  assumes "0 < s" "\<bar>u * s\<bar> \<le> b" shows "\<bar>u\<bar> \<le> b"
proof -
  have "\<bar>u\<bar> * 1 \<le> \<bar>u\<bar> * s" using assms(1) by (intro mult_left_mono) auto
  then show ?thesis using assms by (simp add: abs_mult)
qed

lemma candle_loop_instants:
  assumes "0 < sint s" and "\<bar>sint units\<bar> \<le> 2 ^ 60" and "\<forall>u\<in>set (unit_counts (sint units) items). \<bar>u * sint s\<bar> \<le> 2 ^ 60"
  shows "map (\<lambda>c. instant (Candle_Time c)) (candle_loop (Some s) d bias units items)
    = map (\<lambda>u. u * sint s * 1000000000 + sint bias) (unit_counts (sint units) items)"
  using assms(2,3)
proof (induction items arbitrary: units)
  case (Cons item items)
  let ?u = "sint units + sint (WireCandle_Time item)"
  have p: "\<bar>?u * sint s\<bar> \<le> 2 ^ 60" and q: "\<forall>u\<in>set (unit_counts ?u items). \<bar>u * sint s\<bar> \<le> 2 ^ 60"
    using Cons.prems(2) unfolding unit_counts.simps list.set by blast+
  have b: "\<bar>?u\<bar> \<le> 2 ^ 60" by (rule abs_factor [OF assms(1) p])
  then have u: "sint (units + WireCandle_Time item) = ?u" by (intro sint_add64) (simp_all add: abs_le_iff)
  have h: "instant (Candle_Time (candle_of_item (Some s) d bias (units + WireCandle_Time item) item))
      = ?u * sint s * 1000000000 + sint bias"
    using candle_instant [of "units + WireCandle_Time item" s] p unfolding u by blast
  have t: "map (\<lambda>c. instant (Candle_Time c)) (candle_loop (Some s) d bias (units + WireCandle_Time item) items)
      = map (\<lambda>u. u * sint s * 1000000000 + sint bias) (unit_counts ?u items)"
    using Cons.IH [of "units + WireCandle_Time item"] q b unfolding u by blast
  show ?case by (simp only: candle_loop.simps unit_counts.simps Let_def list.map h t)
qed simp

lemma Candles_Event_instants:
  assumes "periodSeconds cat (WireCandles_Period c) = Some s" "0 < sint s"
    and "\<forall>u\<in>set (unit_counts 0 (WireCandles_Items c)). \<bar>u * sint s\<bar> \<le> 2 ^ 60"
  shows "map (\<lambda>c. instant (Candle_Time c)) (Candles_Items (Candles_Event cat bias c))
    = rev (map (\<lambda>u. u * sint s * 1000000000 + sint bias) (unit_counts 0 (WireCandles_Items c)))"
  using candle_loop_instants [of s 0 "WireCandles_Items c"] assms
  by (simp add: Candles_Event_def Let_def rev_map [symmetric] split: prod.split)

lemma combine_items:
  "Candles_Items (foldl (combine_part cat bias) out parts)
    = concat (map (\<lambda>p. Candles_Items (Candles_Event cat bias p)) (rev parts)) @ Candles_Items out"
  by (induction parts arbitrary: out) (simp_all add: combine_part_def Let_def)

text \<open>
  C23: candle times. The reply to a history request comes in parts, the newest first, each part from
  its newest candle to the oldest, with the first time absolute and the others as differences in
  units of the period. The combined series shows exactly these instants (in the server's time zone)
  in reverse, so it is chronological whenever the server's counts decrease.
\<close>

theorem CombineCandles_chronological:
  fixes cat bias p s parts
  defines "units \<equiv> concat (map (\<lambda>c. unit_counts 0 (WireCandles_Items c)) parts)"
    and "shown \<equiv> map (\<lambda>c. instant (Candle_Time c)) (Candles_Items (CombineCandles cat bias parts))"
  assumes "periodSeconds cat p = Some s" and "0 < sint s"
    and "\<forall>c\<in>set parts. WireCandles_Period c = p"
    and "\<forall>u\<in>set units. \<bar>u * sint s\<bar> \<le> 2 ^ 60"
  shows "shown = rev (map (\<lambda>u. u * sint s * 1000000000 + sint bias) units)
    \<and> (sorted_wrt (>) units \<longrightarrow> sorted_wrt (<) shown)"
proof -
  have c: "map (\<lambda>c. instant (Candle_Time c)) (Candles_Items (Candles_Event cat bias c))
      = rev (map (\<lambda>u. u * sint s * 1000000000 + sint bias) (unit_counts 0 (WireCandles_Items c)))"
    if "c \<in> set parts" for c
    using that assms(3-6) by (intro Candles_Event_instants) (auto simp: units_def)
  have t: "shown = rev (map (\<lambda>u. u * sint s * 1000000000 + sint bias) units)"
    using c unfolding shown_def units_def CombineCandles_def combine_items
    by (induction parts) (simp_all add: noCandles_def map_concat)
  moreover have "sorted_wrt (<) shown" if "sorted_wrt (>) units"
    unfolding t sorted_wrt_rev sorted_wrt_map
    by (rule sorted_wrt_mono_rel [OF _ that]) (use assms(4) in simp)
  ultimately show ?thesis by blast
qed

theorem CombineCandles_chronological_witness:
  "let item = (\<lambda>t. \<lparr>WireCandle_Time = t, WireCandle_Open = 10, WireCandle_Close = 1, WireCandle_High = 2,
                 WireCandle_Low = - 1, WireCandle_Field6 = 0, WireCandle_Volume = 3, WireCandle_HasOI = False,
                 WireCandle_OI = 0\<rparr>);
       part = (\<lambda>items. \<lparr>WireCandles_SecID = 7, WireCandles_Board = 4, WireCandles_Period = 1,
                 WireCandles_Flag = 0, WireCandles_Items = items, WireCandles_Status = 0\<rparr>)
   in sorted_wrt (<) (map (\<lambda>c. instant (Candle_Time c))
        (Candles_Items (CombineCandles None 3600000000000 [part [item 100, item (- 1)], part [item 90, item (- 2)]])))"
  unfolding Let_def
  by (rule CombineCandles_chronological [where p = 1 and s = 60, THEN conjunct2, THEN mp])
     (auto simp: periodSeconds_def)

subsection \<open>Repeated trades\<close>

definition feed_trades :: "(AllTrade \<times> Symbol) list \<Rightarrow> TradeDedup" where
  "feed_trades ts = foldl (\<lambda>d (t, sm). snd (FreshSymbol t sm d)) \<lparr>Dedup_last = Map.empty, Dedup_lastRaw = Map.empty\<rparr> ts"

lemma feed_trades_last:
  "case Dedup_last (feed_trades ts) sm of
     None \<Rightarrow> \<forall>(t, sm') \<in> set ts. sm' \<noteq> sm
   | Some v \<Rightarrow> (\<exists>t. (t, sm) \<in> set ts \<and> AllTrade_TradeNo t = v) \<and> (\<forall>(t, sm') \<in> set ts. sm' = sm \<longrightarrow> sint (AllTrade_TradeNo t) \<le> sint v)"
proof (induction ts rule: rev_induct)
  case (snoc x ts)
  obtain t sm' where x: "x = (t, sm')" by (cases x)
  have f: "feed_trades (ts @ [x]) = snd (FreshSymbol t sm' (feed_trades ts))" by (simp add: feed_trades_def x)
  show ?case
  proof (cases "sm' = sm")
    case True
    show ?thesis
    proof (cases "Dedup_last (feed_trades ts) sm")
      case None
      then have "Dedup_last (feed_trades (ts @ [x])) sm = Some (AllTrade_TradeNo t)"
        using True by (simp add: f FreshSymbol_def)
      with snoc None True show ?thesis by (auto simp: x)
    next
      case (Some v)
      then have "Dedup_last (feed_trades (ts @ [x])) sm
          = Some (if sint (AllTrade_TradeNo t) \<le> sint v then v else AllTrade_TradeNo t)"
        using True by (simp add: f FreshSymbol_def)
      with snoc Some True show ?thesis by (fastforce simp: x)
    qed
  next
    case False
    then have "Dedup_last (feed_trades (ts @ [x])) sm = Dedup_last (feed_trades ts) sm"
      unfolding f by (simp add: FreshSymbol_def split: option.split)
    then show ?thesis using snoc False by (auto simp: x split: option.splits)
  qed
qed (simp add: feed_trades_def)

text \<open>
  repeated trades. After any sequence of trades, the next one passes the filter exactly when its
  number is greater than that of every earlier trade of its symbol, delivered or not; so the
  numbers delivered for a symbol increase strictly.
\<close>

theorem FreshSymbol_iff:
  "fst (FreshSymbol t sm (feed_trades ts)) \<longleftrightarrow>
     list_all (\<lambda>(t', sm'). sint (AllTrade_TradeNo t') < sint (AllTrade_TradeNo t)) (filter (\<lambda>(t', sm'). sm' = sm) ts)"
proof (cases "Dedup_last (feed_trades ts) sm")
  case None
  with feed_trades_last [of ts sm] show ?thesis by (auto simp: FreshSymbol_def list_all_iff)
next
  case (Some v)
  with feed_trades_last [of ts sm] obtain t' where "(t', sm) \<in> set ts" "AllTrade_TradeNo t' = v"
    and "\<And>t'. (t', sm) \<in> set ts \<Longrightarrow> sint (AllTrade_TradeNo t') \<le> sint v" by auto
  then have "list_all (\<lambda>(t', sm'). sint (AllTrade_TradeNo t') < sint (AllTrade_TradeNo t)) (filter (\<lambda>(t', sm'). sm' = sm) ts)
      \<longleftrightarrow> sint v < sint (AllTrade_TradeNo t)" by (fastforce simp: list_all_iff)
  with Some show ?thesis by (simp add: FreshSymbol_def not_le)
qed

end
