(* ===== verification/Client_State.thy ===== *)
theory Client_State
  imports Market_Events Account_Records Order_Records Service_Records Session_Requests Session_Login
begin

text \<open>
  The typed client of \<open>native/client.go\<close>: its state (\<open>Client\<close>), the decoders of RQ_MAIN records
  (\<open>client_accounts.go\<close>, \<open>events_*.go\<close>, \<open>client_orders.go\<close>, \<open>client_history.go\<close>) and
  \<open>Poll\<close>. A decoder takes the record body and the client and returns its events or an error,
  and the new client. All of them run under the mutex of the client, so they are functions of its
  state.

  What the code takes from outside the repository is the record \<open>Lib\<close>: the Windows-1251 decoder,
  zlib, the floating-point conversions of \<open>Market_Events\<close>, the order in which a map of quotation
  values is visited, the texts of unpacking errors, and the start of the current day.
\<close>

unbundle bit_operations_syntax

record Lib =
  lib_win :: "bytes \<Rightarrow> bytes option"
  lib_zlen :: "bytes \<Rightarrow> nat option"
  lib_zread :: "bytes \<Rightarrow> nat \<Rightarrow> err + bytes"
  lib_fmt6g :: "float64 \<Rightarrow> string"
  lib_hundredths :: "float64 \<Rightarrow> i64"
  lib_bits :: "(nat \<rightharpoonup> i64) \<Rightarrow> nat list"
  lib_today :: GoTime

subsection \<open>Events\<close>

record ClientAccount =
  Account_ID :: bytes
  Account_Type :: string
  Account_Currency :: string
  Account_Union :: bytes
  Account_Market :: int

record MoneyPosition =
  MP_Client :: bytes
  MP_Union :: bytes
  MP_Currency :: bytes
  MP_Market :: int
  MP_Asset :: string
  MP_ShortName :: bytes
  MP_Register :: string
  MP_SaldoIn :: Decimal
  MP_Bought :: Decimal
  MP_Sold :: Decimal
  MP_Saldo :: Decimal
  MP_OrdBuy :: Decimal
  MP_OrdBuyCond :: Decimal
  MP_Comission :: Decimal

record MarketOrd =
  MarketOrd_SecID :: u16
  MarketOrd_Permit :: bool
  MarketOrd_SecCode :: bytes

record Message =
  Message_Time :: GoTime
  Message_WallTime :: GoTime
  Message_Urgent :: bool
  Message_From :: bytes
  Message_Text :: bytes
  Message_Flags :: byte

record NewsHeader =
  NewsHeader_ID :: i64
  NewsHeader_Time :: GoTime
  NewsHeader_Source :: bytes
  NewsHeader_Title :: bytes
  NewsHeader_Flag :: byte

record OptionFamily =
  Family_SecID :: u16
  Family_FamilyID :: i32
  Family_MatDate :: GoTime
  Family_LotSize :: i64

record OptionFamiliesEvent =
  Families_SecID :: u16
  Families_Underlying :: Symbol
  Families_Families :: "OptionFamily list"
  Families_Text :: bytes

record EndOfFamily =
  EOF_SecID :: u16
  EOF_OptCode :: bytes
  EOF_Code :: i64
  EOF_Text :: bytes

record Strike =
  Strike_OptCode :: bytes
  Strike_CP :: byte
  Strike_Price :: i64

record OptionStrikes =
  OS_SecID :: u16
  OS_Underlying :: Symbol
  OS_FamilyID :: i64
  OS_MatDate :: GoTime
  OS_Items :: "Strike list"
  OS_Final :: byte

datatype Event =
    TradeEv Trade
  | AccountEv ClientAccount
  | MoneyEv MoneyPosition
  | SecPosEv SecPosition
  | UnionEv bytes
  | OrderEv Order
  | ClientTradeEv ClientTradeEvent
  | StopOrderEv StopOrderEvent
  | SecRateEv u16 i64
  | MarketOrdEv MarketOrd
  | MessageEv Message
  | MessagesEv "Message list"
  | NewsHeaderEv NewsHeader
  | NewsBodyEv i64 bytes
  | FamiliesEv OptionFamiliesEvent
  | EndOfFamilyEv EndOfFamily
  | StrikesEv OptionStrikes
  | QuotationEv Quotation
  | QuotesEv QuotesEvent
  | SecInfoEv SecInfoUpdate
  | TicksEv "Tick list"
  | UnknownEv byte nat bytes
  | StatusEv bool bool "serr option"

subsection \<open>The state\<close>

record accountState =
  AS_account :: ClientAccount
  AS_raw :: ClientNew

type_synonym positionKey = "i64 \<times> u16"

record positionState =
  PS_client :: i64
  PS_sym :: u16
  PS_reg :: byte
  PS_pos :: MoneyPosition

record historyCollector =
  HC_ch :: nat
  HC_parts :: "WireCandles list"

record Stats =
  Stats_Polls :: i64
  Stats_Trades :: i64
  Stats_Duplicates :: i64
  Stats_UnknownRecords :: i64
  Stats_LastUnknownTag :: byte

record MarginRule =
  Rule_Tradeable :: bool
  Rule_Longable :: bool
  Rule_Shortable :: bool
  Rule_Marketable :: bool
  Rule_Long :: Decimal
  Rule_Short :: Decimal
  Rule_RLong :: Decimal
  Rule_RShort :: Decimal

record MarginTemplate =
  MT_ID :: int
  MT_Name :: bytes
  MT_Default :: MarginRule
  MT_Markets :: "int \<rightharpoonup> MarginRule"
  MT_Classes :: "bytes \<times> int \<rightharpoonup> MarginRule"
  MT_Instruments :: "bytes \<times> int \<rightharpoonup> MarginRule"

record ClientConfig =
  Cfg_Login :: bytes
  Cfg_Password :: bytes
  Cfg_Client :: ClientInfo
  Cfg_RequestTimeout :: i64
  Cfg_RqDelay :: i64
  Cfg_SessionTimeout :: i64

text \<open>
  The client. A nil map reads as an empty one; the two maps whose being nil the code tests are the
  flag \<open>Cl_made\<close>, since \<open>resetAccountsLocked\<close> makes both. A channel of a history request is a number,
  \<open>Cl_results\<close> are the results waiting in the channels.
\<close>

record Client =
  Cl_cfg :: ClientConfig
  Cl_conn :: "Conn option"
  Cl_info :: "Info option"
  Cl_catalog :: "Catalog option"
  Cl_zone :: bytes
  Cl_serverTZ :: string
  Cl_bias :: i64
  Cl_subs :: "Symbol \<rightharpoonup> byte"
  Cl_dedup :: TradeDedup
  Cl_recovering :: bool
  Cl_fatal :: "serr option"
  Cl_stats :: Stats
  Cl_made :: bool
  Cl_accounts :: "i64 \<rightharpoonup> accountState"
  Cl_accountOrder :: "i64 list"
  Cl_positions :: "positionKey \<rightharpoonup> positionState"
  Cl_positionOrder :: "positionKey list"
  Cl_unions :: "bytes list"
  Cl_overnight :: bool
  Cl_secSpecs :: "u16 \<rightharpoonup> SecSpec"
  Cl_history :: "u16 \<times> u16 \<times> byte \<rightharpoonup> historyCollector"
  Cl_results :: "nat \<rightharpoonup> serr + Candles"
  Cl_orders :: "u64 \<rightharpoonup> Order"
  Cl_pendingOrders :: "OrderNew list"
  Cl_orderOrder :: "u64 list"
  Cl_secPositions :: "positionKey \<rightharpoonup> SecPosition"
  Cl_secPositionOrder :: "positionKey list"
  Cl_marginRates :: "u16 \<rightharpoonup> i64"
  Cl_tickTradeNos :: "u16 \<times> u16 \<rightharpoonup> i64"
  Cl_tickTimes :: "u16 \<times> u16 \<rightharpoonup> i64"
  Cl_newsBodyRequest :: i64
  Cl_news :: "i64 \<rightharpoonup> NewsHeader"
  Cl_newsOrder :: "i64 list"
  Cl_newsBodies :: "i64 \<rightharpoonup> bytes"
  Cl_optionFamilies :: "u16 \<Rightarrow> i32 \<rightharpoonup> OptionFamily"
  Cl_optionStrikes :: "i64 \<times> i64 \<rightharpoonup> OptionStrikes"
  Cl_unionCategories :: "bytes \<rightharpoonup> byte"
  Cl_marginTemplates :: "byte \<rightharpoonup> MarginTemplate"

type_synonym decoder = "bytes \<Rightarrow> Client \<Rightarrow> (err + Event list) \<times> Client"

text \<open>The end of a decoder whose parser failed: the error, and the client as it was.\<close>

definition parsed :: "err + 'a \<Rightarrow> ('a \<Rightarrow> Client \<Rightarrow> (err + Event list) \<times> Client) \<Rightarrow> Client \<Rightarrow> (err + Event list) \<times> Client" where
  "parsed x f c = (case x of Inl e \<Rightarrow> (Inl e, c) | Inr a \<Rightarrow> f a c)"

definition catalog_security :: "Client \<Rightarrow> u16 \<Rightarrow> SecNew option" where
  "catalog_security c i = (case Cl_catalog c of None \<Rightarrow> None | Some cat \<Rightarrow> Security cat i)"

definition catalog_board :: "Client \<Rightarrow> u16 \<Rightarrow> Board option" where
  "catalog_board c n = (case Cl_catalog c of None \<Rightarrow> None | Some cat \<Rightarrow> Catalog_Board cat n)"

subsection \<open>Accounts\<close>

definition resetAccounts :: "Client \<Rightarrow> Client" where
  "resetAccounts c = c\<lparr>Cl_made := True, Cl_accounts := Map.empty, Cl_accountOrder := [], Cl_positions := Map.empty,
     Cl_positionOrder := [], Cl_unions := [], Cl_overnight := False, Cl_secPositions := Map.empty,
     Cl_secPositionOrder := [], Cl_marginRates := Map.empty, Cl_tickTradeNos := Map.empty,
     Cl_tickTimes := Map.empty, Cl_newsBodyRequest := 0\<rparr>"

text \<open>The scan of \<open>c.accountOrder\<close> for the first entry with the numeric id, which five functions
  repeat.\<close>

definition account_of :: "Client \<Rightarrow> i64 \<Rightarrow> accountState option" where
  "account_of c i =
     (case List.find (\<lambda>k. case Cl_accounts c k of Some s \<Rightarrow> ClientNew_ID (AS_raw s) = i | None \<Rightarrow> False) (Cl_accountOrder c) of
        Some k \<Rightarrow> Cl_accounts c k | None \<Rightarrow> None)"

definition storeOrder :: "Order \<Rightarrow> Client \<Rightarrow> Client" where
  "storeOrder ord c =
     (let c = (if Cl_orders c (Order_TransactionID ord) = None
               then c\<lparr>Cl_orderOrder := Cl_orderOrder c @ [Order_TransactionID ord]\<rparr> else c)
      in c\<lparr>Cl_orders := (Cl_orders c)(Order_TransactionID ord \<mapsto> ord)\<rparr>)"

definition buildOrderEvent :: "OrderNew \<Rightarrow> Client \<Rightarrow> Order" where
  "buildOrderEvent p c =
     (let ord = OrderNew_Order p;
          ord = (case account_of c (OrderNew_ClientID p) of
             Some s \<Rightarrow> ord\<lparr>Order_Client := Account_ID (AS_account s), Order_Union := Account_Union (AS_account s)\<rparr>
           | None \<Rightarrow> ord);
          ord = (case catalog_security c (Order_SecID ord) of
             Some sec \<Rightarrow> ord\<lparr>Order_SecCode := SecNew_SecCode sec\<rparr> | None \<Rightarrow> ord)
      in (case catalog_board c (OrderNew_BoardID p) of
            Some b \<Rightarrow> ord\<lparr>Order_Board := Board_Code b\<rparr> | None \<Rightarrow> ord))"

text \<open>\<open>known\<close> and \<open>match\<close>; \<open>len(c.accounts) == 0\<close> is the empty map.\<close>

definition orderClientMatch :: "i64 \<Rightarrow> Client \<Rightarrow> bool \<times> bool" where
  "orderClientMatch i c =
     (if Cl_accounts c = Map.empty then (False, False) else (True, account_of c i \<noteq> None))"

definition flush_step :: "i64 \<Rightarrow> OrderNew \<Rightarrow> Event list \<times> OrderNew list \<times> Client \<Rightarrow> Event list \<times> OrderNew list \<times> Client" where
  "flush_step i p st =
     (case st of (events, kept, c) \<Rightarrow>
        if OrderNew_ClientID p \<noteq> i then (events, kept @ [p], c)
        else let ord = buildOrderEvent p c in (events @ [OrderEv ord], kept, storeOrder ord c))"

definition flushPendingOrders :: "i64 \<Rightarrow> Client \<Rightarrow> Event list \<times> Client" where
  "flushPendingOrders i c =
     (if Cl_pendingOrders c = [] then ([], c)
      else (case fold (flush_step i) (Cl_pendingOrders c) ([], [], c) of
          (events, kept, c) \<Rightarrow> (events, c\<lparr>Cl_pendingOrders := kept\<rparr>)))"

definition account_of_record :: "ClientNew \<Rightarrow> ClientAccount" where
  "account_of_record raw =
     \<lparr>Account_ID = ClientNew_Code raw, Account_Type = (case ClientTypeName (ClientNew_Type raw) of Some t \<Rightarrow> t | None \<Rightarrow> []),
      Account_Currency = CurrencyName (ClientNew_CurrencyID raw), Account_Union = ClientNew_Union raw,
      Account_Market = uint (ClientNew_Market raw)\<rparr>"

definition storeAccount :: "ClientNew \<Rightarrow> Client \<Rightarrow> Client" where
  "storeAccount raw c =
     (let c = (if Cl_made c then c else resetAccounts c);
          c = (if Cl_accounts c (ClientNew_ID raw) = None
               then c\<lparr>Cl_accountOrder := Cl_accountOrder c @ [ClientNew_ID raw]\<rparr> else c)
      in c\<lparr>Cl_accounts := (Cl_accounts c)(ClientNew_ID raw \<mapsto> \<lparr>AS_account = account_of_record raw, AS_raw = raw\<rparr>)\<rparr>)"

definition decodeClientNew :: decoder where
  "decodeClientNew body =
     parsed (ParseClientNew body) (\<lambda>raw c.
       case flushPendingOrders (ClientNew_ID raw) (storeAccount raw c) of
         (events, c) \<Rightarrow> (Inr (AccountEv (account_of_record raw) # events), c))"

text \<open>"Cash of the MICEX stock section (RUR)", in Russian.\<close>

definition moneyShortName :: bytes where
  "moneyShortName =
     [208, 148, 208, 181, 208, 189, 209, 140, 208, 179, 208, 184, 32, 208, 154, 208, 166, 208, 145, 32,
      208, 156, 208, 156, 208, 146, 208, 145, 32, 40, 82, 85, 82, 41]"

definition moneyAssetInfo :: "bytes \<Rightarrow> string \<times> bytes" where
  "moneyAssetInfo currency = (if currency = [82, 85, 82] then (''FOND_MICEX'', moneyShortName) else ([], []))"

definition registerName :: "byte \<Rightarrow> string" where
  "registerName reg = (if reg = 1 then ''T0'' else [])"

definition zeroMoney :: MoneyPosition where
  "zeroMoney = \<lparr>MP_Client = [], MP_Union = [], MP_Currency = [], MP_Market = 0, MP_Asset = [], MP_ShortName = [],
     MP_Register = [], MP_SaldoIn = zeroDecimal, MP_Bought = zeroDecimal, MP_Sold = zeroDecimal, MP_Saldo = zeroDecimal,
     MP_OrdBuy = zeroDecimal, MP_OrdBuyCond = zeroDecimal, MP_Comission = zeroDecimal\<rparr>"

text \<open>The loop over the registers: register, sums and currency.\<close>

definition money_reg ::
  "byte \<times> i64 \<times> i64 \<times> i64 \<times> i64 \<times> bytes \<Rightarrow> ClientAssetReg \<Rightarrow> byte \<times> i64 \<times> i64 \<times> i64 \<times> i64 \<times> bytes" where
  "money_reg acc reg =
     (case acc of (r, opn, bought, sold, commission, currency) \<Rightarrow>
        (if r = 0 then Reg_Reg reg else r, opn + Reg_OpenBalance reg, bought + Reg_Bought reg, sold + Reg_Sold reg,
         commission + Reg_Commission reg, if Reg_Currency reg \<noteq> [] then Reg_Currency reg else currency))"

definition money_position :: "ClientAssetReg list \<Rightarrow> positionState \<Rightarrow> positionState" where
  "money_position regs st =
     (case foldl money_reg (PS_reg st, 0, 0, 0, 0, []) regs of
        (reg, opn, bought, sold, commission, currency) \<Rightarrow>
          let (asset, short) = moneyAssetInfo currency
          in st\<lparr>PS_reg := reg, PS_pos := (PS_pos st)\<lparr>MP_Currency := currency, MP_SaldoIn := money opn,
               MP_Bought := money bought, MP_Sold := money sold, MP_Saldo := money (opn + bought - sold),
               MP_OrdBuy := money 0, MP_OrdBuyCond := money 0, MP_Comission := money commission,
               MP_Asset := asset, MP_ShortName := short, MP_Register := registerName reg\<rparr>\<rparr>)"

definition storeSecPosition :: "positionKey \<Rightarrow> SecPosition \<Rightarrow> Client \<Rightarrow> Client" where
  "storeSecPosition k pos c =
     (let c = (if Cl_secPositions c k = None then c\<lparr>Cl_secPositionOrder := Cl_secPositionOrder c @ [k]\<rparr> else c)
      in c\<lparr>Cl_secPositions := (Cl_secPositions c)(k \<mapsto> pos)\<rparr>)"

text \<open>The zero value of \<open>records.SecNew\<close>, for a security the catalog does not know.\<close>

definition zeroSecNew :: SecNew where
  "zeroSecNew = \<lparr>SecNew_SecID = 0, SecNew_Market = 0, SecNew_Kind = 0, SecNew_Class = 0, SecNew_SecCode = [],
     SecNew_ShortName = [], SecNew_ISIN = [], SecNew_Byte1 = 0, SecNew_Int1 = 0, SecNew_Flags = 0,
     SecNew_Int2 = 0, SecNew_DerivFlags = 0, SecNew_Underlying = [], SecNew_Props = 0, SecNew_Pits = [],
     SecNew_Currency = [], SecNew_Tail1 = 0, SecNew_Tail2 = 0, SecNew_Tail3 = 0, SecNew_TimeZone = [],
     SecNew_HasTimeZone = False, SecNew_MIC = [], SecNew_Ticker = [], SecNew_Tail4 = 0, SecNew_Tail5 = 0,
     SecNew_Text1 = [], SecNew_Text2 = [], SecNew_Tail6 = 0, SecNew_Extra = []\<rparr>"

definition decodeClientAsset :: decoder where
  "decodeClientAsset body =
     parsed (ParseClientAsset body) (\<lambda>raw c.
       let k = (ClientAsset_ClientID raw, ClientAsset_SymID raw) in
       if ClientAsset_SymID raw \<noteq> 0xffff then
         let code = (case account_of c (ClientAsset_ClientID raw) of
                       Some s \<Rightarrow> Account_ID (AS_account s) | None \<Rightarrow> [])
         in if code = [] then (Inr [], c)
            else let sec = (case catalog_security c (ClientAsset_SymID raw) of Some s \<Rightarrow> s | None \<Rightarrow> zeroSecNew);
                     pos = SecPositionFromAsset raw code [] sec
                 in (Inr [SecPosEv pos], storeSecPosition k pos c)
       else
         let c = (if Cl_made c then c else resetAccounts c);
             (st, order) = (case Cl_positions c k of
                 Some st \<Rightarrow> (st, Cl_positionOrder c)
               | None \<Rightarrow> (\<lparr>PS_client = ClientAsset_ClientID raw, PS_sym = ClientAsset_SymID raw, PS_reg = 0, PS_pos = zeroMoney\<rparr>,
                          Cl_positionOrder c @ [k]));
             st = (case Cl_accounts c (ClientAsset_ClientID raw) of
                 Some a \<Rightarrow> st\<lparr>PS_pos := (PS_pos st)\<lparr>MP_Client := Account_ID (AS_account a),
                            MP_Union := Account_Union (AS_account a), MP_Market := Account_Market (AS_account a)\<rparr>\<rparr>
               | None \<Rightarrow> st);
             st = money_position (ClientAsset_Regs raw) st
         in (Inr [MoneyEv (PS_pos st)], c\<lparr>Cl_positions := (Cl_positions c)(k \<mapsto> st), Cl_positionOrder := order\<rparr>))"

definition decodeOvernight :: decoder where
  "decodeOvernight body = parsed (ParseOvernight body) (\<lambda>status c. (Inr [], c\<lparr>Cl_overnight := status\<rparr>))"

definition decodeUnion :: decoder where
  "decodeUnion body =
     parsed (ParseUnionCategory body) (\<lambda>(name, unicat) c.
       let c = (if unicat \<noteq> 0 then c\<lparr>Cl_unionCategories := (Cl_unionCategories c)(name \<mapsto> unicat)\<rparr> else c)
       in (Inr [UnionEv name], c\<lparr>Cl_unions := Cl_unions c @ [name]\<rparr>))"

text \<open>The read-only views, in arrival order.\<close>

definition Accounts :: "Client \<Rightarrow> ClientAccount list" where
  "Accounts c = List.map_filter (\<lambda>i. map_option AS_account (Cl_accounts c i)) (Cl_accountOrder c)"

definition MoneyPositions :: "Client \<Rightarrow> MoneyPosition list" where
  "MoneyPositions c = List.map_filter
     (\<lambda>k. case Cl_positions c k of Some s \<Rightarrow> if PS_sym s = 0xffff then Some (PS_pos s) else None | None \<Rightarrow> None)
     (Cl_positionOrder c)"

definition SecPositions :: "Client \<Rightarrow> SecPosition list" where
  "SecPositions c = List.map_filter (Cl_secPositions c) (Cl_secPositionOrder c)"

subsection \<open>Orders\<close>

definition decodeOrderNew :: decoder where
  "decodeOrderNew body =
     parsed (ParseOrderNew body) (\<lambda>p c.
       if OrderNew_Short p then (Inr [], c)
       else (case orderClientMatch (OrderNew_ClientID p) c of
           (known, match) \<Rightarrow>
             if \<not> known then (Inr [], c\<lparr>Cl_pendingOrders := Cl_pendingOrders c @ [p]\<rparr>)
             else if \<not> match then (Inr [], c)
             else let ord = buildOrderEvent p c in (Inr [OrderEv ord], storeOrder ord c)))"

text \<open>\<open>Apply\<close> is nil only in a short modification, which does not get here.\<close>

definition applyOrderModify :: "OrderModify \<Rightarrow> Client \<Rightarrow> Order option \<times> Client" where
  "applyOrderModify m c =
     (case Cl_orders c (OrderModify_TransactionID m) of
        None \<Rightarrow> (None, c)
      | Some ord \<Rightarrow>
          let ord = (case OrderModify_Apply m of Some f \<Rightarrow> f ord | None \<Rightarrow> ord)
          in (Some ord, c\<lparr>Cl_orders := (Cl_orders c)(OrderModify_TransactionID m \<mapsto> ord)\<rparr>))"

definition decodeOrderModify :: decoder where
  "decodeOrderModify body c =
     (let m = ParseOrderModify body in
      if OrderModify_Short m then (Inr [], c)
      else (case applyOrderModify m c of
          (None, c) \<Rightarrow> (Inr [], c)
        | (Some ord, c) \<Rightarrow> (Inr [OrderEv ord], c)))"

text \<open>\<open>seen\<close> guards against an id that stands twice in the order.\<close>

fun orders_loop :: "Client \<Rightarrow> u64 list \<Rightarrow> u64 set \<Rightarrow> Order list" where
  "orders_loop c [] seen = []"
| "orders_loop c (i # ids) seen =
     (case Cl_orders c i of
        Some ord \<Rightarrow> if i \<notin> seen then ord # orders_loop c ids (insert i seen) else orders_loop c ids seen
      | None \<Rightarrow> orders_loop c ids seen)"

definition Orders :: "Client \<Rightarrow> Order list" where
  "Orders c = (if Cl_orders c = Map.empty then [] else orders_loop c (Cl_orderOrder c) {})"

definition clientNumericID :: "bytes \<Rightarrow> bytes \<Rightarrow> Client \<Rightarrow> i64 option" where
  "clientNumericID client union' c =
     (case List.find (\<lambda>k. case Cl_accounts c k of
              Some s \<Rightarrow> (client \<noteq> [] \<and> ClientNew_Code (AS_raw s) = client)
                 \<or> (client = [] \<and> union' \<noteq> [] \<and> ClientNew_Union (AS_raw s) = union')
            | None \<Rightarrow> False) (Cl_accountOrder c) of
        Some k \<Rightarrow> map_option (\<lambda>s. ClientNew_ID (AS_raw s)) (Cl_accounts c k)
      | None \<Rightarrow> None)"

definition decodeClientTrade :: "Lib \<Rightarrow> decoder" where
  "decodeClientTrade lib body =
     parsed (ParseClientTrade body) (\<lambda>raw c.
       let (code, union') = (case account_of c (ClientTrade_ClientID raw) of
              Some s \<Rightarrow> (Account_ID (AS_account s), Account_Union (AS_account s)) | None \<Rightarrow> ([], []))
       in if code = [] then (Inr [], c)
          else (Inr [ClientTradeEv ((ClientTrade_Event (lib_hundredths lib) (Cl_catalog c) raw)
                       \<lparr>CTE_Client := code, CTE_Union := union'\<rparr>)], c))"

text \<open>A stop order that does not parse is dropped.\<close>

definition decodeStopOrder :: decoder where
  "decodeStopOrder body c =
     (case ParseStopOrder body of
        Inl _ \<Rightarrow> (Inr [], c)
      | Inr raw \<Rightarrow>
          let emit = (\<lambda>code. if StopOrder_HasSec raw \<and> StopOrder_SecID raw = 0xffff then (Inr [], c)
                 else (Inr [StopOrderEv ((StopOrder_Event (Cl_catalog c) raw)
                             \<lparr>SOE_Client := code, SOE_Author := Cfg_Login (Cl_cfg c)\<rparr>)], c))
          in if \<not> StopOrder_HasClient raw then emit []
             else if sint (StopOrder_ClientID raw) < 0 then (Inr [], c)
             else (case account_of c (StopOrder_ClientID raw) of
                     None \<Rightarrow> (Inr [], c)
                   | Some s \<Rightarrow> emit (Account_ID (AS_account s))))"

subsection \<open>Market data\<close>

definition symbolOf :: "AllTrade \<Rightarrow> Client \<Rightarrow> Symbol option" where
  "symbolOf t c =
     (case (catalog_security c (AllTrade_SecID t), catalog_board c (AllTrade_Board t)) of
        (Some sec, Some b) \<Rightarrow> Some \<lparr>Symbol_Board = Board_Code b, Symbol_SecCode = SecNew_SecCode sec\<rparr>
      | _ \<Rightarrow> None)"

text \<open>\<open>c.catalog.Trade\<close> needs a catalog: \<open>load\<close> makes one before the first poll.\<close>

definition decodeAllTrade :: "Lib \<Rightarrow> decoder" where
  "decodeAllTrade lib body =
     parsed (ParseAllTrade (lib_win lib) body) (\<lambda>raw c.
       let (fresh, d) = (case symbolOf raw c of
              Some sm \<Rightarrow> FreshSymbol raw sm (Cl_dedup c) | None \<Rightarrow> Fresh raw (Cl_dedup c));
           c = c\<lparr>Cl_dedup := d\<rparr>;
           st = Cl_stats c
       in if \<not> fresh then (Inr [], c\<lparr>Cl_stats := st\<lparr>Stats_Duplicates := Stats_Duplicates st + 1\<rparr>\<rparr>)
          else (Inr (case Cl_catalog c of Some cat \<Rightarrow> [TradeEv (Catalog_Trade cat raw (Cl_bias c))] | None \<Rightarrow> []),
                c\<lparr>Cl_stats := st\<lparr>Stats_Trades := Stats_Trades st + 1\<rparr>\<rparr>))"

definition decodeQuotation :: "Lib \<Rightarrow> decoder" where
  "decodeQuotation lib body =
     parsed (ParseQuotation body) (\<lambda>q c.
       (Inr [QuotationEv (Quotation_Event (lib_fmt6g lib) (lib_bits lib (WireQuotation_Values q)) (Cl_catalog c) q)], c))"

definition decodeQuotes :: decoder where
  "decodeQuotes body = parsed (ParseQuotes body) (\<lambda>q c. (Inr [QuotesEv (Quotes_Event (Cl_catalog c) q)], c))"

definition decodeSecParam :: "Lib \<Rightarrow> decoder" where
  "decodeSecParam lib body =
     parsed (ParseSecParam body) (\<lambda>p c.
       if SecParam_Mask p AND 8 = 0 then (Inr [], c)
       else (case catalog_security c (SecParam_SecID p) of
           None \<Rightarrow> (Inr [], c)
         | Some sec \<Rightarrow> (Inr [SecInfoEv (SecParam_SecInfoUpdate (lib_fmt6g lib) p sec)], c)))"

definition decodeSecRate :: decoder where
  "decodeSecRate body =
     parsed (ParseSecRate body) (\<lambda>p c.
       (Inr [SecRateEv (SecRate_SecID p) (SecRate_Value p)],
        c\<lparr>Cl_marginRates := (Cl_marginRates c)(SecRate_SecID p \<mapsto> SecRate_Value p)\<rparr>))"

definition unknownMarketOrdSecCode :: bytes where
  "unknownMarketOrdSecCode = replicate 12 63"

definition decodeSecMktPermit :: decoder where
  "decodeSecMktPermit body =
     parsed (ParseSecMktPermit body) (\<lambda>p c.
       (Inr [MarketOrdEv \<lparr>MarketOrd_SecID = SecMktPermit_SecID p, MarketOrd_Permit = SecMktPermit_Permit p,
          MarketOrd_SecCode = (case catalog_security c (SecMktPermit_SecID p) of
             Some sec \<Rightarrow> SecNew_SecCode sec | None \<Rightarrow> unknownMarketOrdSecCode)\<rparr>], c))"

text \<open>\<open>m[k] += v\<close>.\<close>

definition accumulate :: "('k \<rightharpoonup> i64) \<Rightarrow> 'k \<Rightarrow> i64 \<Rightarrow> ('k \<rightharpoonup> i64)" where
  "accumulate m k v = m(k \<mapsto> (case m k of Some x \<Rightarrow> x | None \<Rightarrow> 0) + v)"

definition tick_event :: "Lib \<Rightarrow> TickRecord \<Rightarrow> Client \<Rightarrow> Tick" where
  "tick_event lib t c =
     (let k = (TickRecord_SecID t, TickRecord_Board t);
          tm = (case Cl_tickTimes c k of Some x \<Rightarrow> x | None \<Rightarrow> 0);
          no = (case Cl_tickTradeNos c k of Some x \<Rightarrow> x | None \<Rightarrow> 0);
          board = (case catalog_board c (TickRecord_Board t) of Some b \<Rightarrow> Board_Code b | None \<Rightarrow> [])
      in \<lparr>Tick_Symbol = \<lparr>Symbol_Board = board, Symbol_SecCode = sec_code (Cl_catalog c) (TickRecord_SecID t)\<rparr>,
          Tick_Board = board, Tick_SecID = TickRecord_SecID t, Tick_TradeNo = no,
          Tick_Time = (if tm = 0 then lib_today lib else Unix tm),
          Tick_Price = (case Cl_catalog c of
             None \<Rightarrow> zeroDecimal
           | Some cat \<Rightarrow> (case Decimals cat (TickRecord_SecID t) (TickRecord_Board t) of
                Some d \<Rightarrow> \<lparr>Units = TickRecord_Price t, Scale = d\<rparr> | None \<Rightarrow> zeroDecimal)),
          Tick_Quantity = TickRecord_Volume t, Tick_Period = TickRecord_Period t, Tick_BuySell = TickRecord_BuySell t\<rparr>)"

primrec ticks_loop :: "Lib \<Rightarrow> TickRecord list \<Rightarrow> Client \<Rightarrow> Tick list \<times> Client" where
  "ticks_loop lib [] c = ([], c)"
| "ticks_loop lib (t # ts) c =
     (let k = (TickRecord_SecID t, TickRecord_Board t);
          c = c\<lparr>Cl_tickTradeNos := accumulate (Cl_tickTradeNos c) k (TickRecord_TradeNo t),
               Cl_tickTimes := accumulate (Cl_tickTimes c) k (TickRecord_Time t)\<rparr>
      in case ticks_loop lib ts c of (items, c') \<Rightarrow> (tick_event lib t c # items, c'))"

definition decodeTick :: "Lib \<Rightarrow> decoder" where
  "decodeTick lib body =
     parsed (ParseTickRecord body) (\<lambda>ts c. case ticks_loop lib ts c of (items, c) \<Rightarrow> (Inr [TicksEv items], c))"

subsection \<open>History\<close>

definition addHistoryPart :: "WireCandles \<Rightarrow> Client \<Rightarrow> Client" where
  "addHistoryPart part c =
     (let k = (WireCandles_SecID part, WireCandles_Board part, WireCandles_Period part) in
      case Cl_history c k of
        None \<Rightarrow> c
      | Some coll \<Rightarrow>
          let parts = HC_parts coll @ [part] in
          if WireCandles_Status part = 2 then c\<lparr>Cl_history := (Cl_history c)(k \<mapsto> coll\<lparr>HC_parts := parts\<rparr>)\<rparr>
          else c\<lparr>Cl_history := (Cl_history c)(k := None),
                 Cl_results := (case Cl_results c (HC_ch coll) of
                    None \<Rightarrow> (Cl_results c)(HC_ch coll \<mapsto> Inr (CombineCandles (Cl_catalog c) (Cl_bias c) parts))
                  | Some _ \<Rightarrow> Cl_results c)\<rparr>)"

definition decodeCandles :: decoder where
  "decodeCandles body = parsed (ParseCandles body) (\<lambda>part c. (Inr [], addHistoryPart part c))"

subsection \<open>Messages and news\<close>

definition decodeMessage :: "Lib \<Rightarrow> decoder" where
  "decodeMessage lib body =
     parsed (ParseRMsg body) (\<lambda>m c.
       (Inr [MessageEv \<lparr>Message_Time = Time_Add (Unix (RMsg_Date m)) (Cl_bias c), Message_WallTime = Unix (RMsg_Date m),
          Message_Urgent = (RMsg_Flags m AND 1 \<noteq> 0 \<or> RMsg_Flags m AND 8 \<noteq> 0),
          Message_From = DecodeCP1251 (lib_win lib) (RMsg_From m), Message_Text = DecodeCP1251 (lib_win lib) (RMsg_Text m),
          Message_Flags = RMsg_Flags m\<rparr>], c))"

definition news_header_of :: "Lib \<Rightarrow> NewsHeaderRecord \<Rightarrow> NewsHeader" where
  "news_header_of lib h =
     \<lparr>NewsHeader_ID = NewsHeaderRecord_ID h, NewsHeader_Time = Unix (NewsHeaderRecord_Timestamp h),
      NewsHeader_Source = DecodeCP1251 (lib_win lib) (NewsHeaderRecord_Source h),
      NewsHeader_Title = DecodeCP1251 (lib_win lib) (NewsHeaderRecord_Title h), NewsHeader_Flag = NewsHeaderRecord_Flag h\<rparr>"

definition storeNewsHeader :: "NewsHeader \<Rightarrow> Client \<Rightarrow> Client" where
  "storeNewsHeader h c =
     (let c = (if Cl_news c (NewsHeader_ID h) = None then c\<lparr>Cl_newsOrder := Cl_newsOrder c @ [NewsHeader_ID h]\<rparr> else c)
      in c\<lparr>Cl_news := (Cl_news c)(NewsHeader_ID h \<mapsto> h)\<rparr>)"

definition decodeNewsHeader :: "Lib \<Rightarrow> decoder" where
  "decodeNewsHeader lib body =
     parsed (ParseNewsHeader body) (\<lambda>h c.
       (Inr [NewsHeaderEv (news_header_of lib h)], storeNewsHeader (news_header_of lib h) c))"

definition news_body :: "Lib \<Rightarrow> NewsUpload \<Rightarrow> bytes \<Rightarrow> Client \<Rightarrow> Event list \<times> Client" where
  "news_body lib u text c =
     (let i = (case NewsUpload_Header u of Some h \<Rightarrow> NewsHeaderRecord_ID h | None \<Rightarrow> NewsUpload_NewsID u);
          text = DecodeCP1251 (lib_win lib) text;
          c = (if Cl_news c i \<noteq> None then c\<lparr>Cl_newsBodies := (Cl_newsBodies c)(i \<mapsto> text)\<rparr> else c);
          requested = Cl_newsBodyRequest c
      in if NewsUpload_Flags u AND 2 \<noteq> 0 \<and> requested \<noteq> 0 \<and> Cl_news c requested \<noteq> None
         then ([NewsBodyEv i text], c\<lparr>Cl_newsBodyRequest := 0\<rparr>) else ([], c))"

definition decodeNewsUpload :: "Lib \<Rightarrow> decoder" where
  "decodeNewsUpload lib body =
     parsed (ParseNewsUpload (lib_zlen lib) body) (\<lambda>u c.
       let (events, c) = (case NewsUpload_Header u of
              Some h \<Rightarrow> ([NewsHeaderEv (news_header_of lib h)], storeNewsHeader (news_header_of lib h) c)
            | None \<Rightarrow> ([], c))
       in if NewsUpload_Package u = [] then (Inr events, c)
          else (case UnpackNewsBody (lib_zread lib) (NewsUpload_Package u) of
              Inl _ \<Rightarrow> (Inr events, c)
            | Inr text \<Rightarrow> (case news_body lib u text c of (evs, c) \<Rightarrow> (Inr (events @ evs), c))))"

subsection \<open>Options\<close>

definition FamilyDate :: "i32 \<Rightarrow> GoTime" where
  "FamilyDate i = Unix (scast i * 86400)"

definition decodeOptionFamily :: decoder where
  "decodeOptionFamily body =
     parsed (ParseFamily body) (\<lambda>p c.
       let i = ucast (FamilyRecord_First p) :: i32;
           f = \<lparr>Family_SecID = FamilyRecord_SecID p, Family_FamilyID = i, Family_MatDate = FamilyDate i,
                Family_LotSize = FamilyRecord_Second p\<rparr>;
           fs = Cl_optionFamilies c
       in (Inr [], c\<lparr>Cl_optionFamilies := fs(FamilyRecord_SecID p := (fs (FamilyRecord_SecID p))(i \<mapsto> f))\<rparr>))"

text \<open>\<open>sort.Slice\<close> over the values of a map whose keys are the sort keys: the keys in order.\<close>

definition sortedFamilies :: "u16 \<Rightarrow> Client \<Rightarrow> OptionFamily list" where
  "sortedFamilies secid c =
     (let fs = Cl_optionFamilies c secid
      in map (\<lambda>i. the (fs (word_of_int i))) (sorted_list_of_set (sint ` dom fs)))"

definition symbolOfSec :: "u16 \<Rightarrow> Client \<Rightarrow> Symbol" where
  "symbolOfSec secid c =
     (case catalog_security c secid of
        None \<Rightarrow> zeroSymbol
      | Some sec \<Rightarrow>
          \<lparr>Symbol_Board = (case SecNew_DefaultPit sec of
              Some p \<Rightarrow> (case catalog_board c (Pit_Board p) of Some b \<Rightarrow> Board_Code b | None \<Rightarrow> []) | None \<Rightarrow> []),
           Symbol_SecCode = SecNew_SecCode sec\<rparr>)"

definition decodeEndOfFamilies :: "Lib \<Rightarrow> decoder" where
  "decodeEndOfFamilies lib body =
     parsed (ParseEndOfFamilies body) (\<lambda>p c.
       (Inr [FamiliesEv \<lparr>Families_SecID = EndOfFamiliesRecord_SecID p,
          Families_Underlying = symbolOfSec (EndOfFamiliesRecord_SecID p) c,
          Families_Families = sortedFamilies (EndOfFamiliesRecord_SecID p) c,
          Families_Text = DecodeCP1251 (lib_win lib) (EndOfFamiliesRecord_Text p)\<rparr>], c))"

definition decodeEndOfFamily :: "Lib \<Rightarrow> decoder" where
  "decodeEndOfFamily lib body =
     parsed (ParseEndOfFamily body) (\<lambda>p c.
       (Inr [EndOfFamilyEv \<lparr>EOF_SecID = EndOfFamilyRecord_SecID p, EOF_OptCode = EndOfFamilyRecord_OptCode p,
          EOF_Code = EndOfFamilyRecord_Code p, EOF_Text = DecodeCP1251 (lib_win lib) (EndOfFamilyRecord_Text p)\<rparr>], c))"

text \<open>\<open>sort.SliceStable\<close> by price and then by kind: a stable sort by the pair.\<close>

definition sort_strikes :: "Strike list \<Rightarrow> Strike list" where
  "sort_strikes items = sort_key (\<lambda>s. sint (Strike_Price s)) (sort_key (\<lambda>s. uint (Strike_CP s)) items)"

definition decodeOptionStrikes :: decoder where
  "decodeOptionStrikes body =
     parsed (ParseStrikes body) (\<lambda>p c.
       let k = (ucast (StrikesRecord_SecID p), StrikesRecord_FamilyID p);
           acc = (case Cl_optionStrikes c k of
              Some a \<Rightarrow> a
            | None \<Rightarrow> \<lparr>OS_SecID = StrikesRecord_SecID p, OS_Underlying = symbolOfSec (StrikesRecord_SecID p) c,
                OS_FamilyID = StrikesRecord_FamilyID p, OS_MatDate = FamilyDate (ucast (StrikesRecord_FamilyID p)),
                OS_Items = [], OS_Final = 0\<rparr>);
           acc = acc\<lparr>OS_Items := OS_Items acc @ map (\<lambda>i. \<lparr>Strike_OptCode = StrikeItem_OptCode i,
                     Strike_CP = StrikeItem_CP i, Strike_Price = StrikeItem_Price i\<rparr>) (StrikesRecord_Items p),
                   OS_Final := StrikesRecord_Final p\<rparr>
       in if StrikesRecord_Final p = 0 then (Inr [], c\<lparr>Cl_optionStrikes := (Cl_optionStrikes c)(k \<mapsto> acc)\<rparr>)
          else (Inr [StrikesEv (acc\<lparr>OS_Items := sort_strikes (OS_Items acc)\<rparr>)],
                c\<lparr>Cl_optionStrikes := (Cl_optionStrikes c)(k := None)\<rparr>))"

end
