(* ===== verification/Client_Poll.thy ===== *)
theory Client_Poll
  imports Client_State
begin

text \<open>
  The poll loop of \<open>native/client.go\<close>: the table of decoders (\<open>events.go\<close>), what one RQ_MAIN reply
  does to the client (\<open>Poll\<close>), the initial load (\<open>load\<close>), and the views of the catalog that the
  commands use. \<open>Conn\<close> is reached through the field \<open>conn\<close> of the client, which is empty after a
  failed \<open>Reconnect\<close>.
\<close>

unbundle bit_operations_syntax

subsection \<open>The decoders by tag\<close>

definition TagClientNew :: byte where "TagClientNew = 0x02"
definition TagOrderNew :: byte where "TagOrderNew = 0x03"
definition TagClientTrade :: byte where "TagClientTrade = 0x04"
definition TagOrderModify :: byte where "TagOrderModify = 0x10"
definition TagClientAsset :: byte where "TagClientAsset = 0x3b"
definition TagStopOrder :: byte where "TagStopOrder = 0x54"
definition TagSecMktPermit :: byte where "TagSecMktPermit = 0x0e"

lemmas client_tag_defs = TagClientNew_def TagOrderNew_def TagClientTrade_def TagOrderModify_def
  TagClientAsset_def TagStopOrder_def TagSecMktPermit_def

definition decoders :: "Lib \<Rightarrow> byte \<Rightarrow> decoder option" where
  "decoders lib = map_of
     [(TagClientNew, decodeClientNew), (TagClientAsset, decodeClientAsset), (TagOvernight, decodeOvernight),
      (TagUnion, decodeUnion), (TagAllTrade, decodeAllTrade lib), (TagCandles, decodeCandles),
      (TagClientTrade, decodeClientTrade lib), (TagSecMktPermit, decodeSecMktPermit), (TagSecRate, decodeSecRate),
      (TagMessage, decodeMessage lib), (TagNews, decodeNewsHeader lib), (TagNewsUpload, decodeNewsUpload lib),
      (TagFamily, decodeOptionFamily), (TagEndOfFamilies, decodeEndOfFamilies lib), (TagEndOfFamily, decodeEndOfFamily lib),
      (TagStrikes, decodeOptionStrikes), (TagOrderNew, decodeOrderNew), (TagOrderModify, decodeOrderModify),
      (TagQuotation, decodeQuotation lib), (TagQuotes, decodeQuotes), (TagSecParam, decodeSecParam lib),
      (TagStopOrder, decodeStopOrder), (TagTick, decodeTick lib)]"

subsection \<open>One reply\<close>

text \<open>\<open>errors.Is(err, ErrUnknownRecord)\<close>.\<close>

primrec is_unknown :: "err \<Rightarrow> bool" where
  "is_unknown ErrShortBuffer = False"
| "is_unknown ErrHeaderCRC = False"
| "is_unknown (PayloadCRCError f t) = False"
| "is_unknown ErrTooLarge = False"
| "is_unknown ErrEOF = False"
| "is_unknown ErrUnexpectedEOF = False"
| "is_unknown ErrUnknownRecord = True"
| "is_unknown (UnknownRecordError t n) = True"
| "is_unknown (Wrap s e) = is_unknown e"
| "is_unknown (WrapN s a e) = is_unknown e"
| "is_unknown (Errorf s a) = False"
| "is_unknown OutOfFuel = False"

text \<open>A method call on a nil pointer panics; the model reports it as this error.\<close>

definition nilPointer :: err where
  "nilPointer = Errorf ''nil pointer dereference'' []"

definition mutate_catalog :: "Lib \<Rightarrow> Record \<Rightarrow> Client \<Rightarrow> err option \<times> Client" where
  "mutate_catalog lib r c =
     (case Cl_catalog c of
        None \<Rightarrow> (Some nilPointer, c)
      | Some cat \<Rightarrow>
          (case ApplyMutations (lib_win lib) r cat of
             (Inl e, cat) \<Rightarrow> (Some e, c\<lparr>Cl_catalog := Some cat\<rparr>)
           | (Inr _, cat) \<Rightarrow> (None, c\<lparr>Cl_catalog := Some cat\<rparr>)))"

definition apply_record :: "Lib \<Rightarrow> Record \<Rightarrow> Client \<Rightarrow> (err + Event list) \<times> Client" where
  "apply_record lib r c =
     (case mutate_catalog lib r c of
        (Some e, c) \<Rightarrow> (Inl e, c)
      | (None, c) \<Rightarrow>
          (case decoders lib (Record_Tag r) of
             None \<Rightarrow> (Inr [], c)
           | Some decode \<Rightarrow> decode (Record_Body r) c))"

text \<open>The loop over the records: the events so far, and the error that ended it.\<close>

primrec apply_records :: "Lib \<Rightarrow> Record list \<Rightarrow> Client \<Rightarrow> Event list \<times> err option \<times> Client" where
  "apply_records lib [] c = ([], None, c)"
| "apply_records lib (r # rs) c =
     (case apply_record lib r c of
        (Inl e, c) \<Rightarrow> ([], Some e, c)
      | (Inr evs, c) \<Rightarrow> (case apply_records lib rs c of (events, err, c) \<Rightarrow> (evs @ events, err, c)))"

primrec message_of :: "Event \<Rightarrow> Message option" where
  "message_of (TradeEv t) = None"
| "message_of (AccountEv a) = None"
| "message_of (MoneyEv p) = None"
| "message_of (SecPosEv p) = None"
| "message_of (UnionEv u) = None"
| "message_of (OrderEv q) = None"
| "message_of (ClientTradeEv t) = None"
| "message_of (StopOrderEv q) = None"
| "message_of (SecRateEv i v) = None"
| "message_of (MarketOrdEv m) = None"
| "message_of (MessageEv m) = Some m"
| "message_of (MessagesEv ms) = None"
| "message_of (NewsHeaderEv h) = None"
| "message_of (NewsBodyEv i t) = None"
| "message_of (FamiliesEv f) = None"
| "message_of (EndOfFamilyEv f) = None"
| "message_of (StrikesEv s) = None"
| "message_of (QuotationEv q) = None"
| "message_of (QuotesEv q) = None"
| "message_of (SecInfoEv u) = None"
| "message_of (TicksEv ts) = None"
| "message_of (UnknownEv t n p) = None"
| "message_of (StatusEv a b e) = None"

definition not_message :: "Event \<Rightarrow> bool" where
  "not_message ev \<longleftrightarrow> message_of ev = None"

text \<open>All messages of a reply become one event at the place of the first.\<close>

definition batch_messages :: "Event list \<Rightarrow> Event list" where
  "batch_messages events =
     (let messages = List.map_filter message_of events in
      if messages = [] then events
      else takeWhile not_message events @ MessagesEv messages # filter not_message (dropWhile not_message events))"

definition count_poll :: "err option \<Rightarrow> Client \<Rightarrow> Client" where
  "count_poll e c =
     (let st = Cl_stats c;
          st = st\<lparr>Stats_Polls := Stats_Polls st + 1\<rparr>;
          st = (case e of
             None \<Rightarrow> st
           | Some e \<Rightarrow>
               if \<not> is_unknown e then st
               else let st = st\<lparr>Stats_UnknownRecords := Stats_UnknownRecords st + 1\<rparr>
                    in (case as_unknown e of Some (tag, _) \<Rightarrow> st\<lparr>Stats_LastUnknownTag := tag\<rparr> | None \<Rightarrow> st))
      in c\<lparr>Cl_stats := st\<rparr>)"

text \<open>What \<open>Poll\<close> returns: events, whether more data waits, error.\<close>

type_synonym poll_result = "Event list \<times> bool \<times> serr option"

definition poll_reply :: "Lib \<Rightarrow> MainReply \<Rightarrow> Client \<Rightarrow> poll_result \<times> Client" where
  "poll_reply lib reply c =
     (let payload = MainReply_Payload reply; more' = MainReply_More reply;
          (recs, splitErr) = Records (lib_zlen lib) payload;
          c = count_poll splitErr c;
          unknown = (case splitErr of None \<Rightarrow> None | Some e \<Rightarrow> as_unknown e)
      in if (case splitErr of None \<Rightarrow> False | Some e \<Rightarrow> \<not> is_unknown e)
         then (([], more', map_option Low splitErr), c)
         else (case apply_records lib recs c of
             (events, Some e, c) \<Rightarrow> ((events, more', Some (Low e)), c)
           | (events, None, c) \<Rightarrow>
               ((batch_messages events @ (case unknown of None \<Rightarrow> [] | Some (tag, off) \<Rightarrow> [UnknownEv tag off (drop off payload)]),
                 more', None), c)))"

text \<open>A request on the connection of the client.\<close>

definition on_conn :: "'a \<Rightarrow> (Conn \<Rightarrow> Net \<Rightarrow> 'a \<times> Conn \<times> Net) \<Rightarrow> Client \<Rightarrow> Net \<Rightarrow> 'a \<times> Client \<times> Net" where
  "on_conn gone f c net =
     (case Cl_conn c of
        None \<Rightarrow> (gone, c, net)
      | Some k \<Rightarrow> (case f k net of (a, k, net) \<Rightarrow> (a, c\<lparr>Cl_conn := Some k\<rparr>, net)))"

definition Poll :: "Lib \<Rightarrow> Env \<Rightarrow> Client \<Rightarrow> Net \<Rightarrow> poll_result \<times> Client \<times> Net" where
  "Poll lib env c net =
     (case on_conn (Inl (Low nilPointer)) (Conn_Main env) c net of
        (Inl e, c, net) \<Rightarrow> (([], False, Some e), c, net)
      | (Inr reply, c, net) \<Rightarrow> (case poll_reply lib reply c of (res, c) \<Rightarrow> (res, c, net)))"

text \<open>The client \<open>Dial\<close> makes before the load.\<close>

definition newClient :: "ClientConfig \<Rightarrow> Conn \<Rightarrow> Info \<Rightarrow> Client" where
  "newClient cfg conn info = resetAccounts
     \<lparr>Cl_cfg = cfg, Cl_conn = Some conn, Cl_info = Some info, Cl_catalog = None, Cl_zone = replicate 16 0, Cl_serverTZ = [],
      Cl_bias = 0, Cl_subs = Map.empty, Cl_dedup = \<lparr>Dedup_last = Map.empty, Dedup_lastRaw = Map.empty\<rparr>,
      Cl_recovering = False, Cl_fatal = None,
      Cl_stats = \<lparr>Stats_Polls = 0, Stats_Trades = 0, Stats_Duplicates = 0, Stats_UnknownRecords = 0, Stats_LastUnknownTag = 0\<rparr>,
      Cl_made = False, Cl_accounts = Map.empty, Cl_accountOrder = [], Cl_positions = Map.empty, Cl_positionOrder = [],
      Cl_unions = [], Cl_overnight = False, Cl_secSpecs = Map.empty, Cl_history = Map.empty, Cl_results = Map.empty,
      Cl_orders = Map.empty, Cl_pendingOrders = [], Cl_orderOrder = [], Cl_secPositions = Map.empty,
      Cl_secPositionOrder = [], Cl_marginRates = Map.empty, Cl_tickTradeNos = Map.empty, Cl_tickTimes = Map.empty,
      Cl_newsBodyRequest = 0, Cl_news = Map.empty, Cl_newsOrder = [], Cl_newsBodies = Map.empty,
      Cl_optionFamilies = (\<lambda>_. Map.empty), Cl_optionStrikes = Map.empty, Cl_unionCategories = Map.empty,
      Cl_marginTemplates = Map.empty\<rparr>"

subsection \<open>The initial load\<close>

text \<open>The calls of \<open>ClientConfig.OnDictionaries\<close>, \<open>OnSecurities\<close> and \<open>OnLoadEvent\<close>.\<close>

datatype Callback =
    OnDictionaries Startup
  | OnSecurities "SecNew list"
  | OnLoadEvent "Event list"

definition is_trade :: "Event \<Rightarrow> bool" where
  "is_trade ev \<longleftrightarrow> (case ev of TradeEv _ \<Rightarrow> True | _ \<Rightarrow> False)"

definition drain :: "Client \<Rightarrow> SecNew list \<times> Client" where
  "drain c =
     (case Cl_catalog c of
        None \<Rightarrow> ([], c)
      | Some cat \<Rightarrow> (case DrainPending cat of (secs, cat) \<Rightarrow> (secs, c\<lparr>Cl_catalog := Some cat\<rparr>)))"

text \<open>
  \<open>for more := true; more;\<close>. \<open>envs i\<close> is the environment of the \<open>i\<close>-th request. The fuel bounds
  the number of polls: each one takes a frame from the socket, so the number of bytes there and one
  more is enough (\<open>load_returns\<close>).
\<close>

primrec load_loop :: "nat \<Rightarrow> Lib \<Rightarrow> (nat \<Rightarrow> Env) \<Rightarrow> nat \<Rightarrow> Client \<Rightarrow> Net \<Rightarrow> Callback list \<times> serr option \<times> Client \<times> Net" where
  "load_loop 0 lib envs i c net = ([], Some (Low OutOfFuel), c, net)"
| "load_loop (Suc n) lib envs i c net =
     (case Poll lib (envs i) c net of
        ((events, more', Some e), c, net) \<Rightarrow> ([], Some e, c, net)
      | ((events, more', None), c, net) \<Rightarrow>
          if \<exists>ev\<in>set events. is_trade ev then ([], Some (SErrorf ''trades before subscription'' []), c, net)
          else
            let (secs, c) = drain c;
                calls = (if secs \<noteq> [] then [OnSecurities secs] else []) @ (if events \<noteq> [] then [OnLoadEvent events] else [])
            in if \<not> more' then (calls, None, c, net)
               else (case load_loop n lib envs (i + 1) c net of (calls', e, c, net) \<Rightarrow> (calls @ calls', e, c, net)))"

text \<open>\<open>time.Duration(int16(...)) * time.Minute\<close>; the first two bytes of the zone block are the
  bias in minutes.\<close>

definition zone_bias :: "bytes \<Rightarrow> i64" where
  "zone_bias zone = scast (ucast (zone ! 0) OR push_bit 8 (ucast (zone ! 1)) :: 16 word) * 60000000000"

definition load :: "Lib \<Rightarrow> (nat \<Rightarrow> Env) \<Rightarrow> Client \<Rightarrow> Net \<Rightarrow> Callback list \<times> serr option \<times> Client \<times> Net" where
  "load lib envs c net =
     (case on_conn (Inl (Low nilPointer)) (Conn_Time (envs 0)) c net of
        (Inl e, c, net) \<Rightarrow> ([], Some e, c, net)
      | (Inr st, c, net) \<Rightarrow>
          let tz = (case TimeZoneName (ServerTime_Zone st) of Some n \<Rightarrow> n | None \<Rightarrow> []);
              c = c\<lparr>Cl_zone := ServerTime_Zone st, Cl_serverTZ := tz, Cl_bias := zone_bias (ServerTime_Zone st)\<rparr>
          in (case on_conn (Inl (Low nilPointer)) (Conn_Startup (envs 1)) c net of
                (Inl e, c, net) \<Rightarrow> ([], Some e, c, net)
              | (Inr payload, c, net) \<Rightarrow>
                  (case ParseStartup (lib_win lib) payload of
                     Inl e \<Rightarrow> ([], Some (Low e), c, net)
                   | Inr startup \<Rightarrow>
                       let c = c\<lparr>Cl_catalog := Some (NewCatalog startup)\<rparr>
                       in (case load_loop (Suc (length (N_in net))) lib envs 2 c net of
                             (calls, e, c, net) \<Rightarrow> (OnDictionaries startup # calls, e, c, net)))))"

end
