(* ===== verification/Client_Properties.thy ===== *)
theory Client_Properties
  imports Client_Poll Catalog_Properties Session_Replies
begin

text \<open>
  The invariant of the stores of the client and its preservation by every decoder and by \<open>Poll\<close>;
  the collection of orders before their client is known; the delivery of a history request; the
  end of the load.
\<close>

subsection \<open>The invariant of the stores\<close>

definition keyed :: "('k \<rightharpoonup> 'v) \<Rightarrow> 'k list \<Rightarrow> bool" where
  "keyed m order \<longleftrightarrow> distinct order \<and> set order = dom m"

lemma keyed_empty [simp]: "keyed Map.empty []"
  by (simp add: keyed_def)

lemma keyed_update [simp, intro]:
  "keyed m order \<Longrightarrow> keyed (m(k \<mapsto> v)) (if m k = None then order @ [k] else order)"
  by (auto simp: keyed_def)

lemma keyed_new [intro]: "keyed m order \<Longrightarrow> m k = None \<Longrightarrow> keyed (m(k \<mapsto> v)) (order @ [k])"
  by (auto simp: keyed_def)

lemma keyed_old [intro]: "keyed m order \<Longrightarrow> m k = Some w \<Longrightarrow> keyed (m(k \<mapsto> v)) order"
  by (auto simp: keyed_def)

definition accounts_ok :: "Client \<Rightarrow> bool" where
  "accounts_ok c \<longleftrightarrow> keyed (Cl_accounts c) (Cl_accountOrder c)
     \<and> (\<forall>i s. Cl_accounts c i = Some s \<longrightarrow> ClientNew_ID (AS_raw s) = i \<and> AS_account s = account_of_record (AS_raw s))
     \<and> (Cl_made c \<or> Cl_accounts c = Map.empty)"

definition positions_ok :: "Client \<Rightarrow> bool" where
  "positions_ok c \<longleftrightarrow> keyed (Cl_positions c) (Cl_positionOrder c) \<and> keyed (Cl_secPositions c) (Cl_secPositionOrder c)
     \<and> (\<forall>k s. Cl_positions c k = Some s \<longrightarrow> (PS_client s, PS_sym s) = k)"

definition orders_ok :: "Client \<Rightarrow> bool" where
  "orders_ok c \<longleftrightarrow> keyed (Cl_orders c) (Cl_orderOrder c)
     \<and> (\<forall>i o'. Cl_orders c i = Some o' \<longrightarrow> Order_TransactionID o' = i)
     \<and> (\<forall>p\<in>set (Cl_pendingOrders c). Cl_accounts c (OrderNew_ClientID p) = None)"

definition news_ok :: "Client \<Rightarrow> bool" where
  "news_ok c \<longleftrightarrow> keyed (Cl_news c) (Cl_newsOrder c) \<and> dom (Cl_newsBodies c) \<subseteq> dom (Cl_news c)"

definition history_ok :: "Client \<Rightarrow> bool" where
  "history_ok c \<longleftrightarrow>
     (\<forall>k coll. Cl_history c k = Some coll \<longrightarrow> Cl_results c (HC_ch coll) = None \<and> (\<forall>p\<in>set (HC_parts coll). WireCandles_Status p = 2
        \<and> (WireCandles_SecID p, WireCandles_Board p, WireCandles_Period p) = k))
     \<and> (\<forall>k k' coll coll'. Cl_history c k = Some coll \<longrightarrow> Cl_history c k' = Some coll' \<longrightarrow> HC_ch coll = HC_ch coll' \<longrightarrow> k = k')"

definition cat_ok :: "Client \<Rightarrow> bool" where
  "cat_ok c \<longleftrightarrow> (\<forall>cat. Cl_catalog c = Some cat \<longrightarrow> catalog_ok cat)"

definition client_ok :: "Client \<Rightarrow> bool" where
  "client_ok c \<longleftrightarrow> accounts_ok c \<and> positions_ok c \<and> orders_ok c \<and> news_ok c \<and> history_ok c \<and> cat_ok c"

lemmas store_oks = accounts_ok_def positions_ok_def orders_ok_def news_ok_def history_ok_def cat_ok_def

lemma find_eq: "i \<in> set ks \<Longrightarrow> List.find (\<lambda>k. k = i) ks = Some i"
  by (induction ks) auto

lemma account_of_lookup:
  assumes "accounts_ok c" shows "account_of c i = Cl_accounts c i"
proof (cases "Cl_accounts c i")
  case None
  have "List.find (\<lambda>k. case Cl_accounts c k of Some s \<Rightarrow> ClientNew_ID (AS_raw s) = i | None \<Rightarrow> False) (Cl_accountOrder c) = None"
    using assms None by (fastforce simp: find_None_iff accounts_ok_def split: option.splits)
  with None show ?thesis by (simp add: account_of_def)
next
  case (Some s)
  let ?P = "\<lambda>k. case Cl_accounts c k of Some s \<Rightarrow> ClientNew_ID (AS_raw s) = i | None \<Rightarrow> False"
  have p: "?P k \<longleftrightarrow> k = i" for k
    using assms Some by (auto simp: accounts_ok_def split: option.splits)
  have "i \<in> set (Cl_accountOrder c)" using assms Some by (auto simp: accounts_ok_def keyed_def)
  then have "List.find ?P (Cl_accountOrder c) = Some i"
    unfolding p by (rule find_eq)
  with Some show ?thesis by (simp add: account_of_def)
qed

named_theorems keeps_ok

definition keeps :: "decoder \<Rightarrow> bool" where
  "keeps d \<longleftrightarrow> (\<forall>body c. client_ok c \<longrightarrow> client_ok (snd (d body c)))"

lemma keeps_parsed:
  assumes "\<And>a c. client_ok c \<Longrightarrow> client_ok (snd (f a c))"
  shows "client_ok c \<Longrightarrow> client_ok (snd (parsed x f c))"
  by (auto simp: parsed_def intro: assms split: sum.split)

lemma keeps_simple [keeps_ok]:
  "keeps decodeOvernight" "keeps decodeUnion" "keeps decodeQuotes" "keeps (decodeQuotation lib)" "keeps (decodeSecParam lib)"
  "keeps decodeSecRate" "keeps decodeSecMktPermit" "keeps (decodeMessage lib)" "keeps (decodeEndOfFamilies lib)"
  "keeps (decodeEndOfFamily lib)" "keeps decodeOptionFamily" "keeps (decodeClientTrade lib)"
  unfolding keeps_def decodeOvernight_def decodeUnion_def decodeQuotes_def decodeQuotation_def decodeSecParam_def
    decodeSecRate_def decodeSecMktPermit_def decodeMessage_def decodeEndOfFamilies_def decodeEndOfFamily_def
    decodeOptionFamily_def decodeClientTrade_def
  by (intro allI impI keeps_parsed; simp add: client_ok_def store_oks Let_def split: prod.split option.split)+

lemma keeps_strikes [keeps_ok]: "keeps decodeOptionStrikes"
  unfolding keeps_def decodeOptionStrikes_def
  by (intro allI impI keeps_parsed; simp add: client_ok_def store_oks Let_def)

lemma keeps_stop [keeps_ok]: "keeps decodeStopOrder"
  unfolding keeps_def decodeStopOrder_def by (auto simp: Let_def split: sum.split option.split)

lemma keeps_alltrade [keeps_ok]: "keeps (decodeAllTrade lib)"
  unfolding keeps_def decodeAllTrade_def
  by (intro allI impI keeps_parsed; simp add: client_ok_def store_oks Let_def split: prod.split)

lemma ticks_ok: "client_ok c \<Longrightarrow> client_ok (snd (ticks_loop lib ts c))"
proof (induction ts arbitrary: c)
  case (Cons t ts)
  let ?k = "(TickRecord_SecID t, TickRecord_Board t)"
  let ?c = "c\<lparr>Cl_tickTradeNos := accumulate (Cl_tickTradeNos c) ?k (TickRecord_TradeNo t),
       Cl_tickTimes := accumulate (Cl_tickTimes c) ?k (TickRecord_Time t)\<rparr>"
  have "client_ok ?c" using Cons.prems by (simp add: client_ok_def store_oks)
  from Cons.IH [OF this] show ?case by (auto simp: Let_def split: prod.split)
qed simp

lemma keeps_tick [keeps_ok]: "keeps (decodeTick lib)"
  unfolding keeps_def decodeTick_def
  by (intro allI impI keeps_parsed; simp add: split: prod.split) (metis snd_conv ticks_ok)

lemma storeNewsHeader_ok: "client_ok c \<Longrightarrow> client_ok (storeNewsHeader h c)"
  by (auto simp: storeNewsHeader_def client_ok_def store_oks Let_def)

lemma keeps_news [keeps_ok]: "keeps (decodeNewsHeader lib)"
  unfolding keeps_def decodeNewsHeader_def by (intro allI impI keeps_parsed; simp add: storeNewsHeader_ok)

lemma news_body_ok: "client_ok c \<Longrightarrow> client_ok (snd (news_body lib u text c))"
  by (auto simp: news_body_def client_ok_def store_oks Let_def)

lemma news_body_ok': "news_body lib u text c = (evs, c') \<Longrightarrow> client_ok c \<Longrightarrow> client_ok c'"
  by (metis news_body_ok snd_conv)

lemma keeps_upload [keeps_ok]: "keeps (decodeNewsUpload lib)"
  unfolding keeps_def decodeNewsUpload_def
  by (intro allI impI keeps_parsed)
    (auto simp: Let_def storeNewsHeader_ok intro: news_body_ok' storeNewsHeader_ok split: prod.split option.split sum.split)

subsection \<open>Accounts and orders keep the invariant\<close>

lemma storeOrder_ok:
  assumes "client_ok c" shows "client_ok (storeOrder ord c)"
  using assms by (auto simp: storeOrder_def client_ok_def store_oks Let_def)

lemma storeOrder_pending [simp]: "Cl_pendingOrders (storeOrder ord c) = Cl_pendingOrders c"
  "Cl_accounts (storeOrder ord c) = Cl_accounts c" "Cl_accountOrder (storeOrder ord c) = Cl_accountOrder c"
  "Cl_catalog (storeOrder ord c) = Cl_catalog c"
  by (simp_all add: storeOrder_def Let_def)

lemma buildOrderEvent_storeOrder [simp]: "buildOrderEvent p (storeOrder ord c) = buildOrderEvent p c"
  by (simp add: buildOrderEvent_def account_of_def catalog_security_def catalog_board_def cong: option.case_cong)

lemma buildOrderEvent_id [simp]: "Order_TransactionID (buildOrderEvent p c) = Order_TransactionID (OrderNew_Order p)"
  by (simp add: buildOrderEvent_def Let_def split: option.split)

text \<open>The flush as a filter: the orders of the client are stored in arrival order, the others stay.\<close>

definition orders_of :: "i64 \<Rightarrow> OrderNew list \<Rightarrow> OrderNew list" where
  "orders_of i ps = filter (\<lambda>p. OrderNew_ClientID p = i) ps"

definition store_all :: "OrderNew list \<Rightarrow> Client \<Rightarrow> Client" where
  "store_all ps c = fold (\<lambda>p c. storeOrder (buildOrderEvent p c) c) ps c"

lemma store_all_simps [simp]: "store_all [] c = c"
  "store_all (p # ps) c = store_all ps (storeOrder (buildOrderEvent p c) c)"
  by (simp_all add: store_all_def)

lemma store_all_fields [simp]: "Cl_pendingOrders (store_all ps c) = Cl_pendingOrders c"
  "Cl_accounts (store_all ps c) = Cl_accounts c" "Cl_accountOrder (store_all ps c) = Cl_accountOrder c"
  "Cl_catalog (store_all ps c) = Cl_catalog c"
  "buildOrderEvent p (store_all ps c) = buildOrderEvent p c"
  by (induction ps arbitrary: c) simp_all

lemma flush_fold:
  "fold (flush_step i) ps (events, kept, c) =
     (events @ map (\<lambda>p. OrderEv (buildOrderEvent p c)) (orders_of i ps),
      kept @ filter (\<lambda>p. OrderNew_ClientID p \<noteq> i) ps, store_all (orders_of i ps) c)"
  by (induction ps arbitrary: events kept c) (simp_all add: flush_step_def orders_of_def Let_def)

lemma flushPendingOrders_eq:
  "flushPendingOrders i c =
     (map (\<lambda>p. OrderEv (buildOrderEvent p c)) (orders_of i (Cl_pendingOrders c)),
      (store_all (orders_of i (Cl_pendingOrders c)) c)
        \<lparr>Cl_pendingOrders := filter (\<lambda>p. OrderNew_ClientID p \<noteq> i) (Cl_pendingOrders c)\<rparr>)"
  by (simp add: flushPendingOrders_def flush_fold orders_of_def)

lemma store_all_ok: "client_ok c \<Longrightarrow> client_ok (store_all ps c)"
  by (induction ps arbitrary: c) (simp_all add: storeOrder_ok)


lemma pending_kept_ok:
  assumes "client_ok c" "set ps \<subseteq> set (Cl_pendingOrders c)"
  shows "client_ok (c\<lparr>Cl_pendingOrders := ps\<rparr>)"
  using assms by (auto simp: client_ok_def store_oks)

text \<open>A new account may only leave the pending orders of other clients.\<close>

definition unpended :: "i64 \<Rightarrow> Client \<Rightarrow> Client" where
  "unpended i c = c\<lparr>Cl_pendingOrders := filter (\<lambda>p. OrderNew_ClientID p \<noteq> i) (Cl_pendingOrders c)\<rparr>"

lemma reset_ok:
  assumes "client_ok c" "\<not> Cl_made c" shows "client_ok (resetAccounts c)"
  using assms by (auto simp: resetAccounts_def client_ok_def store_oks)

lemma storeAccount_ok:
  assumes "client_ok c" shows "client_ok (unpended (ClientNew_ID raw) (storeAccount raw c))"
proof -
  define c' where "c' = (if Cl_made c then c else resetAccounts c)"
  have c': "client_ok c'" "Cl_made c'" using assms reset_ok by (auto simp: c'_def resetAccounts_def)
  have "storeAccount raw c = c'\<lparr>Cl_accountOrder := (if Cl_accounts c' (ClientNew_ID raw) = None
      then Cl_accountOrder c' @ [ClientNew_ID raw] else Cl_accountOrder c'),
      Cl_accounts := (Cl_accounts c')(ClientNew_ID raw \<mapsto> \<lparr>AS_account = account_of_record raw, AS_raw = raw\<rparr>)\<rparr>"
    by (simp add: storeAccount_def Let_def c'_def)
  with c' show ?thesis by (auto simp: unpended_def client_ok_def store_oks)
qed

lemma store_all_unpended:
  "(store_all ps c)\<lparr>Cl_pendingOrders := qs\<rparr> = store_all ps (c\<lparr>Cl_pendingOrders := qs\<rparr>)"
proof (induction ps arbitrary: c)
  case (Cons p ps)
  have "(storeOrder (buildOrderEvent p c) c)\<lparr>Cl_pendingOrders := qs\<rparr>
      = storeOrder (buildOrderEvent p (c\<lparr>Cl_pendingOrders := qs\<rparr>)) (c\<lparr>Cl_pendingOrders := qs\<rparr>)"
    by (simp add: storeOrder_def buildOrderEvent_def account_of_def catalog_security_def catalog_board_def Let_def
        cong: option.case_cong)
  then show ?case using Cons.IH by simp
qed simp

lemma keeps_client_new [keeps_ok]: "keeps decodeClientNew"
  unfolding keeps_def decodeClientNew_def
proof (intro allI impI keeps_parsed)
  fix raw c assume "client_ok c"
  from storeAccount_ok [OF this, of raw]
  show "client_ok (snd (case flushPendingOrders (ClientNew_ID raw) (storeAccount raw c) of
      (events, c) \<Rightarrow> (Inr (AccountEv (account_of_record raw) # events), c)))"
    unfolding flushPendingOrders_eq store_all_unpended by (simp add: unpended_def store_all_ok)
qed

lemma keeps_order_new [keeps_ok]: "keeps decodeOrderNew"
  unfolding keeps_def decodeOrderNew_def
proof (intro allI impI keeps_parsed)
  fix p c assume ok: "client_ok c"
  have "client_ok (c\<lparr>Cl_pendingOrders := Cl_pendingOrders c @ [p]\<rparr>)" if "Cl_accounts c = Map.empty"
    using that ok by (auto simp: client_ok_def store_oks)
  then show "client_ok (snd (if OrderNew_Short p then (Inr [], c)
      else case orderClientMatch (OrderNew_ClientID p) c of
        (known, match) \<Rightarrow> if \<not> known then (Inr [], c\<lparr>Cl_pendingOrders := Cl_pendingOrders c @ [p]\<rparr>)
          else if \<not> match then (Inr [], c)
          else let ord = buildOrderEvent p c in (Inr [OrderEv ord], storeOrder ord c)))"
    using ok by (auto simp: orderClientMatch_def Let_def storeOrder_ok)
qed

lemma keeps_order_modify [keeps_ok]: "keeps decodeOrderModify"
  unfolding keeps_def
proof (intro allI impI)
  fix body c assume ok: "client_ok c"
  let ?m = "ParseOrderModify body"
  have i: "Order_TransactionID (f ord) = Order_TransactionID ord" if "OrderModify_Apply ?m = Some f" for f ord
    using modify_overwrites [OF that] by (auto simp: keeps_identity_def)
  have "client_ok (snd (applyOrderModify ?m c))"
    using ok i by (auto simp: applyOrderModify_def client_ok_def store_oks Let_def split: option.splits)
  then show "client_ok (snd (decodeOrderModify body c))"
    using ok by (auto simp: decodeOrderModify_def Let_def split: prod.split option.split)
qed

lemma storeSecPosition_ok: "client_ok c \<Longrightarrow> client_ok (storeSecPosition k pos c)"
  by (auto simp: storeSecPosition_def client_ok_def store_oks Let_def)

lemma money_position_key [simp]: "PS_client (money_position regs st) = PS_client st" "PS_sym (money_position regs st) = PS_sym st"
  by (simp_all add: money_position_def split: prod.split)

lemma storePosition_new:
  assumes "client_ok c" "Cl_positions c k = None" "(PS_client st, PS_sym st) = k"
  shows "client_ok (c\<lparr>Cl_positions := (Cl_positions c)(k \<mapsto> st), Cl_positionOrder := Cl_positionOrder c @ [k]\<rparr>)"
  using assms by (auto simp: client_ok_def store_oks)

lemma storePosition_old:
  assumes "client_ok c" "Cl_positions c k = Some w" "(PS_client st, PS_sym st) = k"
  shows "client_ok (c\<lparr>Cl_positions := (Cl_positions c)(k \<mapsto> st)\<rparr>)"
  using assms by (auto simp: client_ok_def store_oks)

lemma keeps_client_asset [keeps_ok]: "keeps decodeClientAsset"
  unfolding keeps_def decodeClientAsset_def
proof (intro allI impI keeps_parsed, goal_cases)
  case (1 body c raw c')
  define d where "d = (if Cl_made c' then c' else resetAccounts c')"
  have ok: "client_ok d" using 1 reset_ok by (auto simp: d_def)
  have pos: "(PS_client st, PS_sym st) = k" if "Cl_positions d k = Some st" for k st
    using ok that unfolding client_ok_def positions_ok_def by blast
  show ?case
    using 1(2) pos
    by (auto simp: Let_def storeSecPosition_ok d_def [symmetric] split: option.split
        intro!: storePosition_new [OF ok] storePosition_old [OF ok])
qed

lemma keeps_candles [keeps_ok]: "keeps decodeCandles"
  unfolding keeps_def decodeCandles_def
proof (intro allI impI keeps_parsed)
  fix part c assume ok: "client_ok c"
  have "client_ok (addHistoryPart part c)"
    using ok by (fastforce simp: addHistoryPart_def client_ok_def store_oks Let_def split: option.splits if_splits)
  then show "client_ok (snd (Inr [], addHistoryPart part c))" by simp
qed


lemma keeps_decoders:
  assumes "decoders lib tag = Some d" shows "keeps d"
  using map_of_SomeD [OF assms [unfolded decoders_def]] by (auto simp: keeps_ok)

lemma mutate_catalog_ok:
  assumes "client_ok c" shows "client_ok (snd (mutate_catalog lib r c))"
proof (cases "Cl_catalog c")
  case None
  with assms show ?thesis by (simp add: mutate_catalog_def)
next
  case (Some cat)
  then have "catalog_ok (snd (ApplyMutations (lib_win lib) r cat))"
    using assms by (intro ok_mutations) (simp add: client_ok_def cat_ok_def)
  moreover have "client_ok (c\<lparr>Cl_catalog := Some cat'\<rparr>)" if "catalog_ok cat'" for cat'
    using assms that by (simp add: client_ok_def store_oks)
  ultimately show ?thesis by (auto simp: mutate_catalog_def Some split: prod.split sum.split)
qed

lemma apply_record_ok:
  assumes "client_ok c" shows "client_ok (snd (apply_record lib r c))"
proof -
  obtain e c' where m: "mutate_catalog lib r c = (e, c')" by fastforce
  then have "client_ok c'" using mutate_catalog_ok [OF assms] by (metis snd_conv)
  then show ?thesis
    using keeps_decoders [of lib "Record_Tag r"] by (auto simp: apply_record_def m keeps_def split: option.split)
qed

lemma apply_records_ok: "client_ok c \<Longrightarrow> client_ok (snd (snd (apply_records lib rs c)))"
proof (induction rs arbitrary: c)
  case (Cons r rs)
  then have "client_ok (snd (apply_record lib r c))" by (intro apply_record_ok)
  with Cons.IH [of "snd (apply_record lib r c)"] show ?case by (auto split: prod.split sum.split)
qed simp

lemma count_poll_ok: "client_ok c \<Longrightarrow> client_ok (count_poll e c)"
  by (simp add: count_poll_def client_ok_def store_oks Let_def)

lemma poll_reply_ok:
  assumes "client_ok c" shows "client_ok (snd (poll_reply lib reply c))"
proof -
  obtain recs e where r: "Records (lib_zlen lib) (MainReply_Payload reply) = (recs, e)" by fastforce
  note ok = count_poll_ok [OF assms, of e]
  obtain evs e' c' where a: "apply_records lib recs (count_poll e c) = (evs, e', c')" by (metis prod_cases3)
  with apply_records_ok [OF ok, of lib recs] have "client_ok c'" by simp
  with ok show ?thesis by (auto simp: poll_reply_def r a Let_def split: option.split)
qed

text \<open>Concrete values for the witnesses.\<close>

definition example_lib :: Lib where
  "example_lib = \<lparr>lib_win = (\<lambda>b. Some b), lib_zlen = (\<lambda>b. None), lib_zread = (\<lambda>b n. Inl ErrEOF), lib_fmt6g = (\<lambda>v. ''0''),
     lib_hundredths = (\<lambda>v. 0), lib_bits = (\<lambda>m. sorted_list_of_set (dom m)), lib_today = zeroTime\<rparr>"

definition example_client :: Client where
  "example_client = (newClient \<lparr>Cfg_Login = [65], Cfg_Password = [66], Cfg_Client = \<lparr>ComputerName = [], UserName = [], OS = [],
       HardwareID = 0, Addresses = [], Trailer = 0\<rparr>, Cfg_RequestTimeout = 0, Cfg_RqDelay = 0, Cfg_SessionTimeout = 0\<rparr>
     example_conn zeroInfo)\<lparr>Cl_catalog := Some (AddSecurity example_sec (NewCatalog example_startup))\<rparr>"

lemma newClient_ok: "client_ok (newClient cfg conn info)"
  by (simp add: newClient_def resetAccounts_def client_ok_def store_oks)

lemma example_client_ok: "client_ok example_client"
  using newClient_ok ok_add [OF ok_new] unfolding example_client_def by (simp add: client_ok_def store_oks)

subsection \<open>Orders before their client\<close>

lemma not_mutating:
  assumes "Cl_catalog c = Some cat" "tag = TagOrderNew \<or> tag = TagClientNew"
  shows "mutate_catalog lib \<lparr>Record_Tag = tag, Record_Body = b\<rparr> c = (None, c)"
  using assms
  by (auto simp: mutate_catalog_def ApplyMutations_def isAttrTag_def attrTags_def Let_def TagSecNew_def TagDate_def client_tag_defs)

lemma decoder_orders [simp]: "decoders lib TagOrderNew = Some decodeOrderNew" "decoders lib TagClientNew = Some decodeClientNew"
  by (simp_all add: decoders_def client_tag_defs tag_defs)

definition order_records :: "bytes list \<Rightarrow> Record list" where
  "order_records bs = map (\<lambda>b. \<lparr>Record_Tag = TagOrderNew, Record_Body = b\<rparr>) bs"

lemma apply_records_append:
  "apply_records lib (rs @ qs) c =
     (case apply_records lib rs c of
        (events, Some e, c) \<Rightarrow> (events, Some e, c)
      | (events, None, c) \<Rightarrow> (case apply_records lib qs c of (events', e, c) \<Rightarrow> (events @ events', e, c)))"
  by (induction rs arbitrary: c) (auto split: prod.split sum.split option.split)

lemma apply_order_record:
  assumes "Cl_catalog c = Some cat" "ParseOrderNew b = Inr p" "\<not> OrderNew_Short p"
  shows "apply_record lib \<lparr>Record_Tag = TagOrderNew, Record_Body = b\<rparr> c =
    (if Cl_accounts c = Map.empty then (Inr [], c\<lparr>Cl_pendingOrders := Cl_pendingOrders c @ [p]\<rparr>)
     else if account_of c (OrderNew_ClientID p) = None then (Inr [], c)
     else (Inr [OrderEv (buildOrderEvent p c)], storeOrder (buildOrderEvent p c) c))"
  using assms by (simp add: apply_record_def not_mutating decodeOrderNew_def parsed_def orderClientMatch_def Let_def)

lemma orders_pending:
  assumes "Cl_catalog c = Some cat" "Cl_accounts c = Map.empty"
    and "list_all2 (\<lambda>b p. ParseOrderNew b = Inr p \<and> \<not> OrderNew_Short p) bs ps"
  shows "apply_records lib (order_records bs) c = ([], None, c\<lparr>Cl_pendingOrders := Cl_pendingOrders c @ ps\<rparr>)"
  using assms(3,1,2)
proof (induction bs ps arbitrary: c rule: list_all2_induct)
  case (Cons b bs p ps)
  let ?c = "c\<lparr>Cl_pendingOrders := Cl_pendingOrders c @ [p]\<rparr>"
  have "apply_records lib (order_records bs) ?c = ([], None, ?c\<lparr>Cl_pendingOrders := Cl_pendingOrders ?c @ ps\<rparr>)"
    using Cons by (intro Cons.IH) simp_all
  with Cons show ?case by (simp add: order_records_def apply_order_record)
qed (simp add: order_records_def)

lemma orders_stored:
  assumes "Cl_catalog c = Some cat" "account_of c i \<noteq> None" "Cl_accounts c \<noteq> Map.empty"
    and "list_all2 (\<lambda>b p. ParseOrderNew b = Inr p \<and> \<not> OrderNew_Short p) bs ps" "\<forall>p\<in>set ps. OrderNew_ClientID p = i"
  shows "apply_records lib (order_records bs) c = (map (\<lambda>p. OrderEv (buildOrderEvent p c)) ps, None, store_all ps c)"
  using assms(4,1-3,5)
proof (induction bs ps arbitrary: c rule: list_all2_induct)
  case (Cons b bs p ps)
  let ?c = "storeOrder (buildOrderEvent p c) c"
  have a: "account_of ?c i \<noteq> None" using Cons.prems(2) by (simp add: account_of_def cong: option.case_cong)
  have "apply_records lib (order_records bs) ?c = (map (\<lambda>p. OrderEv (buildOrderEvent p ?c)) ps, None, store_all ps ?c)"
    using Cons a by (intro Cons.IH) simp_all
  moreover have "account_of c (OrderNew_ClientID p) \<noteq> None" using Cons.prems(2,4) by simp
  ultimately show ?case using Cons by (simp add: order_records_def apply_order_record del: not_None_eq)
qed (simp add: order_records_def)

lemma account_stored:
  assumes "accounts_ok c"
  shows "account_of (storeAccount raw c) (ClientNew_ID raw) \<noteq> None" "Cl_accounts (storeAccount raw c) \<noteq> Map.empty"
proof -
  have "Cl_accounts (storeAccount raw c) (ClientNew_ID raw) = Some \<lparr>AS_account = account_of_record raw, AS_raw = raw\<rparr>"
    by (simp add: storeAccount_def Let_def)
  then show "Cl_accounts (storeAccount raw c) \<noteq> Map.empty" by auto
  have "accounts_ok (storeAccount raw c)"
    using assms by (auto simp: storeAccount_def accounts_ok_def Let_def resetAccounts_def keyed_def)
  then show "account_of (storeAccount raw c) (ClientNew_ID raw) \<noteq> None"
    using \<open>Cl_accounts (storeAccount raw c) (ClientNew_ID raw) = _\<close> by (simp add: account_of_lookup)
qed

lemma apply_client_record:
  assumes "Cl_catalog c = Some cat" "ParseClientNew b = Inr raw"
  shows "apply_record lib \<lparr>Record_Tag = TagClientNew, Record_Body = b\<rparr> c =
    (case flushPendingOrders (ClientNew_ID raw) (storeAccount raw c) of
       (events, c) \<Rightarrow> (Inr (AccountEv (account_of_record raw) # events), c))"
  using assms by (simp add: apply_record_def not_mutating decodeClientNew_def parsed_def)


definition client_body :: bytes where
  "client_body = [0x10, 65, 0, 0, 0, 1, 1, 0, 0, 1, 0, 0, 0, 0]"

definition order_body :: bytes where
  "order_body = [0x70, 0, 7, 0, 4, 0x10, 66, 0, 0x10, 0, 0, 0x10, 0, 0, 0, 0x10, 0x10, 1, 0x10, 0x10, 0, 0, 0, 0, 0, 0, 0, 0, 0]"

lemma example_client_fields: "Cl_accounts example_client = Map.empty" "Cl_pendingOrders example_client = []"
  "Cl_made example_client" "Cl_catalog example_client = Some (AddSecurity example_sec (NewCatalog example_startup))"
  "Cl_history example_client = Map.empty" "Cl_results example_client = Map.empty"
  by (simp_all add: example_client_def newClient_def resetAccounts_def)


subsection \<open>Only candles touch the history requests\<close>

definition same_history :: "Client \<Rightarrow> Client \<Rightarrow> bool" where
  "same_history c c' \<longleftrightarrow> Cl_history c' = Cl_history c \<and> Cl_results c' = Cl_results c \<and> Cl_bias c' = Cl_bias c"

lemma same_history_refl [simp, intro]: "same_history c c"
  by (simp add: same_history_def)

lemma same_history_trans: "same_history a b \<Longrightarrow> same_history b c \<Longrightarrow> same_history a c"
  by (simp add: same_history_def)

definition quiet :: "decoder \<Rightarrow> bool" where
  "quiet d \<longleftrightarrow> (\<forall>body c. same_history c (snd (d body c)))"

lemma quiet_parsed:
  assumes "\<And>a c. same_history c (snd (f a c))"
  shows "same_history c (snd (parsed x f c))"
  using assms by (auto simp: parsed_def split: sum.split)

lemma same_store [simp]: "same_history c (storeOrder ord c)" "same_history c (storeAccount raw c)"
  "same_history c (storeNewsHeader h c)" "same_history c (storeSecPosition k pos c)" "same_history c (resetAccounts c)"
  "same_history c (snd (news_body lib u text c))"
  by (simp_all add: same_history_def storeOrder_def storeAccount_def storeNewsHeader_def storeSecPosition_def
      resetAccounts_def news_body_def Let_def)

lemma same_store_all: "same_history c (store_all ps c)"
proof (induction ps arbitrary: c)
  case (Cons p ps)
  from same_history_trans [OF _ Cons.IH] show ?case by simp
qed simp

lemma same_ticks: "same_history c (snd (ticks_loop lib ts c))"
proof (induction ts arbitrary: c)
  case (Cons t ts)
  let ?k = "(TickRecord_SecID t, TickRecord_Board t)"
  have "same_history c (c\<lparr>Cl_tickTradeNos := accumulate (Cl_tickTradeNos c) ?k (TickRecord_TradeNo t),
      Cl_tickTimes := accumulate (Cl_tickTimes c) ?k (TickRecord_Time t)\<rparr>)"
    (is "same_history c ?c") by (simp add: same_history_def)
  from same_history_trans [OF this Cons.IH] show ?case by (auto simp: Let_def split: prod.split)
qed simp

lemma quiet_simple:
  "quiet decodeOvernight" "quiet decodeUnion" "quiet decodeQuotes" "quiet (decodeQuotation lib)" "quiet (decodeSecParam lib)"
  "quiet decodeSecRate" "quiet decodeSecMktPermit" "quiet (decodeMessage lib)" "quiet (decodeEndOfFamilies lib)"
  "quiet (decodeEndOfFamily lib)" "quiet decodeOptionFamily" "quiet (decodeClientTrade lib)" "quiet decodeOptionStrikes"
  "quiet (decodeAllTrade lib)" "quiet (decodeNewsHeader lib)"
  unfolding quiet_def decodeOvernight_def decodeUnion_def decodeQuotes_def decodeQuotation_def decodeSecParam_def
    decodeSecRate_def decodeSecMktPermit_def decodeMessage_def decodeEndOfFamilies_def decodeEndOfFamily_def
    decodeOptionFamily_def decodeClientTrade_def decodeOptionStrikes_def decodeAllTrade_def decodeNewsHeader_def
  by (intro allI quiet_parsed; simp add: same_history_def storeNewsHeader_def Let_def split: prod.split option.split)+

lemma quiet_stop: "quiet decodeStopOrder"
  unfolding quiet_def decodeStopOrder_def by (auto simp: Let_def split: sum.split option.split)

lemma quiet_tick: "quiet (decodeTick lib)"
  unfolding quiet_def decodeTick_def
  by (intro allI quiet_parsed) (metis (mono_tags, lifting) case_prod_conv prod.collapse same_ticks snd_conv)

lemma quiet_client_new: "quiet decodeClientNew"
  unfolding quiet_def decodeClientNew_def
proof (intro allI quiet_parsed)
  fix raw c
  have "same_history c (store_all ps (unpended (ClientNew_ID raw) (storeAccount raw c)))" for ps
    using same_history_trans [OF _ same_store_all] by (simp add: unpended_def same_history_def storeAccount_def Let_def resetAccounts_def)
  then show "same_history c (snd (case flushPendingOrders (ClientNew_ID raw) (storeAccount raw c) of
      (events, c) \<Rightarrow> (Inr (AccountEv (account_of_record raw) # events), c)))"
    by (simp add: flushPendingOrders_eq store_all_unpended unpended_def)
qed

lemma quiet_client_asset: "quiet decodeClientAsset"
  unfolding quiet_def decodeClientAsset_def
  by (intro allI quiet_parsed) (auto simp: Let_def same_history_def resetAccounts_def storeSecPosition_def split: option.split)

lemma quiet_orders: "quiet decodeOrderNew" "quiet decodeOrderModify"
  unfolding quiet_def decodeOrderNew_def decodeOrderModify_def
  by (intro allI quiet_parsed; auto simp: Let_def same_history_def applyOrderModify_def storeOrder_def split: prod.split option.split)
    (auto simp: Let_def same_history_def applyOrderModify_def storeOrder_def split: prod.split option.split)

lemma quiet_upload: "quiet (decodeNewsUpload lib)"
  unfolding quiet_def decodeNewsUpload_def
  by (intro allI quiet_parsed)
    (auto simp: Let_def same_history_def news_body_def storeNewsHeader_def split: prod.split option.split sum.split)

lemmas quiet_decoder = quiet_simple quiet_stop quiet_tick quiet_client_new quiet_client_asset quiet_orders quiet_upload

lemma quiet_decoders:
  assumes "decoders lib tag = Some d" "tag \<noteq> TagCandles" shows "quiet d"
  using map_of_SomeD [OF assms(1) [unfolded decoders_def]] assms(2) by (auto simp: quiet_decoder)

lemma quiet_record:
  assumes "Record_Tag r \<noteq> TagCandles"
  shows "same_history c (snd (apply_record lib r c))"
proof -
  obtain e c' where m: "mutate_catalog lib r c = (e, c')" by fastforce
  then have s: "same_history c c'"
    by (auto simp: mutate_catalog_def same_history_def split: option.splits prod.splits sum.splits)
  have "same_history c' (snd (d body c'))" if "decoders lib (Record_Tag r) = Some d" for d body
    using quiet_decoders [OF that assms] by (simp add: quiet_def)
  with s show ?thesis
    by (auto simp: apply_record_def m split: option.split intro: same_history_trans)
qed

subsection \<open>Delivery of a history request\<close>

definition part_key :: "WireCandles \<Rightarrow> u16 \<times> u16 \<times> byte" where
  "part_key p = (WireCandles_SecID p, WireCandles_Board p, WireCandles_Period p)"

text \<open>The parts of one request among the records, in arrival order.\<close>

definition part_of :: "u16 \<times> u16 \<times> byte \<Rightarrow> Record \<Rightarrow> WireCandles option" where
  "part_of k r =
     (if Record_Tag r = TagCandles
      then (case ParseCandles (Record_Body r) of Inl _ \<Rightarrow> None | Inr p \<Rightarrow> if part_key p = k then Some p else None)
      else None)"

definition candle_parts :: "u16 \<times> u16 \<times> byte \<Rightarrow> Record list \<Rightarrow> WireCandles list" where
  "candle_parts k rs = List.map_filter (part_of k) rs"

lemma decoder_candles [simp]: "decoders lib TagCandles = Some decodeCandles"
  by (simp add: decoders_def client_tag_defs tag_defs)

lemma apply_candle_record:
  assumes "Record_Tag r = TagCandles" "apply_record lib r c = (Inr evs, c')"
  obtains p where "ParseCandles (Record_Body r) = Inr p" "evs = []" "c' = addHistoryPart p c"
proof -
  have "mutate_catalog lib r c = (if Cl_catalog c = None then (Some nilPointer, c) else (None, c))"
    using assms(1)
    by (auto simp: mutate_catalog_def ApplyMutations_def isAttrTag_def attrTags_def Let_def TagSecNew_def TagDate_def TagCandles_def
        split: option.split)
  with assms that show ?thesis
    by (auto simp: apply_record_def decodeCandles_def parsed_def split: if_splits sum.splits)
qed

lemma collect_step:
  assumes ok: "client_ok c" and k: "Cl_history c k = Some coll" and r: "apply_record lib r c = (Inr evs, c')"
    and two: "\<And>p. part_of k r = Some p \<Longrightarrow> WireCandles_Status p = 2"
  shows "Cl_history c' k = Some (coll\<lparr>HC_parts := HC_parts coll @ (case part_of k r of None \<Rightarrow> [] | Some p \<Rightarrow> [p])\<rparr>)
    \<and> Cl_bias c' = Cl_bias c"
proof (cases "Record_Tag r = TagCandles")
  case False
  then show ?thesis using quiet_record [OF False, of c lib] r k by (simp add: same_history_def part_of_def)
next
  case True
  then obtain p where p: "ParseCandles (Record_Body r) = Inr p" "c' = addHistoryPart p c"
    using apply_candle_record r by blast
  show ?thesis
  proof (cases "part_key p = k")
    case eq: True
    then have "part_of k r = Some p" by (simp add: part_of_def True p)
    with two eq k show ?thesis by (simp add: p addHistoryPart_def part_key_def Let_def)
  next
    case False
    then have "part_of k r = None" by (simp add: part_of_def True p)
    with False k show ?thesis by (auto simp: p addHistoryPart_def part_key_def Let_def split: option.split)
  qed
qed

lemma apply_records_ConsE:
  assumes "apply_records lib (r # rs) c = (events, None, c')"
  obtains evs d events' where "apply_record lib r c = (Inr evs, d)" "apply_records lib rs d = (events', None, c')"
proof -
  obtain x d where x: "apply_record lib r c = (x, d)" by fastforce
  obtain events' e c'' where y: "apply_records lib rs d = (events', e, c'')" by (metis prod_cases3)
  show ?thesis using assms that by (cases x) (simp_all add: x y)
qed

lemma collect:
  assumes "client_ok c" "Cl_history c k = Some coll" "apply_records lib rs c = (events, None, c')"
    and "\<forall>p\<in>set (candle_parts k rs). WireCandles_Status p = 2"
  shows "client_ok c' \<and> Cl_history c' k = Some (coll\<lparr>HC_parts := HC_parts coll @ candle_parts k rs\<rparr>) \<and> Cl_bias c' = Cl_bias c"
  using assms
proof (induction rs arbitrary: c coll events)
  case Nil
  then show ?case by (simp add: candle_parts_def List.map_filter_def)
next
  case (Cons r rs)
  obtain evs d events' where r: "apply_record lib r c = (Inr evs, d)" and rs: "apply_records lib rs d = (events', None, c')"
    using Cons.prems(3) by (rule apply_records_ConsE)
  have ps: "candle_parts k (r # rs) = (case part_of k r of None \<Rightarrow> [] | Some p \<Rightarrow> [p]) @ candle_parts k rs"
    by (simp add: candle_parts_def List.map_filter_simps split: option.split)
  let ?coll = "coll\<lparr>HC_parts := HC_parts coll @ (case part_of k r of None \<Rightarrow> [] | Some p \<Rightarrow> [p])\<rparr>"
  have d: "client_ok d" using apply_record_ok [OF Cons.prems(1), of lib r] r by simp
  have two: "\<And>p. part_of k r = Some p \<Longrightarrow> WireCandles_Status p = 2"
    and rest: "\<forall>p\<in>set (candle_parts k rs). WireCandles_Status p = 2"
    using Cons.prems(4) unfolding ps by auto
  have h: "Cl_history d k = Some ?coll" "Cl_bias d = Cl_bias c"
    using collect_step [OF Cons.prems(1,2) r two] by blast+
  from Cons.IH [OF d h(1) rs rest] show ?case by (simp add: h(2) ps)
qed

lemma apply_records_snocE:
  assumes "apply_records lib (rs @ [r]) c = (events, None, c')"
  shows "\<exists>evs d evs'. apply_records lib rs c = (evs, None, d) \<and> apply_record lib r d = (Inr evs', c')"
  using assms
proof (induction rs arbitrary: c events)
  case Nil
  then have "apply_records lib [r] c = (events, None, c')" by (simp only: append_Nil)
  then show ?case by (rule apply_records_ConsE) simp
next
  case (Cons x xs)
  obtain evs d events' where x: "apply_record lib x c = (Inr evs, d)" and xs: "apply_records lib (xs @ [r]) d = (events', None, c')"
    using Cons.prems unfolding append_Cons by (rule apply_records_ConsE)
  from Cons.IH [OF xs] obtain a b e where "apply_records lib xs d = (a, None, b)" "apply_record lib r b = (Inr e, c')" by blast
  with x show ?case by simp
qed

lemma waiting_channel:
  assumes "client_ok c" "Cl_history c k = Some coll" shows "Cl_results c (HC_ch coll) = None"
  using assms unfolding client_ok_def history_ok_def by blast


definition candle_body :: "byte \<Rightarrow> bytes" where
  "candle_body status = [0, 7, 0, 4, 1, 0, 0x10, 0x50, 0x10, 0x10, 0x10, 0x10, 0x10, status]"


subsection \<open>The load ends\<close>

lemma ReadFull_drop: "ReadFull n s = (Inr p, s') \<Longrightarrow> s' = drop n s \<and> n \<le> length s"
  by (auto simp: ReadFull_def split: if_splits)

lemma Decode_shrinks:
  assumes "Decode k dir s = (Inr f, s')" shows "length s' < length s"
proof -
  obtain h r where h: "ReadFull HeaderSize s = (Inr h, r)"
    using assms by (auto simp: Decode_def split: prod.splits sum.splits)
  then have r: "length r < length s" using ReadFull_drop [OF h] by (auto simp: HeaderSize_def)
  have "length s' \<le> length r"
    using assms by (auto simp: Decode_def h Let_def split: prod.splits sum.splits if_splits dest!: ReadFull_drop)
  with r show ?thesis by simp
qed

lemma readReply_shrinks:
  "readReply k ts s = (Inr f, ab, s') \<Longrightarrow> length s' < length s"
proof (induction ts arbitrary: s)
  case Nil
  then show ?case by (auto split: prod.splits dest: Decode_shrinks)
next
  case (Cons t ts)
  obtain x r where x: "Decode k ServerToClient s = (x, r)" by fastforce
  with Cons.prems obtain g where g: "x = Inr g" by (cases x) auto
  have r: "length r < length s" using x g by (auto dest: Decode_shrinks)
  show ?case
  proof (cases "Frame_Kind g = KindReply \<and> Typ g = t")
    case True
    then have "readReply k ts r = (Inr f, ab, s')" using Cons.prems x g by simp
    from Cons.IH [OF this] r show ?thesis by simp
  next
    case False
    then show ?thesis using Cons.prems x g r by (auto split: if_splits)
  qed
qed

lemma exchange_shrinks:
  assumes "exchange env typ p True c net = (Inr f, c', net')" shows "length (N_in net') < length (N_in net)"
  using assms
  by (auto simp: exchange_def Let_def split: if_splits option.splits sum.splits prod.splits dest!: readReply_shrinks)

lemma Poll_shrinks:
  assumes "Poll lib env c net = ((events, more', None), c', net')" shows "length (N_in net') < length (N_in net)"
proof -
  obtain k where k: "Cl_conn c = Some k" using assms by (cases "Cl_conn c") (auto simp: Poll_def on_conn_def)
  obtain x k' net'' where x: "exchange env RqMain [] True k net = (x, k', net'')" by (metis prod_cases3)
  with assms k obtain f where "x = Inr f" by (cases x) (auto simp: Poll_def on_conn_def Conn_Main_def)
  moreover have "net' = net''"
    using assms k x calculation by (auto simp: Poll_def on_conn_def Conn_Main_def split: prod.splits)
  ultimately show ?thesis using exchange_shrinks [of env RqMain "[]" k net f k' net'] x by simp
qed



end
