(* ===== verification/Client_Commands.thy ===== *)
theory Client_Commands
  imports Client_Poll "HOL-Library.Signed_Division"
begin

text \<open>
  The commands of the typed client: orders (\<open>client_orders.go\<close>), stop and conditional orders
  (\<open>client_stoporders.go\<close>), negotiated deals (\<open>client_rps.go\<close>), subscriptions
  (\<open>client_subscribe.go\<close>), ticks, history, news, options, positions, limits, security
  information, the password, and the local answers about margins. A command checks its input in the
  order of the code, resolves names through the catalog and the account store, and sends one
  request.

  Error texts with a name in them are kept without the name. \<open>local\<close> and \<open>loaded\<close> of a transaction
  are explained in \<open>Session_Conn\<close>.
\<close>

unbundle bit_operations_syntax

definition TxNewOrder :: byte where "TxNewOrder = 1"
definition TxCancelOrder :: byte where "TxCancelOrder = 2"
definition TxMoveOrder :: byte where "TxMoveOrder = 0x02"
definition TxNewRpsRepo :: byte where "TxNewRpsRepo = 0x04"
definition TxNewRepoOrder :: byte where "TxNewRepoOrder = 0x0e"
definition TxCancelNegDeal :: byte where "TxCancelNegDeal = 0x08"
definition TxCancelReport4 :: byte where "TxCancelReport4 = 0x08"
definition TxNewStopOrder :: byte where "TxNewStopOrder = 0x14"
definition TxNewCondOrder :: byte where "TxNewCondOrder = 0x01"
definition TxCancelStopOrder :: byte where "TxCancelStopOrder = 0x17"
definition SubQuotations :: byte where "SubQuotations = 0x01"
definition SubQuotes :: byte where "SubQuotes = 0x02"
definition SubAllTrades :: byte where "SubAllTrades = 0x04"
definition RqGetNews :: byte where "RqGetNews = 73"
definition RqClientHoldings :: byte where "RqClientHoldings = 42"
definition OptionsMinProtocol :: u16 where "OptionsMinProtocol = 0x45"

definition message :: "string \<Rightarrow> serr" where
  "message text = SErrorf text []"

definition notConnected :: serr where
  "notConnected = message ''transaq: client is not connected''"

definition unknownSecurity :: serr where
  "unknownSecurity = message ''transaq: unknown security''"

subsection \<open>Names\<close>

text \<open>The zero value of \<open>model.Board\<close>, which a map of Go gives for a missing key.\<close>

definition zeroBoard :: Board where
  "zeroBoard = \<lparr>Board_Num = 0, Board_Market = 0, Board_Code = [], Board_Name = [], Board_Word = 0,
     Board_Byte1 = 0, Board_Text = [], Board_Byte2 = 0, Board_Type = 0\<rparr>"

definition lookupSymbol :: "Catalog \<Rightarrow> Symbol \<Rightarrow> (SecNew \<times> Board) option" where
  "lookupSymbol cat sm =
     (case Lookup cat (Symbol_Board sm) (Symbol_SecCode sm) of
        None \<Rightarrow> None
      | Some (sec, board) \<Rightarrow> Some (case sec of Some s \<Rightarrow> s | None \<Rightarrow> zeroSecNew, case board of Some b \<Rightarrow> b | None \<Rightarrow> zeroBoard))"

text \<open>The catalog and the security of a command, with the errors of the two checks.\<close>

definition resolve :: "Client \<Rightarrow> Symbol \<Rightarrow> serr + (Catalog \<times> SecNew \<times> Board)" where
  "resolve c sm =
     (case Cl_catalog c of
        None \<Rightarrow> Inl notConnected
      | Some cat \<Rightarrow> (case lookupSymbol cat sm of None \<Rightarrow> Inl unknownSecurity | Some (sec, board) \<Rightarrow> Inr (cat, sec, board)))"

definition pitDecimals :: "Catalog \<Rightarrow> SecNew \<Rightarrow> Board \<Rightarrow> byte option" where
  "pitDecimals cat sec board =
     (case Decimals cat (SecNew_SecID sec) (Board_Num board) of
        Some d \<Rightarrow> Some d
      | None \<Rightarrow> map_option Pit_Decimals (SecNew_DefaultPit sec))"

text \<open>\<open>units *= 10\<close> and \<open>units /= 10\<close>, once for each step of the scale; Go divides towards zero.\<close>

primrec div10 :: "nat \<Rightarrow> i64 \<Rightarrow> i64" where
  "div10 0 v = v"
| "div10 (Suc n) v = div10 n (word_of_int (sint v sdiv 10))"

definition rescaleUnits :: "i64 \<Rightarrow> byte \<Rightarrow> byte \<Rightarrow> i64" where
  "rescaleUnits units scale scale' =
     (if scale < scale' then times10 (unat scale' - unat scale) units else div10 (unat scale - unat scale') units)"

definition zeros :: "nat \<Rightarrow> bytes" where
  "zeros n = replicate n 0"

text \<open>\<open>conn.Transact\<close> on the connection of the client.\<close>

definition transact ::
  "Env \<Rightarrow> u64 \<Rightarrow> u64 \<Rightarrow> byte \<Rightarrow> bytes \<Rightarrow> Client \<Rightarrow> Net \<Rightarrow> (u64 \<times> serr option) \<times> Client \<times> Net" where
  "transact env local loaded kind body =
     on_conn (0, Some notConnected)
       (\<lambda>k net. case Transact env local loaded kind body k net of (i, e, k, net) \<Rightarrow> ((i, e), k, net))"

type_synonym command = "Client \<Rightarrow> Net \<Rightarrow> (u64 \<times> serr option) \<times> Client \<times> Net"

definition refuse :: "serr \<Rightarrow> command" where
  "refuse e c net = ((0, Some e), c, net)"

subsection \<open>Orders\<close>

record NewOrder =
  NO_Client :: bytes
  NO_Union :: bytes
  NO_Symbol :: Symbol
  NO_Price :: Decimal
  NO_Hidden :: i64
  NO_Quantity :: i64
  NO_BuySell :: byte
  NO_ByMarket :: bool
  NO_UseCredit :: bool
  NO_NoSplit :: bool
  NO_Unfilled :: string
  NO_ExpDate :: "GoTime option"
  NO_BrokerRef :: bytes

definition newOrderBody :: "u16 \<Rightarrow> u16 \<Rightarrow> i64 \<Rightarrow> byte \<Rightarrow> i64 \<Rightarrow> i64 \<Rightarrow> bytes" where
  "newOrderBody secid board client side price quantity =
     (let w = Writer_Byte [] 0;
          w = Writer_Int64 (Writer_Uint16 (Writer_Uint16 w secid) board) client;
          w = Writer_Byte (Writer_Byte w side) 0;
          w = Writer_Int32 (Writer_Int32 w (ucast price)) (ucast quantity)
      in Writer_Raw w (zeros 9))"

definition isSide :: "byte \<Rightarrow> bool" where
  "isSide b \<longleftrightarrow> b = 66 \<or> b = 83"

definition Client_NewOrder :: "Env \<Rightarrow> u64 \<Rightarrow> u64 \<Rightarrow> NewOrder \<Rightarrow> command" where
  "Client_NewOrder env local loaded req c net =
     (if \<not> isSide (NO_BuySell req) then refuse (message ''transaq: neworder buysell must be B or S'') c net
      else if NO_Unfilled req \<noteq> [] \<and> NO_Unfilled req \<noteq> ''PutInQueue''
      then refuse (message ''transaq: unfilled is not supported (I)'') c net
      else if NO_ByMarket req \<or> NO_UseCredit req \<or> NO_NoSplit req \<or> NO_ExpDate req \<noteq> None \<or> NO_BrokerRef req \<noteq> []
      then refuse (message ''transaq: neworder flags are not encoded yet (I)'') c net
      else if NO_Hidden req \<noteq> 0 then refuse (message ''transaq: neworder hidden is not encoded yet (I)'') c net
      else (case resolve c (NO_Symbol req) of
          Inl e \<Rightarrow> refuse e c net
        | Inr (cat, sec, board) \<Rightarrow>
            (case clientNumericID (NO_Client req) (NO_Union req) c of
               None \<Rightarrow> refuse (message ''transaq: unknown client'') c net
             | Some client \<Rightarrow>
                 let price = (case pitDecimals cat sec board of
                        Some d \<Rightarrow> if Scale (NO_Price req) \<noteq> d then rescaleUnits (Units (NO_Price req)) (Scale (NO_Price req)) d
                                  else Units (NO_Price req)
                      | None \<Rightarrow> Units (NO_Price req))
                 in transact env local loaded TxNewOrder
                      (newOrderBody (SecNew_SecID sec) (Board_Num board) client (NO_BuySell req) price (NO_Quantity req)) c net)))"

text \<open>\<open>B 01, L transactionid, B 00\<close>, the body of both commands below.\<close>

definition orderIdBody :: "u64 \<Rightarrow> bytes" where
  "orderIdBody tid = Writer_Byte (Writer_Int32 (Writer_Byte [] 1) (ucast tid)) 0"

definition Client_CancelOrder :: "Env \<Rightarrow> u64 \<Rightarrow> u64 \<Rightarrow> u64 \<Rightarrow> command" where
  "Client_CancelOrder env local loaded tid = transact env local loaded TxCancelOrder (orderIdBody tid)"

record MoveOrder =
  Move_TransactionID :: u64
  Move_Price :: Decimal
  Move_MoveFlag :: byte
  Move_Quantity :: i64

definition Client_MoveOrder :: "Env \<Rightarrow> u64 \<Rightarrow> u64 \<Rightarrow> MoveOrder \<Rightarrow> command" where
  "Client_MoveOrder env local loaded req c net =
     (if Move_TransactionID req = 0 then refuse (message ''Wrong transactionid value.'') c net
      else if Move_MoveFlag req > 3 then refuse (message ''Wrong moveflag value.'') c net
      else if (Move_MoveFlag req = 1 \<or> Move_MoveFlag req = 2) \<and> Move_Quantity req = 0
      then refuse (message ''Cannot find quantity.'') c net
      else transact env local loaded TxMoveOrder (orderIdBody (Move_TransactionID req)) c net)"

definition ErrNotOwnCondOrder :: serr where
  "ErrNotOwnCondOrder = message ''Cannot make specified transaction_id an own conditional order''"

definition MakeOrdOwn :: "Env \<Rightarrow> u64 \<Rightarrow> Client \<Rightarrow> Net \<Rightarrow> serr option \<times> Client \<times> Net" where
  "MakeOrdOwn env tid c net =
     (let eligible = (case Cl_orders c tid of
            Some ord \<Rightarrow> tid > 0 \<and> Order_Condition ord \<noteq> 0 \<and> Order_Status ord = 1 | None \<Rightarrow> False)
      in if \<not> eligible then (Some ErrNotOwnCondOrder, c, net)
         else on_conn (Some notConnected) (MakeCondOwn env (ucast tid)) c net)"

subsection \<open>Stop and conditional orders\<close>

record StopOrderLegs =
  SLActivation :: i64
  SLOrderPrice :: i64
  SLQuantity :: i64
  TPActivation :: i64
  TPQuantity :: i64
  HasSL :: bool
  HasTP :: bool

definition stopOrderPayload :: "u16 \<Rightarrow> u16 \<Rightarrow> i64 \<Rightarrow> byte \<Rightarrow> StopOrderLegs \<Rightarrow> bytes" where
  "stopOrderPayload secid board client side legs =
     (let (flagA, flagB) = (if HasSL legs \<and> \<not> HasTP legs then (0x00, 0x01)
                            else if \<not> HasSL legs \<and> HasTP legs then (0x03, 0x10) else (0x03, 0x11));
          w = Writer_Byte (Writer_Byte [] 0) 0;
          w = Writer_Int64 (Writer_Uint16 (Writer_Uint16 w secid) board) client;
          w = Writer_Raw (Writer_Byte (Writer_Byte (Writer_Byte w side) flagA) flagB) (zeros 4);
          w = (if HasSL legs
               then Writer_Raw (Writer_Int32 (Writer_Int32 (Writer_Int32 w (ucast (SLActivation legs)))
                      (ucast (SLOrderPrice legs))) (ucast (SLQuantity legs))) (zeros (if HasTP legs then 2 else 3))
               else w)
      in if HasTP legs
         then Writer_Raw (Writer_Int32 (Writer_Byte (Writer_Byte (Writer_Int32 w (ucast (TPActivation legs))) 0) 0)
                (ucast (TPQuantity legs))) (zeros 3)
         else w)"

definition Client_CancelStopOrder :: "Env \<Rightarrow> u64 \<Rightarrow> u64 \<Rightarrow> u64 \<Rightarrow> command" where
  "Client_CancelStopOrder env local loaded tid = transact env local loaded TxCancelStopOrder (Writer_Int32 [] (ucast tid))"

record StopLoss =
  SL_ActivationPrice :: Decimal
  SL_OrderPrice :: Decimal
  SL_Quantity :: i64

record TakeProfit =
  TP_ActivationPrice :: Decimal
  TP_Quantity :: i64

record NewStopOrder =
  NSO_Client :: bytes
  NSO_Union :: bytes
  NSO_Symbol :: Symbol
  NSO_BuySell :: byte
  NSO_StopLoss :: "StopLoss option"
  NSO_TakeProfit :: "TakeProfit option"
  NSO_LinkedOrderNo :: u64
  NSO_BrokerRef :: bytes

definition stopOrderParts :: "bytes \<Rightarrow> bytes \<Rightarrow> Symbol \<Rightarrow> Client \<Rightarrow> serr + (SecNew \<times> Board \<times> i64 \<times> byte)" where
  "stopOrderParts client union' sm c =
     (case resolve c sm of
        Inl e \<Rightarrow> Inl e
      | Inr (cat, sec, board) \<Rightarrow>
          (case clientNumericID client union' c of
             None \<Rightarrow> Inl (message ''transaq: unknown client'')
           | Some i \<Rightarrow>
               (case pitDecimals cat sec board of
                  None \<Rightarrow> Inl (message ''transaq: pit decimals are not loaded (I)'')
                | Some d \<Rightarrow> Inr (sec, board, i, d))))"

definition badSide :: serr where
  "badSide = message ''Buisell can be only B or S.''"

text \<open>\<open>scale\<close> of the three functions that send prices.\<close>

definition scaled :: "byte \<Rightarrow> Decimal \<Rightarrow> i64" where
  "scaled d v = rescaleUnits (Units v) (Scale v) d"

definition stop_legs :: "byte \<Rightarrow> StopLoss option \<Rightarrow> TakeProfit option \<Rightarrow> StopOrderLegs" where
  "stop_legs d sl tp =
     (let legs = \<lparr>SLActivation = 0, SLOrderPrice = 0, SLQuantity = 0, TPActivation = 0, TPQuantity = 0, HasSL = False, HasTP = False\<rparr>;
          legs = (case sl of None \<Rightarrow> legs
            | Some l \<Rightarrow> legs\<lparr>HasSL := True, SLActivation := scaled d (SL_ActivationPrice l),
                SLOrderPrice := scaled d (SL_OrderPrice l), SLQuantity := SL_Quantity l\<rparr>)
      in (case tp of None \<Rightarrow> legs
            | Some l \<Rightarrow> legs\<lparr>HasTP := True, TPActivation := scaled d (TP_ActivationPrice l), TPQuantity := TP_Quantity l\<rparr>))"

definition Client_NewStopOrder :: "Env \<Rightarrow> u64 \<Rightarrow> u64 \<Rightarrow> NewStopOrder \<Rightarrow> command" where
  "Client_NewStopOrder env local loaded req c net =
     (if \<not> isSide (NSO_BuySell req) then refuse badSide c net
      else if NSO_StopLoss req = None \<and> NSO_TakeProfit req = None
      then refuse (message ''Cannot find stop-loss activation price.'') c net
      else if NSO_LinkedOrderNo req \<noteq> 0 \<or> NSO_BrokerRef req \<noteq> []
      then refuse (message ''transaq: newstoporder linkedorderno/brokerref are not encoded (I)'') c net
      else (case stopOrderParts (NSO_Client req) (NSO_Union req) (NSO_Symbol req) c of
          Inl e \<Rightarrow> refuse e c net
        | Inr (sec, board, client, d) \<Rightarrow>
            if (case NSO_StopLoss req of Some l \<Rightarrow> sint (SL_Quantity l) \<le> 0 | None \<Rightarrow> False)
            then refuse (message ''Cannot find stop-loss quantity.'') c net
            else transact env local loaded TxNewStopOrder
              (stopOrderPayload (SecNew_SecID sec) (Board_Num board) client (NSO_BuySell req)
                 (stop_legs d (NSO_StopLoss req) (NSO_TakeProfit req))) c net))"

definition condTypeByte :: "string \<Rightarrow> serr + byte" where
  "condTypeByte t =
     (if t = ''Bid'' then Inr 0x01 else if t = ''BidOrLast'' then Inr 0x02 else if t = ''AskOrLast'' then Inr 0x04
      else if t = ''Last'' then Inl (message ''Incorrect condition type.'')
      else if t = ''Time'' then Inl (message ''transaq: cond_type Time needs a time value, not recovered (I)'')
      else Inl (message ''Incorrect condition type.''))"

record NewCondOrder =
  NCO_Client :: bytes
  NCO_Union :: bytes
  NCO_Symbol :: Symbol
  NCO_Price :: Decimal
  NCO_Quantity :: i64
  NCO_BuySell :: byte
  NCO_CondType :: string
  NCO_CondValue :: Decimal
  NCO_ValidAfter :: "i64 option"
  NCO_ValidBefore :: "i64 option"
  NCO_BrokerRef :: bytes

text \<open>The two times are given by their seconds (\<open>Unix()\<close>).\<close>

definition condOrderBody :: "u16 \<Rightarrow> u16 \<Rightarrow> i64 \<Rightarrow> byte \<Rightarrow> byte \<Rightarrow> NewCondOrder \<Rightarrow> i64 \<Rightarrow> i64 \<Rightarrow> bytes" where
  "condOrderBody secid board client d condByte req after before =
     (let w = Writer_Byte [] 0;
          w = Writer_Int64 (Writer_Uint16 (Writer_Uint16 w secid) board) client;
          w = Writer_Byte (Writer_Byte w (NCO_BuySell req)) 0;
          w = Writer_Int32 (Writer_Int32 w (ucast (scaled d (NCO_Price req)))) (ucast (NCO_Quantity req));
          w = Writer_Byte (Writer_Byte w 0) condByte;
          w = Writer_Int32 w (ucast (scaled d (NCO_CondValue req)));
          w = Writer_Int32 (Writer_Int32 w (ucast after)) (ucast before)
      in Writer_Raw w (zeros 9))"

definition Client_NewCondOrder :: "Env \<Rightarrow> u64 \<Rightarrow> u64 \<Rightarrow> NewCondOrder \<Rightarrow> command" where
  "Client_NewCondOrder env local loaded req c net =
     (if \<not> isSide (NCO_BuySell req) then refuse badSide c net
      else if NCO_CondType req = [] then refuse (message ''You have to specify condition type.'') c net
      else (case condTypeByte (NCO_CondType req) of
          Inl e \<Rightarrow> refuse e c net
        | Inr condByte \<Rightarrow>
            (case NCO_ValidAfter req of
               None \<Rightarrow> refuse (message ''Cannot find validafter param.'') c net
             | Some after \<Rightarrow>
                 (case NCO_ValidBefore req of
                    None \<Rightarrow> refuse (message ''Cannot find validbefore param.'') c net
                  | Some before \<Rightarrow>
                      if NCO_BrokerRef req \<noteq> [] then refuse (message ''transaq: newcondorder brokerref is not encoded (I)'') c net
                      else (case stopOrderParts (NCO_Client req) (NCO_Union req) (NCO_Symbol req) c of
                          Inl e \<Rightarrow> refuse e c net
                        | Inr (sec, board, client, d) \<Rightarrow>
                            transact env local loaded TxNewCondOrder
                              (condOrderBody (SecNew_SecID sec) (Board_Num board) client d condByte req after before) c net)))))"

subsection \<open>Negotiated deals\<close>

definition rpsOrderPayload :: "u16 \<Rightarrow> u16 \<Rightarrow> i64 \<Rightarrow> byte \<Rightarrow> i64 \<Rightarrow> i64 \<Rightarrow> bytes" where
  "rpsOrderPayload secid board client side price quantity =
     (let w = Writer_Int64 (Writer_Uint16 (Writer_Uint16 [] secid) board) client;
          w = Writer_Raw (Writer_Byte (Writer_Byte w side) 0) (zeros 11);
          w = Writer_Int32 (Writer_Int32 w (ucast price)) (ucast quantity)
      in Writer_Raw w (zeros 5))"

definition repoOrderPayload ::
  "u16 \<Rightarrow> u16 \<Rightarrow> i64 \<Rightarrow> byte \<Rightarrow> i64 \<Rightarrow> i64 \<Rightarrow> i64 \<Rightarrow> i64 \<Rightarrow> i64 \<Rightarrow> i64 \<Rightarrow> i64 \<Rightarrow> byte \<Rightarrow> bytes" where
  "repoOrderPayload secid board client side price quantity repoTerm repoRate startDisc lowerDisc upperDisc blk =
     (let w = Writer_Int64 (Writer_Uint16 (Writer_Uint16 [] secid) board) client;
          w = Writer_Raw (Writer_Byte (Writer_Byte w side) 0) (zeros 11);
          w = Writer_Byte (Writer_Byte (Writer_Int32 w (ucast repoTerm)) 0) 0;
          w = Writer_Int32 w (ucast repoRate);
          w = Writer_Int32 (Writer_Int32 w (ucast price)) (ucast quantity);
          w = Writer_Int32 (Writer_Int32 (Writer_Int32 w (ucast startDisc)) (ucast lowerDisc)) (ucast upperDisc)
      in Writer_Raw (Writer_Byte w blk) (zeros 2))"

definition rpsParts :: "Symbol \<Rightarrow> bytes \<Rightarrow> bytes \<Rightarrow> Client \<Rightarrow> serr + (u16 \<times> u16 \<times> i64 \<times> byte)" where
  "rpsParts sm client union' c =
     (case resolve c sm of
        Inl e \<Rightarrow> Inl e
      | Inr (cat, sec, board) \<Rightarrow>
          (case clientNumericID client union' c of
             None \<Rightarrow> Inl (message ''Wrong client specifited.'')
           | Some i \<Rightarrow>
               Inr (SecNew_SecID sec, Board_Num board, i, case pitDecimals cat sec board of Some d \<Rightarrow> d | None \<Rightarrow> 0)))"

record NewRPSOrder =
  RPS_Symbol :: Symbol
  RPS_Client :: bytes
  RPS_Union :: bytes
  RPS_BuySell :: byte
  RPS_Price :: Decimal
  RPS_Quantity :: i64

definition Client_NewRPSOrder :: "Env \<Rightarrow> u64 \<Rightarrow> u64 \<Rightarrow> NewRPSOrder \<Rightarrow> command" where
  "Client_NewRPSOrder env local loaded req c net =
     (if \<not> isSide (RPS_BuySell req) then refuse badSide c net
      else (case rpsParts (RPS_Symbol req) (RPS_Client req) (RPS_Union req) c of
          Inl e \<Rightarrow> refuse e c net
        | Inr (secid, board, client, d) \<Rightarrow>
            transact env local loaded TxNewRpsRepo
              (rpsOrderPayload secid board client (RPS_BuySell req) (scaled d (RPS_Price req)) (RPS_Quantity req)) c net))"

record NewRepoOrder = NewRPSOrder +
  Repo_RepoTerm :: i64
  Repo_RepoRate :: Decimal
  Repo_StartDisc :: Decimal
  Repo_LowerDisc :: Decimal
  Repo_UpperDisc :: Decimal
  Repo_Block :: byte

text \<open>The discount sent for a field that was not given: 1.00.\<close>

definition discount :: "Decimal \<Rightarrow> i64" where
  "discount d = scaled 2 (if d = zeroDecimal then \<lparr>Units = 100, Scale = 2\<rparr> else d)"

definition Client_NewRepoOrder :: "Env \<Rightarrow> u64 \<Rightarrow> u64 \<Rightarrow> NewRepoOrder \<Rightarrow> command" where
  "Client_NewRepoOrder env local loaded req c net =
     (if \<not> isSide (RPS_BuySell req) then refuse badSide c net
      else (case rpsParts (RPS_Symbol req) (RPS_Client req) (RPS_Union req) c of
          Inl e \<Rightarrow> refuse e c net
        | Inr (secid, board, client, d) \<Rightarrow>
            transact env local loaded TxNewRepoOrder
              (repoOrderPayload secid board client (RPS_BuySell req) (scaled d (RPS_Price req)) (RPS_Quantity req)
                 (Repo_RepoTerm req) (scaled 2 (Repo_RepoRate req)) (discount (Repo_StartDisc req))
                 (discount (Repo_LowerDisc req)) (discount (Repo_UpperDisc req))
                 (if Repo_Block req = 0 then 78 else Repo_Block req)) c net))"

definition cancelRPS :: "Env \<Rightarrow> u64 \<Rightarrow> u64 \<Rightarrow> byte \<Rightarrow> u64 \<Rightarrow> command" where
  "cancelRPS env local loaded kind i = transact env local loaded kind (Writer_Int32 [] (ucast i))"

definition Client_CancelNegDeal :: "Env \<Rightarrow> u64 \<Rightarrow> u64 \<Rightarrow> u64 \<Rightarrow> command" where
  "Client_CancelNegDeal env local loaded i = cancelRPS env local loaded TxCancelNegDeal i"

definition Client_CancelReport4 :: "Env \<Rightarrow> u64 \<Rightarrow> u64 \<Rightarrow> i64 \<Rightarrow> command" where
  "Client_CancelReport4 env local loaded i = cancelRPS env local loaded TxCancelReport4 i"

end
