(* ===== verification/Client_Session.thy ===== *)
theory Client_Session
  imports Client_Commands
begin

text \<open>
  The rest of the typed client: subscriptions and the specifications loaded with them
  (\<open>client_subscribe.go\<close>, \<open>client_secinfo.go\<close>), ticks, history requests, news, options, positions,
  limits, the password, the full login again (\<open>relogin\<close> of \<open>recover.go\<close>) and \<open>Close\<close>.

  Go visits a map in an order of its own: a function that loops over a map takes the list of the keys
  in the order of the visit. \<open>time.Now\<close> is a parameter.
\<close>

unbundle bit_operations_syntax

subsection \<open>Specifications\<close>

definition loadSecSpecs :: "Lib \<Rightarrow> Env \<Rightarrow> u16 list \<Rightarrow> Client \<Rightarrow> Net \<Rightarrow> serr option \<times> Client \<times> Net" where
  "loadSecSpecs lib env ids c net =
     (if ids = [] then (None, c, net)
      else (case on_conn (Inl notConnected) (Conn_SecSpec env ids) c net of
          (Inl e, c, net) \<Rightarrow> (Some e, c, net)
        | (Inr payload, c, net) \<Rightarrow>
            (case ParseSecSpec (lib_win lib) payload of
               Inl e \<Rightarrow> (Some (Low e), c, net)
             | Inr specs \<Rightarrow>
                 (None, c\<lparr>Cl_secSpecs := fold (\<lambda>s m. m(SecSpec_SecID s \<mapsto> s)) specs (Cl_secSpecs c)\<rparr>, net))))"

primrec secinfo_loop :: "Lib \<Rightarrow> Catalog \<Rightarrow> (u16 \<rightharpoonup> SecSpec) \<Rightarrow> Symbol list \<Rightarrow> serr + SecInfo list" where
  "secinfo_loop lib cat specs [] = Inr []"
| "secinfo_loop lib cat specs (sm # sms) =
     (case lookupSymbol cat sm of
        None \<Rightarrow> Inl unknownSecurity
      | Some (sec, board) \<Rightarrow>
          (case specs (SecNew_SecID sec) of
             None \<Rightarrow> Inl (message ''transaq: sec spec is not loaded'')
           | Some spec \<Rightarrow>
               (case secinfo_loop lib cat specs sms of
                  Inl e \<Rightarrow> Inl e | Inr infos \<Rightarrow> Inr (SecSpec_Info (lib_fmt6g lib) spec sec # infos))))"

definition SecuritiesInfo :: "Lib \<Rightarrow> Symbol list \<Rightarrow> Client \<Rightarrow> serr + SecInfo list" where
  "SecuritiesInfo lib sms c =
     (case Cl_catalog c of None \<Rightarrow> Inl notConnected | Some cat \<Rightarrow> secinfo_loop lib cat (Cl_secSpecs c) sms)"

definition default_symbol :: "Catalog \<Rightarrow> SecNew \<Rightarrow> Symbol option" where
  "default_symbol cat sec =
     (case SecNew_DefaultPit sec of
        None \<Rightarrow> None
      | Some pit \<Rightarrow>
          (case Catalog_Board cat (Pit_Board pit) of
             None \<Rightarrow> None
           | Some b \<Rightarrow> Some \<lparr>Symbol_Board = Board_Code b, Symbol_SecCode = SecNew_SecCode sec\<rparr>))"

definition SymbolByMarket :: "int \<Rightarrow> bytes \<Rightarrow> Client \<Rightarrow> Symbol option" where
  "SymbolByMarket market code c =
     (case Cl_catalog c of
        None \<Rightarrow> None
      | Some cat \<Rightarrow>
          (case List.find (\<lambda>s. uint (SecNew_Market s) = market \<and> SecNew_SecCode s = code) (Catalog_List cat) of
             None \<Rightarrow> None | Some sec \<Rightarrow> default_symbol cat sec))"

definition SymbolBySecID :: "u16 \<Rightarrow> Client \<Rightarrow> Symbol option" where
  "SymbolBySecID i c =
     (case Cl_catalog c of
        None \<Rightarrow> None
      | Some cat \<Rightarrow> (case Security cat i of None \<Rightarrow> None | Some sec \<Rightarrow> default_symbol cat sec))"

definition SymbolByBoard :: "bytes \<Rightarrow> bytes \<Rightarrow> Client \<Rightarrow> Symbol option" where
  "SymbolByBoard board code c =
     (case Cl_catalog c of
        None \<Rightarrow> None
      | Some cat \<Rightarrow>
          (case Lookup cat board code of
             None \<Rightarrow> None | Some _ \<Rightarrow> Some \<lparr>Symbol_Board = board, Symbol_SecCode = code\<rparr>))"

subsection \<open>Subscriptions\<close>

record Subscription =
  Sub_AllTrades :: "Symbol list"
  Sub_Quotations :: "Symbol list"
  Sub_Quotes :: "Symbol list"

definition apply_symbol :: "bool \<Rightarrow> (Symbol \<rightharpoonup> byte) \<Rightarrow> byte \<Rightarrow> Symbol \<Rightarrow> (Symbol \<rightharpoonup> byte) \<Rightarrow> (Symbol \<rightharpoonup> byte)" where
  "apply_symbol on subs b s next' =
     (let m = (case next' s of Some m \<Rightarrow> m | None \<Rightarrow> (case subs s of Some m \<Rightarrow> m | None \<Rightarrow> 0))
      in next'(s \<mapsto> (if on then m OR b else m AND NOT b)))"

definition next_masks :: "bool \<Rightarrow> (Symbol \<rightharpoonup> byte) \<Rightarrow> Subscription \<Rightarrow> (Symbol \<rightharpoonup> byte)" where
  "next_masks on subs sub =
     (let next' = fold (apply_symbol on subs SubAllTrades) (Sub_AllTrades sub) Map.empty;
          next' = fold (apply_symbol on subs SubQuotations) (Sub_Quotations sub) next'
      in fold (apply_symbol on subs SubQuotes) (Sub_Quotes sub) next')"

text \<open>The loop over the touched symbols: the items, and the securities to load.\<close>

primrec subscribe_items :: "Catalog \<Rightarrow> bool \<Rightarrow> (Symbol \<rightharpoonup> byte) \<Rightarrow> Symbol list \<Rightarrow> serr + (SubscribeItem list \<times> u16 list)" where
  "subscribe_items cat on next' [] = Inr ([], [])"
| "subscribe_items cat on next' (s # ss) =
     (case lookupSymbol cat s of
        None \<Rightarrow> Inl (message ''unknown security'')
      | Some (sec, board) \<Rightarrow>
          let m = (case next' s of Some m \<Rightarrow> m | None \<Rightarrow> 0)
          in (case subscribe_items cat on next' ss of
                Inl e \<Rightarrow> Inl e
              | Inr (items, ids) \<Rightarrow>
                  Inr (\<lparr>Item_SecID = SecNew_SecID sec, Item_Board = Board_Num board, Item_Mask = m\<rparr> # items,
                       if on \<and> m \<noteq> 0 then SecNew_SecID sec # ids else ids)))"

text \<open>\<open>sort.Slice\<close> by security and board.\<close>

definition sort_items :: "SubscribeItem list \<Rightarrow> SubscribeItem list" where
  "sort_items items = sort_key (\<lambda>i. uint (Item_SecID i)) (sort_key (\<lambda>i. uint (Item_Board i)) items)"

definition store_masks :: "(Symbol \<rightharpoonup> byte) \<Rightarrow> (Symbol \<rightharpoonup> byte) \<Rightarrow> (Symbol \<rightharpoonup> byte)" where
  "store_masks next' subs = (\<lambda>s. case next' s of None \<Rightarrow> subs s | Some m \<Rightarrow> if m = 0 then None else Some m)"

definition changeSubscription ::
  "Lib \<Rightarrow> Env \<Rightarrow> Env \<Rightarrow> Symbol list \<Rightarrow> Subscription \<Rightarrow> bool \<Rightarrow> Client \<Rightarrow> Net \<Rightarrow> serr option \<times> Client \<times> Net" where
  "changeSubscription lib env env' visit sub on c net =
     (let next' = next_masks on (Cl_subs c) sub in
      if Cl_recovering c then (Some (message ''transaq: connection is being recovered''), c, net)
      else (case (Cl_conn c, Cl_catalog c) of
          (Some _, Some cat) \<Rightarrow>
            (case subscribe_items cat on next' visit of
               Inl e \<Rightarrow> (Some e, c, net)
             | Inr (items, ids) \<Rightarrow>
                 (case on_conn (Inl notConnected) (Conn_Subscribe env (sort_items items)) c net of
                    (Inl e, c, net) \<Rightarrow> (Some e, c, net)
                  | (Inr _, c, net) \<Rightarrow>
                      let c = c\<lparr>Cl_subs := store_masks next' (Cl_subs c)\<rparr>
                      in if on then (case loadSecSpecs lib env' (rev ids) c net of (_, c, net) \<Rightarrow> (None, c, net))
                         else (None, c, net)))
        | _ \<Rightarrow> (Some notConnected, c, net)))"

text \<open>\<open>continue\<close> skips a symbol the new session does not know.\<close>

primrec resubscribe_items :: "Catalog \<Rightarrow> (Symbol \<rightharpoonup> byte) \<Rightarrow> Symbol list \<Rightarrow> SubscribeItem list \<times> u16 list" where
  "resubscribe_items cat subs [] = ([], [])"
| "resubscribe_items cat subs (s # ss) =
     (case lookupSymbol cat s of
        None \<Rightarrow> resubscribe_items cat subs ss
      | Some (sec, board) \<Rightarrow>
          (case resubscribe_items cat subs ss of
             (items, ids) \<Rightarrow>
               (\<lparr>Item_SecID = SecNew_SecID sec, Item_Board = Board_Num board,
                  Item_Mask = (case subs s of Some m \<Rightarrow> m | None \<Rightarrow> 0)\<rparr> # items, SecNew_SecID sec # ids)))"

definition resubscribe :: "Lib \<Rightarrow> Env \<Rightarrow> Env \<Rightarrow> Symbol list \<Rightarrow> Client \<Rightarrow> Net \<Rightarrow> serr option \<times> Client \<times> Net" where
  "resubscribe lib env env' visit c net =
     (case Cl_catalog c of
        None \<Rightarrow> (None, c, net)
      | Some cat \<Rightarrow>
          (case resubscribe_items cat (Cl_subs c) visit of
             (items, ids) \<Rightarrow>
               if items = [] then (None, c, net)
               else (case on_conn (Inl notConnected) (Conn_Subscribe env (sort_items items)) c net of
                   (Inl e, c, net) \<Rightarrow> (Some e, c, net)
                 | (Inr _, c, net) \<Rightarrow> (case loadSecSpecs lib env' (rev ids) c net of (_, c, net) \<Rightarrow> (None, c, net)))))"

subsection \<open>Ticks\<close>

record TickRequest =
  TickReq_Symbol :: Symbol
  TickReq_TradeNo :: i64

primrec tick_items_rev :: "Catalog \<Rightarrow> TickRequest list \<Rightarrow> serr + TickItem list" where
  "tick_items_rev cat [] = Inr []"
| "tick_items_rev cat (q # qs) =
     (case lookupSymbol cat (TickReq_Symbol q) of
        None \<Rightarrow> Inl unknownSecurity
      | Some (sec, board) \<Rightarrow>
          (case tick_items_rev cat qs of
             Inl e \<Rightarrow> Inl e
           | Inr items \<Rightarrow>
               Inr (\<lparr>TickItem_SecID = SecNew_SecID sec, TickItem_Board = Board_Num board, TickItem_TradeNo = TickReq_TradeNo q\<rparr> # items)))"

definition tickItems :: "TickRequest list \<Rightarrow> Client \<Rightarrow> serr + TickItem list" where
  "tickItems reqs c =
     (case Cl_catalog c of None \<Rightarrow> Inl notConnected | Some cat \<Rightarrow> tick_items_rev cat (rev reqs))"

definition Client_SubscribeTicks :: "Env \<Rightarrow> bool \<Rightarrow> TickRequest list \<Rightarrow> Client \<Rightarrow> Net \<Rightarrow> serr option \<times> Client \<times> Net" where
  "Client_SubscribeTicks env filter' reqs c net =
     (case tickItems reqs c of
        Inl e \<Rightarrow> (Some e, c, net)
      | Inr items \<Rightarrow> on_conn (Some notConnected) (SubscribeTicks env (TicksPayload filter' items)) c net)"

definition Client_PollTicks :: "Env \<Rightarrow> bool \<Rightarrow> TickRequest list \<Rightarrow> Client \<Rightarrow> Net \<Rightarrow> (serr + Tick list) \<times> Client \<times> Net" where
  "Client_PollTicks env filter' reqs c net =
     (case tickItems reqs c of
        Inl e \<Rightarrow> (Inl e, c, net)
      | Inr items \<Rightarrow>
          (case on_conn (Inl notConnected) (PollTicks env (TicksPayload filter' items)) c net of
             (Inl e, c, net) \<Rightarrow> (Inl e, c, net)
           | (Inr payload, c, net) \<Rightarrow>
               (case ParseTicksReply payload of
                  Inl e \<Rightarrow> (Inl (Low e), c, net)
                | Inr raw \<Rightarrow> (Inr (map (Tick_Event (Cl_catalog c)) raw), c, net))))"

subsection \<open>History\<close>

record HistoryRequest =
  HR_Symbol :: Symbol
  HR_Period :: i64
  HR_Count :: i64
  HR_Reset :: bool

text \<open>\<open>dropHistory\<close> compares the pointers of the collectors; the model compares their channels.\<close>

definition dropHistory :: "u16 \<times> u16 \<times> byte \<Rightarrow> nat \<Rightarrow> Client \<Rightarrow> Client" where
  "dropHistory k ch c =
     (case Cl_history c k of
        Some coll \<Rightarrow> if HC_ch coll = ch then c\<lparr>Cl_history := (Cl_history c)(k := None)\<rparr> else c
      | None \<Rightarrow> c)"

text \<open>
  \<open>History\<close> up to the wait on the channel; \<open>ch\<close> is the new channel. The result is the key the
  request waits under.
\<close>

definition startHistory ::
  "Env \<Rightarrow> nat \<Rightarrow> HistoryRequest \<Rightarrow> Client \<Rightarrow> Net \<Rightarrow> (serr + (u16 \<times> u16 \<times> byte)) \<times> Client \<times> Net" where
  "startHistory env ch req c net =
     (case resolve c (HR_Symbol req) of
        Inl e \<Rightarrow> (Inl e, c, net)
      | Inr (cat, sec, board) \<Rightarrow>
          if Cl_conn c = None then (Inl notConnected, c, net)
          else
            let k = (SecNew_SecID sec, Board_Num board, ucast (HR_Period req)) in
            if Cl_recovering c then (Inl (message ''transaq: connection is being recovered''), c, net)
            else if Cl_history c k \<noteq> None then (Inl (message ''transaq: history request is already in flight''), c, net)
            else
              let c = c\<lparr>Cl_history := (Cl_history c)(k \<mapsto> \<lparr>HC_ch = ch, HC_parts = []\<rparr>)\<rparr>;
                  payload = HistoryExtPayload (HR_Reset req) (SecNew_SecID sec) (Board_Num board) (ucast (HR_Period req)) (ucast (HR_Count req))
              in (case on_conn (Some notConnected) (HistoryExt env payload) c net of
                    (Some e, c, net) \<Rightarrow> (Inl e, dropHistory k ch c, net)
                  | (None, c, net) \<Rightarrow> (Inr k, c, net)))"

text \<open>The two ends of the wait: the result is taken from the channel, or the context ends.\<close>

definition takeHistory :: "nat \<Rightarrow> Client \<Rightarrow> (serr + Candles) option \<times> Client" where
  "takeHistory ch c = (Cl_results c ch, c\<lparr>Cl_results := (Cl_results c)(ch := None)\<rparr>)"

text \<open>Every waiting request gets the error, unless a result already waits in its channel.\<close>

definition failHistoryParts :: "serr \<Rightarrow> Client \<Rightarrow> Client" where
  "failHistoryParts e c =
     c\<lparr>Cl_results := (\<lambda>ch. if Cl_results c ch = None \<and> (\<exists>coll\<in>ran (Cl_history c). HC_ch coll = ch)
                        then Some (Inl e) else Cl_results c ch),
       Cl_history := Map.empty\<rparr>"

definition Client_Close :: "Env \<Rightarrow> Client \<Rightarrow> serr option \<times> Client" where
  "Client_Close env c =
     (case Cl_conn c of
        None \<Rightarrow> (None, c)
      | Some k \<Rightarrow>
          let c = failHistoryParts (message ''transaq: client is closed'') c
          in (case Conn_Close env k of (e, k) \<Rightarrow> (e, c\<lparr>Cl_conn := Some k\<rparr>)))"

subsection \<open>News\<close>

definition newsPayload :: "i64 \<Rightarrow> i64 \<Rightarrow> byte \<Rightarrow> byte \<Rightarrow> bytes" where
  "newsPayload start stop count' mode =
     Writer_Byte (Writer_Byte (Writer_Int32 (Writer_Int32 [] (ucast start)) (ucast stop)) count') mode"

text \<open>The minimum of the stored ids does not depend on the order of the visit.\<close>

definition newsRange :: "i64 \<Rightarrow> Client \<Rightarrow> i64 \<times> i64" where
  "newsRange count' c =
     (if dom (Cl_news c) = {} then (0, 0x7fffffff)
      else let stop = word_of_int (Min (sint ` dom (Cl_news c)));
               start = stop - count'
           in (if sint start < 0 then 0 else start, stop))"

text \<open>\<open>conn.Request\<close> with the context of the error.\<close>

definition news_request :: "Env \<Rightarrow> bytes \<Rightarrow> Conn \<Rightarrow> Net \<Rightarrow> serr option \<times> Conn \<times> Net" where
  "news_request env payload k net =
     (case Request env RqGetNews payload k net of
        (Inl e, k, net) \<Rightarrow> (Some (SWrap ''RQ_GETNEWS'' e), k, net)
      | (Inr _, k, net) \<Rightarrow> (None, k, net))"

definition OldNews :: "Env \<Rightarrow> i64 \<Rightarrow> Client \<Rightarrow> Net \<Rightarrow> serr option \<times> Client \<times> Net" where
  "OldNews env count' c net =
     (if sint count' < 1 \<or> sint count' > 100
      then (Some (SErrorf ''News count must be in interval from 1 to 100. Received value is %d'' [sint count']), c, net)
      else (case newsRange count' c of
          (start, stop) \<Rightarrow> on_conn (Some notConnected) (news_request env (newsPayload start stop (ucast count') 1)) c net))"

definition NewsBody :: "Env \<Rightarrow> i64 \<Rightarrow> Client \<Rightarrow> Net \<Rightarrow> serr option \<times> Client \<times> Net" where
  "NewsBody env i c net =
     (if Cl_news c i = None then (Some (SErrorf ''Header with id = %d not found'' [sint i]), c, net)
      else (case on_conn (Some notConnected) (news_request env (newsPayload i i 1 2)) c net of
          (Some e, c, net) \<Rightarrow> (Some e, c, net)
        | (None, c, net) \<Rightarrow> (None, c\<lparr>Cl_newsBodyRequest := i\<rparr>, net)))"

subsection \<open>Options\<close>

definition optionSecID :: "Symbol \<Rightarrow> Client \<Rightarrow> serr + u16" where
  "optionSecID sm c =
     (case Cl_catalog c of
        None \<Rightarrow> Inl notConnected
      | Some cat \<Rightarrow>
          (case lookupSymbol cat sm of
             None \<Rightarrow> Inl unknownSecurity | Some (sec, board) \<Rightarrow> Inr (SecNew_SecID sec)))"

definition optionsSupported :: "Client \<Rightarrow> bool" where
  "optionsSupported c = (case Cl_info c of None \<Rightarrow> False | Some i \<Rightarrow> Info_Protocol i \<ge> OptionsMinProtocol)"

definition Client_OptionFamilies :: "Env \<Rightarrow> Symbol \<Rightarrow> Client \<Rightarrow> Net \<Rightarrow> (serr + OptionFamily list) \<times> Client \<times> Net" where
  "Client_OptionFamilies env sm c net =
     (case optionSecID sm c of
        Inl e \<Rightarrow> (Inl e, c, net)
      | Inr i \<Rightarrow>
          (case on_conn (Some notConnected) (OptionFamilies env i) c net of
             (Some e, c, net) \<Rightarrow> (Inl e, c, net)
           | (None, c, net) \<Rightarrow> (Inr (sortedFamilies i c), c, net)))"

text \<open>\<open>FamilyID\<close> of the expiration date: \<open>days\<close> is its day count since 1970.\<close>

definition Client_FamilyStrikes :: "Env \<Rightarrow> Symbol \<Rightarrow> i32 \<Rightarrow> Client \<Rightarrow> Net \<Rightarrow> serr option \<times> Client \<times> Net" where
  "Client_FamilyStrikes env sm days c net =
     (if \<not> optionsSupported c then (Some ErrUnsupportedRequest, c, net)
      else (case optionSecID sm c of
          Inl e \<Rightarrow> (Some e, c, net)
        | Inr i \<Rightarrow> on_conn (Some notConnected) (FamilyStrikes env i (scast days)) c net))"

definition Client_Options :: "Env \<Rightarrow> bytes list \<Rightarrow> Client \<Rightarrow> Net \<Rightarrow> serr option \<times> Client \<times> Net" where
  "Client_Options env codes c net =
     (if codes = [] then (Some (message ''No seccodes found''), c, net)
      else if \<not> optionsSupported c then (Some ErrUnsupportedRequest, c, net)
      else on_conn (Some notConnected) (CertainOptions env codes) c net)"

subsection \<open>Positions, limits, password\<close>

record FortsPosition =
  FP_SecID :: u16
  FP_SecCode :: bytes
  FP_Market :: int
  FP_StartNet :: i64
  FP_OpenBuys :: i64
  FP_OpenSells :: i64
  FP_TotalNet :: i64
  FP_TodayBuy :: i64
  FP_TodaySell :: i64
  FP_VarMargin :: Decimal

record FortsMoney =
  FM_Client :: bytes
  FM_Market :: int
  FM_VarMargin :: Decimal

definition forts_position :: "Client \<Rightarrow> ClientHolding \<Rightarrow> FortsPosition" where
  "forts_position c h =
     (let sec = (case catalog_security c (ClientHolding_SecID h) of Some s \<Rightarrow> s | None \<Rightarrow> zeroSecNew)
      in \<lparr>FP_SecID = ClientHolding_SecID h, FP_SecCode = SecNew_SecCode sec, FP_Market = uint (SecNew_Market sec),
          FP_StartNet = ClientHolding_StartNet h, FP_OpenBuys = ClientHolding_OpenBuys h, FP_OpenSells = ClientHolding_OpenSells h,
          FP_TotalNet = ClientHolding_TotalNet h, FP_TodayBuy = ClientHolding_TodayBuy h, FP_TodaySell = ClientHolding_TodaySell h,
          FP_VarMargin = money (ClientHolding_VarMargin h)\<rparr>)"

text \<open>The loop over the holdings of the client: positions, sum of the margins, last known market.\<close>

definition forts_step ::
  "Client \<Rightarrow> i64 \<Rightarrow> FortsPosition list \<times> i64 \<times> int \<Rightarrow> ClientHolding \<Rightarrow> FortsPosition list \<times> i64 \<times> int" where
  "forts_step c i acc h =
     (case acc of (ps, m, market) \<Rightarrow>
        if ClientHolding_ClientID h \<noteq> i then acc
        else (ps @ [forts_position c h], m + ClientHolding_VarMargin h,
              case catalog_security c (ClientHolding_SecID h) of Some s \<Rightarrow> uint (SecNew_Market s) | None \<Rightarrow> market))"

definition clientName :: "i64 \<Rightarrow> Client \<Rightarrow> bytes" where
  "clientName i c = (case account_of c i of Some s \<Rightarrow> Account_ID (AS_account s) | None \<Rightarrow> [])"

definition GetFortsPositions ::
  "Env \<Rightarrow> bytes \<Rightarrow> Client \<Rightarrow> Net \<Rightarrow> (serr + (FortsPosition list \<times> FortsMoney)) \<times> Client \<times> Net" where
  "GetFortsPositions env client c net =
     (case clientNumericID client [] c of
        None \<Rightarrow> (Inl (message ''transaq: unknown client''), c, net)
      | Some i \<Rightarrow>
          (case on_conn (Inl notConnected) (Request env RqClientHoldings []) c net of
             (Inl e, c, net) \<Rightarrow> (Inl e, c, net)
           | (Inr payload, c, net) \<Rightarrow>
               (case ParseClientHoldings payload of
                  Inl e \<Rightarrow> (Inl (Low e), c, net)
                | Inr hs \<Rightarrow>
                    (case foldl (forts_step c i) ([], 0, 4) hs of
                       (ps, m, market) \<Rightarrow>
                         (Inr (ps, \<lparr>FM_Client = clientName i c, FM_Market = market, FM_VarMargin = money m\<rparr>), c, net)))))"

definition Client_ClientLimits :: "Env \<Rightarrow> bytes \<Rightarrow> Client \<Rightarrow> Net \<Rightarrow> (serr + ClientLimits) \<times> Client \<times> Net" where
  "Client_ClientLimits env client c net =
     (case clientNumericID client [] c of
        None \<Rightarrow> (Inl (message ''transaq: unknown client''), c, net)
      | Some i \<Rightarrow>
          (case on_conn (Inl notConnected) (Conn_ClientLimits env i) c net of
             (Inl e, c, net) \<Rightarrow> (Inl e, c, net)
           | (Inr payload, c, net) \<Rightarrow>
               (case (case ParseClientLimits payload (2 OR 4) False of
                        Inl _ \<Rightarrow> ParseClientLimits payload 0 False | Inr l \<Rightarrow> Inr l) of
                  Inl e \<Rightarrow> (Inl (Low e), c, net)
                | Inr l \<Rightarrow> (Inr (l\<lparr>Limits_Client := client\<rparr>), c, net))))"

text \<open>\<open>errors.Is(err, ErrChangePasswordFatal)\<close>.\<close>

fun is_fatal_change :: "serr \<Rightarrow> bool" where
  "is_fatal_change ErrChangePasswordFatal = True"
| "is_fatal_change (SWrap s e) = is_fatal_change e"
| "is_fatal_change e = False"

definition markFatal :: "serr \<Rightarrow> Client \<Rightarrow> Client" where
  "markFatal e c = (if Cl_fatal c = None then c\<lparr>Cl_fatal := Some e\<rparr> else c)"

definition clearFatal :: "Client \<Rightarrow> Client" where
  "clearFatal c = c\<lparr>Cl_fatal := None\<rparr>"

definition check_password :: "bytes \<Rightarrow> bytes \<Rightarrow> serr option" where
  "check_password old new =
     (if old = [] then Some (message ''You have to specify old password'')
      else if new = [] then Some (message ''You have to specify new password'')
      else if length old > 20 \<or> length new > 20 then Some (message ''Password cannot be longer than 20 characters.'')
      else if 59 \<in> set new then Some (message ''Forbiden character: ;'')
      else if old = new then Some (message ''The same passwords specified'')
      else None)"

definition Client_ChangePassword ::
  "(bytes \<Rightarrow> bytes) \<Rightarrow> Env \<Rightarrow> Env \<Rightarrow> bytes \<Rightarrow> bytes \<Rightarrow> Client \<Rightarrow> Net \<Rightarrow> serr option \<times> Client \<times> Net" where
  "Client_ChangePassword sha1 env cenv old new c net =
     (case check_password old new of
        Some e \<Rightarrow> (Some e, c, net)
      | None \<Rightarrow>
          (case on_conn (Inl notConnected) (ChangePassword sha1 env old new) c net of
             (Inl e, c, net) \<Rightarrow>
               if is_fatal_change e
               then (Some e, (markFatal e c)\<lparr>Cl_conn := map_option (\<lambda>k. snd (Conn_Close cenv k)) (Cl_conn c)\<rparr>, net)
               else (Some e, c, net)
           | (Inr reply, c, net) \<Rightarrow>
               if ChangePwd_Status reply = 0
               then (None, c\<lparr>Cl_cfg := (Cl_cfg c)\<lparr>Cfg_Password := new\<rparr>\<rparr>, net)
               else if ChangePwd_Status reply = 1 then (Some (message ''Wrong oldpass specified.''), c, net)
               else if ChangePwd_Status reply = 2 then (Some (ServerTextError (ChangePwd_Message reply)), c, net)
               else (Some (SErrorf ''RQ_CHANGE_PWD: unknown status %d (I)'' [uint (ChangePwd_Status reply)]), c, net)))"

end
