(* ===== verification/Recovery.thy ===== *)
theory Recovery
  imports Client_Session
begin

text \<open>
  Recovery of a lost session (\<open>native/recover.go\<close>), the login of a new client (\<open>Dial\<close>) and the loop
  of \<open>Run\<close> (\<open>client.go\<close>). Times and durations are nanoseconds. The clock, the sockets and the
  contexts are the environment: an \<open>Attempt\<close> says what happens in one round of the recovery, a
  \<open>RunEnv\<close> what happens around one poll.
\<close>

unbundle bit_operations_syntax

definition second :: int where "second = 1000000000"
definition millisecond :: int where "millisecond = 1000000"
definition recoveryRetryPause :: int where "recoveryRetryPause = second"
definition recoveryConnectTimeout :: int where "recoveryConnectTimeout = 10 * second"
definition defaultSessionTTL :: int where "defaultSessionTTL = 120 * second"
definition minRunRqDelay :: int where "minRunRqDelay = 10 * millisecond"
definition defaultRunRqDelay :: int where "defaultRunRqDelay = 100 * millisecond"

lemmas duration_defs = second_def millisecond_def recoveryRetryPause_def recoveryConnectTimeout_def
  defaultSessionTTL_def minRunRqDelay_def defaultRunRqDelay_def

subsection \<open>Timeouts\<close>

definition effectiveSessionTTL :: "int \<Rightarrow> Info option \<Rightarrow> int" where
  "effectiveSessionTTL override info =
     (if override \<noteq> 0
      then (if override < 0 \<or> override < 20 * second then 20 * second
            else if override < 300 * second then override
            else override div second * millisecond)
      else (case info of
          None \<Rightarrow> defaultSessionTTL
        | Some i \<Rightarrow>
            let v = sint (Info_SessionTimeout i)
            in if v < 0x14 then 20 * second else if v < 300 then v * second else v * millisecond))"

definition normalizeRequestTimeout :: "int \<Rightarrow> int \<Rightarrow> int" where
  "normalizeRequestTimeout request ttl =
     (let request = (if request \<le> 0 then sint DefaultRequestTimeout else request)
      in if ttl > 0 \<and> request \<ge> ttl then ttl div 2 else request)"

definition sessionTimeout :: "Client \<Rightarrow> int" where
  "sessionTimeout c = effectiveSessionTTL (sint (Cfg_SessionTimeout (Cl_cfg c))) (Cl_info c)"

definition runRqDelay :: "int \<Rightarrow> Client \<Rightarrow> int" where
  "runRqDelay opt c =
     (let delay = (if opt = 0 then sint (Cfg_RqDelay (Cl_cfg c)) else opt);
          delay = (if delay = 0 then defaultRunRqDelay else delay)
      in if delay < minRunRqDelay then minRunRqDelay else delay)"

subsection \<open>Which errors mean what\<close>

text \<open>\<open>errors.Is(err, io.EOF)\<close> and \<open>io.ErrUnexpectedEOF\<close>; the payload error of a frame type.\<close>

primrec is_eof :: "err \<Rightarrow> bool" where
  "is_eof ErrShortBuffer = False"
| "is_eof ErrHeaderCRC = False"
| "is_eof (PayloadCRCError f t) = False"
| "is_eof ErrTooLarge = False"
| "is_eof ErrEOF = True"
| "is_eof ErrUnexpectedEOF = True"
| "is_eof ErrUnknownRecord = False"
| "is_eof (UnknownRecordError t n) = False"
| "is_eof (Wrap s e) = is_eof e"
| "is_eof (WrapN s a e) = is_eof e"
| "is_eof (Errorf s a) = False"
| "is_eof OutOfFuel = False"

primrec crc_frame :: "err \<Rightarrow> byte option" where
  "crc_frame ErrShortBuffer = None"
| "crc_frame ErrHeaderCRC = None"
| "crc_frame (PayloadCRCError f t) = Some t"
| "crc_frame ErrTooLarge = None"
| "crc_frame ErrEOF = None"
| "crc_frame ErrUnexpectedEOF = None"
| "crc_frame ErrUnknownRecord = None"
| "crc_frame (UnknownRecordError t n) = None"
| "crc_frame (Wrap s e) = crc_frame e"
| "crc_frame (WrapN s a e) = crc_frame e"
| "crc_frame (Errorf s a) = None"
| "crc_frame OutOfFuel = None"

text \<open>\<open>context.DeadlineExceeded\<close> is a \<open>net.Error\<close>, \<open>context.Canceled\<close> is not.\<close>

fun isTransportError :: "serr \<Rightarrow> bool" where
  "isTransportError (Low e) = is_eof e"
| "isTransportError NetClosed = True"
| "isTransportError NetErr = True"
| "isTransportError (CtxErr expired) = expired"
| "isTransportError ErrBye = True"
| "isTransportError (ByeError p) = True"
| "isTransportError (LoginError n m (Some e)) = isTransportError e"
| "isTransportError (OutcomeError n e) = isTransportError e"
| "isTransportError (SWrap s e) = isTransportError e"
| "isTransportError e = False"

fun isFatalRecoverError :: "serr \<Rightarrow> bool" where
  "isFatalRecoverError (Low e) = (crc_frame e = Some RqRecover)"
| "isFatalRecoverError ErrBye = True"
| "isFatalRecoverError (ByeError p) = True"
| "isFatalRecoverError (IncorrectRelogin e) = True"
| "isFatalRecoverError (IncorrectRecover f t) = True"
| "isFatalRecoverError (LoginError n m (Some e)) = isFatalRecoverError e"
| "isFatalRecoverError (OutcomeError n e) = isFatalRecoverError e"
| "isFatalRecoverError (SWrap s e) = isFatalRecoverError e"
| "isFatalRecoverError e = False"

subsection \<open>The recovery loop\<close>

text \<open>
  One round: \<open>ctx.Err()\<close> at its start, the end of the context during the pause, the time the pause
  took, the error of \<open>Dial\<close>, the new socket with its environment, and the time the attempt took.
\<close>

record Attempt =
  A_ctx :: "serr option"
  A_sleep :: "serr option"
  A_pause :: int
  A_dial :: "serr option"
  A_env :: Env
  A_write2 :: "serr option"
  A_net :: Net
  A_took :: int

definition shortRecover :: "Attempt \<Rightarrow> Client \<Rightarrow> serr option \<times> Client \<times> Net option" where
  "shortRecover a c =
     (case Cl_fatal c of
        Some e \<Rightarrow> (Some e, c, None)
      | None \<Rightarrow>
          (case Cl_conn c of
             None \<Rightarrow> (Some (message ''transaq: session connection is gone''), c, None)
           | Some k \<Rightarrow>
               (case A_dial a of
                  Some e \<Rightarrow> (Some (SWrap ''dial'' e), c, None)
                | None \<Rightarrow>
                    (case Restore (A_env a) (A_write2 a) (Cfg_Login (Cl_cfg c)) k (A_net a) of
                       (Some e, k, net) \<Rightarrow> (Some e, c\<lparr>Cl_conn := Some k\<rparr>, None)
                     | (None, k, net) \<Rightarrow> (None, c\<lparr>Cl_conn := Some k\<rparr>, Some net)))))"

datatype Recovered =
    Restored Net
  | CtxEnded serr
  | RecoveryError int serr

definition noAttempt :: serr where
  "noAttempt = message ''no attempt within the session timeout''"

text \<open>
  \<open>recover_loop\<close>: \<open>i\<close> counts the attempts from 0, \<open>last\<close> is \<open>lastErr\<close>. The result is \<open>None\<close> when the
  fuel is used up; with it come the attempts made, each with its start and the timeout of its
  context.
\<close>

primrec recover_loop ::
  "nat \<Rightarrow> (nat \<Rightarrow> Attempt) \<Rightarrow> int \<Rightarrow> int \<Rightarrow> nat \<Rightarrow> int \<Rightarrow> serr option \<Rightarrow> Client
     \<Rightarrow> Recovered option \<times> Client \<times> (int \<times> int) list" where
  "recover_loop 0 att limit deadline i now last' c = (None, c, [])"
| "recover_loop (Suc n) att limit deadline i now last' c =
     (case A_ctx (att i) of
        Some e \<Rightarrow> (Some (CtxEnded e), c, [])
      | None \<Rightarrow>
          if i > 0 \<and> A_sleep (att i) \<noteq> None then (map_option CtxEnded (A_sleep (att i)), c, [])
          else
            let now = (if i > 0 then now + A_pause (att i) else now) in
            if now > deadline
            then (Some (RecoveryError limit (case last' of Some e \<Rightarrow> e | None \<Rightarrow> noAttempt)), c, [])
            else
              let remaining = min (deadline - now) recoveryConnectTimeout in
              (case shortRecover (att i) c of
                 (None, c, net) \<Rightarrow> (map_option Restored net, c, [(now, remaining)])
               | (Some e, c, _) \<Rightarrow>
                   if isFatalRecoverError e then (Some (RecoveryError limit e), c, [(now, remaining)])
                   else (case recover_loop n att limit deadline (i + 1) (now + A_took (att i)) (Some e) c of
                       (res, c, made) \<Rightarrow> (res, c, (now, remaining) # made))))"

text \<open>Pauses last at least a second, so the window has room for this many rounds.\<close>

definition recover :: "(nat \<Rightarrow> Attempt) \<Rightarrow> int \<Rightarrow> Client \<Rightarrow> Recovered option \<times> Client \<times> (int \<times> int) list" where
  "recover att now c =
     (let limit = sessionTimeout c
      in recover_loop (nat (limit div recoveryRetryPause) + 3) att limit (now + limit) 0 now None c)"

subsection \<open>A new session\<close>

definition languageTrailer :: "string \<Rightarrow> serr + byte" where
  "languageTrailer language =
     (if language = [] \<or> language = ''ru'' then Inr 0 else if language = ''en'' then Inr 1
      else Inl (message ''unknown language''))"

text \<open>What the environment does during a login: the error of \<open>Dial\<close>, the new socket, the
  environments of the requests, and the order in which the map of subscriptions is visited.\<close>

record LoginEnv =
  L_dial :: "serr option"
  L_net :: Net
  L_env1 :: Env
  L_env2 :: Env
  L_load :: "nat \<Rightarrow> Env"
  L_subscribe :: Env
  L_specs :: Env
  L_visit :: "Symbol list"

definition session_config :: "ClientConfig \<Rightarrow> Config" where
  "session_config cfg = \<lparr>Config_Login = Cfg_Login cfg, Config_Password = Cfg_Password cfg, Config_Client = Cfg_Client cfg,
     Config_RequestTimeout = Cfg_RequestTimeout cfg\<rparr>"

definition request_timeout :: "ClientConfig \<Rightarrow> Info \<Rightarrow> i64" where
  "request_timeout cfg info =
     word_of_int (normalizeRequestTimeout (sint (Cfg_RequestTimeout cfg))
       (effectiveSessionTTL (sint (Cfg_SessionTimeout cfg)) (Some info)))"

definition Dial ::
  "Lib \<Rightarrow> (bytes \<Rightarrow> bytes) \<Rightarrow> LoginEnv \<Rightarrow> string \<Rightarrow> ClientConfig \<Rightarrow> (serr + Client) \<times> Callback list \<times> Net" where
  "Dial lib sha1 env language cfg =
     (case (if language = [] then Inr (Trailer (Cfg_Client cfg)) else languageTrailer language) of
        Inl e \<Rightarrow> (Inl e, [], L_net env)
      | Inr trailer \<Rightarrow>
          let cfg = cfg\<lparr>Cfg_Client := (Cfg_Client cfg)\<lparr>Trailer := trailer\<rparr>\<rparr> in
          (case L_dial env of
             Some e \<Rightarrow> (Inl e, [], L_net env)
           | None \<Rightarrow>
               (case Login sha1 (L_env1 env) (L_env2 env) (session_config cfg) (L_net env) of
                  (Inl e, net) \<Rightarrow> (Inl e, [], net)
                | (Inr (conn, info), net) \<Rightarrow>
                    let cfg = cfg\<lparr>Cfg_RequestTimeout := request_timeout cfg info\<rparr>;
                        c = newClient cfg (SetRequestTimeout (Cfg_RequestTimeout cfg) conn) info
                    in (case load lib (L_load env) c net of
                          (calls, Some e, c, net) \<Rightarrow> (Inl e, calls, net)
                        | (calls, None, c, net) \<Rightarrow> (Inr c, calls, net)))))"

text \<open>What a new session forgets.\<close>

definition resetSession :: "Client \<Rightarrow> Client" where
  "resetSession c =
     (let c = (resetAccounts c)\<lparr>Cl_secSpecs := Map.empty\<rparr>;
          c = failHistoryParts (message ''transaq: connection was recovered'') c
      in c\<lparr>Cl_history := Map.empty, Cl_orders := Map.empty, Cl_pendingOrders := [], Cl_orderOrder := []\<rparr>)"

text \<open>\<open>fail\<close> detaches the connection; the sockets are closed.\<close>

definition detach :: "Client \<Rightarrow> Client" where
  "detach c = c\<lparr>Cl_conn := None, Cl_recovering := False\<rparr>"

definition relogin ::
  "Lib \<Rightarrow> (bytes \<Rightarrow> bytes) \<Rightarrow> LoginEnv \<Rightarrow> Client \<Rightarrow> Net \<Rightarrow> serr option \<times> Callback list \<times> Client \<times> Net" where
  "relogin lib sha1 env c net =
     (let c = clearFatal c; cfg = Cl_cfg c in
      case L_dial env of
        Some e \<Rightarrow> (Some (SWrap ''dial'' e), [], c, net)
      | None \<Rightarrow>
          (case Login sha1 (L_env1 env) (L_env2 env) (session_config cfg) (L_net env) of
             (Inl e, _) \<Rightarrow> (Some (SWrap ''login'' e), [], c, net)
           | (Inr (conn, info), net) \<Rightarrow>
               let c = c\<lparr>Cl_conn := Some (SetRequestTimeout (request_timeout cfg info) conn), Cl_info := Some info,
                         Cl_recovering := True\<rparr>;
                   c = resetSession c
               in (case load lib (L_load env) c net of
                     (calls, Some e, c, net) \<Rightarrow> (Some (SWrap ''load'' e), calls, detach c, net)
                   | (calls, None, c, net) \<Rightarrow>
                       (case resubscribe lib (L_subscribe env) (L_specs env) (L_visit env) c net of
                          (Some e, c, net) \<Rightarrow> (Some (SWrap ''resubscribe'' e), calls, detach c, net)
                        | (None, c, net) \<Rightarrow> (None, calls, c\<lparr>Cl_recovering := False\<rparr>, net)))))"

subsection \<open>Run\<close>

text \<open>
  Around one poll: the environment of the request, \<open>ctx.Err()\<close> after it and after a recovery, the
  rounds of a recovery with the time it starts, and what the handler returns in its first and second
  call.
\<close>

record RunEnv =
  R_poll :: Env
  R_ctx :: "serr option"
  R_ctx2 :: "serr option"
  R_attempts :: "nat \<Rightarrow> Attempt"
  R_now :: int
  R_handler :: "serr option"
  R_handler2 :: "serr option"

datatype Next =
    PollAgain
  | Wait
  | Stop serr

definition run_recovery :: "RunEnv \<Rightarrow> Client \<Rightarrow> Net \<Rightarrow> Event list list \<times> Next \<times> Client \<times> Net" where
  "run_recovery e c net =
     (let lost = [StatusEv True True None] in
      case R_handler e of
        Some herr \<Rightarrow> ([lost], Stop herr, c, net)
      | None \<Rightarrow>
          (case recover (R_attempts e) (R_now e) c of
             (res, c, _) \<Rightarrow>
               (case R_ctx2 e of
                  Some cerr \<Rightarrow> ([lost], Stop cerr, c, net)
                | None \<Rightarrow>
                    (case res of
                       Some (Restored net') \<Rightarrow>
                         ([lost, [StatusEv True False None]], (case R_handler2 e of Some herr \<Rightarrow> Stop herr | None \<Rightarrow> Wait), c, net')
                     | Some (CtxEnded cerr) \<Rightarrow>
                         ([lost, [StatusEv False False (Some cerr)]],
                          (case R_handler2 e of Some herr \<Rightarrow> Stop herr | None \<Rightarrow> Stop cerr), c, net)
                     | Some (RecoveryError limit err') \<Rightarrow>
                         ([lost, [StatusEv False False (Some err')]],
                          (case R_handler2 e of Some herr \<Rightarrow> Stop herr | None \<Rightarrow> Stop err'), c, net)
                     | None \<Rightarrow> ([lost], Stop (Low OutOfFuel), c, net)))))"

text \<open>One round of the inner loop: the batches handed to the handler, and what comes next.\<close>

definition run_poll :: "Lib \<Rightarrow> RunEnv \<Rightarrow> Client \<Rightarrow> Net \<Rightarrow> Event list list \<times> Next \<times> Client \<times> Net" where
  "run_poll lib e c net =
     (case Poll lib (R_poll e) c net of
        ((events, more', err), c, net) \<Rightarrow>
          (case Cl_fatal c of
             Some ferr \<Rightarrow> ([], Stop ferr, c, net)
           | None \<Rightarrow>
               (case err of
                  Some perr \<Rightarrow>
                    (case R_ctx e of
                       Some cerr \<Rightarrow> ([], Stop cerr, c, net)
                     | None \<Rightarrow> if \<not> isTransportError perr then ([], Stop perr, c, net) else run_recovery e c net)
                | None \<Rightarrow>
                    ([events], (case R_handler e of Some herr \<Rightarrow> Stop herr | None \<Rightarrow> if more' then PollAgain else Wait), c, net))))"

text \<open>
  The loop: \<open>waits i\<close> is the end of the context during the pause before round \<open>i\<close>. It need not end,
  so it is an inductive relation: the batches so far and, once \<open>Run\<close> has returned, its error.
\<close>

inductive runs :: "Lib \<Rightarrow> (nat \<Rightarrow> RunEnv) \<Rightarrow> (nat \<Rightarrow> serr option) \<Rightarrow> Client \<Rightarrow> Net \<Rightarrow> nat \<Rightarrow> Next \<Rightarrow> Event list list \<Rightarrow> Client \<Rightarrow> Net \<Rightarrow> bool"
  for lib envs waits c0 net0 where
  begin_run: "runs lib envs waits c0 net0 0 Wait [] c0 net0"
| cancelled: "runs lib envs waits c0 net0 i Wait batches c net \<Longrightarrow> waits i = Some e
    \<Longrightarrow> runs lib envs waits c0 net0 (Suc i) (Stop e) batches c net"
| fatal: "runs lib envs waits c0 net0 i Wait batches c net \<Longrightarrow> waits i = None \<Longrightarrow> Cl_fatal c = Some e
    \<Longrightarrow> runs lib envs waits c0 net0 (Suc i) (Stop e) batches c net"
| after_pause: "runs lib envs waits c0 net0 i Wait batches c net \<Longrightarrow> waits i = None \<Longrightarrow> Cl_fatal c = None
    \<Longrightarrow> run_poll lib (envs i) c net = (bs, nxt, c', net')
    \<Longrightarrow> runs lib envs waits c0 net0 (Suc i) nxt (batches @ bs) c' net'"
| again: "runs lib envs waits c0 net0 i PollAgain batches c net
    \<Longrightarrow> run_poll lib (envs i) c net = (bs, nxt, c', net')
    \<Longrightarrow> runs lib envs waits c0 net0 (Suc i) nxt (batches @ bs) c' net'"

end
