(* ===== verification/Recovery_Properties.thy ===== *)
theory Recovery_Properties
  imports Recovery Client_Properties
begin

text \<open>
  Theorems on the recovery of a session: it ends, its attempts keep to the window of the session
  timeout, and it leaves the client as it was.
\<close>

subsection \<open>The recovery window\<close>

lemma Restore_effect:
  "Restore env write2 login k net = (res, k', net') \<Longrightarrow>
     k' = (if res = None then k\<lparr>C_open := True, C_abandoned := []\<rparr> else k)"
  by (auto simp: Restore_def Let_def split: if_splits option.splits sum.splits prod.splits)

lemma same_conn: "Cl_conn c = Some k \<Longrightarrow> c\<lparr>Cl_conn := Some k\<rparr> = (c :: Client)"
  by (rule Client.equality) simp_all

definition reopen :: "Client \<Rightarrow> Client" where
  "reopen c = c\<lparr>Cl_conn := map_option (\<lambda>k. k\<lparr>C_open := True, C_abandoned := []\<rparr>) (Cl_conn c)\<rparr>"

lemma shortRecover_effect:
  assumes "shortRecover a c = (e, c', net)"
  shows "c' = (if e = None then reopen c else c) \<and> (net \<noteq> None \<longleftrightarrow> e = None)"
proof (cases "Cl_fatal c")
  case None
  show ?thesis
  proof (cases "Cl_conn c")
    case (Some k)
    obtain res k' net' where r: "Restore (A_env a) (A_write2 a) (Cfg_Login (Cl_cfg c)) k (A_net a) = (res, k', net')"
      by (metis prod_cases3)
    show ?thesis
    proof (cases "A_dial a")
      case d: None
      show ?thesis
        using assms Restore_effect [OF r] same_conn [OF Some]
        by (cases res) (auto simp: shortRecover_def None Some d r reopen_def)
    qed (use assms None Some in \<open>auto simp: shortRecover_def\<close>)
  qed (use assms None in \<open>auto simp: shortRecover_def\<close>)
next
  case (Some x)
  with assms have "e = Some x" "c' = c" "net = None" by (simp_all add: shortRecover_def)
  then show ?thesis by simp
qed

text \<open>The times \<open>n\<close> attempts take at least: the first may start now, the next after a pause each.\<close>

definition clocked :: "(nat \<Rightarrow> Attempt) \<Rightarrow> bool" where
  "clocked att \<longleftrightarrow> (\<forall>i. A_pause (att i) \<ge> recoveryRetryPause \<and> A_took (att i) \<ge> 0)"

lemma recover_loop_returns:
  assumes "clocked att" "deadline - now < int n * recoveryRetryPause" "0 < i"
  shows "fst (recover_loop n att limit deadline i now last' c) \<noteq> None \<or> n = 0 \<and> deadline < now"
  using assms(2,3)
proof (induction n arbitrary: i now last' c)
  case (Suc n)
  let ?now = "now + A_pause (att i)"
  have p: "A_pause (att i) \<ge> recoveryRetryPause" "A_took (att i) \<ge> 0" using assms(1) by (auto simp: clocked_def)
  obtain e c' net where s: "shortRecover (att i) c = (e, c', net)" by (metis prod_cases3)
  have r: "fst (recover_loop n att limit deadline (i + 1) (?now + A_took (att i)) l d) \<noteq> None" if "?now \<le> deadline" for l d
  proof -
    have "deadline - (?now + A_took (att i)) < int n * recoveryRetryPause"
      using Suc.prems(1) p by (simp add: algebra_simps)
    from Suc.IH [OF this] have "fst (recover_loop n att limit deadline (i + 1) (?now + A_took (att i)) l d) \<noteq> None
        \<or> n = 0 \<and> deadline < ?now + A_took (att i)" by simp
    moreover have "n \<noteq> 0"
      using Suc.prems(1) p(1) that by (cases n) (auto simp: duration_defs)
    ultimately show ?thesis by blast
  qed
  show ?case
  proof (cases e)
    case None
    with s shortRecover_effect [OF s] show ?thesis
      using Suc.prems(2) by (auto simp: Let_def split: option.split)
  next
    case (Some x)
    have "fst (case recover_loop n att limit deadline (i + 1) t l d of (res, c, made) \<Rightarrow> (res, c, g made)) =
        fst (recover_loop n att limit deadline (i + 1) t l d)" for t l d and g :: "(int \<times> int) list \<Rightarrow> (int \<times> int) list"
      by (simp split: prod.split)
    with s Some r Suc.prems(2) show ?thesis
      by (simp add: Let_def del: prod.case_eq_if split: option.split)
  qed
qed simp


lemma recover_fuel: "limit < int (nat (limit div recoveryRetryPause) + 2) * recoveryRetryPause"
proof -
  have p: "recoveryRetryPause > 0" by (simp add: duration_defs)
  have "limit = recoveryRetryPause * (limit div recoveryRetryPause) + limit mod recoveryRetryPause" by simp
  then have "limit < recoveryRetryPause * (limit div recoveryRetryPause) + recoveryRetryPause"
    using pos_mod_bound [OF p, of limit] by linarith
  then have "limit < (limit div recoveryRetryPause + 1) * recoveryRetryPause"
    by (simp add: algebra_simps)
  also have "\<dots> \<le> int (nat (limit div recoveryRetryPause) + 2) * recoveryRetryPause"
    using p by (intro mult_right_mono) auto
  finally show ?thesis .
qed

lemma sessionTimeout_pos: "0 < sessionTimeout c"
proof -
  have "0 < effectiveSessionTTL v info" for v info
  proof -
    have "0 < v div second * millisecond" if "300 * second \<le> v"
      using that by (simp add: duration_defs pos_imp_zdiv_pos_iff)
    then show ?thesis by (auto simp: effectiveSessionTTL_def Let_def duration_defs split: option.split)
  qed
  then show ?thesis by (simp add: sessionTimeout_def)
qed

text \<open>The first round makes no pause, so one unit more of fuel is enough for it.\<close>

lemma recover_loop_first:
  assumes "clocked att" "limit < int n * recoveryRetryPause" "0 < n" "0 \<le> limit"
  shows "fst (recover_loop (Suc n) att limit (now + limit) 0 now last' c) \<noteq> None"
proof -
  obtain e c' net where s: "shortRecover (att 0) c = (e, c', net)" by (metis prod_cases3)
  have p: "A_took (att 0) \<ge> 0" using assms(1) by (simp add: clocked_def)
  have r: "fst (recover_loop n att limit (now + limit) 1 (now + A_took (att 0)) l d) \<noteq> None" for l d
    using recover_loop_returns [OF assms(1), of "now + limit" "now + A_took (att 0)" n 1 limit l d] assms(2,3) p by simp
  show ?thesis
  proof (cases e)
    case None
    with s shortRecover_effect [OF s] show ?thesis
      using assms(4) by (auto simp: Let_def split: option.split)
  next
    case (Some x)
    have "fst (case recover_loop n att limit (now + limit) 1 t l d of (res, c, made) \<Rightarrow> (res, c, g made)) =
        fst (recover_loop n att limit (now + limit) 1 t l d)" for t l d and g :: "(int \<times> int) list \<Rightarrow> (int \<times> int) list"
      by (simp split: prod.split)
    with s Some r assms(4) show ?thesis
      by (simp add: Let_def del: prod.case_eq_if split: option.split)
  qed
qed

text \<open>
  C27: The recovery of a lost session always ends: when the pauses between two rounds last at least the
  second the code asks for and the clock does not run backwards, \<open>recover\<close> returns, for every
  behaviour of the server and the network.
\<close>

theorem recover_returns:
  assumes "clocked att"
  shows "fst (recover att now c) \<noteq> None"
proof -
  let ?n = "nat (sessionTimeout c div recoveryRetryPause) + 2"
  have "recover att now c = recover_loop (Suc ?n) att (sessionTimeout c) (now + sessionTimeout c) 0 now None c"
    by (simp add: recover_def Let_def eval_nat_numeral)
  with recover_loop_first [OF assms recover_fuel] sessionTimeout_pos [of c] show ?thesis by simp
qed

subsection \<open>Every attempt lies in the window\<close>

definition a_second_apart :: "(int \<times> int) list \<Rightarrow> bool" where
  "a_second_apart made \<longleftrightarrow> sorted_wrt (\<lambda>a b. fst a + recoveryRetryPause \<le> fst b) made"

definition in_window :: "int \<Rightarrow> int \<Rightarrow> int \<times> int \<Rightarrow> bool" where
  "in_window from deadline a \<longleftrightarrow> from \<le> fst a \<and> fst a \<le> deadline \<and> snd a \<le> recoveryConnectTimeout
     \<and> fst a + snd a \<le> deadline \<and> 0 \<le> snd a"

lemma in_window_mono: "in_window t deadline a \<Longrightarrow> from \<le> t \<Longrightarrow> in_window from deadline a"
  by (simp add: in_window_def)

lemma recover_loop_made:
  assumes "clocked att" "recover_loop n att limit deadline i now last' c = (res, c', made)"
  shows "(\<forall>a \<in> set made. in_window (if i > 0 then now + recoveryRetryPause else now) deadline a) \<and> a_second_apart made"
  using assms(2)
proof (induction n arbitrary: i now last' c made)
  case (Suc n)
  let ?now = "if i > 0 then now + A_pause (att i) else now"
  have p: "A_pause (att i) \<ge> recoveryRetryPause" "A_took (att i) \<ge> 0" using assms(1) by (auto simp: clocked_def)
  obtain e c1 net where s: "shortRecover (att i) c = (e, c1, net)" by (metis prod_cases3)
  let ?a = "(?now, min (deadline - ?now) recoveryConnectTimeout)"
  show ?case
  proof (cases "A_ctx (att i) \<noteq> None \<or> i > 0 \<and> A_sleep (att i) \<noteq> None \<or> ?now > deadline")
    case True
    then have "made = []" using Suc.prems by (auto simp: Let_def split: option.splits if_splits)
    then show ?thesis by (simp add: a_second_apart_def)
  next
    case False
    have a: "in_window (if i > 0 then now + recoveryRetryPause else now) deadline ?a"
      using False p by (auto simp: in_window_def duration_defs)
    consider "made = [?a]" | rest l d where "made = ?a # rest"
        "recover_loop n att limit deadline (i + 1) (?now + A_took (att i)) l d = (res, c', rest)"
      using Suc.prems False s
      by (cases e) (auto simp: Let_def split: if_splits prod.splits)
    then show ?thesis
    proof cases
      case 2
      from Suc.IH [OF 2(2)] have rest: "\<forall>b \<in> set rest. in_window (?now + A_took (att i) + recoveryRetryPause) deadline b"
        "a_second_apart rest" by simp_all
      then have "\<forall>b \<in> set rest. ?now + recoveryRetryPause \<le> fst b \<and>
          in_window (if i > 0 then now + recoveryRetryPause else now) deadline b"
        using p by (fastforce simp: in_window_def duration_defs)
      with a rest 2(1) show ?thesis by (simp add: a_second_apart_def)
    qed (use a in \<open>simp add: a_second_apart_def\<close>)
  qed
qed (simp add: a_second_apart_def)

lemma apart_count:
  assumes "a_second_apart made" "made \<noteq> []"
  shows "fst (hd made) + (int (length made) - 1) * recoveryRetryPause \<le> fst (last made)"
  using assms
proof (induction made)
  case (Cons a made)
  show ?case
  proof (cases made)
    case (Cons b bs)
    with Cons.prems have "fst a + recoveryRetryPause \<le> fst b" by (simp add: a_second_apart_def)
    moreover have "fst b + (int (length made) - 1) * recoveryRetryPause \<le> fst (last made)"
      using Cons.IH Cons.prems Cons by (simp add: a_second_apart_def)
    ultimately show ?thesis using Cons by (simp add: algebra_simps)
  qed simp
qed simp

text \<open>
  C28: Every attempt of the recovery lies in the window of the session timeout: it starts not before
  the recovery and not after the deadline, its context ends at the deadline at the latest and after
  ten seconds at most, two attempts start at least a second apart, and there are at most as many as
  the window has seconds, and one.
\<close>

theorem recover_in_window:
  assumes "clocked att" "recover att now c = (res, c', made)"
  shows "(\<forall>a \<in> set made. in_window now (now + sessionTimeout c) a) \<and> a_second_apart made \<and>
         int (length made) \<le> sessionTimeout c div recoveryRetryPause + 1"
proof -
  have w: "\<forall>a \<in> set made. in_window now (now + sessionTimeout c) a" and ap: "a_second_apart made"
    using recover_loop_made [OF assms(1)] assms(2) by (fastforce simp: recover_def Let_def)+
  have "int (length made) \<le> sessionTimeout c div recoveryRetryPause + 1"
  proof (cases "made = []")
    case True
    then show ?thesis using sessionTimeout_pos [of c] by (simp add: duration_defs pos_imp_zdiv_nonneg_iff)
  next
    case False
    with w have "now \<le> fst (hd made)" "fst (last made) \<le> now + sessionTimeout c"
      by (auto simp: in_window_def)
    with apart_count [OF ap False] have "(int (length made) - 1) * recoveryRetryPause \<le> sessionTimeout c" by simp
    then have "int (length made) - 1 \<le> sessionTimeout c div recoveryRetryPause"
      using zdiv_mono1 [of "(int (length made) - 1) * recoveryRetryPause" "sessionTimeout c" recoveryRetryPause]
      by (simp add: duration_defs)
    then show ?thesis by simp
  qed
  with w ap show ?thesis by blast
qed

subsection \<open>What the recovery leaves of the client\<close>

lemma recover_loop_effect:
  "recover_loop n att limit deadline i now last' c = (res, c', made)
     \<Longrightarrow> c' = (case res of Some (Restored net) \<Rightarrow> reopen c | _ \<Rightarrow> c) \<and> (\<forall>net. res = Some (Restored net) \<longrightarrow> made \<noteq> [])"
proof (induction n arbitrary: i now last' made)
  case (Suc n)
  obtain e c1 net where s: "shortRecover (att i) c = (e, c1, net)" by (metis prod_cases3)
  note eff = shortRecover_effect [OF s]
  show ?case
  proof (cases e)
    case None
    with Suc.prems s eff show ?thesis by (auto simp: Let_def split: option.splits if_splits)
  next
    case (Some x)
    then have "c1 = c" using eff by simp
    then show ?thesis
      using Suc.prems s Some Suc.IH
      by (auto simp: Let_def split: option.splits if_splits prod.splits)
  qed
qed simp

text \<open>
  The recovery keeps the session: whatever the attempts did, the catalog, the stores, the
  subscriptions, the keys and the counters of the client are those from before; a successful one
  only opens the connection again with no reply outstanding, and a failed one leaves the client
  exactly as it was.
\<close>

theorem recover_keeps_session:
  "case recover att now c of
     (Some (Restored net), c', made) \<Rightarrow> c' = reopen c \<and> made \<noteq> []
   | (_, c', made) \<Rightarrow> c' = c"
proof -
  obtain res c' made where r: "recover att now c = (res, c', made)" by (metis prod_cases3)
  then have "c' = (case res of Some (Restored net) \<Rightarrow> reopen c | _ \<Rightarrow> c) \<and> (\<forall>net. res = Some (Restored net) \<longrightarrow> made \<noteq> [])"
    using recover_loop_effect by (simp add: recover_def Let_def)
  with r show ?thesis by (auto split: option.splits Recovered.splits)
qed


text \<open>A server that stays away: every dial fails, and a round lasts ten minutes.\<close>

definition silence :: "nat \<Rightarrow> Attempt" where
  "silence i = \<lparr>A_ctx = None, A_sleep = None, A_pause = 600 * second, A_dial = Some NetErr, A_env = example_env,
     A_write2 = None, A_net = \<lparr>N_in = [], N_out = []\<rparr>, A_took = 0\<rparr>"

lemma clocked_silence: "clocked silence"
  by (simp add: clocked_def silence_def duration_defs)

theorem recover_returns_witness: "clocked silence \<and> fst (recover silence 0 example_client) \<noteq> None"
  using recover_returns [OF clocked_silence] clocked_silence by blast

lemma silence_fails: "Cl_fatal c = None \<Longrightarrow> Cl_conn c = Some k \<Longrightarrow> shortRecover (silence i) c = (Some (SWrap ''dial'' NetErr), c, None)"
  by (simp add: shortRecover_def silence_def)

lemma silence_loop:
  assumes "Cl_fatal c = None" "Cl_conn c = Some k"
  shows "recover_loop (Suc (Suc n)) silence (20 * second) (20 * second) 0 0 None c
     = (Some (RecoveryError (20 * second) (SWrap ''dial'' NetErr)), c, [(0, recoveryConnectTimeout)])"
proof -
  have s: "A_ctx (silence i) = None" "A_sleep (silence i) = None" "A_pause (silence i) = 600 * second" "A_took (silence i) = 0" for i
    by (simp_all add: silence_def)
  show ?thesis using silence_fails [OF assms] by (simp add: Let_def s duration_defs)
qed

lemma example_recover:
  "recover silence 0 example_client =
     (Some (RecoveryError (20 * second) (SWrap ''dial'' NetErr)), example_client, [(0, recoveryConnectTimeout)])"
proof -
  have c: "Cl_fatal example_client = None" "\<exists>k. Cl_conn example_client = Some k" "sessionTimeout example_client = 20 * second"
    by (simp_all add: example_client_def newClient_def resetAccounts_def sessionTimeout_def effectiveSessionTTL_def zeroInfo_def duration_defs)
  then obtain k where k: "Cl_conn example_client = Some k" by blast
  have "recover silence 0 example_client = recover_loop (Suc (Suc 21)) silence (20 * second) (20 * second) 0 0 None example_client"
    by (simp add: recover_def Let_def c(3) duration_defs)
  also note silence_loop [OF c(1) k, of 21]
  finally show ?thesis .
qed

theorem recover_in_window_witness:
  "in_window 0 (sessionTimeout example_client) (0, recoveryConnectTimeout) \<and> a_second_apart [(0, recoveryConnectTimeout)] \<and>
   1 \<le> sessionTimeout example_client div recoveryRetryPause + 1"
  using recover_in_window [OF clocked_silence example_recover] by simp

end
