(* ===== verification/Delivered_Events.thy ===== *)
theory Delivered_Events
  imports Recovery_Properties
begin

text \<open>
  What the client hands to its user: no decoder makes a status event, only \<open>decodeAllTrade\<close> makes
  trades and touches the trade filter, and the numbers of the delivered trades of a symbol increase.
\<close>

subsection \<open>What the decoders emit\<close>

fun is_status :: "Event \<Rightarrow> bool" where
  "is_status (StatusEv a b e) = True"
| "is_status e = False"

definition plain_event :: "Event \<Rightarrow> bool" where
  "plain_event e \<longleftrightarrow> \<not> is_trade e \<and> \<not> is_status e"

lemma plain_events [simp]:
  "plain_event (AccountEv a)" "plain_event (MoneyEv m)" "plain_event (SecPosEv p)" "plain_event (UnionEv u)"
  "plain_event (OrderEv ord)" "plain_event (ClientTradeEv t)" "plain_event (StopOrderEv s)" "plain_event (SecRateEv i r)"
  "plain_event (MarketOrdEv mo)" "plain_event (MessageEv msg)" "plain_event (MessagesEv ms)" "plain_event (NewsHeaderEv h)"
  "plain_event (NewsBodyEv bi bt)" "plain_event (FamiliesEv fs)" "plain_event (EndOfFamilyEv ef)" "plain_event (StrikesEv st)"
  "plain_event (QuotationEv q)" "plain_event (QuotesEv qs)" "plain_event (SecInfoEv si)" "plain_event (TicksEv ts)"
  "plain_event (UnknownEv tag n p')"
  by (simp_all add: plain_event_def is_trade_def)

text \<open>A calm decoder emits neither trades nor status events, and leaves the trade filter alone.\<close>

definition calm_result :: "Client \<Rightarrow> (err + Event list) \<times> Client \<Rightarrow> bool" where
  "calm_result c r \<longleftrightarrow> Cl_dedup (snd r) = Cl_dedup c \<and> (\<forall>evs. fst r = Inr evs \<longrightarrow> (\<forall>e \<in> set evs. plain_event e))"

definition calm :: "decoder \<Rightarrow> bool" where
  "calm d \<longleftrightarrow> (\<forall>body c. calm_result c (d body c))"

lemma calm_parsed:
  assumes "\<And>a c. calm_result c (f a c)"
  shows "calm_result c (parsed x f c)"
  using assms by (auto simp: parsed_def calm_result_def split: sum.split)

lemma calm_simple:
  "calm decodeOvernight" "calm decodeUnion" "calm decodeQuotes" "calm (decodeQuotation lib)" "calm (decodeSecParam lib)"
  "calm decodeSecRate" "calm decodeSecMktPermit" "calm (decodeMessage lib)" "calm (decodeEndOfFamilies lib)"
  "calm (decodeEndOfFamily lib)" "calm decodeOptionFamily" "calm (decodeClientTrade lib)" "calm decodeOptionStrikes"
  "calm (decodeNewsHeader lib)"
  unfolding calm_def decodeOvernight_def decodeUnion_def decodeQuotes_def decodeQuotation_def decodeSecParam_def
    decodeSecRate_def decodeSecMktPermit_def decodeMessage_def decodeEndOfFamilies_def decodeEndOfFamily_def
    decodeOptionFamily_def decodeClientTrade_def decodeOptionStrikes_def decodeNewsHeader_def
  by (intro allI calm_parsed; simp add: calm_result_def storeNewsHeader_def Let_def split: prod.split option.split)+

lemma calm_stop: "calm decodeStopOrder"
  unfolding calm_def decodeStopOrder_def by (auto simp: calm_result_def Let_def split: sum.split option.split)

lemma ticks_dedup: "Cl_dedup (snd (ticks_loop lib ts c)) = Cl_dedup c"
proof (induction ts arbitrary: c)
  case (Cons t ts)
  let ?k = "(TickRecord_SecID t, TickRecord_Board t)"
  show ?case
    using Cons.IH [of "c\<lparr>Cl_tickTradeNos := accumulate (Cl_tickTradeNos c) ?k (TickRecord_TradeNo t),
      Cl_tickTimes := accumulate (Cl_tickTimes c) ?k (TickRecord_Time t)\<rparr>"]
    by (auto simp: Let_def split: prod.split)
qed simp

lemma store_dedup [simp]: "Cl_dedup (storeOrder ord c) = Cl_dedup c" "Cl_dedup (storeAccount raw c) = Cl_dedup c"
  "Cl_dedup (storeNewsHeader h c) = Cl_dedup c" "Cl_dedup (storeSecPosition k pos c) = Cl_dedup c"
  "Cl_dedup (resetAccounts c) = Cl_dedup c" "Cl_dedup (addHistoryPart part c) = Cl_dedup c"
  by (simp_all add: storeOrder_def storeAccount_def storeNewsHeader_def storeSecPosition_def resetAccounts_def
      addHistoryPart_def Let_def split: option.split)

lemma store_all_dedup [simp]: "Cl_dedup (store_all ps c) = Cl_dedup c"
  by (induction ps arbitrary: c) simp_all

lemma calm_client_new: "calm decodeClientNew"
  unfolding calm_def decodeClientNew_def
  by (intro allI calm_parsed) (auto simp: calm_result_def flushPendingOrders_eq)

lemma calm_client_asset: "calm decodeClientAsset"
  unfolding calm_def decodeClientAsset_def
  by (intro allI calm_parsed) (auto simp: calm_result_def Let_def split: option.split)

lemma calm_orders: "calm decodeOrderNew" "calm decodeOrderModify"
  unfolding calm_def decodeOrderNew_def decodeOrderModify_def
  by (intro allI calm_parsed; auto simp: calm_result_def Let_def split: prod.split)
    (auto simp: calm_result_def Let_def applyOrderModify_def split: prod.split option.split)

lemma calm_upload: "calm (decodeNewsUpload lib)"
  unfolding calm_def decodeNewsUpload_def
  by (intro allI calm_parsed)
    (auto simp: calm_result_def Let_def news_body_def split: prod.split option.split sum.split)

lemma calm_tick: "calm (decodeTick lib)"
  unfolding calm_def decodeTick_def
proof (intro allI calm_parsed)
  fix ts c
  show "calm_result c (case ticks_loop lib ts c of (items, c) \<Rightarrow> (Inr [TicksEv items], c))"
    using ticks_dedup [of lib ts c] by (auto simp: calm_result_def split: prod.split)
qed

lemma calm_candles: "calm decodeCandles"
  unfolding calm_def decodeCandles_def by (intro allI calm_parsed) (simp add: calm_result_def)

lemmas calm_decoder = calm_simple calm_stop calm_tick calm_client_new calm_client_asset calm_orders calm_upload calm_candles

lemma calm_decoders:
  assumes "decoders lib tag = Some d" "tag \<noteq> TagAllTrade" shows "calm d"
  using map_of_SomeD [OF assms(1) [unfolded decoders_def]] assms(2) by (auto simp: calm_decoder)


subsection \<open>The numbers of the delivered trades\<close>

text \<open>The trades of one symbol among the events, and what the filter knows of the symbol.\<close>

definition named :: "Symbol \<Rightarrow> bool" where
  "named sm \<longleftrightarrow> Symbol_Board sm \<noteq> [] \<and> Symbol_SecCode sm \<noteq> []"

fun trade_number :: "Symbol \<Rightarrow> Event \<Rightarrow> i64 option" where
  "trade_number sm (TradeEv t) =
     (if Trade_Board t = Symbol_Board sm \<and> Trade_SecCode t = Symbol_SecCode sm then Some (Trade_TradeNo t) else None)"
| "trade_number sm e = None"

definition trade_numbers :: "Symbol \<Rightarrow> Event list \<Rightarrow> i64 list" where
  "trade_numbers sm evs = List.map_filter (trade_number sm) evs"

lemma trade_numbers_append [simp]: "trade_numbers sm (xs @ ys) = trade_numbers sm xs @ trade_numbers sm ys"
  by (simp add: trade_numbers_def List.map_filter_def)

lemma trade_numbers_simps [simp]: "trade_numbers sm [] = []"
  "trade_numbers sm (e # evs) = (case trade_number sm e of None \<Rightarrow> trade_numbers sm evs | Some n \<Rightarrow> n # trade_numbers sm evs)"
  by (simp_all add: trade_numbers_def List.map_filter_simps split: option.split)

lemma plain_number: "plain_event e \<Longrightarrow> trade_number sm e = None"
  by (cases e) (simp_all add: plain_event_def is_trade_def)

lemma plain_numbers: "\<forall>e \<in> set evs. plain_event e \<Longrightarrow> trade_numbers sm evs = []"
  by (induction evs) (simp_all add: plain_number)

definition increasing :: "i64 list \<Rightarrow> bool" where
  "increasing ns \<longleftrightarrow> sorted_wrt (\<lambda>a b. sint a < sint b) ns"

definition filtered :: "Symbol \<Rightarrow> Event list \<Rightarrow> Client \<Rightarrow> bool" where
  "filtered sm evs c \<longleftrightarrow> increasing (trade_numbers sm evs)
     \<and> (\<forall>n \<in> set (trade_numbers sm evs). \<exists>p. Dedup_last (Cl_dedup c) sm = Some p \<and> sint n \<le> sint p)"

lemma filtered_same: "filtered sm evs c \<Longrightarrow> Cl_dedup c' = Cl_dedup c \<Longrightarrow> trade_numbers sm evs' = [] \<Longrightarrow> filtered sm (evs @ evs') c'"
  by (simp add: filtered_def)

lemma symbol_named:
  assumes "Cl_catalog c = Some cat" "named sm" "trade_number sm (TradeEv (Catalog_Trade cat raw bias)) = Some n"
  shows "symbolOf raw c = Some sm \<and> n = AllTrade_TradeNo raw"
  using assms
  by (auto simp: named_def symbolOf_def catalog_security_def catalog_board_def Security_def Catalog_Board_def Catalog_Trade_def Let_def
      split: if_splits option.splits)

lemma filtered_alltrade:
  assumes f: "filtered sm evs c" "named sm" and d: "decodeAllTrade lib body c = (res, c')"
  shows "filtered sm (evs @ (case res of Inr evs' \<Rightarrow> evs' | Inl _ \<Rightarrow> [])) c'"
proof (cases "ParseAllTrade (lib_win lib) body")
  case (Inr raw)
  define step where "step = (case symbolOf raw c of Some s \<Rightarrow> FreshSymbol raw s (Cl_dedup c) | None \<Rightarrow> Fresh raw (Cl_dedup c))"
  obtain fresh dd where st: "step = (fresh, dd)" by fastforce
  have c': "Cl_dedup c' = dd" "res = Inr (if fresh then (case Cl_catalog c of Some cat \<Rightarrow> [TradeEv (Catalog_Trade cat raw (Cl_bias c))] | None \<Rightarrow> []) else [])"
    using d st by (auto simp: decodeAllTrade_def parsed_def Inr step_def [symmetric] Let_def split: if_splits option.split)
  show ?thesis
  proof (cases "symbolOf raw c = Some sm")
    case True
    then have fs: "FreshSymbol raw sm (Cl_dedup c) = (fresh, dd)" using st by (simp add: step_def)
    have old: "fresh \<Longrightarrow> Dedup_last dd sm = Some (AllTrade_TradeNo raw)"
      "\<not> fresh \<Longrightarrow> dd = Cl_dedup c"
      "fresh \<Longrightarrow> Dedup_last (Cl_dedup c) sm = Some p \<Longrightarrow> sint p < sint (AllTrade_TradeNo raw)" for p
      using fs by (auto simp: FreshSymbol_def split: option.splits if_splits)
    obtain cat where cat: "Cl_catalog c = Some cat" using True
      by (cases "Cl_catalog c") (simp_all add: symbolOf_def catalog_security_def)
    show ?thesis
    proof (cases fresh)
      case True
      have "trade_number sm (TradeEv (Catalog_Trade cat raw (Cl_bias c))) = Some (AllTrade_TradeNo raw)"
        using \<open>symbolOf raw c = Some sm\<close> cat
        by (auto simp: symbolOf_def catalog_security_def catalog_board_def Security_def Catalog_Board_def Catalog_Trade_def Let_def
            split: option.splits)
      with f(1) old(1) [OF True] old(3) [OF True] True show ?thesis
        by (auto simp: c' cat filtered_def increasing_def sorted_wrt_append simp del: trade_number.simps)
    qed (use f(1) old(2) in \<open>simp add: c' filtered_def\<close>)
  next
    case False
    have "trade_number sm (TradeEv (Catalog_Trade cat raw (Cl_bias c))) = None" if "Cl_catalog c = Some cat" for cat
    proof (rule ccontr)
      assume "\<not> ?thesis"
      then obtain n where "trade_number sm (TradeEv (Catalog_Trade cat raw (Cl_bias c))) = Some n" by blast
      from symbol_named [OF that f(2) this] False show False by blast
    qed
    moreover have "Dedup_last dd sm = Dedup_last (Cl_dedup c) sm"
      using st False by (auto simp: step_def FreshSymbol_def Fresh_def Let_def split: option.splits if_splits)
    ultimately show ?thesis using f(1)
      by (auto simp: c' filtered_def simp del: trade_number.simps split: option.split)
  qed
qed (use f d in \<open>auto simp: decodeAllTrade_def parsed_def\<close>)

lemma mutate_dedup: "mutate_catalog lib r c = (e, c') \<Longrightarrow> Cl_dedup c' = Cl_dedup c"
  by (auto simp: mutate_catalog_def split: option.splits prod.splits sum.splits)

definition status_free :: "Event list \<Rightarrow> bool" where
  "status_free evs \<longleftrightarrow> (\<forall>e \<in> set evs. \<not> is_status e)"

lemma decoder_alltrade [simp]: "decoders lib TagAllTrade = Some (decodeAllTrade lib)"
  by (simp add: decoders_def client_tag_defs tag_defs)

lemma apply_record_trades:
  assumes "apply_record lib r c = (res, c')" "filtered sm evs c" "named sm"
  shows "filtered sm (evs @ (case res of Inr evs' \<Rightarrow> evs' | Inl _ \<Rightarrow> [])) c'"
proof -
  obtain e d where m: "mutate_catalog lib r c = (e, d)" by fastforce
  have f: "filtered sm evs d" using filtered_same [OF assms(2) mutate_dedup [OF m], of "[]"] by simp
  show ?thesis
  proof (cases e)
    case None
    show ?thesis
    proof (cases "decoders lib (Record_Tag r)")
      case (Some dec)
      then have dec: "dec (Record_Body r) d = (res, c')" using assms(1) None by (simp add: apply_record_def m)
      show ?thesis
      proof (cases "Record_Tag r = TagAllTrade")
        case True
        with Some dec show ?thesis using filtered_alltrade [OF f assms(3), of lib "Record_Body r" res c'] by simp
      next
        case False
        from calm_decoders [OF Some False] have "calm_result d (res, c')" unfolding calm_def dec [symmetric] by blast
        then show ?thesis using f by (cases res) (auto simp: calm_result_def filtered_def plain_numbers)
      qed
    qed (use assms None f in \<open>auto simp: apply_record_def m\<close>)
  qed (use assms f in \<open>auto simp: apply_record_def m\<close>)
qed

lemma apply_records_trades:
  assumes "apply_records lib rs c = (evs', e, c')" "filtered sm evs c" "named sm"
  shows "filtered sm (evs @ evs') c'"
  using assms(1,2)
proof (induction rs arbitrary: c evs evs')
  case (Cons r rs)
  obtain res d where r: "apply_record lib r c = (res, d)" by fastforce
  note step = apply_record_trades [OF r Cons.prems(2) assms(3)]
  show ?case
  proof (cases res)
    case (Inr evs1)
    obtain evs2 e2 c2 where rs: "apply_records lib rs d = (evs2, e2, c2)" by (metis prod_cases3)
    from Cons.IH [OF _ step] rs Cons.prems(1) Inr r show ?thesis by (auto simp: rs)
  qed (use step Cons.prems(1) r in auto)
qed simp


lemma batch_trades: "trade_numbers sm (batch_messages events) = trade_numbers sm events"
proof -
  have kept: "trade_numbers sm (filter not_message evs) = trade_numbers sm evs" for evs
  proof (induction evs)
    case (Cons e evs)
    then show ?case by (cases e) (simp_all add: not_message_def)
  qed simp
  have "trade_numbers sm (takeWhile not_message events) @ trade_numbers sm (dropWhile not_message events) = trade_numbers sm events"
    by (simp flip: trade_numbers_append)
  then show ?thesis by (simp add: batch_messages_def Let_def kept)
qed

lemma count_poll_dedup [simp]: "Cl_dedup (count_poll e c) = Cl_dedup c"
  by (simp add: count_poll_def Let_def)

lemma filtered_dedup: "filtered sm evs c \<Longrightarrow> Cl_dedup c' = Cl_dedup c \<Longrightarrow> filtered sm evs c'"
  by (simp add: filtered_def)

lemma filtered_weaken: "filtered sm (evs @ evs') c \<Longrightarrow> filtered sm evs c"
  by (auto simp: filtered_def increasing_def sorted_wrt_append)

lemma poll_reply_trades:
  assumes "poll_reply lib reply c = ((evs', more', e), c')" "filtered sm evs c" "named sm"
  shows "filtered sm (evs @ evs') c'"
proof -
  obtain recs se where r: "Records (lib_zlen lib) (MainReply_Payload reply) = (recs, se)" by fastforce
  obtain evs1 e1 c1 where a: "apply_records lib recs (count_poll se c) = (evs1, e1, c1)" by (metis prod_cases3)
  have f: "filtered sm (evs @ evs1) c1"
    by (rule apply_records_trades [OF a _ assms(3)]) (use assms(2) in \<open>simp add: filtered_def\<close>)
  show ?thesis
  proof (cases "case se of None \<Rightarrow> False | Some e \<Rightarrow> \<not> is_unknown e")
    case True
    then show ?thesis using assms(1,2) by (auto simp: poll_reply_def r Let_def filtered_def)
  next
    case False
    then have "trade_numbers sm evs' = trade_numbers sm evs1 \<and> c' = c1"
      using assms(1) by (auto simp: poll_reply_def r a Let_def batch_trades split: option.splits)
    with f show ?thesis by (simp add: filtered_def)
  qed
qed

lemma on_conn_effect: "on_conn gone f c net = (a, c', net') \<Longrightarrow> \<exists>k. c' = c\<lparr>Cl_conn := k\<rparr>"
  by (auto simp: on_conn_def split: option.splits prod.splits) (metis Client.surjective Client.update_convs(2))

lemma Poll_trades:
  assumes "Poll lib env c net = ((evs', more', e), c', net')" "filtered sm evs c" "named sm"
  shows "filtered sm (evs @ evs') c'"
proof -
  obtain res d net1 where m: "on_conn (Inl (Low nilPointer)) (Conn_Main env) c net = (res, d, net1)" by (metis prod_cases3)
  obtain k where d: "d = c\<lparr>Cl_conn := k\<rparr>" using on_conn_effect [OF m] by blast
  have f: "filtered sm evs d" by (rule filtered_dedup [OF assms(2)]) (simp add: d)
  show ?thesis
  proof (cases res)
    case (Inr reply)
    obtain r c2 where p: "poll_reply lib reply d = (r, c2)" by fastforce
    obtain evs1 m1 e1 where "r = (evs1, m1, e1)" by (metis prod_cases3)
    with p assms(1) m Inr have "poll_reply lib reply d = ((evs', more', e), c')" by (simp add: Poll_def)
    from poll_reply_trades [OF this f assms(3)] show ?thesis .
  qed (use assms(1) m f in \<open>auto simp: Poll_def\<close>)
qed

subsection \<open>Status events\<close>

lemma apply_record_status:
  assumes "apply_record lib r c = (Inr evs, c')" shows "status_free evs"
proof -
  obtain e d where m: "mutate_catalog lib r c = (e, d)" by fastforce
  show ?thesis
  proof (cases "decoders lib (Record_Tag r)")
    case (Some dec)
    then have dec: "dec (Record_Body r) d = (Inr evs, c')" using assms by (auto simp: apply_record_def m split: option.splits)
    show ?thesis
    proof (cases "Record_Tag r = TagAllTrade")
      case True
      with Some dec have "decodeAllTrade lib (Record_Body r) d = (Inr evs, c')" by simp
      then show ?thesis
        by (auto simp: decodeAllTrade_def parsed_def status_free_def Let_def split: sum.splits prod.splits if_splits option.splits)
    next
      case False
      from calm_decoders [OF Some False] have "calm_result d (Inr evs, c')" unfolding calm_def dec [symmetric] by blast
      then show ?thesis by (auto simp: calm_result_def status_free_def plain_event_def)
    qed
  qed (use assms in \<open>auto simp: apply_record_def m status_free_def split: option.splits\<close>)
qed

lemma apply_records_status:
  assumes "apply_records lib rs c = (evs, e, c')" shows "status_free evs"
  using assms
proof (induction rs arbitrary: c evs e c')
  case (Cons r rs)
  obtain res d where r: "apply_record lib r c = (res, d)" by fastforce
  show ?case
  proof (cases res)
    case (Inr evs1)
    obtain evs2 e2 c2 where rs: "apply_records lib rs d = (evs2, e2, c2)" by (metis prod_cases3)
    from Cons.IH [OF this] apply_record_status Cons.prems r Inr rs show ?thesis by (fastforce simp: status_free_def)
  qed (use Cons.prems r in \<open>auto simp: status_free_def\<close>)
qed (simp add: status_free_def)

lemma batch_status: "status_free evs \<Longrightarrow> status_free (batch_messages evs)"
  by (auto simp: status_free_def batch_messages_def Let_def dest: set_takeWhileD set_dropWhileD)

lemma Poll_status:
  assumes "Poll lib env c net = ((evs, more', e), c', net')" shows "status_free evs"
proof -
  obtain res d net1 where m: "on_conn (Inl (Low nilPointer)) (Conn_Main env) c net = (res, d, net1)" by (metis prod_cases3)
  show ?thesis
  proof (cases res)
    case (Inr reply)
    obtain r c2 where p: "poll_reply lib reply d = (r, c2)" by fastforce
    obtain evs1 m1 e1 where "r = (evs1, m1, e1)" by (metis prod_cases3)
    with p assms m Inr have p: "poll_reply lib reply d = ((evs, more', e), c')" by (simp add: Poll_def)
    obtain recs se where r: "Records (lib_zlen lib) (MainReply_Payload reply) = (recs, se)" by fastforce
    obtain evs1 e1 c1 where a: "apply_records lib recs (count_poll se d) = (evs1, e1, c1)" by (metis prod_cases3)
    note f = apply_records_status [OF a]
    have "evs = [] \<or> evs = evs1 \<or> (\<exists>u. evs = batch_messages evs1 @ u \<and> status_free u)"
      using p by (cases e1; simp add: poll_reply_def r a Let_def split: if_splits)
        (force simp: status_free_def split: option.splits)+
    with f batch_status [OF f] show ?thesis by (auto simp: status_free_def)
  qed (use assms m in \<open>auto simp: Poll_def status_free_def\<close>)
qed

end
