(* ===== verification/Run_Loop.thy ===== *)
theory Run_Loop
  imports Delivered_Events
begin

text \<open>
  The events of \<open>Run\<close> (\<open>native/client.go\<close>) as a report on the state of the link.
\<close>

subsection \<open>The state of the link\<close>

text \<open>
  What a user of \<open>Run\<close> may conclude from the events: the link is up, a recovery is on its way, or the
  connection is lost for good. \<open>link_step\<close> accepts an event in a state, or does not.
\<close>

datatype link = Up | Recovering | Down

fun link_step :: "Event \<Rightarrow> link \<Rightarrow> link option" where
  "link_step (StatusEv connected recovering e) l =
     (if l = Up \<and> connected \<and> recovering \<and> e = None then Some Recovering
      else if l = Recovering \<and> connected \<and> \<not> recovering \<and> e = None then Some Up
      else if l = Recovering \<and> \<not> connected \<and> \<not> recovering \<and> e \<noteq> None then Some Down
      else None)"
| "link_step ev l = (if l = Up then Some Up else None)"

primrec link_run :: "Event list \<Rightarrow> link \<Rightarrow> link option" where
  "link_run [] l = Some l"
| "link_run (ev # evs) l = (case link_step ev l of None \<Rightarrow> None | Some l \<Rightarrow> link_run evs l)"

lemma link_run_append: "link_run (xs @ ys) l = (case link_run xs l of None \<Rightarrow> None | Some l \<Rightarrow> link_run ys l)"
  by (induction xs arbitrary: l) (simp_all split: option.split)

lemma link_data: "status_free evs \<Longrightarrow> link_run evs Up = Some Up"
proof (induction evs)
  case (Cons e evs)
  then show ?case by (cases e) (simp_all add: status_free_def)
qed simp

text \<open>The link as \<open>Run\<close> leaves it: it polls only while the link is up.\<close>

definition left :: "link \<Rightarrow> Next \<Rightarrow> bool" where
  "left l nxt \<longleftrightarrow> (l \<noteq> Up \<longrightarrow> (\<exists>e. nxt = Stop e))"

lemma run_recovery_link:
  assumes "run_recovery e c net = (bs, nxt, c', net')"
  shows "\<exists>l. link_run (concat bs) Up = Some l \<and> left l nxt"
proof (cases "R_handler e")
  case None
  obtain res d made where r: "recover (R_attempts e) (R_now e) c = (res, d, made)" by (metis prod_cases3)
  show ?thesis
    using assms
    by (auto simp: run_recovery_def None r left_def Let_def split: option.splits Recovered.splits)
qed (use assms in \<open>auto simp: run_recovery_def left_def\<close>)

lemma run_poll_link:
  assumes "run_poll lib e c net = (bs, nxt, c', net')"
  shows "\<exists>l. link_run (concat bs) Up = Some l \<and> left l nxt"
proof -
  obtain r d net1 where p: "Poll lib (R_poll e) c net = (r, d, net1)" by (metis prod_cases3)
  obtain evs more' err' where r: "r = (evs, more', err')" by (metis prod_cases3)
  have free: "status_free evs" using Poll_status p r by blast
  show ?thesis
  proof (cases "Cl_fatal d")
    case f: None
    show ?thesis
    proof (cases err')
      case None
      with assms link_data [OF free] show ?thesis by (auto simp: run_poll_def p r f left_def split: option.splits)
    next
      case (Some perr)
      show ?thesis
      proof (cases "R_ctx e = None \<and> isTransportError perr")
        case True
        with assms have "run_recovery e d net1 = (bs, nxt, c', net')" by (simp add: run_poll_def p r f Some)
        then show ?thesis by (rule run_recovery_link)
      qed (use assms in \<open>auto simp: run_poll_def p r f Some left_def split: option.splits if_splits\<close>)
    qed
  qed (use assms in \<open>auto simp: run_poll_def p r left_def\<close>)
qed

lemma runs_link:
  assumes "runs lib envs waits c0 net0 i nxt batches c net"
  shows "\<exists>l. link_run (concat batches) Up = Some l \<and> left l nxt"
  using assms
proof induction
  case (after_pause i batches c net bs nxt c' net')
  then have "link_run (concat batches) Up = Some Up" by (auto simp: left_def)
  with run_poll_link [OF after_pause.hyps(4)] show ?case by (simp add: link_run_append)
next
  case (again i batches c net bs nxt c' net')
  then have "link_run (concat batches) Up = Some Up" by (auto simp: left_def)
  with run_poll_link [OF again.hyps(2)] show ?case by (simp add: link_run_append)
qed (auto simp: left_def)

text \<open>
  C29: the events of \<open>Run\<close> tell the state of the link: whatever the server, the network, the contexts
  and the handler do, a loss is reported before its recovery, and after the loss nothing is handed
  over until either the recovery is reported or, as the last event of all, that the connection is
  lost; so data is only delivered while the link is up, and a link that is not up means that \<open>Run\<close>
  has returned.
\<close>

theorem Run_link:
  assumes "runs lib envs waits c0 net0 i nxt batches c net"
  shows "link_run (concat batches) Up \<noteq> None \<and>
    ((\<forall>e. nxt \<noteq> Stop e) \<longrightarrow> link_run (concat batches) Up = Some Up)"
  using runs_link [OF assms] by (auto simp: left_def)

definition lost_env :: RunEnv where
  "lost_env = \<lparr>R_poll = example_env\<lparr>E_deadline := Some NetErr\<rparr>, R_ctx = None, R_ctx2 = None, R_attempts = silence, R_now = 0,
     R_handler = None, R_handler2 = None\<rparr>"

lemma example_lost:
  "\<exists>net. runs example_lib (\<lambda>_. lost_env) (\<lambda>_. None) example_client \<lparr>N_in = [], N_out = []\<rparr> 1
     (Stop (SWrap ''dial'' NetErr)) [[StatusEv True True None], [StatusEv False False (Some (SWrap ''dial'' NetErr))]] example_client net"
proof -
  let ?net = "\<lparr>N_in = [], N_out = []\<rparr> :: Net"
  have c: "Cl_conn example_client = Some (SetRequestTimeout 0 example_conn) \<or> Cl_conn example_client = Some example_conn"
    "Cl_fatal example_client = None"
    by (simp_all add: example_client_def newClient_def resetAccounts_def)
  then obtain k where k: "Cl_conn example_client = Some k" "C_open k"
    by (auto simp: SetRequestTimeout_def example_conn_def)
  have p: "Poll example_lib (R_poll lost_env) example_client ?net = (([], False, Some (SWrap ''RQ_MAIN'' NetErr)), example_client, ?net)"
    by (simp add: Poll_def on_conn_def k Conn_Main_def exchange_def lost_env_def same_conn)
  have "run_poll example_lib lost_env example_client ?net =
      ([[StatusEv True True None], [StatusEv False False (Some (SWrap ''dial'' NetErr))]], Stop (SWrap ''dial'' NetErr), example_client, ?net)"
    by (simp add: run_poll_def p c) (simp add: run_recovery_def lost_env_def example_recover)
  from runs.after_pause [OF runs.begin_run _ c(2) this, of "\<lambda>_. None"] show ?thesis by auto
qed

theorem Run_link_witness:
  "\<exists>batches. link_run (concat batches) Up \<noteq> None \<and> batches \<noteq> []"
proof -
  obtain net where r: "runs example_lib (\<lambda>_. lost_env) (\<lambda>_. None) example_client \<lparr>N_in = [], N_out = []\<rparr> 1
     (Stop (SWrap ''dial'' NetErr)) [[StatusEv True True None], [StatusEv False False (Some (SWrap ''dial'' NetErr))]] example_client net"
    using example_lost by blast
  from Run_link [OF r] show ?thesis by blast
qed

end
