(* ===== verification/Client_Operations.thy ===== *)
theory Client_Operations
  imports Delivered_Events
begin

text \<open>
  A client under any sequence of its operations: what requests leave alone, the invariant of the stores
  across loads, polls, commands, history requests, recoveries and new logins, and the trades delivered.
\<close>

subsection \<open>Requests\<close>

text \<open>
  The operations that send a request and read its reply: they move the connection, the
  subscriptions, the specifications, the password and the like, but none of the stores.
\<close>

definition same_stores :: "Client \<Rightarrow> Client \<Rightarrow> bool" where
  "same_stores c c' \<longleftrightarrow> Cl_accounts c' = Cl_accounts c \<and> Cl_accountOrder c' = Cl_accountOrder c \<and> Cl_made c' = Cl_made c
     \<and> Cl_positions c' = Cl_positions c \<and> Cl_positionOrder c' = Cl_positionOrder c
     \<and> Cl_secPositions c' = Cl_secPositions c \<and> Cl_secPositionOrder c' = Cl_secPositionOrder c
     \<and> Cl_orders c' = Cl_orders c \<and> Cl_orderOrder c' = Cl_orderOrder c \<and> Cl_pendingOrders c' = Cl_pendingOrders c
     \<and> Cl_news c' = Cl_news c \<and> Cl_newsOrder c' = Cl_newsOrder c \<and> Cl_newsBodies c' = Cl_newsBodies c
     \<and> Cl_history c' = Cl_history c \<and> Cl_results c' = Cl_results c \<and> Cl_catalog c' = Cl_catalog c
     \<and> Cl_dedup c' = Cl_dedup c"

lemma same_stores_refl [simp]: "same_stores c c"
  by (simp add: same_stores_def)

lemma same_stores_trans: "same_stores a b \<Longrightarrow> same_stores b c \<Longrightarrow> same_stores a c"
  by (simp add: same_stores_def)

lemma same_stores_updates [simp]:
  "same_stores c (c\<lparr>Cl_conn := k\<rparr>)" "same_stores c (c\<lparr>Cl_subs := s\<rparr>)" "same_stores c (c\<lparr>Cl_secSpecs := sp\<rparr>)"
  "same_stores c (c\<lparr>Cl_newsBodyRequest := n\<rparr>)" "same_stores c (c\<lparr>Cl_cfg := cfg\<rparr>)" "same_stores c (c\<lparr>Cl_fatal := f\<rparr>)"
  by (simp_all add: same_stores_def)

lemma same_stores_ok: "same_stores c c' \<Longrightarrow> client_ok c \<Longrightarrow> client_ok c'"
  by (simp add: same_stores_def client_ok_def store_oks)

lemma on_conn_stores: "on_conn gone f c net = (a, c', net') \<Longrightarrow> same_stores c c'"
  using on_conn_effect by fastforce

text \<open>An operation that keeps the stores whatever it returns.\<close>

definition harmless :: "(Client \<Rightarrow> Net \<Rightarrow> 'a \<times> Client \<times> Net) \<Rightarrow> bool" where
  "harmless f \<longleftrightarrow> (\<forall>c net. same_stores c (fst (snd (f c net))))"

lemma harmlessD: "harmless f \<Longrightarrow> f c net = (a, c', net') \<Longrightarrow> same_stores c c'"
  unfolding harmless_def by (metis fst_conv snd_conv)

lemma harmless_on_conn: "harmless (on_conn gone f)"
  unfolding harmless_def by (metis on_conn_stores prod.collapse)

lemma harmless_refuse: "harmless (refuse e)"
  by (simp add: harmless_def refuse_def)

lemma harmless_transact: "harmless (transact env local loaded kind body)"
  unfolding transact_def by (rule harmless_on_conn)

lemma stores_on_conn [simp]: "same_stores c (fst (snd (on_conn gone f c net)))"
  by (rule harmless_on_conn [unfolded harmless_def, rule_format])

lemma stores_refuse [simp]: "same_stores c (fst (snd (refuse e c net)))"
  by (rule harmless_refuse [unfolded harmless_def, rule_format])

lemma stores_transact [simp]: "same_stores c (fst (snd (transact env local loaded kind body c net)))"
  by (rule harmless_transact [unfolded harmless_def, rule_format])

lemma harmless_orders:
  "harmless (Client_NewOrder env local loaded req)" "harmless (Client_CancelOrder env local loaded tid)"
  "harmless (Client_MoveOrder env local loaded mreq)" "harmless (MakeOrdOwn env tid)"
  "harmless (Client_CancelStopOrder env local loaded tid)" "harmless (Client_NewStopOrder env local loaded sreq)"
  "harmless (Client_NewCondOrder env local loaded creq)" "harmless (Client_NewRPSOrder env local loaded rreq)"
  "harmless (Client_NewRepoOrder env local loaded preq)" "harmless (Client_CancelNegDeal env local loaded tid)"
  "harmless (Client_CancelReport4 env local loaded rid)"
  by (simp_all add: harmless_def Client_NewOrder_def Client_CancelOrder_def Client_MoveOrder_def MakeOrdOwn_def
      Client_CancelStopOrder_def Client_NewStopOrder_def Client_NewCondOrder_def Client_NewRPSOrder_def
      Client_NewRepoOrder_def Client_CancelNegDeal_def Client_CancelReport4_def cancelRPS_def Let_def
      split: sum.split option.split prod.split)

text \<open>A request followed by a step on its result.\<close>

lemma harmless_then:
  assumes "harmless f" "\<And>a c net. same_stores c (fst (snd (g a c net)))"
  shows "same_stores c (fst (snd (case f c net of (a, c, net) \<Rightarrow> g a c net)))"
proof -
  obtain a d net' where f: "f c net = (a, d, net')" by (metis prod_cases3)
  from same_stores_trans [OF harmlessD [OF assms(1) f] assms(2)] show ?thesis by (simp add: f)
qed


lemma stores_loadSecSpecs: "loadSecSpecs lib env ids c net = (e, c', net') \<Longrightarrow> same_stores c c'"
proof (cases "ids = []")
  case False
  assume l: "loadSecSpecs lib env ids c net = (e, c', net')"
  obtain r d n where o': "on_conn (Inl notConnected) (Conn_SecSpec env ids) c net = (r, d, n)" by (metis prod_cases3)
  have "same_stores d c'" using l False by (auto simp: loadSecSpecs_def o' split: sum.splits)
  with on_conn_stores [OF o'] show ?thesis by (rule same_stores_trans)
qed (simp add: loadSecSpecs_def)

lemma stores_changeSubscription:
  assumes "changeSubscription lib env env' visit sub on c net = (e, c', net')"
  shows "same_stores c c'"
proof (cases "Cl_recovering c \<or> Cl_conn c = None \<or> Cl_catalog c = None")
  case True
  then show ?thesis using assms by (auto simp: changeSubscription_def Let_def split: option.splits if_splits)
next
  case False
  then obtain k cat where kc: "Cl_conn c = Some k" "Cl_catalog c = Some cat" "\<not> Cl_recovering c" by auto
  define nx where "nx = next_masks on (Cl_subs c) sub"
  show ?thesis
  proof (cases "subscribe_items cat on nx visit")
    case (Inr p)
    obtain items ids where p: "p = (items, ids)" by fastforce
    obtain r d n where o': "on_conn (Inl notConnected) (Conn_Subscribe env (sort_items items)) c net = (r, d, n)" by (metis prod_cases3)
    obtain e2 c2 n2 where l: "loadSecSpecs lib env' (rev ids) (d\<lparr>Cl_subs := store_masks nx (Cl_subs d)\<rparr>) n = (e2, c2, n2)"
      by (metis prod_cases3)
    have d: "same_stores c d" by (rule on_conn_stores [OF o'])
    have "same_stores d c2" using same_stores_trans [OF same_stores_updates(2) stores_loadSecSpecs [OF l]] .
    then have "same_stores d c'" using assms
      by (auto simp: changeSubscription_def Let_def nx_def [symmetric] kc Inr p o' l split: sum.splits if_splits)
    with d show ?thesis by (rule same_stores_trans)
  qed (use assms kc in \<open>simp add: changeSubscription_def Let_def nx_def [symmetric]\<close>)
qed

lemma stores_resubscribe:
  assumes "resubscribe lib env env' visit c net = (e, c', net')" shows "same_stores c c'"
proof (cases "Cl_catalog c")
  case (Some cat)
  obtain items ids where i: "resubscribe_items cat (Cl_subs c) visit = (items, ids)" by fastforce
  show ?thesis
  proof (cases "items = []")
    case False
    obtain r d n where o': "on_conn (Inl notConnected) (Conn_Subscribe env (sort_items items)) c net = (r, d, n)" by (metis prod_cases3)
    obtain e2 c2 n2 where l: "loadSecSpecs lib env' (rev ids) d n = (e2, c2, n2)" by (metis prod_cases3)
    have "same_stores d c'" using assms False stores_loadSecSpecs [OF l]
      by (auto simp: resubscribe_def Some i o' l split: sum.splits)
    with on_conn_stores [OF o'] show ?thesis by (rule same_stores_trans)
  qed (use assms in \<open>simp add: resubscribe_def Some i\<close>)
qed (use assms in \<open>simp add: resubscribe_def\<close>)

lemma stores_ifE: "(case x of None \<Rightarrow> (a, c, n) | Some y \<Rightarrow> (b y, c, n)) = (case x of None \<Rightarrow> a | Some y \<Rightarrow> b y, c, n)"
  by (simp split: option.split)

lemma harmless_queries:
  "harmless (Client_SubscribeTicks env filt reqs)" "harmless (Client_PollTicks env filt reqs)"
  "harmless (OldNews env n)" "harmless (NewsBody env nid)" "harmless (Client_OptionFamilies env sm)"
  "harmless (Client_FamilyStrikes env sm days)" "harmless (Client_Options env codes)"
  "harmless (GetFortsPositions env client)" "harmless (Client_ClientLimits env client)"
  unfolding harmless_def Client_SubscribeTicks_def Client_PollTicks_def OldNews_def NewsBody_def Client_OptionFamilies_def
    Client_FamilyStrikes_def Client_Options_def GetFortsPositions_def Client_ClientLimits_def
  by (auto simp: Let_def split: prod.split sum.split option.split dest!: on_conn_stores
      intro: same_stores_trans [OF _ same_stores_updates(4)])

lemma harmless_ChangePassword: "harmless (Client_ChangePassword sha1 env cenv old new)"
  unfolding harmless_def Client_ChangePassword_def
  by (auto simp: markFatal_def split: prod.split sum.split option.split dest!: on_conn_stores
      intro: same_stores_trans) (auto simp: same_stores_def)


text \<open>Every operation of the client that is a request.\<close>

inductive request :: "Lib \<Rightarrow> (bytes \<Rightarrow> bytes) \<Rightarrow> Client \<Rightarrow> Client \<Rightarrow> bool" for lib sha1 where
  "Client_NewOrder env local loaded req c net = (i, c', net') \<Longrightarrow> request lib sha1 c c'"
| "Client_CancelOrder env local loaded tid c net = (i, c', net') \<Longrightarrow> request lib sha1 c c'"
| "Client_MoveOrder env local loaded mreq c net = (i, c', net') \<Longrightarrow> request lib sha1 c c'"
| "MakeOrdOwn env tid c net = (e, c', net') \<Longrightarrow> request lib sha1 c c'"
| "Client_NewStopOrder env local loaded sreq c net = (i, c', net') \<Longrightarrow> request lib sha1 c c'"
| "Client_CancelStopOrder env local loaded tid c net = (i, c', net') \<Longrightarrow> request lib sha1 c c'"
| "Client_NewCondOrder env local loaded creq c net = (i, c', net') \<Longrightarrow> request lib sha1 c c'"
| "Client_NewRPSOrder env local loaded rreq c net = (i, c', net') \<Longrightarrow> request lib sha1 c c'"
| "Client_NewRepoOrder env local loaded preq c net = (i, c', net') \<Longrightarrow> request lib sha1 c c'"
| "Client_CancelNegDeal env local loaded tid c net = (i, c', net') \<Longrightarrow> request lib sha1 c c'"
| "Client_CancelReport4 env local loaded rid c net = (i, c', net') \<Longrightarrow> request lib sha1 c c'"
| "changeSubscription lib env env' visit sub on c net = (e, c', net') \<Longrightarrow> request lib sha1 c c'"
| "Client_SubscribeTicks env filt reqs c net = (e, c', net') \<Longrightarrow> request lib sha1 c c'"
| "Client_PollTicks env filt reqs c net = (ticks, c', net') \<Longrightarrow> request lib sha1 c c'"
| "OldNews env n c net = (e, c', net') \<Longrightarrow> request lib sha1 c c'"
| "NewsBody env nid c net = (e, c', net') \<Longrightarrow> request lib sha1 c c'"
| "Client_OptionFamilies env sm c net = (fams, c', net') \<Longrightarrow> request lib sha1 c c'"
| "Client_FamilyStrikes env sm days c net = (e, c', net') \<Longrightarrow> request lib sha1 c c'"
| "Client_Options env codes c net = (e, c', net') \<Longrightarrow> request lib sha1 c c'"
| "GetFortsPositions env client c net = (forts, c', net') \<Longrightarrow> request lib sha1 c c'"
| "Client_ClientLimits env client c net = (limits, c', net') \<Longrightarrow> request lib sha1 c c'"
| "Client_ChangePassword sha1 env cenv old new c net = (e, c', net') \<Longrightarrow> request lib sha1 c c'"

lemma request_stores: "request lib sha1 c c' \<Longrightarrow> same_stores c c'"
  by (induction rule: request.induct)
    (blast intro: harmlessD harmless_orders harmless_queries harmless_ChangePassword stores_changeSubscription)+

subsection \<open>A client and its operations\<close>

text \<open>
  \<open>client_run lib sha1 n evs c\<close>: \<open>c\<close> is a client after some operations, \<open>evs\<close> what it has handed over so
  far, and the channels of its history requests are the numbers below \<open>n\<close>. It starts as any consistent
  client without history requests, such as the one \<open>Dial\<close> makes (\<open>logged_in\<close>).
\<close>

definition loaded_events :: "Callback list \<Rightarrow> Event list" where
  "loaded_events calls = concat (map (\<lambda>call. case call of OnLoadEvent evs \<Rightarrow> evs | _ \<Rightarrow> []) calls)"

inductive client_run :: "Lib \<Rightarrow> (bytes \<Rightarrow> bytes) \<Rightarrow> nat \<Rightarrow> Event list \<Rightarrow> Client \<Rightarrow> bool" for lib sha1 where
  started: "client_ok c \<Longrightarrow> Cl_history c = Map.empty \<Longrightarrow> Cl_results c = Map.empty \<Longrightarrow> client_run lib sha1 0 [] c"
| loaded: "client_run lib sha1 n evs c \<Longrightarrow> load lib envs c net = (calls, e, c', net')
    \<Longrightarrow> client_run lib sha1 n (evs @ loaded_events calls) c'"
| polled: "client_run lib sha1 n evs c \<Longrightarrow> Poll lib env c net = ((evs', more', e), c', net')
    \<Longrightarrow> client_run lib sha1 n (evs @ evs') c'"
| requested: "client_run lib sha1 n evs c \<Longrightarrow> request lib sha1 c c' \<Longrightarrow> client_run lib sha1 n evs c'"
| history_started: "client_run lib sha1 n evs c \<Longrightarrow> startHistory env n req c net = (res, c', net')
    \<Longrightarrow> client_run lib sha1 (Suc n) evs c'"
| history_taken: "client_run lib sha1 n evs c \<Longrightarrow> takeHistory ch c = (res, c') \<Longrightarrow> client_run lib sha1 n evs c'"
| history_dropped: "client_run lib sha1 n evs c \<Longrightarrow> client_run lib sha1 n evs (dropHistory k ch c)"
| closed: "client_run lib sha1 n evs c \<Longrightarrow> Client_Close env c = (e, c') \<Longrightarrow> client_run lib sha1 n evs c'"
| recovered: "client_run lib sha1 n evs c \<Longrightarrow> shortRecover a c = (e, c', net)
    \<Longrightarrow> client_run lib sha1 n evs c'"
| reconnected: "client_run lib sha1 n evs c \<Longrightarrow> relogin lib sha1 lenv c net = (e, calls, c', net')
    \<Longrightarrow> client_run lib sha1 n (evs @ loaded_events calls) c'"

text \<open>The channels in use, and the whole invariant.\<close>

definition channels_ok :: "nat \<Rightarrow> Client \<Rightarrow> bool" where
  "channels_ok n c \<longleftrightarrow> (\<forall>k coll. Cl_history c k = Some coll \<longrightarrow> HC_ch coll < n) \<and> (\<forall>ch. Cl_results c ch \<noteq> None \<longrightarrow> ch < n)"

definition run_ok :: "nat \<Rightarrow> Event list \<Rightarrow> Client \<Rightarrow> bool" where
  "run_ok n evs c \<longleftrightarrow> client_ok c \<and> channels_ok n c \<and> (\<forall>sm. named sm \<longrightarrow> filtered sm evs c)"

lemma run_ok_stores: "run_ok n evs c \<Longrightarrow> same_stores c c' \<Longrightarrow> run_ok n evs c'"
  using same_stores_ok [of c c'] by (auto simp: run_ok_def channels_ok_def filtered_def same_stores_def)

lemma apply_record_channels:
  assumes "channels_ok n c" "apply_record lib r c = (res, c')" shows "channels_ok n c'"
proof (cases "Record_Tag r = TagCandles")
  case False
  have "same_history c c'" using quiet_record [OF False, of c lib] assms(2) by simp
  with assms(1) show ?thesis by (simp add: channels_ok_def same_history_def)
next
  case True
  show ?thesis
  proof (cases res)
    case (Inr evs)
    with apply_candle_record [OF True] assms(2) obtain p where "c' = addHistoryPart p c" by blast
    with assms(1) show ?thesis
      by (auto simp: channels_ok_def addHistoryPart_def Let_def split: option.splits if_splits)
  next
    case (Inl e)
    obtain e' d where m: "mutate_catalog lib r c = (e', d)" by fastforce
    then have "same_history c d"
      by (auto simp: mutate_catalog_def same_history_def split: option.splits prod.splits sum.splits)
    moreover have "c' = d" using assms(2) Inl True
      by (auto simp: apply_record_def m decodeCandles_def parsed_def split: option.splits sum.splits)
    ultimately show ?thesis using assms(1) by (simp add: channels_ok_def same_history_def)
  qed
qed

lemma apply_records_channels:
  assumes "channels_ok n c" "apply_records lib rs c = (evs, e, c')" shows "channels_ok n c'"
  using assms
proof (induction rs arbitrary: c evs e)
  case (Cons r rs)
  obtain res d where r: "apply_record lib r c = (res, d)" by fastforce
  note step = apply_record_channels [OF Cons.prems(1) r]
  show ?case
  proof (cases res)
    case (Inr evs1)
    obtain evs2 e2 c2 where rs: "apply_records lib rs d = (evs2, e2, c2)" by (metis prod_cases3)
    from Cons.IH [OF step] rs Cons.prems(2) Inr r show ?thesis by (auto simp: rs)
  qed (use step Cons.prems(2) r in auto)
qed simp


lemma count_poll_channels [simp]: "channels_ok n (count_poll e c) = channels_ok n c"
  by (simp add: channels_ok_def count_poll_def Let_def)

lemma poll_reply_channels:
  assumes "channels_ok n c" "poll_reply lib reply c = (res, c')" shows "channels_ok n c'"
proof -
  obtain recs se where r: "Records (lib_zlen lib) (MainReply_Payload reply) = (recs, se)" by fastforce
  obtain evs1 e1 c1 where a: "apply_records lib recs (count_poll se c) = (evs1, e1, c1)" by (metis prod_cases3)
  have "channels_ok n c1" by (rule apply_records_channels [OF _ a]) (simp add: assms(1))
  moreover have "c' = c1 \<or> c' = count_poll se c"
    using assms(2) by (cases e1) (auto simp: poll_reply_def r a Let_def split: if_splits)
  ultimately show ?thesis using assms(1) by auto
qed

lemma Poll_run_ok:
  assumes "Poll lib env c net = ((evs', more', e), c', net')" "run_ok n evs c"
  shows "run_ok n (evs @ evs') c'"
proof -
  obtain res d net1 where m: "on_conn (Inl (Low nilPointer)) (Conn_Main env) c net = (res, d, net1)" by (metis prod_cases3)
  have d: "run_ok n evs d" by (rule run_ok_stores [OF assms(2) on_conn_stores [OF m]])
  have f: "\<forall>sm. named sm \<longrightarrow> filtered sm (evs @ evs') c'"
    using Poll_trades [OF assms(1)] assms(2) by (simp add: run_ok_def)
  have "client_ok c' \<and> channels_ok n c'"
  proof (cases res)
    case (Inr reply)
    obtain r c2 where p: "poll_reply lib reply d = (r, c2)" by fastforce
    with assms(1) m Inr have "c' = c2" by (cases r) (auto simp: Poll_def)
    with d poll_reply_ok [of d lib reply] poll_reply_channels [OF _ p] p show ?thesis by (simp add: run_ok_def)
  qed (use assms(1) m d in \<open>auto simp: Poll_def run_ok_def\<close>)
  with f show ?thesis by (simp add: run_ok_def)
qed

lemma run_ok_fields:
  assumes "run_ok n evs c" shows "run_ok n evs (c\<lparr>Cl_zone := z, Cl_serverTZ := tz, Cl_bias := b\<rparr>)"
  using assms by (simp add: run_ok_def client_ok_def store_oks channels_ok_def filtered_def)

lemma run_ok_catalog:
  assumes "run_ok n evs c" "catalog_ok cat" shows "run_ok n evs (c\<lparr>Cl_catalog := Some cat\<rparr>)"
  using assms by (simp add: run_ok_def client_ok_def store_oks channels_ok_def filtered_def)

lemma drain_ok:
  assumes "run_ok n evs c" "drain c = (secs, c')" shows "run_ok n evs c'"
proof (cases "Cl_catalog c")
  case (Some cat)
  obtain s cat' where d: "DrainPending cat = (s, cat')" by fastforce
  have "catalog_ok cat" using assms(1) Some by (simp add: run_ok_def client_ok_def cat_ok_def)
  then have "catalog_ok cat'" using ok_drain [of cat] d by simp
  with run_ok_catalog [OF assms(1)] assms(2) show ?thesis by (auto simp: drain_def Some d)
qed (use assms in \<open>simp add: drain_def\<close>)

lemma loaded_simps [simp]: "loaded_events [] = []" "loaded_events (xs @ ys) = loaded_events xs @ loaded_events ys"
  "loaded_events (OnLoadEvent evs # calls) = evs @ loaded_events calls" "loaded_events (OnSecurities s # calls) = loaded_events calls"
  "loaded_events (OnDictionaries st # calls) = loaded_events calls"
  by (simp_all add: loaded_events_def)

lemma run_ok_prefix: "run_ok n (evs @ evs') c \<Longrightarrow> run_ok n evs c"
  by (auto simp: run_ok_def intro: filtered_weaken)

lemma load_loop_ok:
  assumes "load_loop fuel lib envs i c net = (calls, e, c', net')" "run_ok n evs c"
  shows "run_ok n (evs @ loaded_events calls) c'"
  using assms
proof (induction fuel arbitrary: i c net calls e c' net' evs)
  case (Suc fuel)
  obtain r d net1 where p: "Poll lib (envs i) c net = (r, d, net1)" by (metis prod_cases3)
  obtain evs1 m1 e1 where r: "r = (evs1, m1, e1)" by (metis prod_cases3)
  have d: "run_ok n (evs @ evs1) d" using Poll_run_ok [OF _ Suc.prems(2)] p r by blast
  obtain secs d' where dr: "drain d = (secs, d')" by fastforce
  note d' = drain_ok [OF d dr]
  consider (stop) "e1 \<noteq> None \<or> (\<exists>ev\<in>set evs1. is_trade ev)" | (step) "e1 = None" "\<not> (\<exists>ev\<in>set evs1. is_trade ev)" by blast
  then show ?case
  proof cases
    case stop
    then have "calls = []" "c' = d" using Suc.prems(1) by (auto simp: p r split: option.splits)
    with run_ok_prefix [OF d] show ?thesis by simp
  next
    case step
    define these where "these = (if secs \<noteq> [] then [OnSecurities secs] else []) @ (if evs1 \<noteq> [] then [OnLoadEvent evs1] else [])"
    have ev: "loaded_events these = evs1" by (simp add: these_def)
    obtain calls2 e2 c2 n2 where l: "load_loop fuel lib envs (Suc i) d' net1 = (calls2, e2, c2, n2)" by (metis prod_cases4)
    have "calls = these \<and> c' = d' \<or> calls = these @ calls2 \<and> c' = c2"
      using Suc.prems(1) step by (simp add: p r dr these_def [symmetric] l del: not_ex Bex_def split: if_splits)
    then show ?thesis
    proof
      assume "calls = these @ calls2 \<and> c' = c2"
      with Suc.IH [OF l d'] ev show ?thesis
        using Suc.prems(1) l by simp
    qed (use d' ev in simp)
  qed
qed simp


lemma load_ok:
  assumes "load lib envs c net = (calls, e, c', net')" "run_ok n evs c"
  shows "run_ok n (evs @ loaded_events calls) c'"
proof -
  obtain r1 d1 net1 where t: "on_conn (Inl (Low nilPointer)) (Conn_Time (envs 0)) c net = (r1, d1, net1)" by (metis prod_cases3)
  have d1: "run_ok n evs d1" by (rule run_ok_stores [OF assms(2) on_conn_stores [OF t]])
  show ?thesis
  proof (cases r1)
    case (Inl x)
    with assms(1) d1 show ?thesis by (auto simp: load_def t)
  next
    case (Inr st)
    define d2 where "d2 = d1\<lparr>Cl_zone := ServerTime_Zone st,
      Cl_serverTZ := (case TimeZoneName (ServerTime_Zone st) of Some n \<Rightarrow> n | None \<Rightarrow> []), Cl_bias := zone_bias (ServerTime_Zone st)\<rparr>"
    have d2: "run_ok n evs d2" unfolding d2_def by (rule run_ok_fields [OF d1])
    obtain r3 d3 net3 where s: "on_conn (Inl (Low nilPointer)) (Conn_Startup (envs 1)) d2 net1 = (r3, d3, net3)" by (metis prod_cases3)
    have d3: "run_ok n evs d3" by (rule run_ok_stores [OF d2 on_conn_stores [OF s]])
    note rest = assms(1) [unfolded load_def t Inr Let_def prod.case sum.case, folded d2_def, unfolded s]
    show ?thesis
    proof (cases r3)
      case (Inl x)
      with rest d3 show ?thesis by auto
    next
      case (Inr payload)
      show ?thesis
      proof (cases "ParseStartup (lib_win lib) payload")
        case (Inl x)
        with rest Inr d3 show ?thesis by auto
      next
        case i: (Inr startup)
        obtain calls2 e2 c2 n2 where l: "load_loop (Suc (length (N_in net3))) lib envs 2 (d3\<lparr>Cl_catalog := Some (NewCatalog startup)\<rparr>) net3 = (calls2, e2, c2, n2)"
          by (metis prod_cases4)
        have "calls = OnDictionaries startup # calls2" "c' = c2" using rest Inr i l by (simp_all del: load_loop.simps)
        with load_loop_ok [OF l run_ok_catalog [OF d3 ok_new]] show ?thesis by simp
      qed
    qed
  qed
qed

subsection \<open>The other operations\<close>

text \<open>A change of the waiting requests concerns \<open>history_ok\<close> and the channels only.\<close>

definition with_history :: "Client \<Rightarrow> (u16 \<times> u16 \<times> byte \<rightharpoonup> historyCollector) \<Rightarrow> (nat \<rightharpoonup> serr + Candles) \<Rightarrow> Client" where
  "with_history c h r = c\<lparr>Cl_history := h, Cl_results := r\<rparr>"

lemma with_history_simps [simp]: "Cl_history (with_history c h r) = h" "Cl_results (with_history c h r) = r"
  by (simp_all add: with_history_def)

lemma history_update: "c\<lparr>Cl_history := h\<rparr> = with_history c h (Cl_results c)" "c\<lparr>Cl_results := r\<rparr> = with_history c (Cl_history c) r"
  "c\<lparr>Cl_results := r, Cl_history := h\<rparr> = with_history c h r"
  by (rule Client.equality; simp add: with_history_def)+

lemma run_ok_history:
  assumes "run_ok n evs c" "history_ok (with_history c h r)" "channels_ok m (with_history c h r)"
  shows "run_ok m evs (with_history c h r)"
proof -
  have "client_ok (with_history c h r)"
    using assms(1,2)
    by (simp add: run_ok_def client_ok_def accounts_ok_def positions_ok_def orders_ok_def news_ok_def cat_ok_def with_history_def)
  with assms(1,3) show ?thesis by (simp add: run_ok_def filtered_def with_history_def)
qed

lemma run_okD:
  assumes "run_ok n evs c" shows "history_ok c" "channels_ok n c"
  using assms by (simp_all add: run_ok_def client_ok_def)

lemma fresh_channel:
  assumes "run_ok n evs c" "Cl_history c k = None"
  shows "run_ok (Suc n) evs (c\<lparr>Cl_history := (Cl_history c)(k \<mapsto> \<lparr>HC_ch = n, HC_parts = []\<rparr>)\<rparr>)"
proof -
  note ok = run_okD [OF assms(1)]
  have n: "Cl_results c n = None" "Cl_history c k' = Some coll \<Longrightarrow> HC_ch coll \<noteq> n" for k' coll
    using ok(2) unfolding channels_ok_def by blast+
  show ?thesis
    unfolding history_update
  proof (rule run_ok_history [OF assms(1)])
    show "history_ok (with_history c ((Cl_history c)(k \<mapsto> \<lparr>HC_ch = n, HC_parts = []\<rparr>)) (Cl_results c))"
      using ok(1) n by (auto simp: history_ok_def)
  qed (use ok(2) in \<open>auto simp: channels_ok_def less_Suc_eq\<close>)
qed

lemma run_ok_Suc: "run_ok n evs c \<Longrightarrow> run_ok (Suc n) evs c"
  by (auto simp: run_ok_def channels_ok_def less_Suc_eq)

lemma dropHistory_ok:
  assumes "run_ok n evs c" shows "run_ok n evs (dropHistory k ch c)"
proof -
  have "run_ok n evs (c\<lparr>Cl_history := (Cl_history c)(k := None)\<rparr>)"
    unfolding history_update
  proof (rule run_ok_history [OF assms])
    show "history_ok (with_history c ((Cl_history c)(k := None)) (Cl_results c))"
      using run_okD(1) [OF assms] by (simp add: history_ok_def)
  qed (use run_okD(2) [OF assms] in \<open>simp add: channels_ok_def\<close>)
  with assms show ?thesis by (simp add: dropHistory_def split: option.split)
qed

lemma takeHistory_ok:
  assumes "run_ok n evs c" "takeHistory ch c = (res, c')" shows "run_ok n evs c'"
proof -
  have "run_ok n evs (c\<lparr>Cl_results := (Cl_results c)(ch := None)\<rparr>)"
    unfolding history_update
  proof (rule run_ok_history [OF assms(1)])
    show "history_ok (with_history c (Cl_history c) ((Cl_results c)(ch := None)))"
      using run_okD(1) [OF assms(1)] by (simp add: history_ok_def)
  qed (use run_okD(2) [OF assms(1)] in \<open>simp add: channels_ok_def\<close>)
  with assms(2) show ?thesis by (auto simp: takeHistory_def)
qed

lemma failHistory_ok:
  assumes "run_ok n evs c" shows "run_ok n evs (failHistoryParts e c)"
proof -
  let ?r = "\<lambda>ch. if Cl_results c ch = None \<and> (\<exists>coll\<in>ran (Cl_history c). HC_ch coll = ch) then Some (Inl e) else Cl_results c ch"
  have "run_ok n evs (with_history c Map.empty ?r)"
  proof (rule run_ok_history [OF assms])
    show "channels_ok n (with_history c Map.empty ?r)"
      using run_okD(2) [OF assms] by (auto simp: channels_ok_def ran_def)
  qed (simp add: history_ok_def)
  then show ?thesis by (simp only: failHistoryParts_def history_update(3))
qed

lemma startHistory_ok:
  assumes "startHistory env n req c net = (res, c', net')" "run_ok n evs c" shows "run_ok (Suc n) evs c'"
proof (cases "resolve c (HR_Symbol req)")
  case (Inr p)
  obtain cat sec board where p: "p = (cat, sec, board)" by (metis prod_cases3)
  let ?k = "(SecNew_SecID sec, Board_Num board, ucast (HR_Period req)) :: u16 \<times> u16 \<times> byte"
  show ?thesis
  proof (cases "Cl_conn c = None \<or> Cl_recovering c \<or> Cl_history c ?k \<noteq> None")
    case True
    then have "c' = c" using assms(1) by (auto simp: startHistory_def Inr p Let_def split: if_splits)
    with run_ok_Suc [OF assms(2)] show ?thesis by simp
  next
    case False
    let ?d = "c\<lparr>Cl_history := (Cl_history c)(?k \<mapsto> \<lparr>HC_ch = n, HC_parts = []\<rparr>)\<rparr>"
    let ?f = "HistoryExt env (HistoryExtPayload (HR_Reset req) (SecNew_SecID sec) (Board_Num board) (ucast (HR_Period req)) (ucast (HR_Count req)))"
    obtain e d net1 where x: "on_conn (Some notConnected) ?f ?d net = (e, d, net1)" by (metis prod_cases3)
    have d: "run_ok (Suc n) evs d"
      using run_ok_stores [OF fresh_channel [OF assms(2)] on_conn_stores [OF x]] False by blast
    have "c' = d \<or> c' = dropHistory ?k n d"
      using assms(1) False by (auto simp: startHistory_def Inr p Let_def x split: option.splits)
    with d dropHistory_ok [OF d] show ?thesis by blast
  qed
qed (use assms run_ok_Suc in \<open>auto simp: startHistory_def\<close>)

lemma resetSession_ok: "run_ok n evs c \<Longrightarrow> run_ok n evs (resetSession c)"
proof -
  assume c: "run_ok n evs c"
  have "run_ok n evs ((resetAccounts c)\<lparr>Cl_secSpecs := Map.empty, Cl_pendingOrders := []\<rparr>)"
    using c by (simp add: resetAccounts_def run_ok_def client_ok_def store_oks channels_ok_def filtered_def)
  from failHistory_ok [OF this] show ?thesis
    by (simp add: resetSession_def Let_def failHistoryParts_def resetAccounts_def run_ok_def client_ok_def store_oks channels_ok_def filtered_def)
qed

lemma relogin_ok:
  assumes "relogin lib sha1 env c net = (e, calls, c', net')" "run_ok n evs c"
  shows "run_ok n (evs @ loaded_events calls) c'"
proof -
  have cl: "run_ok n evs (clearFatal c)" by (rule run_ok_stores [OF assms(2)]) (simp add: clearFatal_def)
  show ?thesis
  proof (cases "L_dial env")
    case None
    obtain r net1 where lg: "Login sha1 (L_env1 env) (L_env2 env) (session_config (Cl_cfg (clearFatal c))) (L_net env) = (r, net1)" by fastforce
    show ?thesis
    proof (cases r)
      case (Inr p)
      obtain conn info where p: "p = (conn, info)" by fastforce
      define d where "d = resetSession ((clearFatal c)\<lparr>Cl_conn := Some (SetRequestTimeout (request_timeout (Cl_cfg (clearFatal c)) info) conn),
          Cl_info := Some info, Cl_recovering := True\<rparr>)"
      have d: "run_ok n evs d" unfolding d_def
        by (rule resetSession_ok) (rule run_ok_stores [OF cl], simp add: same_stores_def)
      obtain calls2 e2 c2 net2 where l: "load lib (L_load env) d net1 = (calls2, e2, c2, net2)" by (metis prod_cases4)
      note c2 = load_ok [OF l d]
      obtain e3 c3 net3 where rs: "resubscribe lib (L_subscribe env) (L_specs env) (L_visit env) c2 net2 = (e3, c3, net3)" by (metis prod_cases3)
      have c3: "run_ok n (evs @ loaded_events calls2) c3" by (rule run_ok_stores [OF c2 stores_resubscribe [OF rs]])
      have fin: "run_ok m es (detach x)" "run_ok m es (x\<lparr>Cl_recovering := False\<rparr>)" if "run_ok m es x" for m es x
        by (rule run_ok_stores [OF that], simp add: detach_def same_stores_def)+
      have "calls = calls2 \<and> (c' = detach c2 \<or> c' = detach c3 \<or> c' = c3\<lparr>Cl_recovering := False\<rparr>)"
        using assms(1) by (auto simp: relogin_def None lg Inr p Let_def d_def [symmetric] l rs split: option.splits)
      with fin c2 c3 show ?thesis by blast
    qed (use assms(1) None lg cl in \<open>auto simp: relogin_def Let_def\<close>)
  qed (use assms(1) cl in \<open>auto simp: relogin_def Let_def\<close>)
qed


lemma Close_ok:
  assumes "Client_Close env c = (e, c')" "run_ok n evs c" shows "run_ok n evs c'"
proof (cases "Cl_conn c")
  case (Some k)
  obtain e' k' where x: "Conn_Close env k = (e', k')" by fastforce
  have "c' = (failHistoryParts (message ''transaq: client is closed'') c)\<lparr>Cl_conn := Some k'\<rparr>"
    using assms(1) by (simp add: Client_Close_def Some x Let_def)
  with run_ok_stores [OF failHistory_ok [OF assms(2)] same_stores_updates(1)] show ?thesis by simp
qed (use assms in \<open>simp add: Client_Close_def\<close>)

lemma start_ok: "client_ok c \<Longrightarrow> Cl_history c = Map.empty \<Longrightarrow> Cl_results c = Map.empty \<Longrightarrow> run_ok 0 [] c"
  by (simp add: run_ok_def channels_ok_def filtered_def increasing_def)

lemma logged_in: "client_run lib sha1 0 [] (newClient cfg conn info)"
  by (rule client_run.started) (simp_all add: newClient_ok, simp_all add: newClient_def resetAccounts_def)

lemma shortRecover_stores: "shortRecover a c = (e, c', net) \<Longrightarrow> same_stores c c'"
  using shortRecover_effect [of a c e c' net] by (auto simp: reopen_def)

lemma client_run_ok: "client_run lib sha1 n evs c \<Longrightarrow> run_ok n evs c"
proof (induction rule: client_run.induct)
  case (loaded n evs c envs net calls e c' net')
  then show ?case by (blast intro: load_ok)
next
  case (polled n evs c env net evs' more' e c' net')
  then show ?case by (blast intro: Poll_run_ok)
next
  case (requested n evs c c')
  then show ?case by (blast intro: run_ok_stores request_stores)
next
  case (history_started n evs c env req net res c' net')
  then show ?case by (blast intro: startHistory_ok)
next
  case (history_taken n evs c ch res c')
  then show ?case by (blast intro: takeHistory_ok)
next
  case (closed n evs c env e c')
  then show ?case by (blast intro: Close_ok)
next
  case (recovered n evs c a e c' net)
  then show ?case by (blast intro: run_ok_stores shortRecover_stores)
next
  case (reconnected n evs c lenv net e calls c' net')
  then show ?case by (blast intro: relogin_ok)
qed (simp_all add: start_ok dropHistory_ok)

subsection \<open>What the views show\<close>

lemma orders_loop_distinct:
  assumes "distinct ids" "set ids \<inter> seen = {}"
  shows "orders_loop c ids seen = List.map_filter (Cl_orders c) ids"
  using assms
proof (induction ids arbitrary: seen)
  case (Cons i ids)
  have "orders_loop c ids s = List.map_filter (Cl_orders c) ids" if "s = seen \<or> s = insert i seen" for s
    using Cons that by (intro Cons.IH) auto
  with Cons.prems show ?case by (auto simp: List.map_filter_simps split: option.split)
qed (simp add: List.map_filter_def)

lemma map_filter_known:
  assumes "set ids \<subseteq> dom m" shows "List.map_filter m ids = map (\<lambda>i. the (m i)) ids"
  using assms by (induction ids) (auto simp: List.map_filter_simps)

lemma orders_view:
  assumes "orders_ok c"
  shows "map Order_TransactionID (Orders c) = Cl_orderOrder c \<and> set (Orders c) = ran (Cl_orders c)"
proof -
  have k: "distinct (Cl_orderOrder c)" "set (Cl_orderOrder c) = dom (Cl_orders c)"
    and i: "Cl_orders c i = Some ord \<Longrightarrow> Order_TransactionID ord = i" for i ord
    using assms by (auto simp: orders_ok_def keyed_def)
  have "Orders c = map (\<lambda>i. the (Cl_orders c i)) (Cl_orderOrder c)"
  proof (cases "Cl_orders c = Map.empty")
    case True
    with k(2) show ?thesis by (simp add: Orders_def)
  next
    case False
    with orders_loop_distinct [OF k(1), of "{}" c] map_filter_known [of "Cl_orderOrder c" "Cl_orders c"] k(2)
    show ?thesis by (simp add: Orders_def)
  qed
  moreover have "map Order_TransactionID (map (\<lambda>i. the (Cl_orders c i)) (Cl_orderOrder c)) = Cl_orderOrder c"
    using k(2) i by (intro nth_equalityI) (auto dest!: nth_mem)
  moreover have "(\<lambda>i. the (Cl_orders c i)) ` dom (Cl_orders c) = ran (Cl_orders c)"
    by (force simp: ran_def dom_def)
  ultimately show ?thesis using k(2) by simp
qed

text \<open>
  C30: after any sequence of operations (login, loads, polls with any replies, commands, history
  requests, recoveries, reconnects) the client is consistent: each store and the list of its arrival
  order hold the same keys, each once; no order waits whose client is known, no news text is kept
  without its header, every waiting history request has a channel of its own which is still empty,
  and the catalog is consistent. In particular \<open>Orders\<close> shows every known order exactly once.
\<close>

theorem client_invariant:
  assumes "client_run lib sha1 n evs c"
  shows "client_ok c \<and> distinct (map Order_TransactionID (Orders c)) \<and> set (Orders c) = ran (Cl_orders c)"
proof -
  have "client_ok c" using client_run_ok [OF assms] by (simp add: run_ok_def)
  moreover from this have "orders_ok c" by (simp add: client_ok_def)
  ultimately show ?thesis using orders_view [of c] by (simp add: orders_ok_def keyed_def)
qed

text \<open>The example client after a refused command and a dropped history request.\<close>

lemma example_client_start: "client_run lib sha1 0 [] example_client"
  by (rule client_run.started)
    (simp_all add: example_client_ok, simp_all add: example_client_def newClient_def resetAccounts_def)

lemma example_operations: "client_run example_lib (\<lambda>b. b) 0 [] (dropHistory (1, 2, 3) 0 example_client)"
proof -
  let ?req = "\<lparr>Move_TransactionID = 0, Move_Price = zeroDecimal, Move_MoveFlag = 0, Move_Quantity = 0\<rparr>"
  have "Client_MoveOrder example_env 0 0 ?req example_client \<lparr>N_in = [], N_out = []\<rparr> =
      ((0, Some (message ''Wrong transactionid value.'')), example_client, \<lparr>N_in = [], N_out = []\<rparr>)"
    by (simp add: Client_MoveOrder_def refuse_def)
  from client_run.requested [OF example_client_start request.intros(3) [OF this]]
  show ?thesis by (rule client_run.history_dropped)
qed

theorem client_invariant_witness:
  "client_ok (dropHistory (1, 2, 3) 0 example_client) \<and>
   distinct (map Order_TransactionID (Orders (dropHistory (1, 2, 3) 0 example_client)))"
  using client_invariant [OF example_operations] by blast




end
