(* ===== verification/Command_Properties.thy ===== *)
theory Command_Properties
  imports Client_Operations Record_Tiling
begin

text \<open>
  Commands: subscriptions as sets of channels, and the frame of a new order.
\<close>

unbundle bit_operations_syntax

subsection \<open>Subscriptions as sets of channels\<close>

text \<open>
  What the masks of a client mean: the pairs of a symbol and a channel (trades, quotations, books) the
  client is subscribed to. \<open>Subscribe\<close> adds the pairs it is asked for, \<open>Unsubscribe\<close> removes them.
\<close>

definition channels :: "byte set" where
  "channels = {SubAllTrades, SubQuotations, SubQuotes}"

lemmas sub_defs = SubAllTrades_def SubQuotations_def SubQuotes_def

definition mask_of :: "(Symbol \<rightharpoonup> byte) \<Rightarrow> Symbol \<Rightarrow> byte" where
  "mask_of subs s = (case subs s of Some m \<Rightarrow> m | None \<Rightarrow> 0)"

definition subscribed :: "(Symbol \<rightharpoonup> byte) \<Rightarrow> (Symbol \<times> byte) set" where
  "subscribed subs = {(s, ch). ch \<in> channels \<and> mask_of subs s AND ch \<noteq> 0}"

definition asked :: "Subscription \<Rightarrow> (Symbol \<times> byte) set" where
  "asked sub = set (Sub_AllTrades sub) \<times> {SubAllTrades} \<union> set (Sub_Quotations sub) \<times> {SubQuotations}
     \<union> set (Sub_Quotes sub) \<times> {SubQuotes}"

definition with_bit :: "bool \<Rightarrow> byte \<Rightarrow> byte \<Rightarrow> byte" where
  "with_bit on b m = (if on then m OR b else m AND NOT b)"

text \<open>The mask of a symbol once the change is made.\<close>

definition mask_after :: "(Symbol \<rightharpoonup> byte) \<Rightarrow> (Symbol \<rightharpoonup> byte) \<Rightarrow> Symbol \<Rightarrow> byte" where
  "mask_after subs nx s = (case nx s of Some m \<Rightarrow> m | None \<Rightarrow> mask_of subs s)"

lemma with_bit_idem: "with_bit on b (with_bit on b m) = with_bit on b m"
  by (simp add: with_bit_def bit_eq_iff bit_simps)

lemma apply_symbol_mask:
  "mask_after subs (apply_symbol on subs b s nx) s' = (if s' = s then with_bit on b (mask_after subs nx s) else mask_after subs nx s')"
  by (auto simp: apply_symbol_def mask_after_def mask_of_def with_bit_def Let_def split: option.split)

lemma apply_symbols_mask:
  "mask_after subs (fold (apply_symbol on subs b) ss nx) s =
     (if s \<in> set ss then with_bit on b (mask_after subs nx s) else mask_after subs nx s)"
proof (induction ss arbitrary: nx)
  case (Cons t ss)
  show ?case by (simp add: Cons.IH apply_symbol_mask with_bit_idem)
qed simp

lemma next_masks_mask:
  "mask_after subs (next_masks on subs sub) s =
     (let m = mask_of subs s;
          m = (if s \<in> set (Sub_AllTrades sub) then with_bit on SubAllTrades m else m);
          m = (if s \<in> set (Sub_Quotations sub) then with_bit on SubQuotations m else m)
      in if s \<in> set (Sub_Quotes sub) then with_bit on SubQuotes m else m)"
  by (simp add: next_masks_def Let_def apply_symbols_mask) (simp add: mask_after_def)

lemma store_masks_mask: "mask_of (store_masks nx subs) s = mask_after subs nx s"
  by (simp add: mask_of_def store_masks_def mask_after_def split: option.split)

lemma channel_bit: "m AND SubAllTrades \<noteq> 0 \<longleftrightarrow> bit m 2" "m AND SubQuotations \<noteq> 0 \<longleftrightarrow> bit m 0" "m AND SubQuotes \<noteq> 0 \<longleftrightarrow> bit m 1"
proof -
  have "m AND 2 ^ n \<noteq> 0 \<longleftrightarrow> bit m n" for n and m :: byte
    by (simp add: bit_iff_and_push_bit_not_eq_0 push_bit_eq_mult)
  from this [of m 2] this [of m 0] this [of m 1] show "m AND SubAllTrades \<noteq> 0 \<longleftrightarrow> bit m 2"
    "m AND SubQuotations \<noteq> 0 \<longleftrightarrow> bit m 0" "m AND SubQuotes \<noteq> 0 \<longleftrightarrow> bit m 1"
    by (simp_all add: sub_defs)
qed

lemma with_bit_bits:
  "bit (with_bit on SubAllTrades m) n \<longleftrightarrow> (if n = 2 then on else bit m n)"
  "bit (with_bit on SubQuotations m) n \<longleftrightarrow> (if n = 0 then on else bit m n)"
  "bit (with_bit on SubQuotes m) n \<longleftrightarrow> (if n = 1 then on else bit m n)"
proof -
  have "bit (with_bit on (push_bit k 1) m) n \<longleftrightarrow> (if n = k then on else bit m n)" if "k < 8" for k
    using that by (auto simp: with_bit_def bit_simps dest: bit_imp_le_length)
  from this [of 2] this [of 0] this [of 1]
  show "bit (with_bit on SubAllTrades m) n \<longleftrightarrow> (if n = 2 then on else bit m n)"
    "bit (with_bit on SubQuotations m) n \<longleftrightarrow> (if n = 0 then on else bit m n)"
    "bit (with_bit on SubQuotes m) n \<longleftrightarrow> (if n = 1 then on else bit m n)"
    by (simp_all add: sub_defs push_bit_eq_mult)
qed

lemma channel_neq: "SubAllTrades \<noteq> SubQuotations" "SubAllTrades \<noteq> SubQuotes" "SubQuotations \<noteq> SubQuotes"
  "SubQuotations \<noteq> SubAllTrades" "SubQuotes \<noteq> SubAllTrades" "SubQuotes \<noteq> SubQuotations"
  by (simp_all add: sub_defs)

lemma subscribed_after:
  "subscribed (store_masks (next_masks on subs sub) subs) = (if on then subscribed subs \<union> asked sub else subscribed subs - asked sub)"
proof -
  have "(s, ch) \<in> subscribed (store_masks (next_masks on subs sub) subs) \<longleftrightarrow>
      (if on then (s, ch) \<in> subscribed subs \<or> (s, ch) \<in> asked sub else (s, ch) \<in> subscribed subs \<and> (s, ch) \<notin> asked sub)"
    if ch: "ch \<in> channels" for s ch
    using ch unfolding channels_def
    by (elim insertE emptyE; simp add: subscribed_def asked_def channels_def store_masks_mask next_masks_mask channel_bit
        with_bit_bits channel_neq Let_def)
  moreover have "ch \<in> channels" if "(s, ch) \<in> asked sub \<or> (s, ch) \<in> subscribed m" for s ch m
    using that by (auto simp: asked_def subscribed_def channels_def)
  ultimately show ?thesis by (auto split: if_splits; blast)
qed

lemma no_empty_mask:
  "\<forall>s. subs s \<noteq> Some 0 \<Longrightarrow> store_masks nx subs s \<noteq> Some 0"
  by (simp add: store_masks_def split: option.split)


lemma on_conn_subs: "on_conn gone f c net = (a, c', net') \<Longrightarrow> Cl_subs c' = Cl_subs c"
  using on_conn_effect by fastforce

lemma loadSecSpecs_subs:
  assumes "loadSecSpecs lib env ids c net = (e, c', net')" shows "Cl_subs c' = Cl_subs c"
proof (cases "ids = []")
  case False
  obtain r d n where o': "on_conn (Inl notConnected) (Conn_SecSpec env ids) c net = (r, d, n)" by (metis prod_cases3)
  have "Cl_subs c' = Cl_subs d" using assms False by (auto simp: loadSecSpecs_def o' split: sum.splits)
  with on_conn_subs [OF o'] show ?thesis by simp
qed (use assms in \<open>simp add: loadSecSpecs_def\<close>)

lemma changeSubscription_subs:
  assumes "changeSubscription lib env env' visit sub on c net = (e, c', net')"
  shows "Cl_subs c' = (if e = None then store_masks (next_masks on (Cl_subs c) sub) (Cl_subs c) else Cl_subs c)"
proof (cases "Cl_recovering c \<or> Cl_conn c = None \<or> Cl_catalog c = None")
  case True
  then show ?thesis using assms by (auto simp: changeSubscription_def Let_def split: option.splits if_splits)
next
  case False
  then obtain k cat where kc: "Cl_conn c = Some k" "Cl_catalog c = Some cat" "\<not> Cl_recovering c" by auto
  define nx where "nx = next_masks on (Cl_subs c) sub"
  show ?thesis
  proof (cases "subscribe_items cat on nx visit")
    case (Inr p)
    obtain items ids where p: "p = (items, ids)" by fastforce
    obtain r d n where o': "on_conn (Inl notConnected) (Conn_Subscribe env (sort_items items)) c net = (r, d, n)" by (metis prod_cases3)
    obtain e2 c2 n2 where l: "loadSecSpecs lib env' (rev ids) (d\<lparr>Cl_subs := store_masks nx (Cl_subs d)\<rparr>) n = (e2, c2, n2)"
      by (metis prod_cases3)
    have "(case e of None \<Rightarrow> c' = c2 \<or> c' = d\<lparr>Cl_subs := store_masks nx (Cl_subs d)\<rparr> | Some _ \<Rightarrow> c' = d)"
      using assms by (cases r) (auto simp: changeSubscription_def Let_def nx_def [symmetric] kc Inr p o' l split: if_splits)
    then show ?thesis
      using loadSecSpecs_subs [OF l] on_conn_subs [OF o'] by (auto simp: nx_def split: option.splits)
  qed (use assms kc in \<open>auto simp: changeSubscription_def Let_def nx_def [symmetric]\<close>)
qed

text \<open>
  C32: \<open>Subscribe\<close> and \<open>Unsubscribe\<close> implement union and difference: once one has succeeded, the
  channels the client is subscribed to are those from before and, or without, the ones asked for;
  after an error they are those from before. No empty mask is ever kept.
\<close>

theorem changeSubscription_refines:
  assumes "changeSubscription lib env env' visit sub on c net = (e, c', net')"
  shows "subscribed (Cl_subs c') =
      (if e \<noteq> None then subscribed (Cl_subs c)
       else if on then subscribed (Cl_subs c) \<union> asked sub else subscribed (Cl_subs c) - asked sub) \<and>
    ((\<forall>s. Cl_subs c s \<noteq> Some 0) \<longrightarrow> (\<forall>s. Cl_subs c' s \<noteq> Some 0))"
  using changeSubscription_subs [OF assms] no_empty_mask by (simp add: subscribed_after)

subsection \<open>The frame of a new order\<close>

text \<open>The layout of the payload: kind, flag, security, board, client, side, flag, price, quantity.\<close>

definition order_rd :: "(byte \<times> u16 \<times> u16 \<times> i64 \<times> byte \<times> i32 \<times> i32) rd" where
  "order_rd =
     rbind Reader_Byte (\<lambda>kind. rbind Reader_Byte (\<lambda>_. rbind Reader_Uint16 (\<lambda>secid. rbind Reader_Uint16 (\<lambda>board.
     rbind Reader_Int64 (\<lambda>client. rbind Reader_Byte (\<lambda>side. rbind Reader_Byte (\<lambda>_. rbind Reader_Int32 (\<lambda>price.
     rbind Reader_Int32 (\<lambda>quantity. ret (kind, secid, board, client, side, price, quantity))))))))))"

lemma Int32_at': "Reader_Int32 (at pre (Writer_Int32 [] v @ b) post) = (Inr v, at (pre @ Writer_Int32 [] v) b post)"
  using i32_codec.get_put [where v = v and pre = pre and post = "b @ post" and r = "at pre (Writer_Int32 [] v @ b) post"]
  by (simp add: at_def)

lemma Int64_at': "v \<noteq> minInt32 \<Longrightarrow> Reader_Int64 (at pre (Writer_Int64 [] v @ b) post) = (Inr v, at (pre @ Writer_Int64 [] v) b post)"
  using i64_codec.get_put [where v = v and pre = pre and post = "b @ post" and r = "at pre (Writer_Int64 [] v @ b) post"]
  by (simp add: at_def)

lemma newOrderBody_form:
  "newOrderBody secid board client side price quantity =
     0 # Writer_Uint16 [] secid @ Writer_Uint16 [] board @ Writer_Int64 [] client @ side # 0 #
     Writer_Int32 [] (ucast price) @ Writer_Int32 [] (ucast quantity) @ zeros 9"
proof -
  have w: "Writer_Byte w b = w @ [b]" "Writer_Raw w bs = w @ bs" for w b bs by (simp_all add: Writer_Byte_def Writer_Raw_def)
  show ?thesis
    by (simp add: newOrderBody_def Let_def w u16_codec.put_append [of "w @ b" for w b] u16_codec.put_append [of "x # b" for x b]
        i64_codec.put_append [of "w @ b" for w b] i64_codec.put_append [of "x # b" for x b]
        i32_codec.put_append [of "w @ b" for w b] i32_codec.put_append [of "x # b" for x b])
qed

lemma order_rd_newOrderBody:
  assumes "client \<noteq> minInt32"
  shows "fst (order_rd (NewReader (kind # newOrderBody secid board client side price quantity))) =
     Inr (kind, secid, board, client, side, ucast price, ucast quantity)"
proof -
  have n: "NewReader b = at [] b []" for b by (simp add: NewReader_def at_def)
  show ?thesis
    unfolding n newOrderBody_form order_rd_def
    by (simp add: rbind_def ret_def Byte_at Uint16_at Int64_at' [OF assms] Int32_at')
qed

text \<open>Prices: \<open>times10\<close> is exact as long as nothing overflows.\<close>

lemma times10_exact:
  assumes "\<bar>sint v\<bar> * 10 ^ n < 2 ^ 63" shows "sint (times10 n v) = sint v * 10 ^ n"
  using assms
proof (induction n arbitrary: v)
  case (Suc n)
  have one: "(1::int) \<le> 10 ^ n" by simp
  have "\<bar>sint v\<bar> * 10 * 1 \<le> \<bar>sint v\<bar> * 10 * 10 ^ n" by (rule mult_left_mono [OF one]) simp
  then have b: "\<bar>sint v * 10\<bar> < 2 ^ 63" using Suc.prems by (simp add: abs_mult mult.assoc)
  have "sint (v * 10) = sint v * 10"
    using b by (simp add: sint_word_ariths signed_take_bit_int_eq_self abs_less_iff)
  with Suc.IH [of "v * 10"] Suc.prems show ?case by (simp add: abs_mult mult_ac)
qed simp


lemma sint_ucast_small:
  fixes v :: i64
  assumes "\<bar>sint v\<bar> < 2 ^ 31"
  shows "sint (ucast v :: i32) = sint v"
proof -
  have "sint (ucast v :: i32) = signed_take_bit 31 (sint v)"
    by transfer (simp add: signed_take_bit_take_bit)
  with assms show ?thesis by (simp add: signed_take_bit_int_eq_self abs_less_iff)
qed

text \<open>A command hands at most one frame to the socket, the RQ_TRANSACT frame of its payload.\<close>

definition sent_frame :: "Client \<Rightarrow> bytes \<Rightarrow> Net \<Rightarrow> Net \<Rightarrow> bool" where
  "sent_frame c payload net net' \<longleftrightarrow>
     (\<exists>k out. Cl_conn c = Some k \<and> Encode (C_keys k) ClientToServer (sendRequest RqTransact payload) = Inr out
        \<and> N_out net' = N_out net @ [out])"

lemma transactExchange_sent:
  assumes "transactExchange env loaded payload k net = (res, k', net')"
  shows "N_out net' = N_out net \<or> (\<exists>out. Encode (C_keys k) ClientToServer (sendRequest RqTransact payload) = Inr out \<and> N_out net' = N_out net @ [out])"
proof (cases "C_open k \<and> E_deadline env = None")
  case True
  show ?thesis
  proof (cases "Encode (C_keys k) ClientToServer (sendRequest RqTransact payload)")
    case (Inr out)
    have "N_out net' = N_out net @ [out]"
      using assms True Inr by (auto simp: transactExchange_def Let_def split: option.splits prod.splits sum.splits)
    with Inr show ?thesis by blast
  qed (use assms True in \<open>auto simp: transactExchange_def Let_def\<close>)
qed (use assms in \<open>auto simp: transactExchange_def Let_def split: option.splits if_splits\<close>)

lemma transact_sent:
  assumes "transact env local loaded kind body c net = (ie, c', net')"
  shows "N_out net' = N_out net \<or> sent_frame c (kind # body) net net'"
proof (cases "Cl_conn c")
  case (Some k)
  obtain res k' n where x: "transactExchange env loaded (kind # body) k net = (res, k', n)" by (metis prod_cases3)
  have "net' = n"
    using assms by (auto simp: transact_def on_conn_def Some Transact_def x split: sum.splits if_splits)
  with transactExchange_sent [OF x] Some show ?thesis by (auto simp: sent_frame_def)
qed (use assms in \<open>simp add: transact_def on_conn_def\<close>)



text \<open>The example client with one account, and a purchase on it while the socket does not take the frame.\<close>

definition example_request :: NewOrder where
  "example_request = \<lparr>NO_Client = [65], NO_Union = [], NO_Symbol = \<lparr>Symbol_Board = [84], Symbol_SecCode = [65]\<rparr>,
     NO_Price = \<lparr>Units = 5, Scale = 0\<rparr>, NO_Hidden = 0, NO_Quantity = 3, NO_BuySell = 66, NO_ByMarket = False,
     NO_UseCredit = False, NO_NoSplit = False, NO_Unfilled = [], NO_ExpDate = None, NO_BrokerRef = []\<rparr>"

lemma example_lookup:
  "lookupSymbol (AddSecurity example_sec (NewCatalog example_startup)) \<lparr>Symbol_Board = [84], Symbol_SecCode = [65]\<rparr> = Some (example_sec, example_board)"
  "pitDecimals (AddSecurity example_sec (NewCatalog example_startup)) example_sec example_board = Some 2"
  by (simp_all add: lookupSymbol_def Lookup_def pitDecimals_def Decimals_def AddSecurity_symbols AddSecurity_simps names_of_iff)
    (simp_all add: example_defs NewCatalog_def add_board_def)

text \<open>The example client subscribed to the trades and the book of a symbol drops the trades.\<close>

definition example_symbol :: Symbol where
  "example_symbol = \<lparr>Symbol_Board = [84], Symbol_SecCode = [65]\<rparr>"

definition example_drop :: Subscription where
  "example_drop = \<lparr>Sub_AllTrades = [example_symbol], Sub_Quotations = [], Sub_Quotes = []\<rparr>"

abbreviation subscribed_client :: Client where
  "subscribed_client \<equiv> example_client\<lparr>Cl_subs := [example_symbol \<mapsto> 6]\<rparr>"

lemma example_subscribe_items:
  "subscribe_items (AddSecurity example_sec (NewCatalog example_startup)) False (next_masks False [example_symbol \<mapsto> 6] example_drop)
     [example_symbol] = Inr ([\<lparr>Item_SecID = 7, Item_Board = 4, Item_Mask = 2\<rparr>], [])"
  by (simp add: next_masks_def apply_symbol_def example_drop_def Let_def SubAllTrades_def example_lookup(1) [folded example_symbol_def])
    (simp add: example_sec_def example_board_def)

lemma example_unsubscribed:
  "\<exists>c' net net'. changeSubscription example_lib example_env example_env [example_symbol] example_drop False subscribed_client net = (None, c', net')"
proof -
  let ?item = "\<lparr>Item_SecID = 7, Item_Board = 4, Item_Mask = 2\<rparr>"
  let ?own = "\<lparr>Flags = 2, Typ = RqSubscribe, Payload = []\<rparr>"
  obtain k where k: "Cl_conn subscribed_client = Some k" "C_open k" "C_abandoned k = []"
    by (simp add: example_client_def newClient_def resetAccounts_def example_conn_def SetRequestTimeout_def)
  have l: "length (SubscribePayload [?item]) \<le> MaxPayload" "reply_frame ?own" "sends example_env"
    by (simp_all add: SubscribePayload_def put_item_def Writer_Uint16_def Writer_Byte_def MaxPayload_def Let_def reply_frame_def Frame_Kind_def
        KindMask_def KindReply_def sends_def example_env_def)
  from Request_answered [OF k(2) l(3,1) k(3) l(2), of "[]" "[]"] obtain o' where
    r: "Request example_env RqSubscribe (SubscribePayload [?item]) k \<lparr>N_in = on_wire (C_keys k) ?own @ [], N_out = []\<rparr> =
      (Inr [], count_request RqSubscribe k, \<lparr>N_in = [], N_out = [o']\<rparr>)" by auto
  have "sort_items [?item] = [?item]" by (simp add: sort_items_def)
  with k r example_client_fields(4) example_subscribe_items
  have "\<exists>c' net'. changeSubscription example_lib example_env example_env [example_symbol] example_drop False subscribed_client
      \<lparr>N_in = on_wire (C_keys k) ?own @ [], N_out = []\<rparr> = (None, c', net')"
    by (simp add: changeSubscription_def Let_def on_conn_def Conn_Subscribe_def)
      (simp add: example_client_def newClient_def resetAccounts_def)
  then show ?thesis by blast
qed

theorem changeSubscription_refines_witness:
  "\<exists>c' net net'. changeSubscription example_lib example_env example_env [example_symbol] example_drop False subscribed_client net = (None, c', net')
    \<and> subscribed (Cl_subs c') = subscribed (Cl_subs subscribed_client) - {(example_symbol, SubAllTrades)}"
proof -
  obtain c' net net' where s: "changeSubscription example_lib example_env example_env [example_symbol] example_drop False subscribed_client net = (None, c', net')"
    using example_unsubscribed by blast
  from changeSubscription_refines [OF s]
  have "subscribed (Cl_subs c') = subscribed (Cl_subs subscribed_client) - {(example_symbol, SubAllTrades)}"
    by (simp add: asked_def example_drop_def)
  with s show ?thesis by blast
qed

lemma example_account:
  obtains raw where "ParseClientNew client_body = Inr raw" "ClientNew_ID raw = 1" "ClientNew_Code raw = [65]"
proof -
  have "case ParseClientNew client_body of Inr r \<Rightarrow> ClientNew_ID r = 1 \<and> ClientNew_Code r = [65] | Inl e \<Rightarrow> False"
    unfolding client_body_def by code_simp
  then show ?thesis using that by (auto split: sum.splits)
qed

lemma newOrderBody_length: "length (TxNewOrder # newOrderBody secid board client side price quantity) \<le> MaxPayload"
proof -
  have "length (Writer_Int64 [] client) \<le> 9" "length (Writer_Int32 [] v) \<le> 5" for v
    using packed_form_length(2) packed_form_i32_length by (simp_all add: Writer_Int64_def Writer_Int32_def appendPacked_append)
  from this(1) this(2) [of "ucast price"] this(2) [of "ucast quantity"] show ?thesis
    by (simp add: newOrderBody_form Writer_Uint16_def zeros_def MaxPayload_def)
qed

lemma example_account_client:
  "Cl_catalog (storeAccount raw example_client) = Some (AddSecurity example_sec (NewCatalog example_startup))"
  "\<exists>k. Cl_conn (storeAccount raw example_client) = Some k \<and> C_open k"
  using example_client_fields
  by (simp_all add: storeAccount_def Let_def) (simp add: example_client_def newClient_def resetAccounts_def example_conn_def SetRequestTimeout_def)

lemma example_account_id:
  "ClientNew_ID raw = 1 \<Longrightarrow> ClientNew_Code raw = [65] \<Longrightarrow> clientNumericID [65] [] (storeAccount raw example_client) = Some 1"
  using example_client_fields
  by (simp add: clientNumericID_def storeAccount_def Let_def) (simp add: example_client_def newClient_def resetAccounts_def)

lemma example_order:
  assumes "resolve c (NO_Symbol example_request) = Inr (cat, example_sec, example_board)" "clientNumericID [65] [] c = Some 1"
    "pitDecimals cat example_sec example_board = Some 2"
  shows "Client_NewOrder env 0 0 example_request c net = transact env 0 0 TxNewOrder (newOrderBody 7 4 1 66 500 3) c net"
proof -
  have "rescaleUnits 5 0 2 = times10 2 5" by (simp add: rescaleUnits_def)
  also have "\<dots> = 500" by (simp add: numeral_2_eq_2)
  finally show ?thesis using assms by (simp add: Client_NewOrder_def example_request_def isSide_def)
      (simp add: example_sec_def example_board_def)
qed

lemma example_refused:
  assumes "Cl_conn c = Some k" "C_open k" "Encode (C_keys k) ClientToServer (sendRequest RqTransact (TxNewOrder # body)) = Inr out"
  shows "\<exists>ie c'. transact (example_env\<lparr>E_write := Some NetErr\<rparr>) 0 0 TxNewOrder body c \<lparr>N_in = [], N_out = []\<rparr> =
    (ie, c', \<lparr>N_in = [], N_out = [out]\<rparr>)"
  using assms by (simp add: transact_def on_conn_def  Transact_def transactExchange_def Let_def example_env_def)


text \<open>A moved order is sent as a cancelled one: the new price and quantity are checked, but not encoded.\<close>

lemma MoveOrder_cancels:
  assumes "Move_TransactionID req \<noteq> 0" "Move_MoveFlag req = 0 \<or> Move_MoveFlag req = 3"
  shows "Client_MoveOrder env local loaded req = Client_CancelOrder env local loaded (Move_TransactionID req)"
  using assms by (auto simp: fun_eq_iff Client_MoveOrder_def Client_CancelOrder_def TxMoveOrder_def TxCancelOrder_def)

end
