(* ===== verification/Lob_Book.thy ===== *)
theory Lob_Book
  imports Client_Commands "HOL-Library.AList"
begin

text \<open>
  The order book of the replay, \<open>terminal/lobreplay/book.go\<close>. A map of Go is an association list with
  distinct keys in some order: the order in which Go visits the map. \<open>Book\<close> keeps besides the two maps
  the cached price order and the flag that the cache is stale, as the source does; \<open>book_ok\<close> is the
  invariant that makes the cache invisible. A read that rebuilds the cache returns the new book.
  The float64 of \<open>Imbalance\<close> is not modelled.
\<close>

subsection \<open>Prices\<close>

definition priceScale :: byte where
  "priceScale = 6"

definition priceUnits :: "Decimal \<Rightarrow> i64" where
  "priceUnits price = rescaleUnits (Units price) (Scale price) priceScale"

definition decimalPrice :: "i64 \<Rightarrow> Decimal" where
  "decimalPrice units = \<lparr>Units = units, Scale = priceScale\<rparr>"

lemma priceUnits_decimalPrice [simp]: "priceUnits (decimalPrice u) = u"
  by (simp add: priceUnits_def decimalPrice_def rescaleUnits_def)

lemma decimalPrice_eq_iff [simp]: "decimalPrice u = decimalPrice v \<longleftrightarrow> u = v"
  by (simp add: decimalPrice_def)

lemma priceUnits_zero [simp]: "priceUnits zeroDecimal = 0"
proof -
  have "times10 n 0 = 0" for n by (induction n) simp_all
  then show ?thesis by (simp add: priceUnits_def zeroDecimal_def rescaleUnits_def)
qed

subsection \<open>The book\<close>

record Level =
  Level_Price :: Decimal
  Level_Qty :: i64

record Book =
  Book_bids :: "(i64 \<times> i64) list"
  Book_asks :: "(i64 \<times> i64) list"
  Book_bidKeys :: "i64 list"
  Book_askKeys :: "i64 list"
  Book_dirty :: bool

definition SideBid :: string where "SideBid = ''bid''"
definition SideAsk :: string where "SideAsk = ''ask''"

definition NewBook :: Book where
  "NewBook = \<lparr>Book_bids = [], Book_asks = [], Book_bidKeys = [], Book_askKeys = [], Book_dirty = False\<rparr>"

definition Reset :: "Book \<Rightarrow> Book" where
  "Reset b = \<lparr>Book_bids = [], Book_asks = [], Book_bidKeys = [], Book_askKeys = [], Book_dirty = True\<rparr>"

text \<open>\<open>sort.Slice\<close> with \<open>>\<close> on the bids and with \<open><\<close> on the asks.\<close>

definition bestBids :: "(i64 \<times> i64) list \<Rightarrow> i64 list" where
  "bestBids m = sort_key (\<lambda>u. - sint u) (map fst m)"

definition bestAsks :: "(i64 \<times> i64) list \<Rightarrow> i64 list" where
  "bestAsks m = sort_key sint (map fst m)"

definition sortedKeys :: "Book \<Rightarrow> Book" where
  "sortedKeys b =
     (if \<not> Book_dirty b then b
      else b\<lparr>Book_bidKeys := bestBids (Book_bids b), Book_askKeys := bestAsks (Book_asks b), Book_dirty := False\<rparr>)"

text \<open>\<open>m[u]\<close> of a Go map: the zero value when the key is absent.\<close>

definition mapGet :: "(i64 \<times> i64) list \<Rightarrow> i64 \<Rightarrow> i64" where
  "mapGet m u = (case map_of m u of None \<Rightarrow> 0 | Some q \<Rightarrow> q)"

definition zeroLevel :: Level where
  "zeroLevel = \<lparr>Level_Price = zeroDecimal, Level_Qty = 0\<rparr>"

definition level_at :: "(i64 \<times> i64) list \<Rightarrow> i64 \<Rightarrow> Level" where
  "level_at m u = \<lparr>Level_Price = decimalPrice u, Level_Qty = mapGet m u\<rparr>"

definition Best :: "Book \<Rightarrow> (Level \<times> Level) \<times> Book" where
  "Best b =
     (let b = sortedKeys b in
      ((case Book_bidKeys b of [] \<Rightarrow> zeroLevel | u # _ \<Rightarrow> level_at (Book_bids b) u,
        case Book_askKeys b of [] \<Rightarrow> zeroLevel | u # _ \<Rightarrow> level_at (Book_asks b) u), b))"

definition Depth :: "int \<Rightarrow> Book \<Rightarrow> (Level list \<times> Level list) \<times> Book" where
  "Depth n b =
     (if n \<le> 0 then (([], []), b)
      else
        let b = sortedKeys b in
        ((map (level_at (Book_bids b)) (take (nat n) (Book_bidKeys b)),
          map (level_at (Book_asks b)) (take (nat n) (Book_askKeys b))), b))"

text \<open>Every name but \<open>bid\<close> selects the asks.\<close>

definition levels :: "string \<Rightarrow> Book \<Rightarrow> (i64 \<times> i64) list" where
  "levels side b = (if side = SideBid then Book_bids b else Book_asks b)"

definition put_levels :: "string \<Rightarrow> (i64 \<times> i64) list \<Rightarrow> Book \<Rightarrow> Book" where
  "put_levels side m b =
     (if side = SideBid then b\<lparr>Book_bids := m, Book_dirty := True\<rparr> else b\<lparr>Book_asks := m, Book_dirty := True\<rparr>)"

definition setLevel :: "string \<Rightarrow> Decimal \<Rightarrow> i64 \<Rightarrow> Book \<Rightarrow> Book" where
  "setLevel side price qty b =
     (let units = priceUnits price; m = levels side b in
      if sint qty \<le> 0
      then (if map_of m units = None then b else put_levels side (AList.delete units m) b)
      else (if map_of m units = Some qty then b else put_levels side (AList.update units qty m) b))"

definition qtyAt :: "string \<Rightarrow> i64 \<Rightarrow> Book \<Rightarrow> i64" where
  "qtyAt side units b = mapGet (levels side b) units"

definition sidePrices :: "string \<Rightarrow> Book \<Rightarrow> i64 list \<times> Book" where
  "sidePrices side b = (let b = sortedKeys b in (if side = SideBid then Book_bidKeys b else Book_askKeys b, b))"

subsection \<open>The invariant\<close>

text \<open>The keys of a map are distinct, every level has volume, and a cache that is not stale is what a
  rebuild would give.\<close>

definition map_ok :: "(i64 \<times> i64) list \<Rightarrow> bool" where
  "map_ok m \<longleftrightarrow> distinct (map fst m) \<and> (\<forall>q \<in> snd ` set m. 0 < sint q)"

definition book_ok :: "Book \<Rightarrow> bool" where
  "book_ok b \<longleftrightarrow> map_ok (Book_bids b) \<and> map_ok (Book_asks b) \<and>
     (\<not> Book_dirty b \<longrightarrow> Book_bidKeys b = bestBids (Book_bids b) \<and> Book_askKeys b = bestAsks (Book_asks b))"

lemma NewBook_ok [simp, intro]: "book_ok NewBook"
  by (simp add: book_ok_def NewBook_def map_ok_def bestBids_def bestAsks_def)

lemma Reset_ok [simp, intro]: "book_ok (Reset b)"
  by (simp add: book_ok_def Reset_def map_ok_def)

lemma sortedKeys_ok [intro]: "book_ok b \<Longrightarrow> book_ok (sortedKeys b)"
  by (simp add: book_ok_def sortedKeys_def)

lemma sortedKeys_fresh:
  "book_ok b \<Longrightarrow> Book_bidKeys (sortedKeys b) = bestBids (Book_bids b) \<and> Book_askKeys (sortedKeys b) = bestAsks (Book_asks b)"
  by (simp add: book_ok_def sortedKeys_def)

lemma sortedKeys_maps [simp]:
  "Book_bids (sortedKeys b) = Book_bids b" "Book_asks (sortedKeys b) = Book_asks b" "levels side (sortedKeys b) = levels side b"
  by (simp_all add: sortedKeys_def levels_def)

lemma map_ok_levels: "book_ok b \<Longrightarrow> map_ok (levels side b)"
  by (simp add: book_ok_def levels_def)

lemma map_ok_update: "map_ok m \<Longrightarrow> 0 < sint q \<Longrightarrow> map_ok (AList.update u q m)"
proof -
  assume m: "map_ok m" "0 < sint q"
  have "snd ` set (AList.update u q m) \<subseteq> insert q (snd ` set m)"
    by (induction m) auto
  with m show ?thesis by (force simp: map_ok_def intro: distinct_update)
qed

lemma map_ok_delete: "map_ok m \<Longrightarrow> map_ok (AList.delete u m)"
proof -
  assume m: "map_ok m"
  have "set (AList.delete u m) \<subseteq> set m" by (auto simp: AList.delete_eq)
  with m show ?thesis by (auto simp: map_ok_def intro: distinct_delete)
qed

lemma put_levels_ok: "book_ok b \<Longrightarrow> map_ok m \<Longrightarrow> book_ok (put_levels side m b)"
  by (simp add: book_ok_def put_levels_def)

lemma setLevel_ok [intro]: "book_ok b \<Longrightarrow> book_ok (setLevel side price qty b)"
  by (auto simp: setLevel_def Let_def not_le intro!: put_levels_ok map_ok_update map_ok_delete map_ok_levels)

lemma distinct_map_sint:
  "distinct us \<Longrightarrow> distinct (map sint (us :: i64 list))" "distinct us \<Longrightarrow> distinct (map (\<lambda>u. - sint u) (us :: i64 list))"
  by (auto simp: distinct_map intro!: inj_onI signed_word_eqI)

text \<open>The prices of one side, best first, are a function of the map alone, not of its order.\<close>

lemma bestBids_props:
  assumes "map_ok m"
  shows "set (bestBids m) = dom (map_of m)" "sorted_wrt (\<lambda>u v. sint v < sint u) (bestBids m)"
proof -
  show "set (bestBids m) = dom (map_of m)" by (simp add: bestBids_def dom_map_of_conv_image_fst)
  have "sorted (map (\<lambda>u. - sint u) (bestBids m))" by (simp add: bestBids_def)
  moreover have "distinct (map (\<lambda>u. - sint u) (bestBids m))"
    using assms by (simp add: bestBids_def map_ok_def distinct_map_sint)
  ultimately have "sorted_wrt (<) (map (\<lambda>u. - sint u) (bestBids m))" by (simp add: strict_sorted_iff)
  then show "sorted_wrt (\<lambda>u v. sint v < sint u) (bestBids m)" by (simp add: sorted_wrt_map)
qed

lemma bestAsks_props:
  assumes "map_ok m"
  shows "set (bestAsks m) = dom (map_of m)" "sorted_wrt (\<lambda>u v. sint u < sint v) (bestAsks m)"
proof -
  show "set (bestAsks m) = dom (map_of m)" by (simp add: bestAsks_def dom_map_of_conv_image_fst)
  have "sorted (map sint (bestAsks m))" by (simp add: bestAsks_def)
  moreover have "distinct (map sint (bestAsks m))"
    using assms by (simp add: bestAsks_def map_ok_def distinct_map_sint)
  ultimately have "sorted_wrt (<) (map sint (bestAsks m))" by (simp add: strict_sorted_iff)
  then show "sorted_wrt (\<lambda>u v. sint u < sint v) (bestAsks m)" by (simp add: sorted_wrt_map)
qed

text \<open>\<open>better side u v\<close>: the order of a side at price \<open>u\<close> is served before one at \<open>v\<close>.\<close>

definition better :: "string \<Rightarrow> i64 \<Rightarrow> i64 \<Rightarrow> bool" where
  "better side u v \<longleftrightarrow> (if side = SideBid then sint v < sint u else sint u < sint v)"

lemma distinct_better: "sorted_wrt (better side) us \<Longrightarrow> distinct us"
  by (induction us) (auto simp: better_def split: if_splits)

lemma sidePrices_props:
  assumes "book_ok b"
  shows "set (fst (sidePrices side b)) = dom (map_of (levels side b))"
    and "sorted_wrt (better side) (fst (sidePrices side b))"
    and "distinct (fst (sidePrices side b))"
proof -
  have ok: "map_ok (Book_bids b)" "map_ok (Book_asks b)" using assms by (simp_all add: book_ok_def)
  note props = sortedKeys_fresh [OF assms] bestBids_props [OF ok(1)] bestAsks_props [OF ok(2)]
  show "set (fst (sidePrices side b)) = dom (map_of (levels side b))"
    using props by (simp add: sidePrices_def levels_def Let_def)
  show s: "sorted_wrt (better side) (fst (sidePrices side b))"
    using props by (simp add: sidePrices_def better_def [abs_def] Let_def)
  show "distinct (fst (sidePrices side b))"
    by (rule distinct_better [OF s])
qed

subsection \<open>What the book holds\<close>

text \<open>Volumes as integers: what one \<open>setLevel\<close> changes.\<close>

definition volume :: "string \<Rightarrow> Book \<Rightarrow> i64 \<Rightarrow> int" where
  "volume side b u = sint (qtyAt side u b)"

lemma volume_sortedKeys [simp]: "volume side (sortedKeys b) = volume side b"
  by (simp add: volume_def qtyAt_def fun_eq_iff)

lemma volume_NewBook [simp]: "volume side NewBook u = 0" and volume_Reset [simp]: "volume side (Reset b) u = 0"
  by (simp_all add: volume_def qtyAt_def levels_def NewBook_def Reset_def mapGet_def)

lemma levels_put: "(side' = SideBid) = (side = SideBid) \<Longrightarrow> levels side' (put_levels side m b) = m"
  "(side' = SideBid) \<noteq> (side = SideBid) \<Longrightarrow> levels side' (put_levels side m b) = levels side' b"
  by (auto simp: levels_def put_levels_def)

lemma volume_setLevel:
  "volume side' (setLevel side price qty b) u =
     (if (side' = SideBid) = (side = SideBid) \<and> u = priceUnits price then max 0 (sint qty) else volume side' b u)"
proof (cases "(side' = SideBid) = (side = SideBid)")
  case True
  then have "levels side' b = levels side b" by (auto simp: levels_def)
  with True show ?thesis
    by (auto simp: setLevel_def Let_def volume_def qtyAt_def mapGet_def levels_put delete_conv' update_conv'
        split: option.split)
next
  case False
  then have "levels side' (setLevel side price qty b) = levels side' b"
    by (simp add: setLevel_def Let_def levels_put(2))
  then show ?thesis using False by (simp add: volume_def qtyAt_def)
qed

lemma volume_pos_iff:
  assumes "book_ok b" shows "0 < volume side b u \<longleftrightarrow> u \<in> dom (map_of (levels side b))"
proof (cases "map_of (levels side b) u")
  case (Some q)
  then have "0 < sint q" using map_ok_levels [OF assms] by (fastforce simp: map_ok_def dest: map_of_SomeD)
  with Some show ?thesis by (auto simp: volume_def qtyAt_def mapGet_def)
qed (auto simp: volume_def qtyAt_def mapGet_def)

lemma volume_nonneg: "book_ok b \<Longrightarrow> 0 \<le> volume side b u"
proof (cases "map_of (levels side b) u")
  case (Some q)
  assume "book_ok b"
  with Some volume_pos_iff [of b side u] show ?thesis by auto
qed (simp add: volume_def qtyAt_def mapGet_def)

lemma mem_sidePrices: "book_ok b \<Longrightarrow> u \<in> set (fst (sidePrices side b)) \<longleftrightarrow> 0 < volume side b u"
  by (simp add: sidePrices_props(1) volume_pos_iff)

text \<open>\<open>Depth\<close> and \<open>Best\<close> read the beginning of these lists.\<close>

lemma Depth_sidePrices:
  assumes "0 < n"
  shows "fst (Depth n b) =
    (map (\<lambda>u. \<lparr>Level_Price = decimalPrice u, Level_Qty = qtyAt SideBid u b\<rparr>) (take (nat n) (fst (sidePrices SideBid b))),
     map (\<lambda>u. \<lparr>Level_Price = decimalPrice u, Level_Qty = qtyAt SideAsk u b\<rparr>) (take (nat n) (fst (sidePrices SideAsk b))))"
  using assms by (simp add: Depth_def Let_def sidePrices_def level_at_def qtyAt_def levels_def SideBid_def SideAsk_def)

lemma Best_sidePrices:
  "fst (Best b) =
    (case fst (sidePrices SideBid b) of [] \<Rightarrow> zeroLevel | u # _ \<Rightarrow> \<lparr>Level_Price = decimalPrice u, Level_Qty = qtyAt SideBid u b\<rparr>,
     case fst (sidePrices SideAsk b) of [] \<Rightarrow> zeroLevel | u # _ \<Rightarrow> \<lparr>Level_Price = decimalPrice u, Level_Qty = qtyAt SideAsk u b\<rparr>)"
  by (simp add: Best_def Let_def sidePrices_def level_at_def qtyAt_def levels_def SideBid_def SideAsk_def split: list.split)

end
