(* ===== verification/Lob_Fill.thy ===== *)
theory Lob_Fill
  imports Lob_Book
begin

text \<open>
  The fill model of the replay, \<open>terminal/lobreplay/fill.go\<close>: the life of an order (latency, queue
  position, market walk) and the average-cost portfolio. Quantities, prices and money are 64-bit words
  that wrap as in Go. The commission rate is a float64, kept as its bit pattern; the one expression that
  computes with it, \<open>int64(math.Round(float64(notional) * FeeBps / 10_000))\<close>, is the parameter \<open>cm\<close>
  of rate and notional. The field \<open>PnLPct\<close> of a round trip is floating point and left out.
\<close>

subsection \<open>Orders and fills\<close>

definition SideBuy :: string where "SideBuy = ''buy''"
definition SideSell :: string where "SideSell = ''sell''"
definition SideNone :: string where "SideNone = ''none''"
definition OrderLimit :: string where "OrderLimit = ''limit''"
definition OrderMarket :: string where "OrderMarket = ''market''"

lemmas name_defs = SideBuy_def SideSell_def SideNone_def OrderLimit_def OrderMarket_def SideBid_def SideAsk_def

record LobOrder =
  LO_Side :: string
  LO_Type :: string
  LO_Price :: Decimal
  LO_Qty :: i64

record FillModel =
  FM_LatencyMs :: i64
  FM_QueuePosition :: bool
  FM_FeeBps :: float64

record Fill =
  Fill_OrderID :: i64
  Fill_TS :: GoTime
  Fill_Side :: string
  Fill_Type :: string
  Fill_Price :: Decimal
  Fill_Qty :: i64
  Fill_Fee :: Decimal

record RoundTrip =
  RT_EntryTime :: GoTime
  RT_ExitTime :: GoTime
  RT_Side :: string
  RT_EntryPrice :: Decimal
  RT_ExitPrice :: Decimal
  RT_Qty :: i64
  RT_PnL :: Decimal
  RT_Fee :: Decimal

record workingOrder =
  WO_id :: i64
  WO_order :: LobOrder
  WO_activeAt :: GoTime
  WO_active :: bool
  WO_remaining :: i64
  WO_queueAhead :: i64

text \<open>Comparisons of float64 on the bit pattern: \<open>x == 0\<close> holds for both zeros; \<open>x < 0\<close> and
  \<open>x >= 10_000\<close> are false for a NaN (exponent all ones, mantissa not zero), and for numbers without a
  sign the order is that of the bits.\<close>

definition f_is_nan :: "float64 \<Rightarrow> bool" where
  "f_is_nan x \<longleftrightarrow> 0x7FF0000000000000 < x AND 0x7FFFFFFFFFFFFFFF"

definition f_is_zero :: "float64 \<Rightarrow> bool" where
  "f_is_zero x \<longleftrightarrow> x AND 0x7FFFFFFFFFFFFFFF = 0"

definition f_negative :: "float64 \<Rightarrow> bool" where
  "f_negative x \<longleftrightarrow> bit x 63 \<and> \<not> f_is_zero x \<and> \<not> f_is_nan x"

text \<open>The bits of \<open>10_000.0\<close> are \<open>0x40C3880000000000\<close>.\<close>

definition f_ge_10000 :: "float64 \<Rightarrow> bool" where
  "f_ge_10000 x \<longleftrightarrow> \<not> bit x 63 \<and> \<not> f_is_nan x \<and> 0x40C3880000000000 \<le> x"

definition FillModel_validate :: "FillModel \<Rightarrow> err option" where
  "FillModel_validate m =
     (if sint (FM_LatencyMs m) < 0
      then Some (Errorf ''lobreplay: LatencyMs must not be negative'' [sint (FM_LatencyMs m)])
      else if f_negative (FM_FeeBps m) \<or> f_ge_10000 (FM_FeeBps m)
      then Some (Errorf ''lobreplay: FeeBps must be in [0, 10000)'' [])
      else None)"

definition normalizeOrder :: "LobOrder \<Rightarrow> err + LobOrder" where
  "normalizeOrder ord =
     (if LO_Side ord \<noteq> SideBuy \<and> LO_Side ord \<noteq> SideSell then Inl (Errorf ''order side'' [])
      else
        let typed = (if LO_Type ord = [] \<or> LO_Type ord = OrderLimit then Some (ord\<lparr>LO_Type := OrderLimit\<rparr>)
                     else if LO_Type ord = OrderMarket then Some ord else None)
        in (case typed of
              None \<Rightarrow> Inl (Errorf ''order type'' [])
            | Some ord \<Rightarrow>
                if sint (LO_Qty ord) \<le> 0 then Inl (Errorf ''order qty must be positive'' [sint (LO_Qty ord)])
                else if LO_Type ord = OrderLimit \<and> sint (priceUnits (LO_Price ord)) \<le> 0
                then Inl (Errorf ''limit order price must be positive'' [])
                else Inr ord))"

text \<open>\<open>Time.Before\<close> and \<open>Time.IsZero\<close> on wall-clock times.\<close>

definition Time_Before :: "GoTime \<Rightarrow> GoTime \<Rightarrow> bool" where
  "Time_Before t u \<longleftrightarrow> sint (T_sec t) < sint (T_sec u) \<or> (T_sec t = T_sec u \<and> T_nsec t < T_nsec u)"

definition Time_IsZero :: "GoTime \<Rightarrow> bool" where
  "Time_IsZero t \<longleftrightarrow> T_sec t = 0 \<and> T_nsec t = 0"

subsection \<open>The portfolio\<close>

record portfolio =
  P_position :: i64
  P_avgEntry :: i64
  P_entryTime :: GoTime
  P_entryFee :: i64
  P_cash :: i64
  P_roundTrips :: "RoundTrip list"

definition priceFactor :: i64 where "priceFactor = 1000000"
definition initialCash :: i64 where "initialCash = 1000000"

definition newPortfolio :: portfolio where
  "newPortfolio = \<lparr>P_position = 0, P_avgEntry = 0, P_entryTime = zeroTime, P_entryFee = 0,
     P_cash = initialCash * priceFactor, P_roundTrips = []\<rparr>"

definition absInt64 :: "i64 \<Rightarrow> i64" where
  "absInt64 v = (if sint v < 0 then - v else v)"

text \<open>Division of \<open>int64\<close>, towards zero, and the built-in \<open>min\<close>.\<close>

definition div64 :: "i64 \<Rightarrow> i64 \<Rightarrow> i64" where
  "div64 a b = word_of_int (sint a sdiv sint b)"

definition min64 :: "i64 \<Rightarrow> i64 \<Rightarrow> i64" where
  "min64 a b = (if sint a \<le> sint b then a else b)"

definition portfolio_open :: "i64 \<Rightarrow> i64 \<Rightarrow> i64 \<Rightarrow> i64 \<Rightarrow> GoTime \<Rightarrow> portfolio \<Rightarrow> portfolio" where
  "portfolio_open dir units qty fee ts p =
     p\<lparr>P_position := dir * qty, P_avgEntry := units, P_entryTime := ts, P_entryFee := fee\<rparr>"

definition portfolio_close :: "i64 \<Rightarrow> i64 \<Rightarrow> i64 \<Rightarrow> GoTime \<Rightarrow> portfolio \<Rightarrow> portfolio" where
  "portfolio_close qty units fee ts p =
     (let openQty = absInt64 (P_position p);
          long = 0 < sint (P_position p);
          entryFeeShare = (if 0 < sint openQty then div64 (P_entryFee p * qty) openQty else 0);
          gross = (units - P_avgEntry p) * qty;
          gross = (if long then gross else - gross);
          trip = \<lparr>RT_EntryTime = P_entryTime p, RT_ExitTime = ts, RT_Side = (if long then ''long'' else ''short''),
                  RT_EntryPrice = decimalPrice (P_avgEntry p), RT_ExitPrice = decimalPrice units, RT_Qty = qty,
                  RT_PnL = decimalPrice gross, RT_Fee = decimalPrice (entryFeeShare + fee)\<rparr>;
          p = p\<lparr>P_entryFee := P_entryFee p - entryFeeShare, P_roundTrips := P_roundTrips p @ [trip],
                P_position := (if long then P_position p - qty else P_position p + qty)\<rparr>
      in if P_position p = 0 then p\<lparr>P_avgEntry := 0, P_entryFee := 0, P_entryTime := zeroTime\<rparr> else p)"

text \<open>The loop of \<open>apply\<close> with what is left of the fill and of its fee. Each round returns or closes a
  part of the position; the part has the size of the whole remainder or of the whole position, which is
  positive except for the position \<open>-2^63\<close>, where the subtraction wraps and the loop ends.\<close>

lemma sint_min64 [simp]: "sint (min64 a b) = min (sint a) (sint b)"
  by (simp add: min64_def)

lemma sint_uminus_exact: "sint v \<noteq> - (2 ^ 63) \<Longrightarrow> sint (- v :: i64) = - sint v"
proof -
  assume v: "sint v \<noteq> - (2 ^ 63)"
  have "- v = word_of_int (- sint v)" by simp
  moreover have "sint (word_of_int (- sint v) :: i64) = - sint v"
    using v sint_i64_range [of v] by (intro sint_i64_exact) linarith+
  ultimately show ?thesis by argo
qed

lemma sint_absInt64: "sint v \<noteq> - (2 ^ 63) \<Longrightarrow> sint (absInt64 v) = \<bar>sint v\<bar>"
  by (cases "sint v < 0") (simp_all add: absInt64_def sint_uminus_exact del: of_int_minus)

lemma absInt64_zero [simp]: "absInt64 v = 0 \<longleftrightarrow> v = 0"
  by (simp add: absInt64_def)

lemma word_of_int_sint64: "word_of_int (sint v) = (v :: i64)"
  by simp

lemma diff_as_int: "a - b = (word_of_int (sint a - sint b) :: i64)"
  by simp

lemma loop_decreases:
  assumes "0 < sint r" "v \<noteq> 0"
  shows "sint (r - min64 (absInt64 v) r) < sint r"
proof (cases "sint v = - (2 ^ 63)")
  case False
  then have "sint (absInt64 v) = \<bar>sint v\<bar>" by (rule sint_absInt64)
  moreover have "sint v \<noteq> 0" using assms(2) signed_word_eqI [of v 0] by auto
  ultimately have c: "0 < sint (absInt64 v)" by linarith
  have "sint (r - min64 (absInt64 v) r) = sint r - min (sint (absInt64 v)) (sint r)"
    unfolding diff_as_int sint_min64 using c assms(1) sint_i64_range [of r] by (intro sint_i64_exact) linarith+
  then show ?thesis using c assms(1) by linarith
next
  case True
  then have v: "v = word_of_int (- (2 ^ 63))" by (metis word_of_int_sint64)
  have a: "absInt64 v = word_of_int (- (2 ^ 63))" unfolding v by (simp add: absInt64_def)
  have s: "sint (word_of_int (- (2 ^ 63)) :: i64) = - (2 ^ 63)" by (rule sint_i64_exact) simp_all
  have m: "sint (min64 (absInt64 v) r) = - (2 ^ 63)" unfolding sint_min64 a s using assms(1) by simp
  have "r - min64 (absInt64 v) r = word_of_int (sint r - - (2 ^ 63))" unfolding diff_as_int m ..
  also have "\<dots> = (word_of_int (sint r - 2 ^ 63) :: i64)" by simp
  finally have "sint (r - min64 (absInt64 v) r) = sint r - 2 ^ 63"
    using assms(1) sint_i64_range [of r] sint_i64_exact [of "sint r - 2 ^ 63"] by simp
  then show ?thesis by simp
qed

function apply_loop :: "i64 \<Rightarrow> i64 \<Rightarrow> GoTime \<Rightarrow> i64 \<Rightarrow> i64 \<Rightarrow> portfolio \<Rightarrow> portfolio" where
  "apply_loop dir units ts remaining feeLeft p =
     (if sint remaining \<le> 0 then p
      else
        let openQty = absInt64 (P_position p) in
        if openQty = 0 then portfolio_open dir units remaining feeLeft ts p
        else if (0 < sint (P_position p)) = (0 < sint dir)
        then p\<lparr>P_avgEntry := div64 (P_avgEntry p * openQty + units * remaining) (openQty + remaining),
               P_entryFee := P_entryFee p + feeLeft, P_position := P_position p + dir * remaining\<rparr>
        else
          let closeQty = min64 openQty remaining; partFee = div64 (feeLeft * closeQty) remaining
          in apply_loop dir units ts (remaining - closeQty) (feeLeft - partFee)
               (portfolio_close closeQty units partFee ts p))"
  by pat_completeness auto
termination
  by (relation "measure (\<lambda>(dir, units, ts, remaining, feeLeft, p). nat (sint remaining))")
    (auto simp: loop_decreases)

declare apply_loop.simps [simp del]

definition portfolio_apply :: "Fill \<Rightarrow> portfolio \<Rightarrow> portfolio" where
  "portfolio_apply fill p =
     (let units = priceUnits (Fill_Price fill); fee = priceUnits (Fill_Fee fill);
          dir = (if Fill_Side fill = SideSell then -1 else 1);
          p = p\<lparr>P_cash := P_cash p - dir * units * Fill_Qty fill - fee\<rparr>
      in apply_loop dir units (Fill_TS fill) (Fill_Qty fill) fee p)"

definition equityUnits :: "i64 \<Rightarrow> portfolio \<Rightarrow> i64" where
  "equityUnits markUnits p = P_cash p + P_position p * markUnits"

subsection \<open>The engine\<close>

record fillEngine =
  FE_fm :: FillModel
  FE_nextOrderID :: i64
  FE_working :: "workingOrder list"
  FE_fills :: "Fill list"
  FE_orders :: int
  FE_filled :: int
  FE_cancelled :: int
  FE_unfilledQty :: i64
  FE_portfolio :: portfolio

definition newFillEngine :: "FillModel \<Rightarrow> fillEngine" where
  "newFillEngine fm = \<lparr>FE_fm = fm, FE_nextOrderID = 0, FE_working = [], FE_fills = [], FE_orders = 0, FE_filled = 0,
     FE_cancelled = 0, FE_unfilledQty = 0, FE_portfolio = newPortfolio\<rparr>"

text \<open>\<open>submit\<close>: an order that is refused ends the replay, so the engine it would leave is not returned.\<close>

definition activeAt :: "fillEngine \<Rightarrow> GoTime \<Rightarrow> GoTime" where
  "activeAt e now = Time_Add now (FM_LatencyMs (FE_fm e) * 1000000)"

definition enqueue :: "GoTime \<Rightarrow> LobOrder \<Rightarrow> fillEngine \<Rightarrow> fillEngine" where
  "enqueue active_at ord e =
     e\<lparr>FE_nextOrderID := FE_nextOrderID e + 1,
       FE_working := FE_working e @ [\<lparr>WO_id = FE_nextOrderID e + 1, WO_order = ord, WO_activeAt = active_at,
         WO_active = False, WO_remaining = LO_Qty ord, WO_queueAhead = 0\<rparr>],
       FE_orders := FE_orders e + 1\<rparr>"

primrec submit_loop :: "GoTime \<Rightarrow> LobOrder list \<Rightarrow> fillEngine \<Rightarrow> err + fillEngine" where
  "submit_loop active_at [] e = Inr e"
| "submit_loop active_at (ord # ords) e =
     (case normalizeOrder ord of Inl er \<Rightarrow> Inl er | Inr ord \<Rightarrow> submit_loop active_at ords (enqueue active_at ord e))"

definition submit :: "LobOrder list \<Rightarrow> GoTime \<Rightarrow> fillEngine \<Rightarrow> err + fillEngine" where
  "submit ords now e = submit_loop (activeAt e now) ords e"

definition recordFill :: "Fill \<Rightarrow> fillEngine \<Rightarrow> fillEngine" where
  "recordFill fill e = e\<lparr>FE_fills := FE_fills e @ [fill], FE_portfolio := portfolio_apply fill (FE_portfolio e)\<rparr>"

definition fee :: "(float64 \<Rightarrow> i64 \<Rightarrow> i64) \<Rightarrow> fillEngine \<Rightarrow> Decimal \<Rightarrow> i64 \<Rightarrow> Decimal" where
  "fee cm e price qty =
     (if f_is_zero (FM_FeeBps (FE_fm e)) \<or> sint qty \<le> 0 then zeroDecimal
      else decimalPrice (cm (FM_FeeBps (FE_fm e)) (priceUnits price * qty)))"

definition orderBookSide :: "string \<Rightarrow> string" where
  "orderBookSide side = (if side = SideBuy then SideBid else SideAsk)"

text \<open>The walk over the book: \<open>remaining\<close> and the engine after each price.\<close>

primrec market_walk ::
  "(float64 \<Rightarrow> i64 \<Rightarrow> i64) \<Rightarrow> GoTime \<Rightarrow> workingOrder \<Rightarrow> (i64 \<Rightarrow> i64) \<Rightarrow> i64 list \<Rightarrow> i64 \<Rightarrow> fillEngine \<Rightarrow> i64 \<times> fillEngine" where
  "market_walk cm now w available [] remaining e = (remaining, e)"
| "market_walk cm now w available (units # us) remaining e =
     (if remaining = 0 then (remaining, e)
      else if sint (available units) \<le> 0 then market_walk cm now w available us remaining e
      else
        let qty = min64 (available units) remaining; price = decimalPrice units
        in market_walk cm now w available us (remaining - qty)
             (recordFill \<lparr>Fill_OrderID = WO_id w, Fill_TS = now, Fill_Side = LO_Side (WO_order w),
                Fill_Type = OrderMarket, Fill_Price = price, Fill_Qty = qty, Fill_Fee = fee cm e price qty\<rparr> e))"

definition executeMarket ::
  "(float64 \<Rightarrow> i64 \<Rightarrow> i64) \<Rightarrow> workingOrder \<Rightarrow> GoTime \<Rightarrow> Book \<Rightarrow> fillEngine \<Rightarrow> fillEngine \<times> Book" where
  "executeMarket cm w now b e =
     (let bookSide = (if LO_Side (WO_order w) = SideSell then SideBid else SideAsk);
          (us, b) = sidePrices bookSide b;
          (remaining, e) = market_walk cm now w (\<lambda>u. qtyAt bookSide u b) us (WO_remaining w) e
      in (if remaining = 0 then e\<lparr>FE_filled := FE_filled e + 1\<rparr>
          else e\<lparr>FE_unfilledQty := FE_unfilledQty e + remaining\<rparr>, b))"

text \<open>\<open>activate\<close>: one order, which is kept or done, and the loop that rebuilds the working set.\<close>

definition activate_order ::
  "(float64 \<Rightarrow> i64 \<Rightarrow> i64) \<Rightarrow> GoTime \<Rightarrow> workingOrder \<Rightarrow> fillEngine \<times> Book \<Rightarrow> workingOrder option \<times> fillEngine \<times> Book" where
  "activate_order cm now w eb =
     (case eb of (e, b) \<Rightarrow>
       if WO_active w then (Some w, e, b)
       else if Time_Before now (WO_activeAt w) then (Some w, e, b)
       else
         let w = w\<lparr>WO_active := True\<rparr> in
         if LO_Type (WO_order w) = OrderMarket then (None, executeMarket cm w now b e)
         else (Some (w\<lparr>WO_queueAhead :=
                 (if FM_QueuePosition (FE_fm e)
                  then qtyAt (orderBookSide (LO_Side (WO_order w))) (priceUnits (LO_Price (WO_order w))) b
                  else 0)\<rparr>), e, b))"

primrec activate_loop ::
  "(float64 \<Rightarrow> i64 \<Rightarrow> i64) \<Rightarrow> GoTime \<Rightarrow> workingOrder list \<Rightarrow> fillEngine \<times> Book \<Rightarrow> workingOrder list \<times> fillEngine \<times> Book" where
  "activate_loop cm now [] eb = ([], eb)"
| "activate_loop cm now (w # ws) eb =
     (case activate_order cm now w eb of (w', eb) \<Rightarrow>
       case activate_loop cm now ws eb of (ws, eb) \<Rightarrow> (case w' of None \<Rightarrow> ws | Some w \<Rightarrow> w # ws, eb))"

definition activate :: "(float64 \<Rightarrow> i64 \<Rightarrow> i64) \<Rightarrow> Book \<Rightarrow> GoTime \<Rightarrow> fillEngine \<Rightarrow> fillEngine \<times> Book" where
  "activate cm b now e =
     (case activate_loop cm now (FE_working e) (e, b) of (kept, e, b) \<Rightarrow> (e\<lparr>FE_working := kept\<rparr>, b))"

text \<open>\<open>onTrade\<close>, given the side, price, volume and time of the trade: the fill, one order, and the loop.\<close>

definition limit_fill ::
  "(float64 \<Rightarrow> i64 \<Rightarrow> i64) \<Rightarrow> i64 \<Rightarrow> GoTime \<Rightarrow> workingOrder \<Rightarrow> i64 \<Rightarrow> fillEngine \<Rightarrow> workingOrder option \<times> fillEngine" where
  "limit_fill cm units ts w qty e =
     (let price = decimalPrice units;
          (w, e) = (if 0 < sint qty
            then (w\<lparr>WO_remaining := WO_remaining w - qty\<rparr>,
                  recordFill \<lparr>Fill_OrderID = WO_id w, Fill_TS = ts, Fill_Side = LO_Side (WO_order w),
                    Fill_Type = OrderLimit, Fill_Price = price, Fill_Qty = qty, Fill_Fee = fee cm e price qty\<rparr> e)
            else (w, e))
      in if WO_remaining w = 0 then (None, e\<lparr>FE_filled := FE_filled e + 1\<rparr>) else (Some w, e))"

definition trade_order ::
  "(float64 \<Rightarrow> i64 \<Rightarrow> i64) \<Rightarrow> string \<Rightarrow> i64 \<Rightarrow> i64 \<Rightarrow> GoTime \<Rightarrow> workingOrder \<Rightarrow> fillEngine \<Rightarrow> workingOrder option \<times> fillEngine" where
  "trade_order cm side units vol ts w e =
     (let fillSide = (if side = SideBuy then SideSell else SideBuy) in
      if \<not> WO_active w \<or> sint (WO_remaining w) \<le> 0 \<or> LO_Type (WO_order w) \<noteq> OrderLimit then (Some w, e)
      else if LO_Side (WO_order w) \<noteq> fillSide \<or> priceUnits (LO_Price (WO_order w)) \<noteq> units then (Some w, e)
      else if sint vol \<le> 0 then (Some w, e)
      else if FM_QueuePosition (FE_fm e) \<and> 0 < sint (WO_queueAhead w) \<and> sint vol \<le> sint (WO_queueAhead w)
      then (Some (w\<lparr>WO_queueAhead := WO_queueAhead w - vol\<rparr>), e)
      else
        let queued = FM_QueuePosition (FE_fm e) \<and> 0 < sint (WO_queueAhead w);
            qty = (if queued then vol - WO_queueAhead w else vol);
            w = (if queued then w\<lparr>WO_queueAhead := 0\<rparr> else w);
            qty = (if sint (WO_remaining w) < sint qty then WO_remaining w else qty)
        in limit_fill cm units ts w qty e)"

primrec trade_loop ::
  "(float64 \<Rightarrow> i64 \<Rightarrow> i64) \<Rightarrow> string \<Rightarrow> i64 \<Rightarrow> i64 \<Rightarrow> GoTime \<Rightarrow> workingOrder list \<Rightarrow> fillEngine \<Rightarrow> workingOrder list \<times> fillEngine" where
  "trade_loop cm side units vol ts [] e = ([], e)"
| "trade_loop cm side units vol ts (w # ws) e =
     (case trade_order cm side units vol ts w e of (w', e) \<Rightarrow>
       case trade_loop cm side units vol ts ws e of (ws, e) \<Rightarrow> (case w' of None \<Rightarrow> ws | Some w \<Rightarrow> w # ws, e))"

definition onTrade :: "(float64 \<Rightarrow> i64 \<Rightarrow> i64) \<Rightarrow> string \<Rightarrow> Decimal \<Rightarrow> i64 \<Rightarrow> GoTime \<Rightarrow> fillEngine \<Rightarrow> fillEngine" where
  "onTrade cm side price vol ts e =
     (if side \<noteq> SideBuy \<and> side \<noteq> SideSell then e
      else case trade_loop cm side (priceUnits price) vol ts (FE_working e) e of (kept, e) \<Rightarrow> e\<lparr>FE_working := kept\<rparr>)"

definition cancelAll :: "fillEngine \<Rightarrow> fillEngine" where
  "cancelAll e = e\<lparr>FE_cancelled := FE_cancelled e + int (length (filter (\<lambda>w. 0 < sint (WO_remaining w)) (FE_working e))),
     FE_working := []\<rparr>"

end
