(* ===== verification/Lob_Replay.thy ===== *)
theory Lob_Replay
  imports Lob_Fill
begin

text \<open>
  The replay of a recorded feed, \<open>terminal/lobreplay/replay.go\<close>: events, the state of one run
  (\<open>replayer\<close>), \<open>step\<close>, \<open>Run\<close>, the integer part of its \<open>Result\<close>, and the reader of the JSONL
  recording. A strategy is a function of its own state, the book and the event, which returns its
  orders, the book as it leaves it (\<open>Best\<close> and \<open>Depth\<close> rebuild the cache) and its next state. A source
  is the list of what \<open>Next\<close> returns. The floating-point metrics of \<open>result\<close> are not modelled;
  \<open>encoding/json\<close> and \<open>time.ParseInLocation\<close> are the parameters \<open>unmarshal\<close> and \<open>timeOf\<close>.
\<close>

subsection \<open>Events\<close>

definition KindSnapshot :: string where "KindSnapshot = ''snapshot''"
definition KindLevel :: string where "KindLevel = ''level''"
definition KindGap :: string where "KindGap = ''gap''"
definition KindTrade :: string where "KindTrade = ''trade''"

lemmas kind_defs = KindSnapshot_def KindLevel_def KindGap_def KindTrade_def

record LobTrade =
  LT_TradeNo :: i64
  LT_OpenInterest :: i64

record LobEvent =
  LE_TS :: GoTime
  LE_Kind :: string
  LE_Side :: string
  LE_Price :: Decimal
  LE_Qty :: i64
  LE_Trade :: "LobTrade option"

type_synonym 's strategy = "'s \<Rightarrow> Book \<Rightarrow> LobEvent \<Rightarrow> LobOrder list \<times> Book \<times> 's"

definition validateEvent :: "LobEvent \<Rightarrow> err option" where
  "validateEvent ev =
     (if Time_IsZero (LE_TS ev) then Some (Errorf ''zero event timestamp'' [])
      else if LE_Kind ev = KindSnapshot \<or> LE_Kind ev = KindLevel then
        (if LE_Side ev \<noteq> SideBid \<and> LE_Side ev \<noteq> SideAsk then Some (Errorf ''side of a book event'' [])
         else if sint (LE_Qty ev) < 0 then Some (Errorf ''event qty must not be negative'' [sint (LE_Qty ev)])
         else if 0 < sint (LE_Qty ev) \<and> sint (priceUnits (LE_Price ev)) \<le> 0 then Some (Errorf ''event price must be positive'' [])
         else None)
      else if LE_Kind ev = KindGap then None
      else if LE_Kind ev = KindTrade then
        (if LE_Side ev \<noteq> SideBuy \<and> LE_Side ev \<noteq> SideSell \<and> LE_Side ev \<noteq> SideNone then Some (Errorf ''trade side'' [])
         else if sint (LE_Qty ev) < 0 then Some (Errorf ''trade qty must not be negative'' [sint (LE_Qty ev)])
         else if sint (priceUnits (LE_Price ev)) \<le> 0 then Some (Errorf ''trade price must be positive'' [])
         else None)
      else Some (Errorf ''unknown event kind'' []))"

subsection \<open>The state of a run\<close>

record 's replayer =
  R_book :: Book
  R_fill :: fillEngine
  R_state :: 's
  R_events :: int
  R_gaps :: int
  R_inSnapshot :: bool
  R_seenTrades :: "i64 set"
  R_lastTradeUnits :: i64
  R_firstMarkUnits :: i64
  R_hasMark :: bool
  R_exposureEvents :: int
  R_times :: "GoTime list"
  R_marks :: "i64 list"
  R_equity :: "i64 list"

definition newReplayer :: "FillModel \<Rightarrow> 's \<Rightarrow> 's replayer" where
  "newReplayer fm s = \<lparr>R_book = NewBook, R_fill = newFillEngine fm, R_state = s, R_events = 0, R_gaps = 0, R_inSnapshot = False,
     R_seenTrades = {}, R_lastTradeUnits = 0, R_firstMarkUnits = 0, R_hasMark = False, R_exposureEvents = 0,
     R_times = [], R_marks = [], R_equity = []\<rparr>"

definition set_level :: "LobEvent \<Rightarrow> 's replayer \<Rightarrow> 's replayer" where
  "set_level ev r = r\<lparr>R_book := setLevel (LE_Side ev) (LE_Price ev) (LE_Qty ev) (R_book r)\<rparr>"

definition replay_apply :: "LobEvent \<Rightarrow> 's replayer \<Rightarrow> (err + bool) \<times> 's replayer" where
  "replay_apply ev r =
     (if LE_Kind ev = KindSnapshot then
        (let r = (if R_inSnapshot r then r else r\<lparr>R_book := Reset (R_book r), R_inSnapshot := True\<rparr>)
         in (Inr True, set_level ev r))
      else if LE_Kind ev = KindLevel then (Inr True, set_level ev (r\<lparr>R_inSnapshot := False\<rparr>))
      else if LE_Kind ev = KindGap then
        (Inr True, r\<lparr>R_inSnapshot := False, R_gaps := R_gaps r + 1, R_book := Reset (R_book r), R_fill := cancelAll (R_fill r)\<rparr>)
      else if LE_Kind ev = KindTrade then
        (let r = r\<lparr>R_inSnapshot := False\<rparr>;
             n = (case LE_Trade ev of None \<Rightarrow> 0 | Some t \<Rightarrow> LT_TradeNo t);
             units = priceUnits (LE_Price ev)
         in if n \<noteq> 0 \<and> n \<in> R_seenTrades r then (Inr False, r)
            else (Inr True, r\<lparr>R_seenTrades := (if n \<noteq> 0 then insert n (R_seenTrades r) else R_seenTrades r),
                              R_lastTradeUnits := (if 0 < sint units then units else R_lastTradeUnits r)\<rparr>))
      else (Inl (Errorf ''unknown event kind'' []), r))"

definition markUnits :: "'s replayer \<Rightarrow> i64 \<times> 's replayer" where
  "markUnits r =
     (case Best (R_book r) of ((bid, ask), b) \<Rightarrow>
       (if 0 < sint (Level_Qty bid) \<and> 0 < sint (Level_Qty ask)
        then div64 (priceUnits (Level_Price bid) + priceUnits (Level_Price ask)) 2
        else if 0 < sint (Level_Qty bid) then priceUnits (Level_Price bid)
        else if 0 < sint (Level_Qty ask) then priceUnits (Level_Price ask)
        else R_lastTradeUnits r, r\<lparr>R_book := b\<rparr>))"

definition replay_record :: "LobEvent \<Rightarrow> 's replayer \<Rightarrow> 's replayer" where
  "replay_record ev r =
     (case markUnits (r\<lparr>R_events := R_events r + 1\<rparr>) of (mark, r) \<Rightarrow>
       r\<lparr>R_hasMark := R_hasMark r \<or> 0 < sint mark,
         R_firstMarkUnits := (if 0 < sint mark \<and> \<not> R_hasMark r then mark else R_firstMarkUnits r),
         R_exposureEvents := (if P_position (FE_portfolio (R_fill r)) \<noteq> 0 then R_exposureEvents r + 1 else R_exposureEvents r),
         R_times := R_times r @ [LE_TS ev], R_marks := R_marks r @ [mark],
         R_equity := R_equity r @ [equityUnits mark (FE_portfolio (R_fill r))]\<rparr>)"

definition replay_activate :: "(float64 \<Rightarrow> i64 \<Rightarrow> i64) \<Rightarrow> LobEvent \<Rightarrow> 's replayer \<Rightarrow> 's replayer" where
  "replay_activate cm ev r = (case activate cm (R_book r) (LE_TS ev) (R_fill r) of (e, b) \<Rightarrow> r\<lparr>R_fill := e, R_book := b\<rparr>)"

text \<open>The due orders, then the fills of a trade.\<close>

definition replay_fills :: "(float64 \<Rightarrow> i64 \<Rightarrow> i64) \<Rightarrow> LobEvent \<Rightarrow> 's replayer \<Rightarrow> 's replayer" where
  "replay_fills cm ev r =
     (let r = replay_activate cm ev r in
      if LE_Kind ev = KindTrade
      then r\<lparr>R_fill := onTrade cm (LE_Side ev) (LE_Price ev) (LE_Qty ev) (LE_TS ev) (R_fill r)\<rparr> else r)"

text \<open>\<open>step\<close>; a run that fails returns no result, so an error carries no state.\<close>

definition replay_step ::
  "(float64 \<Rightarrow> i64 \<Rightarrow> i64) \<Rightarrow> 's strategy \<Rightarrow> LobEvent \<Rightarrow> 's replayer \<Rightarrow> err + 's replayer" where
  "replay_step cm strategy ev r =
     (let n = R_events r + 1 in
      case validateEvent ev of
        Some er \<Rightarrow> Inl (WrapN ''lobreplay: event'' [n] er)
      | None \<Rightarrow>
          (case replay_apply ev r of
             (Inl er, _) \<Rightarrow> Inl (WrapN ''lobreplay: event'' [n] er)
           | (Inr False, r) \<Rightarrow> Inr r
           | (Inr True, r) \<Rightarrow>
               (let r = replay_fills cm ev r in
                case strategy (R_state r) (R_book r) ev of (orders, b, s) \<Rightarrow>
                  (case submit orders (LE_TS ev) (R_fill r) of
                     Inl er \<Rightarrow> Inl (WrapN ''lobreplay: event'' [n] er)
                   | Inr e \<Rightarrow> Inr (replay_record ev (replay_activate cm ev (r\<lparr>R_fill := e, R_book := b, R_state := s\<rparr>)))))))"

text \<open>\<open>errors.Is(err, io.EOF)\<close>.\<close>

fun isEOF :: "err \<Rightarrow> bool" where
  "isEOF ErrEOF = True"
| "isEOF (Wrap _ e) = isEOF e"
| "isEOF (WrapN _ _ e) = isEOF e"
| "isEOF _ = False"

text \<open>The loop of \<open>Run\<close>: \<open>ctx i\<close> is \<open>ctx.Err()\<close> in round \<open>i\<close>, the list is what the source returns; after
  its last element it returns \<open>io.EOF\<close>.\<close>

primrec replay_loop ::
  "(float64 \<Rightarrow> i64 \<Rightarrow> i64) \<Rightarrow> 's strategy \<Rightarrow> (nat \<Rightarrow> err option) \<Rightarrow> (err + LobEvent) list \<Rightarrow> nat \<Rightarrow> 's replayer \<Rightarrow> err + 's replayer" where
  "replay_loop cm strategy ctx [] i r =
     (case ctx i of Some er \<Rightarrow> Inl (Wrap ''lobreplay: replay cancelled'' er) | None \<Rightarrow> Inr r)"
| "replay_loop cm strategy ctx (x # xs) i r =
     (case ctx i of
        Some er \<Rightarrow> Inl (Wrap ''lobreplay: replay cancelled'' er)
      | None \<Rightarrow>
          (case x of
             Inl er \<Rightarrow> if isEOF er then Inr r else Inl (Wrap ''lobreplay: source'' er)
           | Inr ev \<Rightarrow>
               (case replay_step cm strategy ev r of
                  Inl er \<Rightarrow> Inl er
                | Inr r \<Rightarrow> replay_loop cm strategy ctx xs (Suc i) r)))"

subsection \<open>The result\<close>

datatype warning = EmptyStream | NoCosts | NoSharpe | GapWarning int | CancelledOrders int | NoLiquidity int | OpenPosition int | NoTrades

record Result =
  Res_Bars :: int
  Res_From :: GoTime
  Res_To :: GoTime
  Res_FinalUnits :: i64
  Res_Trades :: int
  Res_Fills :: "Fill list"
  Res_RoundTrips :: "RoundTrip list"
  Res_Warnings :: "warning list"
  Res_Events :: int
  Res_Orders :: int
  Res_Filled :: int
  Res_Open :: int
  Res_Cancelled :: int
  Res_UnfilledQty :: i64

definition replay_warnings :: "'s replayer \<Rightarrow> warning list" where
  "replay_warnings r =
     (if R_times r = [] then [EmptyStream]
      else (if f_is_zero (FM_FeeBps (FE_fm (R_fill r))) then [NoCosts] else []) @ [NoSharpe]
        @ (if 0 < R_gaps r then [GapWarning (R_gaps r)] else [])
        @ (if 0 < FE_cancelled (R_fill r) then [CancelledOrders (FE_cancelled (R_fill r))] else [])
        @ (if 0 < sint (FE_unfilledQty (R_fill r)) then [NoLiquidity (sint (FE_unfilledQty (R_fill r)))] else [])
        @ (if P_position (FE_portfolio (R_fill r)) \<noteq> 0 then [OpenPosition (sint (P_position (FE_portfolio (R_fill r))))] else [])
        @ (if P_roundTrips (FE_portfolio (R_fill r)) = [] then [NoTrades] else []))"

definition replay_result :: "'s replayer \<Rightarrow> Result" where
  "replay_result r =
     \<lparr>Res_Bars = int (length (R_times r)),
      Res_From = (if R_times r = [] then zeroTime else hd (R_times r)),
      Res_To = (if R_times r = [] then zeroTime else List.last (R_times r)),
      Res_FinalUnits = (if R_equity r = [] then initialCash * priceFactor else List.last (R_equity r)),
      Res_Trades = int (length (P_roundTrips (FE_portfolio (R_fill r)))),
      Res_Fills = FE_fills (R_fill r), Res_RoundTrips = P_roundTrips (FE_portfolio (R_fill r)),
      Res_Warnings = replay_warnings r, Res_Events = int (length (R_times r)),
      Res_Orders = FE_orders (R_fill r), Res_Filled = FE_filled (R_fill r),
      Res_Open = int (length (FE_working (R_fill r))), Res_Cancelled = FE_cancelled (R_fill r),
      Res_UnfilledQty = FE_unfilledQty (R_fill r)\<rparr>"

text \<open>\<open>Run\<close>; a nil source or strategy is \<open>None\<close>.\<close>

definition replay_Run ::
  "(float64 \<Rightarrow> i64 \<Rightarrow> i64) \<Rightarrow> (nat \<Rightarrow> err option) \<Rightarrow> (err + LobEvent) list option \<Rightarrow> ('s strategy \<times> 's) option \<Rightarrow> FillModel \<Rightarrow> err + Result" where
  "replay_Run cm ctx src strat fm =
     (case src of
        None \<Rightarrow> Inl (Errorf ''lobreplay: nil source'' [])
      | Some evs \<Rightarrow>
          (case strat of
             None \<Rightarrow> Inl (Errorf ''lobreplay: nil strategy'' [])
           | Some (strategy, s) \<Rightarrow>
               (case FillModel_validate fm of
                  Some er \<Rightarrow> Inl er
                | None \<Rightarrow> map_sum id replay_result (replay_loop cm strategy ctx evs 0 (newReplayer fm s)))))"

subsection \<open>The recording\<close>

definition bookSideName :: "string \<Rightarrow> err + string" where
  "bookSideName name =
     (if name = SideBid \<or> name = SideAsk then Inr name
      else if name = SideNone \<or> name = [] then Inr SideNone else Inl (Errorf ''unknown book side'' []))"

definition tradeSideName :: "string \<Rightarrow> err + string" where
  "tradeSideName name =
     (if name = SideBuy \<or> name = SideSell then Inr name
      else if name = SideNone \<or> name = [] then Inr SideNone else Inl (Errorf ''unknown trade side'' []))"

definition parsePrice :: "string \<Rightarrow> err + Decimal" where
  "parsePrice text =
     (let text = TrimSpace text in
      if text = [] then Inl (Errorf ''empty decimal'' [])
      else
        let negative = (hd text = CHR ''-'');
            text = (if hd text = CHR ''-'' \<or> hd text = CHR ''+'' then tl text else text);
            (whole, frac) = Cut_dot text; digits = whole @ frac
        in if digits = [] then Inl (Errorf ''no digits'' [])
           else if 255 < length frac then Inl (Errorf ''more than 255 decimals'' [])
           else (case ParseInt digits of
               Inl er \<Rightarrow> Inl (Wrap ''not an int64 fixed-point value'' er)
             | Inr units \<Rightarrow> Inr \<lparr>Units = (if negative then - units else units), Scale = of_nat (length frac)\<rparr>))"

record jsonRow =
  JR_Table :: string
  JR_TS :: string
  JR_Board :: string
  JR_SecCode :: string
  JR_Kind :: string
  JR_Side :: string
  JR_Price :: string
  JR_Qty :: i64
  JR_TradeNo :: i64
  JR_OpenInterest :: i64

record JSONLSource =
  JS_line :: int
  JS_lastTS :: GoTime
  JS_board :: string
  JS_secCode :: string
  JS_hasSymbol :: bool

definition newJSONL :: JSONLSource where
  "newJSONL = \<lparr>JS_line = 0, JS_lastTS = zeroTime, JS_board = [], JS_secCode = [], JS_hasSymbol = False\<rparr>"

text \<open>The row of a decoded line as an event, once its time, symbol and price are known.\<close>

definition row_event :: "jsonRow \<Rightarrow> GoTime \<Rightarrow> Decimal \<Rightarrow> err + LobEvent" where
  "row_event row ts price =
     (if JR_Table row = ''book_events'' then
        (if JR_Kind row \<noteq> KindSnapshot \<and> JR_Kind row \<noteq> KindLevel \<and> JR_Kind row \<noteq> KindGap
         then Inl (Errorf ''unknown book kind'' [])
         else case bookSideName (JR_Side row) of
             Inl er \<Rightarrow> Inl er
           | Inr side \<Rightarrow>
               if JR_Kind row \<noteq> KindGap \<and> side = SideNone then Inl (Errorf ''row with side'' [])
               else Inr \<lparr>LE_TS = ts, LE_Kind = JR_Kind row, LE_Side = side, LE_Price = price, LE_Qty = JR_Qty row, LE_Trade = None\<rparr>)
      else if JR_Table row = ''trades'' then
        (case tradeSideName (JR_Side row) of
           Inl er \<Rightarrow> Inl er
         | Inr side \<Rightarrow>
             Inr \<lparr>LE_TS = ts, LE_Kind = KindTrade, LE_Side = side, LE_Price = price, LE_Qty = JR_Qty row,
                  LE_Trade = Some \<lparr>LT_TradeNo = JR_TradeNo row, LT_OpenInterest = JR_OpenInterest row\<rparr>\<rparr>)
      else Inl (Errorf ''unknown table'' []))"

definition JSONL_parse ::
  "(string \<Rightarrow> err + jsonRow) \<Rightarrow> (string \<Rightarrow> err + GoTime) \<Rightarrow> string \<Rightarrow> JSONLSource \<Rightarrow> (err + LobEvent) \<times> JSONLSource" where
  "JSONL_parse unmarshal timeOf line s =
     (case unmarshal line of
        Inl er \<Rightarrow> (Inl (Wrap ''decode row'' er), s)
      | Inr row \<Rightarrow>
          if JR_TS row = [] then (Inl (Errorf ''row has no ts'' []), s)
          else (case timeOf (JR_TS row) of
              Inl er \<Rightarrow> (Inl (Wrap ''ts'' er), s)
            | Inr ts \<Rightarrow>
                if JR_Board row = [] \<or> JR_SecCode row = [] then (Inl (Errorf ''row has no board/sec_code'' []), s)
                else if JS_hasSymbol s \<and> (JR_Board row \<noteq> JS_board s \<or> JR_SecCode row \<noteq> JS_secCode s)
                then (Inl (Errorf ''one instrument per file'' []), s)
                else
                  let s = s\<lparr>JS_hasSymbol := True, JS_board := JR_Board row, JS_secCode := JR_SecCode row\<rparr>
                  in (case parsePrice (JR_Price row) of
                        Inl er \<Rightarrow> (Inl (Wrap ''price'' er), s)
                      | Inr price \<Rightarrow> (row_event row ts price, s))))"

text \<open>\<open>Next\<close> on the lines the scanner has still to deliver, and its error at their end. \<open>TrimSpace\<close> of
  \<open>bytes\<close> is that of \<open>strings\<close>.\<close>

primrec JSONL_Next ::
  "(string \<Rightarrow> err + jsonRow) \<Rightarrow> (string \<Rightarrow> err + GoTime) \<Rightarrow> err option \<Rightarrow> string list \<Rightarrow> JSONLSource
   \<Rightarrow> (err + LobEvent) \<times> string list \<times> JSONLSource" where
  "JSONL_Next unmarshal timeOf scanErr [] s =
     (case scanErr of Some er \<Rightarrow> Inl (Wrap ''lobreplay: read source'' er) | None \<Rightarrow> Inl ErrEOF, [], s)"
| "JSONL_Next unmarshal timeOf scanErr (l # ls) s =
     (let s = s\<lparr>JS_line := JS_line s + 1\<rparr>; line = TrimSpace l in
      if line = [] then JSONL_Next unmarshal timeOf scanErr ls s
      else (case JSONL_parse unmarshal timeOf line s of
          (Inl er, s) \<Rightarrow> (Inl (WrapN ''lobreplay: line'' [JS_line s] er), ls, s)
        | (Inr ev, s) \<Rightarrow>
            if \<not> Time_IsZero (JS_lastTS s) \<and> Time_Before (LE_TS ev) (JS_lastTS s)
            then (Inl (Errorf ''lobreplay: timestamp goes back'' [JS_line s]), ls, s)
            else (Inr ev, ls, s\<lparr>JS_lastTS := LE_TS ev\<rparr>)))"

end
