(* ===== verification/Lob_Book_Replay.thy ===== *)
theory Lob_Book_Replay
  imports Lob_Replay
begin

text \<open>
  What the replay does to its book: after any accepted events it holds at every price the volume of the
  last row of that price since the last reset, whatever the strategy and the fill model do in between.
\<close>

subsection \<open>Runs\<close>

primrec replay_steps ::
  "(float64 \<Rightarrow> i64 \<Rightarrow> i64) \<Rightarrow> 's strategy \<Rightarrow> LobEvent list \<Rightarrow> 's replayer \<Rightarrow> err + 's replayer" where
  "replay_steps cm strategy [] r = Inr r"
| "replay_steps cm strategy (ev # evs) r =
     (case replay_step cm strategy ev r of Inl er \<Rightarrow> Inl er | Inr r \<Rightarrow> replay_steps cm strategy evs r)"

lemma replay_steps_append:
  "replay_steps cm strategy (xs @ ys) r =
     (case replay_steps cm strategy xs r of Inl er \<Rightarrow> Inl er | Inr r \<Rightarrow> replay_steps cm strategy ys r)"
  by (induction xs arbitrary: r) (simp_all split: sum.split)

text \<open>The loop of \<open>Run\<close> replays the events up to the first end of the stream.\<close>

fun readable :: "(err + LobEvent) list \<Rightarrow> LobEvent list" where
  "readable (Inr ev # xs) = ev # readable xs"
| "readable _ = []"

lemma replay_loop_steps:
  "replay_loop cm strategy ctx xs i r = Inr r' \<Longrightarrow> replay_steps cm strategy (readable xs) r = Inr r'"
proof (induction xs arbitrary: i r)
  case (Cons x xs)
  then show ?case by (cases x) (auto split: option.splits if_splits sum.splits)
qed (auto split: option.splits)

lemma replay_RunE:
  assumes "replay_Run cm ctx (Some xs) (Some (strategy, s)) fm = Inr res"
  obtains r where "replay_steps cm strategy (readable xs) (newReplayer fm s) = Inr r" "res = replay_result r"
    "FillModel_validate fm = None"
proof -
  obtain r where l: "replay_loop cm strategy ctx xs 0 (newReplayer fm s) = Inr r" "res = replay_result r" "FillModel_validate fm = None"
    using assms by (cases "replay_loop cm strategy ctx xs 0 (newReplayer fm s)") (auto simp: replay_Run_def split: option.splits)
  from that [OF replay_loop_steps [OF l(1)] l(2,3)] show thesis .
qed

text \<open>A step skips a repeated trade or goes through all its stages.\<close>

lemma replay_stepE:
  assumes "replay_step cm strategy ev r = Inr r'"
  obtains (skip) "validateEvent ev = None" "replay_apply ev r = (Inr False, r')"
  | (full) r1 orders b s e where "validateEvent ev = None" "replay_apply ev r = (Inr True, r1)"
      "strategy (R_state (replay_fills cm ev r1)) (R_book (replay_fills cm ev r1)) ev = (orders, b, s)"
      "submit orders (LE_TS ev) (R_fill (replay_fills cm ev r1)) = Inr e"
      "r' = replay_record ev (replay_activate cm ev ((replay_fills cm ev r1)\<lparr>R_fill := e, R_book := b, R_state := s\<rparr>))"
proof -
  obtain a r1 where a: "replay_apply ev r = (a, r1)" by fastforce
  from assms have v: "validateEvent ev = None" by (simp add: replay_step_def Let_def split: option.splits)
  show thesis
  proof (cases a)
    case (Inr k)
    obtain orders b s where st: "strategy (R_state (replay_fills cm ev r1)) (R_book (replay_fills cm ev r1)) ev = (orders, b, s)"
      by (metis prod_cases3)
    show thesis
    proof (cases k)
      case False
      with assms have "r' = r1" by (simp add: replay_step_def v a Inr)
      with False v a Inr show thesis by (intro skip) simp_all
    next
      case True
      with assms obtain e where e: "submit orders (LE_TS ev) (R_fill (replay_fills cm ev r1)) = Inr e"
          "r' = replay_record ev (replay_activate cm ev ((replay_fills cm ev r1)\<lparr>R_fill := e, R_book := b, R_state := s\<rparr>))"
        by (auto simp: replay_step_def Let_def v a Inr st split: sum.splits)
      from True a Inr have "replay_apply ev r = (Inr True, r1)" by simp
      from full [OF v this st e] show thesis .
    qed
  qed (use assms v a in \<open>simp add: replay_step_def Let_def\<close>)
qed

subsection \<open>Reading leaves the levels alone\<close>

definition same_levels :: "Book \<Rightarrow> Book \<Rightarrow> bool" where
  "same_levels b b' \<longleftrightarrow> Book_bids b' = Book_bids b \<and> Book_asks b' = Book_asks b \<and> (book_ok b \<longrightarrow> book_ok b')"

lemma same_levels_refl [simp, intro]: "same_levels b b"
  by (simp add: same_levels_def)

lemma same_levels_trans [trans]: "same_levels a b \<Longrightarrow> same_levels b c \<Longrightarrow> same_levels a c"
  by (simp add: same_levels_def)

lemma same_levels_sortedKeys [simp, intro]: "same_levels b (sortedKeys b)"
  by (auto simp: same_levels_def)

lemma same_levels_volume: "same_levels b b' \<Longrightarrow> volume side b' = volume side b"
  by (simp add: same_levels_def volume_def qtyAt_def levels_def fun_eq_iff)

lemma same_levels_Best [simp, intro]: "same_levels b (snd (Best b))"
  by (simp add: Best_def Let_def)

lemma same_levels_Depth [simp, intro]: "same_levels b (snd (Depth n b))"
  by (simp add: Depth_def Let_def)

lemma same_levels_executeMarket: "executeMarket cm w now b e = (e', b') \<Longrightarrow> same_levels b b'"
  by (auto simp: executeMarket_def sidePrices_def Let_def split: prod.splits)

lemma same_levels_activate_order:
  assumes "activate_order cm now w (e, b) = (w', e', b')" shows "same_levels b b'"
  using assms same_levels_executeMarket
  by (auto simp: activate_order_def Let_def split: if_splits)

lemma same_levels_activate_loop:
  "activate_loop cm now ws (e, b) = (ws', e', b') \<Longrightarrow> same_levels b b'"
proof (induction ws arbitrary: e b ws' e' b')
  case (Cons w ws)
  obtain w1 e1 b1 where a: "activate_order cm now w (e, b) = (w1, e1, b1)" by (metis prod_cases3)
  obtain ws2 e2 b2 where l: "activate_loop cm now ws (e1, b1) = (ws2, e2, b2)" by (metis prod_cases3)
  from Cons.prems have "b' = b2" by (simp add: a l)
  with same_levels_activate_order [OF a] Cons.IH [OF l] show ?case by (blast intro: same_levels_trans)
qed simp

lemma same_levels_activate: "activate cm b now e = (e', b') \<Longrightarrow> same_levels b b'"
  by (auto simp: activate_def split: prod.splits dest: same_levels_activate_loop)

lemma same_levels_replay_activate: "same_levels (R_book r) (R_book (replay_activate cm ev r))"
  by (auto simp: replay_activate_def split: prod.splits dest: same_levels_activate)

lemma same_levels_replay_fills: "same_levels (R_book r) (R_book (replay_fills cm ev r))"
  using same_levels_replay_activate [of r cm ev] by (simp add: replay_fills_def Let_def)

lemma same_levels_replay_record: "same_levels (R_book r) (R_book (replay_record ev r))"
proof -
  have "same_levels b b'" if "Best b = (x, b')" for b x b' using same_levels_Best [of b] that by simp
  then show ?thesis by (auto simp: replay_record_def markUnits_def split: prod.splits)
qed

text \<open>A strategy gets the book to read it.\<close>

definition reads_book :: "'s strategy \<Rightarrow> bool" where
  "reads_book strategy \<longleftrightarrow> (\<forall>s b ev. same_levels b (fst (snd (strategy s b ev))))"

text \<open>The book after a step: that of \<open>apply\<close>, but for the cache.\<close>

lemma replay_step_book:
  assumes "replay_step cm strategy ev r = Inr r'" "reads_book strategy"
  shows "same_levels (R_book (snd (replay_apply ev r))) (R_book r')"
  using assms(1)
proof (cases rule: replay_stepE)
  case (full r1 orders b s e)
  let ?f = "replay_fills cm ev r1" let ?g = "?f\<lparr>R_fill := e, R_book := b, R_state := s\<rparr>"
  have "same_levels (R_book r1) (R_book ?f)" by (rule same_levels_replay_fills)
  also have "same_levels (R_book ?f) b"
    using assms(2) full(3) unfolding reads_book_def by (metis fst_conv snd_conv)
  also have "same_levels b (R_book (replay_activate cm ev ?g))" using same_levels_replay_activate [of ?g] by simp
  also have "same_levels (R_book (replay_activate cm ev ?g)) (R_book r')"
    unfolding full(5) by (rule same_levels_replay_record)
  finally show ?thesis by (simp add: full(2))
qed simp

subsection \<open>The rest of the state\<close>

lemma replay_activate_keeps [simp]:
  "R_inSnapshot (replay_activate cm ev r) = R_inSnapshot r" "R_seenTrades (replay_activate cm ev r) = R_seenTrades r"
  "R_events (replay_activate cm ev r) = R_events r" "R_times (replay_activate cm ev r) = R_times r"
  "R_state (replay_activate cm ev r) = R_state r" "R_gaps (replay_activate cm ev r) = R_gaps r"
  by (simp_all add: replay_activate_def split: prod.split)

lemma replay_fills_keeps [simp]:
  "R_inSnapshot (replay_fills cm ev r) = R_inSnapshot r" "R_seenTrades (replay_fills cm ev r) = R_seenTrades r"
  "R_events (replay_fills cm ev r) = R_events r" "R_times (replay_fills cm ev r) = R_times r"
  "R_state (replay_fills cm ev r) = R_state r" "R_gaps (replay_fills cm ev r) = R_gaps r"
  by (simp_all add: replay_fills_def Let_def)

lemma replay_record_keeps [simp]:
  "R_inSnapshot (replay_record ev r) = R_inSnapshot r" "R_seenTrades (replay_record ev r) = R_seenTrades r"
  "R_events (replay_record ev r) = R_events r + 1" "R_times (replay_record ev r) = R_times r @ [LE_TS ev]"
  "R_state (replay_record ev r) = R_state r" "R_gaps (replay_record ev r) = R_gaps r" "R_fill (replay_record ev r) = R_fill r"
  by (simp_all add: replay_record_def markUnits_def split: prod.split)

lemma replay_step_flags:
  assumes "replay_step cm strategy ev r = Inr r'"
  shows "R_inSnapshot r' = R_inSnapshot (snd (replay_apply ev r))" "R_seenTrades r' = R_seenTrades (snd (replay_apply ev r))"
  using assms by (auto elim!: replay_stepE)

lemma replay_apply_inSnapshot:
  "validateEvent ev = None \<Longrightarrow> R_inSnapshot (snd (replay_apply ev r)) \<longleftrightarrow> LE_Kind ev = KindSnapshot"
  by (auto simp: replay_apply_def validateEvent_def set_level_def Let_def kind_defs split: if_splits option.splits)

subsection \<open>The book as a function of the rows\<close>

text \<open>\<open>recent\<close> takes the events newest first and stops at the last reset: a gap, or the first row of a
  run of snapshot rows. The volume at a price is that of the newest row of this price among them.\<close>

fun recent :: "LobEvent list \<Rightarrow> LobEvent list" where
  "recent [] = []"
| "recent (ev # older) =
     (if LE_Kind ev = KindGap then []
      else if LE_Kind ev = KindSnapshot \<and> (older = [] \<or> LE_Kind (hd older) \<noteq> KindSnapshot) then [ev]
      else ev # recent older)"

definition is_row :: "string \<Rightarrow> i64 \<Rightarrow> LobEvent \<Rightarrow> bool" where
  "is_row side u ev \<longleftrightarrow> (LE_Kind ev = KindSnapshot \<or> LE_Kind ev = KindLevel) \<and> LE_Side ev = side \<and> priceUnits (LE_Price ev) = u"

definition recorded :: "string \<Rightarrow> i64 \<Rightarrow> LobEvent list \<Rightarrow> int" where
  "recorded side u evs = (case List.find (is_row side u) (recent (rev evs)) of None \<Rightarrow> 0 | Some ev \<Rightarrow> sint (LE_Qty ev))"

lemma recorded_snoc:
  "recorded side u (evs @ [ev]) =
     (if LE_Kind ev = KindGap then 0
      else if is_row side u ev then sint (LE_Qty ev)
      else if LE_Kind ev = KindSnapshot \<and> (evs = [] \<or> LE_Kind (List.last evs) \<noteq> KindSnapshot) then 0
      else recorded side u evs)"
  by (auto simp: recorded_def is_row_def kind_defs hd_rev)

lemma R_book_replay_apply:
  "R_book (snd (replay_apply ev r)) =
     (if LE_Kind ev = KindSnapshot
      then setLevel (LE_Side ev) (LE_Price ev) (LE_Qty ev) (if R_inSnapshot r then R_book r else Reset (R_book r))
      else if LE_Kind ev = KindLevel then setLevel (LE_Side ev) (LE_Price ev) (LE_Qty ev) (R_book r)
      else if LE_Kind ev = KindGap then Reset (R_book r) else R_book r)"
  by (simp add: replay_apply_def set_level_def Let_def)

lemma valid_row:
  "validateEvent ev = None \<Longrightarrow> LE_Kind ev = KindSnapshot \<or> LE_Kind ev = KindLevel \<Longrightarrow>
    (LE_Side ev = SideBid \<or> LE_Side ev = SideAsk) \<and> 0 \<le> sint (LE_Qty ev)"
  by (auto simp: validateEvent_def split: if_splits)

lemma volume_replay_apply:
  assumes "validateEvent ev = None" "side = SideBid \<or> side = SideAsk"
  shows "volume side (R_book (snd (replay_apply ev r))) u =
     (if LE_Kind ev = KindGap then 0
      else if is_row side u ev then sint (LE_Qty ev)
      else if LE_Kind ev = KindSnapshot \<and> \<not> R_inSnapshot r then 0
      else volume side (R_book r) u)"
proof (cases "LE_Kind ev = KindSnapshot \<or> LE_Kind ev = KindLevel")
  case True
  have "(side = SideBid) = (LE_Side ev = SideBid) \<longleftrightarrow> LE_Side ev = side"
    using valid_row [OF assms(1) True] assms(2) by (auto simp: SideBid_def SideAsk_def)
  moreover have "LE_Kind ev \<noteq> KindGap" using True by (auto simp: kind_defs)
  ultimately show ?thesis
    using valid_row [OF assms(1) True] True
    by (auto simp: R_book_replay_apply volume_setLevel is_row_def)
next
  case False
  then show ?thesis by (simp add: R_book_replay_apply is_row_def)
qed

lemma book_ok_replay_apply: "book_ok (R_book r) \<Longrightarrow> book_ok (R_book (snd (replay_apply ev r)))"
  by (auto simp: replay_apply_def set_level_def Let_def split: option.splits)

lemma replay_book_inv:
  assumes "replay_steps cm strategy evs (newReplayer fm s) = Inr r" "reads_book strategy"
  shows "book_ok (R_book r) \<and> (R_inSnapshot r \<longleftrightarrow> evs \<noteq> [] \<and> LE_Kind (List.last evs) = KindSnapshot) \<and>
    (side = SideBid \<or> side = SideAsk \<longrightarrow> volume side (R_book r) u = recorded side u evs)"
  using assms(1)
proof (induction evs arbitrary: r rule: rev_induct)
  case Nil
  then have "r = newReplayer fm s" by simp
  then show ?case by (simp add: newReplayer_def recorded_def)
next
  case (snoc ev evs)
  then obtain q where q: "replay_steps cm strategy evs (newReplayer fm s) = Inr q" "replay_step cm strategy ev q = Inr r"
    by (auto simp: replay_steps_append split: sum.splits)
  note IH = snoc.IH [OF q(1)] and same = replay_step_book [OF q(2) assms(2)]
  have v: "validateEvent ev = None" using q(2) by (auto elim: replay_stepE)
  have "volume side (R_book r) u = recorded side u (evs @ [ev])" if side: "side = SideBid \<or> side = SideAsk"
    using IH side by (auto simp: same_levels_volume [OF same] volume_replay_apply [OF v side] recorded_snoc)
  moreover have "book_ok (R_book r)" using same IH book_ok_replay_apply [of q ev] by (simp add: same_levels_def)
  moreover have "R_inSnapshot r \<longleftrightarrow> LE_Kind ev = KindSnapshot"
    by (simp add: replay_step_flags [OF q(2)] replay_apply_inSnapshot [OF v])
  ultimately show ?case by simp
qed

text \<open>
  C37: the book of a replay is that of the recording: after any accepted events, at every price the
  volume is that of the newest row of this price since the last reset (a gap, or the first row of a
  run of snapshot rows), zero if there is none, so rows from before a gap are never joined with later
  ones; and the prices a market order walks and \<open>Best\<close> and \<open>Depth\<close> show are exactly the prices with volume,
  each once, best first, whatever the strategy read before.
\<close>

theorem replay_book:
  assumes "replay_steps cm strategy evs (newReplayer fm s) = Inr r" "reads_book strategy" "side = SideBid \<or> side = SideAsk"
  shows "volume side (R_book r) u = recorded side u evs \<and>
    set (fst (sidePrices side (R_book r))) = {u. 0 < recorded side u evs} \<and>
    sorted_wrt (better side) (fst (sidePrices side (R_book r)))"
proof -
  have ok: "book_ok (R_book r)" and v: "volume side (R_book r) u = recorded side u evs" for u
    using replay_book_inv [OF assms(1,2)] assms(3) by blast+
  from v mem_sidePrices [OF ok, of _ side] sidePrices_props(2) [OF ok] show ?thesis by auto
qed

definition book_event :: "int \<Rightarrow> string \<Rightarrow> string \<Rightarrow> i64 \<Rightarrow> i64 \<Rightarrow> LobEvent" where
  "book_event t kind side units qty =
     \<lparr>LE_TS = \<lparr>T_sec = 1, T_nsec = t\<rparr>, LE_Kind = kind, LE_Side = side, LE_Price = decimalPrice units, LE_Qty = qty, LE_Trade = None\<rparr>"

definition idle :: "unit strategy" where
  "idle s b ev = ([], snd (Depth 5 b), s)"

definition flat_model :: FillModel where
  "flat_model = \<lparr>FM_LatencyMs = 0, FM_QueuePosition = True, FM_FeeBps = 0\<rparr>"

definition gap_events :: "LobEvent list" where
  "gap_events =
     [book_event 0 KindSnapshot SideBid 100 5, book_event 0 KindSnapshot SideAsk 101 5, book_event 1 KindLevel SideBid 99 7,
      book_event 2 KindGap [] 0 0, book_event 3 KindSnapshot SideBid 200 3, book_event 3 KindSnapshot SideBid 201 4]"

lemmas replay_evals = book_event_def idle_def flat_model_def newReplayer_def newFillEngine_def NewBook_def
  replay_step_def validateEvent_def replay_apply_def set_level_def setLevel_def levels_def put_levels_def Reset_def
  Time_IsZero_def kind_defs name_defs replay_fills_def replay_activate_def activate_def cancelAll_def submit_def
  replay_record_def markUnits_def Best_def sortedKeys_def Depth_def bestBids_def bestAsks_def mapGet_def level_at_def
  zeroLevel_def

lemma idle_reads: "reads_book idle"
  by (simp add: reads_book_def idle_def)

lemma gap_steps: "\<exists>r. replay_steps (\<lambda>_ _. 0) idle gap_events (newReplayer flat_model ()) = Inr r"
proof -
  have "case replay_steps (\<lambda>_ _. 0) idle gap_events (newReplayer flat_model ()) of Inr r \<Rightarrow> True | Inl e \<Rightarrow> False" 
    by (simp add: replay_evals gap_events_def)
  then show ?thesis by (auto split: sum.splits)
qed

theorem replay_book_witness:
  "\<exists>r :: unit replayer. volume SideBid (R_book r) 100 = 0 \<and> volume SideBid (R_book r) 201 = 4 \<and>
    201 \<in> set (fst (sidePrices SideBid (R_book r)))"
proof -
  obtain r where r: "replay_steps (\<lambda>_ _. 0) idle gap_events (newReplayer flat_model ()) = Inr r" using gap_steps by blast
  have "recorded SideBid 100 gap_events = 0" "recorded SideBid 201 gap_events = 4" by code_simp+
  moreover have "volume SideBid (R_book r) u = recorded SideBid u gap_events"
    "set (fst (sidePrices SideBid (R_book r))) = {u. 0 < recorded SideBid u gap_events}" for u
    using replay_book [OF r idle_reads disjI1 [OF refl]] by blast+
  ultimately show ?thesis by (intro exI [of _ r]) simp
qed

end
