(* ===== verification/Lob_Portfolio.thy ===== *)
theory Lob_Portfolio
  imports Lob_Fill
begin

text \<open>
  The books of the replay portfolio balance. The 64-bit portfolio of \<open>fill.go\<close> refines a ledger on
  integers in which the loop of \<open>apply\<close> is one case distinction, as long as the products it forms fit in
  an \<open>int64\<close>; the ledger accounts for every lot, every fee and, up to the rounding of the average price,
  for every unit of money.
\<close>

subsection \<open>Exact arithmetic in \<open>int64\<close>\<close>

definition fits :: "int \<Rightarrow> bool" where
  "fits k \<longleftrightarrow> - (2 ^ 63) \<le> k \<and> k < 2 ^ 63"

lemma fits_sint [simp, intro]: "fits (sint (v :: i64))"
  using sint_i64_range [of v] by (simp add: fits_def)

lemma fits_abs: "fits b \<Longrightarrow> \<bar>k\<bar> \<le> b \<Longrightarrow> fits k"
  by (auto simp: fits_def abs_le_iff)

lemma fits_diff: "fits a \<Longrightarrow> fits b \<Longrightarrow> 0 \<le> a \<Longrightarrow> 0 \<le> b \<Longrightarrow> fits (a - b)"
  by (auto simp: fits_def)

lemma sint_of_fits: "fits k \<Longrightarrow> sint (word_of_int k :: i64) = k"
  by (simp add: fits_def sint_i64_exact)

lemma sint_exact:
  "fits (sint a + sint b) \<Longrightarrow> sint (a + b :: i64) = sint a + sint b"
  "fits (sint a - sint b) \<Longrightarrow> sint (a - b :: i64) = sint a - sint b"
  "fits (sint a * sint b) \<Longrightarrow> sint (a * b :: i64) = sint a * sint b"
  "fits (- sint a) \<Longrightarrow> sint (- a :: i64) = - sint a"
proof -
  have w: "a + b = word_of_int (sint a + sint b)" "a - b = word_of_int (sint a - sint b)"
    "a * b = word_of_int (sint a * sint b)" "- a = word_of_int (- sint a)" by simp_all
  show "fits (sint a + sint b) \<Longrightarrow> sint (a + b :: i64) = sint a + sint b" by (metis w(1) sint_of_fits)
  show "fits (sint a - sint b) \<Longrightarrow> sint (a - b :: i64) = sint a - sint b" by (metis w(2) sint_of_fits)
  show "fits (sint a * sint b) \<Longrightarrow> sint (a * b :: i64) = sint a * sint b" by (metis w(3) sint_of_fits)
  show "fits (- sint a) \<Longrightarrow> sint (- a :: i64) = - sint a" by (metis w(4) sint_of_fits)
qed

lemma sint_diff: "0 \<le> sint a \<Longrightarrow> 0 \<le> sint b \<Longrightarrow> sint (a - b :: i64) = sint a - sint b"
  by (intro sint_exact fits_diff fits_sint)

lemma sint_div64: "0 \<le> sint a \<Longrightarrow> 0 < sint b \<Longrightarrow> sint (div64 a b) = sint a div sint b"
proof -
  assume ab: "0 \<le> sint a" "0 < sint b"
  have e: "sint a sdiv sint b = sint a div sint b" using ab by (cases "sint a = 0") (simp_all add: signed_divide_int_def)
  have "0 \<le> sint a div sint b" "sint a div sint b \<le> sint a"
    using ab zdiv_mono2 [of "sint a" 1 "sint b"] by (simp_all add: pos_imp_zdiv_nonneg_iff)
  then have "fits (sint a div sint b)" by (intro fits_abs [OF fits_sint [of a]]) simp
  then show ?thesis unfolding div64_def e by (rule sint_of_fits)
qed

subsection \<open>The ledger\<close>

record ledger =
  Lg_pos :: int
  Lg_avg :: int
  Lg_fee :: int
  Lg_cash :: int
  Lg_closed :: int
  Lg_pnl :: int
  Lg_fees :: int

definition ledger_of :: "portfolio \<Rightarrow> ledger" where
  "ledger_of p =
     \<lparr>Lg_pos = sint (P_position p), Lg_avg = sint (P_avgEntry p), Lg_fee = sint (P_entryFee p), Lg_cash = sint (P_cash p),
      Lg_closed = (\<Sum>t\<leftarrow>P_roundTrips p. sint (RT_Qty t)),
      Lg_pnl = (\<Sum>t\<leftarrow>P_roundTrips p. sint (priceUnits (RT_PnL t))),
      Lg_fees = (\<Sum>t\<leftarrow>P_roundTrips p. sint (priceUnits (RT_Fee t)))\<rparr>"

definition ledger_open :: "int \<Rightarrow> int \<Rightarrow> int \<Rightarrow> int \<Rightarrow> ledger \<Rightarrow> ledger" where
  "ledger_open dir u q fee1 l = l\<lparr>Lg_pos := dir * q, Lg_avg := u, Lg_fee := fee1\<rparr>"

definition ledger_close :: "int \<Rightarrow> int \<Rightarrow> int \<Rightarrow> ledger \<Rightarrow> ledger" where
  "ledger_close c u fee1 l =
     (let share = Lg_fee l * c div \<bar>Lg_pos l\<bar>; rest = Lg_pos l - sgn (Lg_pos l) * c
      in l\<lparr>Lg_pos := rest, Lg_avg := (if rest = 0 then 0 else Lg_avg l), Lg_fee := (if rest = 0 then 0 else Lg_fee l - share),
           Lg_closed := Lg_closed l + c, Lg_pnl := Lg_pnl l + sgn (Lg_pos l) * (u - Lg_avg l) * c,
           Lg_fees := Lg_fees l + (share + fee1)\<rparr>)"

definition ledger_fill :: "int \<Rightarrow> int \<Rightarrow> int \<Rightarrow> int \<Rightarrow> ledger \<Rightarrow> ledger" where
  "ledger_fill dir u q fee1 l =
     (let pos = Lg_pos l in
      if pos = 0 then ledger_open dir u q fee1 l
      else if sgn pos = dir
      then l\<lparr>Lg_pos := pos + dir * q, Lg_avg := (Lg_avg l * \<bar>pos\<bar> + u * q) div (\<bar>pos\<bar> + q), Lg_fee := Lg_fee l + fee1\<rparr>
      else if q \<le> \<bar>pos\<bar> then ledger_close q u fee1 l
      else
        let part = fee1 * \<bar>pos\<bar> div q
        in ledger_open dir u (q - \<bar>pos\<bar>) (fee1 - part) (ledger_close \<bar>pos\<bar> u part l))"

definition ledger_apply :: "int \<Rightarrow> int \<Rightarrow> int \<Rightarrow> int \<Rightarrow> ledger \<Rightarrow> ledger" where
  "ledger_apply dir u q fee1 l = ledger_fill dir u q fee1 (l\<lparr>Lg_cash := Lg_cash l - dir * u * q - fee1\<rparr>)"

subsection \<open>Refinement\<close>

lemma sint_absInt64_fits: "fits \<bar>sint v\<bar> \<Longrightarrow> sint (absInt64 v) = \<bar>sint v\<bar>"
  by (rule sint_absInt64) (auto simp: fits_def)

lemma sint_eq_0 [simp]: "sint (v :: i64) = 0 \<longleftrightarrow> v = 0"
  using signed_word_eqI [of v 0] by auto

lemma portfolio_close_refines:
  assumes "sint (P_position p) \<noteq> 0" "0 < sint c" "sint c \<le> \<bar>sint (P_position p)\<bar>" "0 \<le> sint (P_avgEntry p)" "0 \<le> sint u"
    "0 \<le> sint (P_entryFee p)" "0 \<le> sint f" and pos: "fits \<bar>sint (P_position p)\<bar>"
    and "fits (sint (P_avgEntry p) * sint c)" "fits (sint u * sint c)" "fits (sint (P_entryFee p) * sint c)"
    "fits (sint (P_entryFee p) + sint f)"
  shows "ledger_of (portfolio_close c u f ts p) = ledger_close (sint c) (sint u) (sint f) (ledger_of p)"
proof -
  define x where "x = sint (P_position p)"
  let ?share = "sint (P_entryFee p) * sint c div \<bar>x\<bar>"
  define s where "s = div64 (P_entryFee p * c) (absInt64 (P_position p))"
  have a: "sint (absInt64 (P_position p)) = \<bar>x\<bar>" unfolding x_def by (rule sint_absInt64_fits [OF pos])
  have x: "x \<noteq> 0" "sint c \<le> \<bar>x\<bar>" using assms(1,3) by (simp_all add: x_def)
  have ec: "0 \<le> sint (P_entryFee p) * sint c" using assms by simp
  have s: "sint s = ?share"
    using x ec by (simp add: s_def a sint_div64 sint_exact assms)
  have "sint (P_entryFee p) * sint c \<le> sint (P_entryFee p) * \<bar>x\<bar>" using assms x by (intro mult_left_mono) simp_all
  then have "?share \<le> sint (P_entryFee p) * \<bar>x\<bar> div \<bar>x\<bar>" using x by (intro zdiv_mono1) simp_all
  then have sh: "0 \<le> ?share" "?share \<le> sint (P_entryFee p)" using ec x by (simp_all add: pos_imp_zdiv_nonneg_iff)
  have fs: "sint (s + f) = ?share + sint f"
    unfolding s [symmetric] using assms(7) sh by (intro sint_exact fits_abs [OF assms(12)]) (simp add: s)
  have ef: "sint (P_entryFee p - s) = sint (P_entryFee p) - ?share"
    unfolding s [symmetric] using sh by (intro sint_exact fits_abs [OF fits_sint [of "P_entryFee p"]]) (simp add: s)
  let ?g = "(u - P_avgEntry p) * c" and ?G = "(sint u - sint (P_avgEntry p)) * sint c"
  have g: "sint ?g = ?G \<and> sint (- ?g) = - ?G"
  proof -
    have d: "sint (u - P_avgEntry p) = sint u - sint (P_avgEntry p)"
      by (intro sint_exact fits_diff assms fits_sint)
    have e: "?G = sint u * sint c - sint (P_avgEntry p) * sint c" by (rule left_diff_distrib)
    have G: "fits ?G" unfolding e using assms by (intro fits_diff) simp_all
    have G': "fits (- ?G)" unfolding e minus_diff_eq using assms by (intro fits_diff) simp_all
    have 1: "sint ?g = ?G" using sint_exact(3) [of "u - P_avgEntry p" c] G unfolding d by blast
    have 2: "sint (- ?g) = - ?G" using sint_exact(4) [of ?g] G' unfolding 1 by blast
    from 1 2 show ?thesis ..
  qed
  have p0: "sint (if 0 < x then P_position p - c else P_position p + c) = x - sgn x * sint c" (is "sint ?p = _")
    using x assms(2) by (auto simp: x_def intro!: sint_exact fits_abs [OF pos] split: if_splits)
  then have z: "?p = 0 \<longleftrightarrow> x - sgn x * sint c = 0" using sint_eq_0 [of ?p] by argo
  have "- ?G = (sint (P_avgEntry p) - sint u) * sint c" by (simp add: left_diff_distrib)
  with x p0 z s fs ef g show ?thesis
    by (cases "0 < x")
      (auto simp: portfolio_close_def Let_def ledger_of_def ledger_close_def a simp flip: x_def s_def)
qed

text \<open>What a fill may at most add up to with the open position.\<close>

definition room :: "int \<Rightarrow> int \<Rightarrow> int \<Rightarrow> ledger \<Rightarrow> bool" where
  "room u q fee1 l \<longleftrightarrow> 0 < q \<and> 0 \<le> u \<and> 0 \<le> fee1 \<and> 0 \<le> Lg_avg l \<and> 0 \<le> Lg_fee l \<and>
     fits (\<bar>Lg_pos l\<bar> + q) \<and> fits (Lg_avg l * \<bar>Lg_pos l\<bar> + u * q) \<and> fits ((Lg_fee l + fee1) * (\<bar>Lg_pos l\<bar> + q))"

lemma fits_le: "fits b \<Longrightarrow> 0 \<le> a \<Longrightarrow> a \<le> b \<Longrightarrow> fits a"
  by (auto simp: fits_def)

lemma room_parts:
  assumes "room u q fee1 l"
  shows "fits \<bar>Lg_pos l\<bar>" "fits (Lg_avg l * \<bar>Lg_pos l\<bar>)" "fits (u * q)" "fits (Lg_fee l + fee1)"
    "fits (fee1 * q)" "fits (Lg_fee l * \<bar>Lg_pos l\<bar>)" "fits (fee1 * \<bar>Lg_pos l\<bar>)"
proof -
  note r = assms [unfolded room_def]
  have nn: "0 \<le> Lg_avg l * \<bar>Lg_pos l\<bar>" "0 \<le> u * q" "0 \<le> fee1 * q" "0 \<le> Lg_fee l * \<bar>Lg_pos l\<bar>" "0 \<le> fee1 * \<bar>Lg_pos l\<bar>"
    "0 \<le> Lg_fee l * q" using r by simp_all
  have e: "(Lg_fee l + fee1) * (\<bar>Lg_pos l\<bar> + q) = Lg_fee l * \<bar>Lg_pos l\<bar> + fee1 * \<bar>Lg_pos l\<bar> + Lg_fee l * q + fee1 * q"
    by (simp add: algebra_simps)
  have "(Lg_fee l + fee1) * 1 \<le> (Lg_fee l + fee1) * (\<bar>Lg_pos l\<bar> + q)"
    using r abs_ge_zero [of "Lg_pos l"] by (intro mult_left_mono; linarith)
  then show "fits (Lg_fee l + fee1)" using r by (auto intro: fits_le)
  show "fits (fee1 * q)" "fits (Lg_fee l * \<bar>Lg_pos l\<bar>)" "fits (fee1 * \<bar>Lg_pos l\<bar>)"
    using r nn by (auto simp only: e intro: fits_le)
  show "fits \<bar>Lg_pos l\<bar>" "fits (Lg_avg l * \<bar>Lg_pos l\<bar>)" "fits (u * q)" using r nn by (auto intro: fits_le)
qed

lemma same_direction:
  assumes "dir = 1 \<or> dir = - 1" "sint (v :: i64) \<noteq> 0"
  shows "(0 < sint v) = (0 < sint (dir :: i64)) \<longleftrightarrow> sgn (sint v) = sint dir"
  using assms by (auto simp: sgn_if)

text \<open>The three ways a fill goes through the loop.\<close>

lemma apply_loop_open:
  assumes "P_position p = 0" "0 < sint q"
  shows "apply_loop dir u ts q f p = portfolio_open dir u q f ts p"
  using assms by (simp add: apply_loop.simps [of dir u ts q f p])

lemma apply_loop_done: "sint q \<le> 0 \<Longrightarrow> apply_loop dir u ts q f p = p"
  by (subst apply_loop.simps) simp

lemma apply_loop_close:
  assumes "(0 < sint (P_position p)) \<noteq> (0 < sint dir)" "P_position p \<noteq> 0" "0 < sint q"
  shows "apply_loop dir u ts q f p =
    apply_loop dir u ts (q - min64 (absInt64 (P_position p)) q) (f - div64 (f * min64 (absInt64 (P_position p)) q) q)
      (portfolio_close (min64 (absInt64 (P_position p)) q) u (div64 (f * min64 (absInt64 (P_position p)) q) q) ts p)"
  using assms by (subst apply_loop.simps) (simp add: Let_def)

lemma ledger_of_open:
  assumes "fits (sint dir * sint q)"
  shows "ledger_of (portfolio_open dir u q f ts p) = ledger_open (sint dir) (sint u) (sint q) (sint f) (ledger_of p)"
  using assms by (simp add: ledger_of_def portfolio_open_def ledger_open_def sint_exact)

lemma fits_dir: "(dir :: i64) = 1 \<or> dir = - 1 \<Longrightarrow> 0 \<le> q \<Longrightarrow> fits q \<Longrightarrow> fits (sint dir * q)"
  by (auto simp: fits_def)

lemma ledger_of_add:
  assumes "room (sint u) (sint q) (sint f) (ledger_of p)" "dir = 1 \<or> dir = - 1" "sint (P_position p) \<noteq> 0"
    "sgn (sint (P_position p)) = sint dir"
  defines "n \<equiv> absInt64 (P_position p)"
  shows "ledger_of (p\<lparr>P_avgEntry := div64 (P_avgEntry p * n + u * q) (n + q), P_entryFee := P_entryFee p + f, P_position := P_position p + dir * q\<rparr>)
    = (ledger_of p)\<lparr>Lg_pos := sint (P_position p) + sint dir * sint q,
        Lg_avg := (sint (P_avgEntry p) * \<bar>sint (P_position p)\<bar> + sint u * sint q) div (\<bar>sint (P_position p)\<bar> + sint q),
        Lg_fee := sint (P_entryFee p) + sint f\<rparr>"
proof -
  define x where "x = sint (P_position p)"
  note r = assms(1) [unfolded room_def] and parts = room_parts [OF assms(1)]
  have l: "Lg_pos (ledger_of p) = x" "Lg_avg (ledger_of p) = sint (P_avgEntry p)" "Lg_fee (ledger_of p) = sint (P_entryFee p)"
    by (simp_all add: ledger_of_def x_def)
  have n: "sint n = \<bar>x\<bar>" unfolding n_def x_def by (rule sint_absInt64_fits) (use parts(1) l in \<open>simp add: x_def\<close>)
  have s: "sint (n + q) = \<bar>x\<bar> + sint q" using r by (simp add: sint_exact n l)
  have a: "sint (P_avgEntry p * n) = sint (P_avgEntry p) * \<bar>x\<bar>" "sint (u * q) = sint u * sint q"
    using parts by (simp_all add: sint_exact n l)
  have t: "sint (P_avgEntry p * n + u * q) = sint (P_avgEntry p) * \<bar>x\<bar> + sint u * sint q"
    using r by (simp add: sint_exact a l)
  have d: "sint (div64 (P_avgEntry p * n + u * q) (n + q)) = (sint (P_avgEntry p) * \<bar>x\<bar> + sint u * sint q) div (\<bar>x\<bar> + sint q)"
    using sint_div64 [of "P_avgEntry p * n + u * q" "n + q"] r abs_ge_zero [of x] by (simp add: t s l)
  have q: "fits (sint q)" by simp
  have m: "sint (dir * q) = sint dir * sint q" using r by (intro sint_exact fits_dir assms(2) q) simp
  have "\<bar>x + sint dir * sint q\<bar> = \<bar>x\<bar> + sint q" using assms(2,4) r by (auto simp: x_def sgn_if split: if_splits)
  then have "sint (P_position p + dir * q) = x + sint dir * sint q"
    using r by (subst sint_exact(1)) (auto simp: m l simp flip: x_def intro: fits_abs)
  moreover have "sint (P_entryFee p + f) = sint (P_entryFee p) + sint f" using parts(4) by (simp add: sint_exact l)
  ultimately show ?thesis by (simp add: ledger_of_def d flip: x_def)
qed

text \<open>A fill against the position: it closes a part of it, or all of it and opens the rest.\<close>

lemma ledger_of_close:
  assumes "room (sint u) (sint q) f0 (ledger_of p)" "sint (P_position p) \<noteq> 0" "0 < sint c" "sint c \<le> \<bar>sint (P_position p)\<bar>"
    "sint c \<le> sint q" "0 \<le> sint f" "sint f \<le> f0"
  shows "ledger_of (portfolio_close c u f ts p) = ledger_close (sint c) (sint u) (sint f) (ledger_of p)"
proof (rule portfolio_close_refines)
  note r = assms(1) [unfolded room_def] and parts = room_parts [OF assms(1)]
  show "0 \<le> sint (P_avgEntry p)" "0 \<le> sint (P_entryFee p)" "0 \<le> sint u" using r by (simp_all add: ledger_of_def)
  show "fits \<bar>sint (P_position p)\<bar>" using parts(1) by (simp add: ledger_of_def)
  have "sint (P_avgEntry p) * sint c \<le> sint (P_avgEntry p) * \<bar>sint (P_position p)\<bar>"
    using r assms by (intro mult_left_mono) (simp_all add: ledger_of_def)
  then show "fits (sint (P_avgEntry p) * sint c)"
    using parts(2) r assms by (intro fits_le [OF parts(2)]) (simp_all add: ledger_of_def)
  have "sint u * sint c \<le> sint u * sint q" using r assms by (intro mult_left_mono) simp_all
  then show "fits (sint u * sint c)" using r assms by (intro fits_le [OF parts(3)]) simp_all
  have "sint (P_entryFee p) * sint c \<le> sint (P_entryFee p) * \<bar>sint (P_position p)\<bar>"
    using r assms by (intro mult_left_mono) (simp_all add: ledger_of_def)
  then show "fits (sint (P_entryFee p) * sint c)"
    using r assms by (intro fits_le [OF parts(6)]) (simp_all add: ledger_of_def)
  show "fits (sint (P_entryFee p) + sint f)"
    using r assms by (intro fits_le [OF parts(4)]) (simp_all add: ledger_of_def)
qed (use assms in simp_all)

lemma ledger_of_loop:
  assumes "room (sint u) (sint q) (sint f) (ledger_of p)" "dir = 1 \<or> dir = - 1"
  shows "ledger_of (apply_loop dir u ts q f p) = ledger_fill (sint dir) (sint u) (sint q) (sint f) (ledger_of p)"
proof -
  define x where "x = sint (P_position p)"
  note r = assms(1) [unfolded room_def] and parts = room_parts [OF assms(1)]
  have q: "0 < sint q" "0 \<le> sint f" "0 \<le> sint u" using r by simp_all
  have pos: "Lg_pos (ledger_of p) = x" by (simp add: ledger_of_def x_def)
  have fits_dq: "fits (sint dir * k)" if "0 \<le> k" "k \<le> sint q" for k
    using that by (intro fits_dir [OF assms(2)] fits_le [OF fits_sint [of q]])
  consider (flat) "x = 0" | (same) "x \<noteq> 0" "sgn x = sint dir" | (close) "x \<noteq> 0" "sgn x \<noteq> sint dir" by blast
  then show ?thesis
  proof cases
    case flat
    then show ?thesis
      using q fits_dq [of "sint q"]
      by (simp add: x_def apply_loop_open ledger_of_open ledger_fill_def Let_def pos)
  next
    case same
    then have "(0 < sint (P_position p)) = (0 < sint dir)" using same_direction [OF assms(2), of "P_position p"] by (simp add: x_def)
    then show ?thesis
      using same q ledger_of_add [OF assms]
      by (simp add: apply_loop.simps [of dir u ts q f p] ledger_fill_def Let_def pos x_def) (simp add: ledger_of_def)
  next
    case close
    define n where "n = absInt64 (P_position p)"
    define c where "c = min64 n q"
    define part where "part = div64 (f * c) q"
    have n: "sint n = \<bar>x\<bar>" unfolding n_def x_def by (rule sint_absInt64_fits) (use parts(1) pos x_def in simp)
    have c: "sint c = min \<bar>x\<bar> (sint q)" by (simp add: c_def n)
    have c0: "0 < sint c" "sint c \<le> \<bar>x\<bar>" "sint c \<le> sint q" using close q by (simp_all add: c)
    have fc: "fits (sint f * sint c)"
      using q c0 by (intro fits_le [OF parts(5)] mult_left_mono) simp_all
    have part: "sint part = sint f * sint c div sint q"
      using q c0 by (simp add: part_def sint_div64 sint_exact fc)
    have "sint f * sint c div sint q \<le> sint f * sint q div sint q"
      using q c0 by (intro zdiv_mono1 mult_left_mono) simp_all
    moreover have fq: "sint f * sint q div sint q = sint f" using q by (intro nonzero_mult_div_cancel_right) auto
    ultimately have part0: "0 \<le> sint part" "sint part \<le> sint f" using q c0 by (simp_all add: part pos_imp_zdiv_nonneg_iff)
    have rest: "sint (q - c) = sint q - sint c" "sint (f - part) = sint f - sint part"
      using c0 part0 by (auto intro!: sint_exact fits_diff simp: q less_imp_le)
    let ?p = "portfolio_close c u part ts p"
    have cl: "ledger_of ?p = ledger_close (sint c) (sint u) (sint part) (ledger_of p)"
      using close c0 part0 by (intro ledger_of_close [OF assms(1)]) (simp_all add: x_def)
    have "(0 < sint (P_position p)) \<noteq> (0 < sint dir)"
      using close same_direction [OF assms(2), of "P_position p"] by (simp add: x_def)
    moreover have "P_position p \<noteq> 0" using close by (simp add: x_def)
    ultimately have "apply_loop dir u ts q f p = apply_loop dir u ts (q - min64 n q) (f - div64 (f * min64 n q) q)
        (portfolio_close (min64 n q) u (div64 (f * min64 n q) q) ts p)"
      unfolding n_def using q(1) by (rule apply_loop_close)
    then have loop: "apply_loop dir u ts q f p = apply_loop dir u ts (q - c) (f - part) ?p"
      unfolding part_def c_def .
    show ?thesis
    proof (cases "sint q \<le> \<bar>x\<bar>")
      case True
      then have cq: "sint c = sint q" by (simp add: c)
      have "sint (q - c) \<le> 0" unfolding rest cq by simp
      then have "apply_loop dir u ts (q - c) (f - part) ?p = ?p" by (rule apply_loop_done)
      moreover have "sint part = sint f" unfolding part cq by (rule fq)
      ultimately show ?thesis using close True cl cq by (simp add: loop ledger_fill_def Let_def pos)
    next
      case False
      then have cx: "sint c = \<bar>x\<bar>" by (simp add: c)
      have "Lg_pos (ledger_of ?p) = 0" unfolding cl by (simp add: ledger_close_def Let_def cx pos sgn_mult_abs)
      then have "P_position ?p = 0" by (simp add: ledger_of_def)
      then have "apply_loop dir u ts (q - c) (f - part) ?p = portfolio_open dir u (q - c) (f - part) ts ?p"
        using False rest cx by (intro apply_loop_open) simp_all
      then show ?thesis
        using close False cl part cx rest fits_dq [of "sint q - \<bar>x\<bar>"]
        by (simp add: loop ledger_of_open ledger_fill_def Let_def pos)
    qed
  qed
qed

lemma portfolio_apply_refines:
  assumes "room (sint (priceUnits (Fill_Price fill))) (sint (Fill_Qty fill)) (sint (priceUnits (Fill_Fee fill))) (ledger_of p)"
    and "fits (\<bar>sint (P_cash p)\<bar> + sint (priceUnits (Fill_Price fill)) * sint (Fill_Qty fill) + sint (priceUnits (Fill_Fee fill)))"
  shows "ledger_of (portfolio_apply fill p) =
    ledger_apply (if Fill_Side fill = SideSell then - 1 else 1) (sint (priceUnits (Fill_Price fill))) (sint (Fill_Qty fill))
      (sint (priceUnits (Fill_Fee fill))) (ledger_of p)"
proof -
  define u q f where "u = priceUnits (Fill_Price fill)" and "q = Fill_Qty fill" and "f = priceUnits (Fill_Fee fill)"
  define dir :: i64 where "dir = (if Fill_Side fill = SideSell then - 1 else 1)"
  let ?p = "p\<lparr>P_cash := P_cash p - dir * u * q - f\<rparr>" and ?t = "sint dir * sint u * sint q"
  have d: "dir = 1 \<or> dir = - 1" "sint dir = (if Fill_Side fill = SideSell then - 1 else 1)" by (simp_all add: dir_def)
  have a: "room (sint u) (sint q) (sint f) (ledger_of p)" "fits (\<bar>sint (P_cash p)\<bar> + sint u * sint q + sint f)"
    using assms by (simp_all add: u_def q_def f_def)
  note r = a(1) [unfolded room_def] and parts = room_parts [OF a(1)]
  have du: "sint (dir * u) = sint dir * sint u" using r by (intro sint_exact fits_dir d fits_sint) simp
  have t: "\<bar>?t\<bar> = sint u * sint q" using d(2) r by (simp add: abs_mult)
  have duq: "sint (dir * u * q) = ?t"
    using sint_exact(3) [of "dir * u" q] fits_abs [OF parts(3), of ?t] t by (simp add: du)
  have b: "\<bar>sint (P_cash p) - ?t\<bar> \<le> \<bar>sint (P_cash p)\<bar> + sint u * sint q"
    using abs_triangle_ineq4 [of "sint (P_cash p)" ?t] unfolding t .
  have f: "0 \<le> sint f" "0 \<le> \<bar>sint (P_cash p)\<bar> + sint u * sint q" using r by simp_all
  have c1: "sint (P_cash p - dir * u * q) = sint (P_cash p) - ?t"
    using sint_exact(2) [of "P_cash p" "dir * u * q"] fits_abs [OF fits_le [OF a(2)] b] f by (simp add: duq)
  have "\<bar>sint (P_cash p) - ?t - sint f\<bar> \<le> \<bar>sint (P_cash p)\<bar> + sint u * sint q + sint f" using b f(1) by linarith
  then have c2: "sint (P_cash p - dir * u * q - f) = sint (P_cash p) - ?t - sint f"
    using sint_exact(2) [of "P_cash p - dir * u * q" f] fits_abs [OF a(2)] by (simp add: c1)
  have l: "ledger_of ?p = (ledger_of p)\<lparr>Lg_cash := Lg_cash (ledger_of p) - ?t - sint f\<rparr>"
    by (simp add: ledger_of_def c2)
  have "room (sint u) (sint q) (sint f) (ledger_of ?p)" using a(1) by (simp add: l room_def)
  from ledger_of_loop [OF this d(1)] show ?thesis
    by (simp add: portfolio_apply_def Let_def ledger_apply_def l flip: d(2) u_def q_def f_def dir_def)
qed

subsection \<open>The accounts\<close>

text \<open>After \<open>n\<close> fills with net volume \<open>P\<close>, net price paid \<open>C\<close>, volume \<open>Q\<close>, fees \<open>F\<close> and turnover \<open>T\<close>.\<close>

definition balanced :: "nat \<Rightarrow> int \<Rightarrow> int \<Rightarrow> int \<Rightarrow> int \<Rightarrow> int \<Rightarrow> ledger \<Rightarrow> bool" where
  "balanced n P C Q F T l \<longleftrightarrow>
     Lg_pos l = P \<and> Lg_cash l = 10 ^ 12 - C - F \<and> 0 \<le> Lg_closed l \<and> 2 * Lg_closed l + \<bar>Lg_pos l\<bar> = Q \<and>
     Lg_fees l + Lg_fee l = F \<and> 0 \<le> Lg_fee l \<and> Lg_fee l \<le> F \<and> 0 \<le> Lg_avg l \<and> Lg_avg l * \<bar>Lg_pos l\<bar> \<le> T \<and>
     (Lg_pos l = 0 \<longrightarrow> Lg_avg l = 0 \<and> Lg_fee l = 0) \<and>
     \<bar>Lg_pnl l - (Lg_pos l * Lg_avg l - C)\<bar> \<le> int n * Q"

lemma balancedI:
  assumes "Lg_pos l = P" "Lg_cash l = 10 ^ 12 - C - F" "0 \<le> Lg_closed l" "2 * Lg_closed l + \<bar>P\<bar> = Q"
    "Lg_fees l + Lg_fee l = F" "0 \<le> Lg_fee l" "Lg_fee l \<le> F" "0 \<le> Lg_avg l" "Lg_avg l * \<bar>P\<bar> \<le> T"
    "P = 0 \<Longrightarrow> Lg_avg l = 0 \<and> Lg_fee l = 0" "\<bar>Lg_pnl l - (P * Lg_avg l - C)\<bar> \<le> int n * Q"
  shows "balanced n P C Q F T l"
  using assms unfolding balanced_def by blast

lemma balancedD:
  assumes "balanced n P C Q F T l"
  shows "Lg_pos l = P" "Lg_cash l = 10 ^ 12 - C - F" "0 \<le> Lg_closed l" "2 * Lg_closed l + \<bar>P\<bar> = Q"
    "Lg_fees l + Lg_fee l = F" "0 \<le> Lg_fee l" "Lg_fee l \<le> F" "0 \<le> Lg_avg l" "Lg_avg l * \<bar>P\<bar> \<le> T"
    "P = 0 \<Longrightarrow> Lg_avg l = 0 \<and> Lg_fee l = 0" "\<bar>Lg_pnl l - (P * Lg_avg l - C)\<bar> \<le> int n * Q"
  using assms unfolding balanced_def by blast+

lemma error_grows: "\<bar>a\<bar> \<le> int n * Q \<Longrightarrow> \<bar>b - a\<bar> \<le> Q' \<Longrightarrow> 0 \<le> Q \<Longrightarrow> Q \<le> Q' \<Longrightarrow> \<bar>b\<bar> \<le> int (Suc n) * Q'"
proof -
  assume a: "\<bar>a\<bar> \<le> int n * Q" "\<bar>b - a\<bar> \<le> Q'" "0 \<le> Q" "Q \<le> Q'"
  have "int n * Q \<le> int n * Q'" using a by (intro mult_left_mono) simp_all
  with a have "\<bar>b\<bar> \<le> int n * Q' + Q'" by linarith
  then show ?thesis by (simp add: distrib_right)
qed

text \<open>Closing without a cash movement moves the value of the lots from the position to the result.\<close>

lemma close_balanced:
  assumes "balanced n P C Q F T l" "0 < c" "c \<le> \<bar>P\<bar>" "0 \<le> u" "0 \<le> f"
  shows "balanced n (P - sgn P * c) (C - sgn P * u * c) (Q + c) (F + f) (T + u * c)
    ((ledger_close c u f l)\<lparr>Lg_cash := Lg_cash l + sgn P * u * c - f\<rparr>)" (is "balanced _ _ _ _ _ _ ?l")
proof -
  note b = balancedD [OF assms(1)]
  have P: "P \<noteq> 0" using assms by auto
  define share where "share = Lg_fee l * c div \<bar>P\<bar>"
  have "Lg_fee l * c \<le> Lg_fee l * \<bar>P\<bar>" using b assms by (intro mult_left_mono) simp_all
  then have "share \<le> Lg_fee l * \<bar>P\<bar> div \<bar>P\<bar>" unfolding share_def by (intro zdiv_mono1) (use P in simp_all)
  then have sh: "0 \<le> share" "share \<le> Lg_fee l" using b assms P by (simp_all add: share_def pos_imp_zdiv_nonneg_iff)
  have all: "share = Lg_fee l" if "c = \<bar>P\<bar>" using that P by (simp add: share_def)
  have abs: "\<bar>P - sgn P * c\<bar> = \<bar>P\<bar> - c" and zero: "P - sgn P * c = 0 \<longleftrightarrow> c = \<bar>P\<bar>"
    using assms P by (auto simp: sgn_if)
  have fields: "Lg_pos ?l = P - sgn P * c" "Lg_closed ?l = Lg_closed l + c" "Lg_fees ?l = Lg_fees l + (share + f)"
    "Lg_fee ?l = (if c = \<bar>P\<bar> then 0 else Lg_fee l - share)" "Lg_avg ?l = (if c = \<bar>P\<bar> then 0 else Lg_avg l)"
    "Lg_pnl ?l = Lg_pnl l + sgn P * (u - Lg_avg l) * c"
    unfolding ledger_close_def Let_def b(1) zero share_def by simp_all
  have uc: "0 \<le> u * c" "0 \<le> T"
    using assms b(8,9) mult_nonneg_nonneg [of "Lg_avg l" "\<bar>P\<bar>"] by (simp, linarith)
  show ?thesis
  proof (rule balancedI)
    show "Lg_avg ?l * \<bar>P - sgn P * c\<bar> \<le> T + u * c"
    proof -
      have "Lg_avg l * (\<bar>P\<bar> - c) \<le> Lg_avg l * \<bar>P\<bar>" using b assms by (intro mult_left_mono) simp_all
      then show ?thesis using b(9) uc unfolding fields abs by auto
    qed
    have "(P - sgn P * c) * Lg_avg ?l = (P - sgn P * c) * Lg_avg l" using zero unfolding fields by auto
    then have "Lg_pnl ?l - ((P - sgn P * c) * Lg_avg ?l - (C - sgn P * u * c)) = Lg_pnl l - (P * Lg_avg l - C)"
      unfolding fields(6) by (simp add: algebra_simps)
    moreover have "int n * Q \<le> int n * (Q + c)" using assms by (intro mult_left_mono) simp_all
    ultimately show "\<bar>Lg_pnl ?l - ((P - sgn P * c) * Lg_avg ?l - (C - sgn P * u * c))\<bar> \<le> int n * (Q + c)"
      using b(11) by linarith
    show "2 * Lg_closed ?l + \<bar>P - sgn P * c\<bar> = Q + c" unfolding fields abs using b(4) by simp
    show "Lg_fees ?l + Lg_fee ?l = F + f" unfolding fields using b(5) all by auto
    show "P - sgn P * c = 0 \<Longrightarrow> Lg_avg ?l = 0 \<and> Lg_fee ?l = 0" unfolding fields zero by simp
    show "Lg_pos ?l = P - sgn P * c" by (rule fields)
  qed (use b assms sh uc fields in auto)
qed

lemma open_balanced:
  assumes "balanced n 0 C Q F T l" "dir = 1 \<or> dir = - 1" "0 < q" "0 \<le> u" "0 \<le> f"
  shows "balanced n (dir * q) (C + dir * u * q) (Q + q) (F + f) (T + u * q)
    ((ledger_open dir u q f l)\<lparr>Lg_cash := Lg_cash l - dir * u * q - f\<rparr>)" (is "balanced _ _ _ _ _ _ ?l")
proof -
  note b = balancedD [OF assms(1)]
  have abs: "\<bar>dir * q\<bar> = q" "dir * q \<noteq> 0" using assms by auto
  have fields: "Lg_pos ?l = dir * q" "Lg_closed ?l = Lg_closed l" "Lg_fees ?l = Lg_fees l" "Lg_fee ?l = f" "Lg_avg ?l = u" "Lg_pnl ?l = Lg_pnl l"
    by (simp_all add: ledger_open_def)
  show ?thesis
  proof (rule balancedI)
    have "Lg_pnl ?l - (dir * q * Lg_avg ?l - (C + dir * u * q)) = Lg_pnl l - (0 * Lg_avg l - C)"
      unfolding fields by (simp add: algebra_simps)
    moreover have "int n * Q \<le> int n * (Q + q)" using assms by (intro mult_left_mono) simp_all
    ultimately show "\<bar>Lg_pnl ?l - (dir * q * Lg_avg ?l - (C + dir * u * q))\<bar> \<le> int n * (Q + q)"
      using b(11) by linarith
    show "2 * Lg_closed ?l + \<bar>dir * q\<bar> = Q + q" unfolding fields abs using b(4) by simp
    show "Lg_fees ?l + Lg_fee ?l = F + f" unfolding fields using b(5) b(10) by simp
    show "Lg_avg ?l * \<bar>dir * q\<bar> \<le> T + u * q" unfolding fields abs using b(9) by simp
    show "Lg_fee ?l \<le> F + f" unfolding fields using b(6,7) by linarith
  qed (use b assms abs fields in auto)
qed

lemma add_balanced:
  assumes "balanced n P C Q F T l" "sgn P = dir" "P \<noteq> 0" "0 < q" "0 \<le> u" "0 \<le> f"
  shows "balanced (Suc n) (P + dir * q) (C + dir * u * q) (Q + q) (F + f) (T + u * q)
    (l\<lparr>Lg_cash := Lg_cash l - dir * u * q - f, Lg_pos := P + dir * q, Lg_avg := (Lg_avg l * \<bar>P\<bar> + u * q) div (\<bar>P\<bar> + q), Lg_fee := Lg_fee l + f\<rparr>)"
    (is "balanced _ _ _ _ _ _ ?l")
proof -
  note b = balancedD [OF assms(1)]
  define N A where "N = \<bar>P\<bar> + q" and "A = Lg_avg l * \<bar>P\<bar> + u * q"
  have N: "0 < N" "N \<le> Q + q" using assms(4) b by (auto simp: N_def)
  have A: "0 \<le> A" "A \<le> T + u * q" using b assms by (auto simp: A_def)
  have abs: "P + dir * q = dir * N" "\<bar>P + dir * q\<bar> = N" "P + dir * q \<noteq> 0"
    using assms by (auto simp: N_def sgn_if split: if_splits)
  have AN: "A div N * N = A - A mod N" by (simp add: minus_mod_eq_div_mult)
  then have v: "A div N * N \<le> T + u * q" using A N pos_mod_sign [of N A] by linarith
  have r: "\<bar>dir * (A mod N)\<bar> \<le> Q + q"
  proof -
    have "\<bar>dir * (A mod N)\<bar> = A mod N" using assms(2,3) N by (auto simp: sgn_if abs_mult split: if_splits)
    then show ?thesis using N pos_mod_bound [of N A] by linarith
  qed
  have dA: "dir * A = P * Lg_avg l + dir * u * q"
    using assms(2) by (simp add: A_def distrib_left sgn_mult_abs mult.assoc mult.left_commute)
      (metis mult.commute mult.left_commute mult_sgn_abs)
  have "Lg_pnl l - ((P + dir * q) * (A div N) - (C + dir * u * q)) - (Lg_pnl l - (P * Lg_avg l - C)) = dir * (A mod N)"
  proof -
    have "(P + dir * q) * (A div N) = dir * (A div N * N)" by (simp add: abs(1) mult.assoc mult.commute)
    then show ?thesis by (simp add: AN right_diff_distrib dA)
  qed
  with r have e: "\<bar>Lg_pnl l - ((P + dir * q) * (A div N) - (C + dir * u * q))\<bar> \<le> int (Suc n) * (Q + q)"
    using b assms(4) by (intro error_grows [of "Lg_pnl l - (P * Lg_avg l - C)" n Q]) auto
  have fields: "Lg_pos ?l = P + dir * q" "Lg_avg ?l = A div N" "Lg_fee ?l = Lg_fee l + f" "Lg_cash ?l = Lg_cash l - dir * u * q - f"
    "Lg_closed ?l = Lg_closed l" "Lg_fees ?l = Lg_fees l" "Lg_pnl ?l = Lg_pnl l"
    by (simp_all add: A_def N_def)
  show ?thesis
  proof (rule balancedI)
    show "2 * Lg_closed ?l + \<bar>P + dir * q\<bar> = Q + q" unfolding fields abs(2) using b(4) by (simp add: N_def)
    show "Lg_avg ?l * \<bar>P + dir * q\<bar> \<le> T + u * q" unfolding fields abs(2) by (rule v)
    show "\<bar>Lg_pnl ?l - ((P + dir * q) * Lg_avg ?l - (C + dir * u * q))\<bar> \<le> int (Suc n) * (Q + q)"
      unfolding fields by (rule e)
    show "0 \<le> Lg_avg ?l" unfolding fields using A N by (simp add: pos_imp_zdiv_nonneg_iff)
    show "P + dir * q = 0 \<Longrightarrow> Lg_avg ?l = 0 \<and> Lg_fee ?l = 0" using abs(3) by simp
  qed (use b assms(6) fields in auto)
qed

lemma balanced_mono: "balanced n P C Q F T l \<Longrightarrow> balanced (Suc n) P C Q F T l"
  by (auto simp: balanced_def distrib_right)

lemma ledger_apply_balanced:
  assumes "balanced n P C Q F T l" "dir = 1 \<or> dir = - 1" "0 < q" "0 \<le> u" "0 \<le> f"
  shows "balanced (Suc n) (P + dir * q) (C + dir * u * q) (Q + q) (F + f) (T + u * q) (ledger_apply dir u q f l)"
proof -
  have P: "Lg_pos l = P" using assms(1) by (simp add: balanced_def)
  consider (flat) "P = 0" | (same) "P \<noteq> 0" "sgn P = dir" | (part) "P \<noteq> 0" "sgn P = - dir" "q \<le> \<bar>P\<bar>"
    | (flip) "P \<noteq> 0" "sgn P = - dir" "\<bar>P\<bar> < q"
    using assms(2) by (cases "P = 0"; cases "sgn P = dir"; cases "q \<le> \<bar>P\<bar>") (auto simp: sgn_if split: if_splits)
  then show ?thesis
  proof cases
    case flat
    then have "balanced n 0 C Q F T l" using assms(1) by simp
    from balanced_mono [OF open_balanced [OF this assms(2-5)]] show ?thesis
      using P by (cases l) (simp add: flat ledger_apply_def ledger_fill_def ledger_open_def)
  next
    case same
    from add_balanced [OF assms(1) same(2,1) assms(3-5)] show ?thesis
      using same by (simp add: ledger_apply_def ledger_fill_def P Let_def)
  next
    case part
    have "ledger_apply dir u q f l = (ledger_close q u f l)\<lparr>Lg_cash := Lg_cash l + sgn P * u * q - f\<rparr>"
      using part assms(2) P by (cases l) (auto simp: ledger_apply_def ledger_fill_def ledger_close_def Let_def)
    with balanced_mono [OF close_balanced [OF assms(1,3) part(3) assms(4,5)]] part(2) show ?thesis by simp
  next
    case flip
    define f1 where "f1 = f * \<bar>P\<bar> div q"
    have "f * \<bar>P\<bar> \<le> f * q" using flip assms by (intro mult_left_mono) simp_all
    then have "f1 \<le> f * q div q" unfolding f1_def using assms by (intro zdiv_mono1) simp_all
    then have f1: "0 \<le> f1" "f1 \<le> f" using assms by (simp_all add: f1_def pos_imp_zdiv_nonneg_iff)
    let ?l1 = "(ledger_close \<bar>P\<bar> u f1 l)\<lparr>Lg_cash := Lg_cash l + sgn P * u * \<bar>P\<bar> - f1\<rparr>"
    have sP: "sgn P * \<bar>P\<bar> = P" "dir * \<bar>P\<bar> = - P" using flip assms(2) by (auto simp: sgn_if split: if_splits)
    have "balanced n 0 (C - sgn P * u * \<bar>P\<bar>) (Q + \<bar>P\<bar>) (F + f1) (T + u * \<bar>P\<bar>) ?l1"
      using close_balanced [OF assms(1), of "\<bar>P\<bar>" u f1] flip(1) f1 assms(4) by (simp add: sP)
    from open_balanced [OF this assms(2), of "q - \<bar>P\<bar>" u "f - f1"]
    have b: "balanced n (dir * (q - \<bar>P\<bar>)) (C - sgn P * u * \<bar>P\<bar> + dir * u * (q - \<bar>P\<bar>)) (Q + \<bar>P\<bar> + (q - \<bar>P\<bar>)) (F + f1 + (f - f1))
       (T + u * \<bar>P\<bar> + u * (q - \<bar>P\<bar>)) ((ledger_open dir u (q - \<bar>P\<bar>) (f - f1) ?l1)\<lparr>Lg_cash := Lg_cash ?l1 - dir * u * (q - \<bar>P\<bar>) - (f - f1)\<rparr>)"
      using flip f1 assms(4) by simp
    have e: "dir * (q - \<bar>P\<bar>) = P + dir * q" "C - sgn P * u * \<bar>P\<bar> + dir * u * (q - \<bar>P\<bar>) = C + dir * u * q"
      "Lg_cash ?l1 - dir * u * (q - \<bar>P\<bar>) - (f - f1) = Lg_cash l - dir * u * q - f"
      using sP by (simp_all add: flip(2) algebra_simps)
    have sums: "T + u * \<bar>P\<bar> + u * (q - \<bar>P\<bar>) = T + u * q" "Q + \<bar>P\<bar> + (q - \<bar>P\<bar>) = Q + q" "F + f1 + (f - f1) = F + f"
      by (simp_all add: algebra_simps)
    from b have "balanced n (P + dir * q) (C + dir * u * q) (Q + q) (F + f) (T + u * q)
        ((ledger_open dir u (q - \<bar>P\<bar>) (f - f1) ?l1)\<lparr>Lg_cash := Lg_cash l - dir * u * q - f\<rparr>)" unfolding e sums .
    moreover have "ledger_apply dir u q f l = (ledger_open dir u (q - \<bar>P\<bar>) (f - f1) ?l1)\<lparr>Lg_cash := Lg_cash l - dir * u * q - f\<rparr>"
      using flip assms(2) P by (cases l) (auto simp: ledger_apply_def ledger_fill_def ledger_close_def ledger_open_def Let_def f1_def)
    ultimately show ?thesis by (simp add: balanced_mono)
  qed
qed

subsection \<open>Any list of fills\<close>

definition fill_units :: "Fill \<Rightarrow> int" where "fill_units f = sint (priceUnits (Fill_Price f))"
definition fill_fee :: "Fill \<Rightarrow> int" where "fill_fee f = sint (priceUnits (Fill_Fee f))"
definition fill_qty :: "Fill \<Rightarrow> int" where "fill_qty f = sint (Fill_Qty f)"
definition fill_dir :: "Fill \<Rightarrow> int" where "fill_dir f = (if Fill_Side f = SideSell then - 1 else 1)"

definition portfolio_of :: "Fill list \<Rightarrow> portfolio" where
  "portfolio_of fs = foldl (\<lambda>p f. portfolio_apply f p) newPortfolio fs"

definition plain :: "Fill \<Rightarrow> bool" where
  "plain f \<longleftrightarrow> 0 < fill_qty f \<and> 0 \<le> fill_units f \<and> 0 \<le> fill_fee f"

abbreviation net_volume where "net_volume fs \<equiv> \<Sum>f\<leftarrow>fs. fill_dir f * fill_qty f"
abbreviation net_paid where "net_paid fs \<equiv> \<Sum>f\<leftarrow>fs. fill_dir f * fill_units f * fill_qty f"
abbreviation traded where "traded fs \<equiv> \<Sum>f\<leftarrow>fs. fill_qty f"
abbreviation fees_paid where "fees_paid fs \<equiv> \<Sum>f\<leftarrow>fs. fill_fee f"
abbreviation turnover where "turnover fs \<equiv> \<Sum>f\<leftarrow>fs. fill_units f * fill_qty f"

lemma plain_sums:
  "list_all plain fs \<Longrightarrow> 0 \<le> traded fs \<and> 0 \<le> fees_paid fs \<and> 0 \<le> turnover fs \<and> \<bar>net_paid fs\<bar> \<le> turnover fs"
proof (induction fs)
  case (Cons f fs)
  have f: "0 \<le> fill_qty f" "0 \<le> fill_fee f" "0 \<le> fill_units f * fill_qty f" using Cons.prems by (auto simp: plain_def)
  have "\<bar>fill_dir f * fill_units f * fill_qty f\<bar> = fill_units f * fill_qty f"
    using Cons.prems by (simp add: plain_def fill_dir_def abs_mult)
  with Cons f abs_triangle_ineq [of "fill_dir f * fill_units f * fill_qty f" "net_paid fs"] show ?case by simp
qed simp

definition small :: "Fill list \<Rightarrow> bool" where
  "small fs \<longleftrightarrow> fits (traded fs) \<and> fits (10 ^ 12 + turnover fs + fees_paid fs) \<and> fits (fees_paid fs * traded fs)"

lemma small_prefix:
  assumes "list_all plain fs" "plain f" "small (fs @ [f])"
  shows "small fs"
proof -
  note s = plain_sums [OF assms(1)]
  have f: "0 \<le> fill_qty f" "0 \<le> fill_fee f" "0 \<le> fill_units f * fill_qty f" using assms(2) by (auto simp: plain_def)
  have "fees_paid fs * traded fs \<le> (fees_paid fs + fill_fee f) * (traded fs + fill_qty f)"
    using s f by (intro mult_mono) simp_all
  then show ?thesis using assms(3) s f by (auto simp: small_def intro: fits_le)
qed

lemma balanced_room:
  assumes b: "balanced n P C Q F T l" and "\<bar>C\<bar> \<le> T" "0 < q" "0 \<le> u" "0 \<le> f"
    and "fits (Q + q)" "fits (10 ^ 12 + (T + u * q) + (F + f))" "fits ((F + f) * (Q + q))"
  shows "room u q f l" "fits (\<bar>Lg_cash l\<bar> + u * q + f)"
proof -
  note b = balancedD [OF b]
  have uq: "0 \<le> u * q" "0 \<le> F" "0 \<le> Q" using assms b by simp_all
  have PQ: "\<bar>P\<bar> \<le> Q" using b by linarith
  have "(Lg_fee l + f) * (\<bar>P\<bar> + q) \<le> (F + f) * (Q + q)" using b PQ assms by (intro mult_mono) simp_all
  moreover have "0 \<le> (Lg_fee l + f) * (\<bar>P\<bar> + q)" "0 \<le> Lg_avg l * \<bar>P\<bar> + u * q" using b assms uq by simp_all
  moreover have "Lg_avg l * \<bar>P\<bar> + u * q \<le> 10 ^ 12 + (T + u * q) + (F + f)" using b assms uq by simp
  ultimately show "room u q f l"
    unfolding room_def b(1) using assms PQ b by (auto intro: fits_le)
  have "\<bar>10 ^ 12 - C - F\<bar> \<le> 10 ^ 12 + T + F" using assms(2) uq by simp
  then show "fits (\<bar>Lg_cash l\<bar> + u * q + f)"
    unfolding b(2) using assms(5,7) uq by (intro fits_le [OF assms(7)]) simp_all
qed

lemma portfolio_balanced:
  assumes "list_all plain fs" "small fs"
  shows "balanced (length fs) (net_volume fs) (net_paid fs) (traded fs) (fees_paid fs) (turnover fs) (ledger_of (portfolio_of fs))"
  using assms
proof (induction fs rule: rev_induct)
  case Nil
  show ?case by (simp add: portfolio_of_def newPortfolio_def ledger_of_def balanced_def initialCash_def priceFactor_def)
next
  case (snoc f fs)
  then have f: "plain f" "list_all plain fs" by simp_all
  with snoc have b: "balanced (length fs) (net_volume fs) (net_paid fs) (traded fs) (fees_paid fs) (turnover fs) (ledger_of (portfolio_of fs))"
    using small_prefix by blast
  have "\<bar>net_paid fs\<bar> \<le> turnover fs" using plain_sums [OF f(2)] by simp
  then have r: "room (fill_units f) (fill_qty f) (fill_fee f) (ledger_of (portfolio_of fs))"
      "fits (\<bar>Lg_cash (ledger_of (portfolio_of fs))\<bar> + fill_units f * fill_qty f + fill_fee f)"
    using f snoc.prems(2) by (auto intro!: balanced_room [OF b] simp: plain_def small_def)
  have "ledger_of (portfolio_of (fs @ [f])) = ledger_apply (fill_dir f) (fill_units f) (fill_qty f) (fill_fee f) (ledger_of (portfolio_of fs))"
    using portfolio_apply_refines [of f "portfolio_of fs"] r
    by (simp add: portfolio_of_def fill_dir_def fill_units_def fill_qty_def fill_fee_def ledger_of_def)
  moreover have "fill_dir f = 1 \<or> fill_dir f = - 1" by (simp add: fill_dir_def)
  ultimately show ?case
    using ledger_apply_balanced [OF b, of "fill_dir f" "fill_qty f" "fill_units f" "fill_fee f"] f by (simp add: plain_def)
qed

text \<open>
  C36: the books of the replay balance. After any fills whose totals fit in 64 bits the position is what
  was bought less what was sold, the cash is the initial million less what was paid net and less all
  fees, every traded lot is in the open position or has been counted once as opened and once as closed,
  every fee is in a round trip or kept with the open position, and the profit of the round trips is what
  the cash and the position at its average price say, up to the rounding of the average price.
\<close>

theorem portfolio_accounts:
  assumes "list_all plain fs" "small fs"
  shows "sint (P_position (portfolio_of fs)) = net_volume fs \<and>
    sint (P_cash (portfolio_of fs)) = 10 ^ 12 - net_paid fs - fees_paid fs \<and>
    2 * (\<Sum>t\<leftarrow>P_roundTrips (portfolio_of fs). sint (RT_Qty t)) + \<bar>net_volume fs\<bar> = traded fs \<and>
    (\<Sum>t\<leftarrow>P_roundTrips (portfolio_of fs). sint (priceUnits (RT_Fee t))) + sint (P_entryFee (portfolio_of fs)) = fees_paid fs \<and>
    \<bar>(\<Sum>t\<leftarrow>P_roundTrips (portfolio_of fs). sint (priceUnits (RT_PnL t)))
      - (net_volume fs * sint (P_avgEntry (portfolio_of fs)) - net_paid fs)\<bar> \<le> int (length fs) * traded fs"
  using balancedD [OF portfolio_balanced [OF assms]] by (simp add: ledger_of_def)

definition example_fill :: "string \<Rightarrow> i64 \<Rightarrow> i64 \<Rightarrow> Fill" where
  "example_fill side units qty =
     \<lparr>Fill_OrderID = 1, Fill_TS = zeroTime, Fill_Side = side, Fill_Type = OrderLimit, Fill_Price = decimalPrice units,
      Fill_Qty = qty, Fill_Fee = decimalPrice 1\<rparr>"

definition example_fills :: "Fill list" where
  "example_fills = [example_fill SideBuy 10 2, example_fill SideBuy 13 1, example_fill SideSell 15 4]"

lemma example_fills_plain: "list_all plain example_fills" "small example_fills"
  by (simp_all add: example_fills_def example_fill_def plain_def small_def fits_def fill_qty_def fill_units_def fill_fee_def)

theorem portfolio_accounts_witness:
  "sint (P_position (portfolio_of example_fills)) = - 1 \<and> sint (P_cash (portfolio_of example_fills)) = 10 ^ 12 + 27 - 3 \<and>
    (\<Sum>t\<leftarrow>P_roundTrips (portfolio_of example_fills). sint (RT_Qty t)) = 3"
  using portfolio_accounts [OF example_fills_plain]
  by (simp add: example_fills_def example_fill_def fill_qty_def fill_units_def fill_fee_def fill_dir_def name_defs)

end
