(* ===== verification/Lob_Orders.thy ===== *)
theory Lob_Orders
  imports Lob_Portfolio Lob_Book_Replay
begin

text \<open>
  The life of an order in the fill engine. \<open>worked\<close> says what one look at an order (activation, market
  walk, trade) may do to it and to the engine; \<open>engine_ok\<close> is the invariant of the engine with the list
  of all orders it was given: the fills of an order and its remainder make up its size, its number is its
  place in that list, and every order is open, filled, cancelled, or a market order that ran out of
  liquidity.
\<close>

subsection \<open>One order\<close>

abbreviation apply_fills :: "portfolio \<Rightarrow> Fill list \<Rightarrow> portfolio" where
  "apply_fills p fs \<equiv> foldl (\<lambda>p f. portfolio_apply f p) p fs"

definition worked :: "workingOrder \<Rightarrow> workingOrder option \<Rightarrow> fillEngine \<Rightarrow> fillEngine \<Rightarrow> bool" where
  "worked w w' e e' \<longleftrightarrow>
     (\<exists>added. FE_fills e' = FE_fills e @ added \<and> FE_portfolio e' = apply_fills (FE_portfolio e) added \<and>
        (\<forall>f \<in> set added. Fill_OrderID f = WO_id w \<and> 0 < fill_qty f \<and> Fill_Side f = LO_Side (WO_order w)) \<and>
        (case w' of
           None \<Rightarrow> traded added \<le> sint (WO_remaining w)
         | Some v \<Rightarrow> WO_id v = WO_id w \<and> WO_order v = WO_order w \<and> 0 < sint (WO_remaining v) \<and>
             traded added + sint (WO_remaining v) = sint (WO_remaining w))) \<and>
     FE_fm e' = FE_fm e \<and> FE_nextOrderID e' = FE_nextOrderID e \<and> FE_orders e' = FE_orders e \<and>
     FE_cancelled e' = FE_cancelled e \<and> FE_filled e \<le> FE_filled e' \<and>
     FE_filled e' \<le> FE_filled e + (if w' = None then 1 else 0)"

lemma worked_kept: "0 < sint (WO_remaining w) \<Longrightarrow> WO_id v = WO_id w \<Longrightarrow> WO_order v = WO_order w \<Longrightarrow>
    WO_remaining v = WO_remaining w \<Longrightarrow> worked w (Some v) e e"
  by (simp add: worked_def)

lemma worked_fill:
  assumes "Fill_OrderID f = WO_id w" "0 < fill_qty f" "Fill_Side f = LO_Side (WO_order w)"
  shows "fill_qty f = sint (WO_remaining w) \<Longrightarrow> worked w None e ((recordFill f e)\<lparr>FE_filled := FE_filled (recordFill f e) + 1\<rparr>)"
    and "WO_id v = WO_id w \<Longrightarrow> WO_order v = WO_order w \<Longrightarrow> 0 < sint (WO_remaining v) \<Longrightarrow>
      fill_qty f + sint (WO_remaining v) = sint (WO_remaining w) \<Longrightarrow> worked w (Some v) e (recordFill f e)"
  using assms by (auto simp: worked_def recordFill_def intro!: exI [of _ "[f]"])

text \<open>The walk over the book takes at most what is left of the order, and only from prices with volume.\<close>

lemma market_walk_effect:
  assumes "market_walk cm now w available us remaining e = (left, e')" "0 \<le> sint remaining"
  shows "\<exists>added. e' = e\<lparr>FE_fills := FE_fills e @ added, FE_portfolio := apply_fills (FE_portfolio e) added\<rparr> \<and>
    (\<forall>f \<in> set added. Fill_OrderID f = WO_id w \<and> 0 < fill_qty f \<and> Fill_Side f = LO_Side (WO_order w)) \<and>
    0 \<le> sint left \<and> traded added + sint left = sint remaining"
  using assms
proof (induction us arbitrary: remaining e)
  case (Cons u us)
  show ?case
  proof (cases "remaining = 0 \<or> sint (available u) \<le> 0")
    case True
    then show ?thesis using Cons by (cases "remaining = 0") (auto intro: exI [of _ "[]"])
  next
    case False
    define q where "q = min64 (available u) remaining"
    define f where "f = \<lparr>Fill_OrderID = WO_id w, Fill_TS = now, Fill_Side = LO_Side (WO_order w),
      Fill_Type = OrderMarket, Fill_Price = decimalPrice u, Fill_Qty = q, Fill_Fee = fee cm e (decimalPrice u) q\<rparr>"
    have r: "0 < sint remaining" using False Cons.prems(2) by (metis order_le_less sint_eq_0)
    have q: "0 < sint q" "sint q \<le> sint remaining" using r False by (simp_all add: q_def)
    have s: "sint (remaining - q) = sint remaining - sint q" using q r by (intro sint_diff) simp_all
    have "market_walk cm now w available us (remaining - q) (recordFill f e) = (left, e')"
      using Cons.prems(1) False by (simp add: Let_def q_def f_def)
    from Cons.IH [OF this] obtain added where a:
      "e' = (recordFill f e)\<lparr>FE_fills := FE_fills (recordFill f e) @ added, FE_portfolio := apply_fills (FE_portfolio (recordFill f e)) added\<rparr>"
      "\<forall>f \<in> set added. Fill_OrderID f = WO_id w \<and> 0 < fill_qty f \<and> Fill_Side f = LO_Side (WO_order w)"
      "0 \<le> sint left" "traded added + sint left = sint remaining - sint q"
      using q s by auto
    have "Fill_OrderID f = WO_id w" "fill_qty f = sint q" "Fill_Side f = LO_Side (WO_order w)"
      by (simp_all add: f_def fill_qty_def)
    then show ?thesis using a q by (intro exI [of _ "f # added"]) (simp add: recordFill_def)
  qed
qed (auto intro: exI [of _ "[]"])

lemma executeMarket_worked:
  assumes "executeMarket cm w now b e = (e', b')" "0 < sint (WO_remaining w)"
  shows "worked w None e e'"
proof -
  obtain us b1 where us: "sidePrices (if LO_Side (WO_order w) = SideSell then SideBid else SideAsk) b = (us, b1)" by fastforce
  let ?av = "\<lambda>u. qtyAt (if LO_Side (WO_order w) = SideSell then SideBid else SideAsk) u b1"
  obtain left e1 where m: "market_walk cm now w ?av us (WO_remaining w) e = (left, e1)" by fastforce
  from market_walk_effect [OF m] assms(2) obtain added where
    "e1 = e\<lparr>FE_fills := FE_fills e @ added, FE_portfolio := apply_fills (FE_portfolio e) added\<rparr>"
    "\<forall>f \<in> set added. Fill_OrderID f = WO_id w \<and> 0 < fill_qty f \<and> Fill_Side f = LO_Side (WO_order w)"
    "0 \<le> sint left" "traded added + sint left = sint (WO_remaining w)" by auto
  moreover have "e' = (if left = 0 then e1\<lparr>FE_filled := FE_filled e1 + 1\<rparr> else e1\<lparr>FE_unfilledQty := FE_unfilledQty e1 + left\<rparr>)"
    using assms(1) us m by (simp add: executeMarket_def Let_def)
  ultimately show ?thesis by (auto simp: worked_def)
qed

lemma activate_order_worked:
  assumes "activate_order cm now w (e, b) = (w', e', b')" "0 < sint (WO_remaining w)"
  shows "worked w w' e e'"
proof -
  have mk: "worked (w\<lparr>WO_active := True\<rparr>) None e e' \<Longrightarrow> worked w None e e'" by (simp add: worked_def)
  show ?thesis
    using assms executeMarket_worked [of cm "w\<lparr>WO_active := True\<rparr>" now b e e' b'] mk
    by (auto simp: activate_order_def Let_def split: if_splits intro: worked_kept)
qed

text \<open>A trade and a resting order, without the engine: what is left of the order and how much of it is
  filled.\<close>

definition matches :: "string \<Rightarrow> i64 \<Rightarrow> workingOrder \<Rightarrow> bool" where
  "matches side units w \<longleftrightarrow> WO_active w \<and> LO_Type (WO_order w) = OrderLimit \<and>
     LO_Side (WO_order w) = (if side = SideBuy then SideSell else SideBuy) \<and> priceUnits (LO_Price (WO_order w)) = units"

definition ahead :: "FillModel \<Rightarrow> workingOrder \<Rightarrow> int" where
  "ahead fm w = (if FM_QueuePosition fm then max 0 (sint (WO_queueAhead w)) else 0)"

definition taken :: "FillModel \<Rightarrow> i64 \<Rightarrow> workingOrder \<Rightarrow> int" where
  "taken fm vol w = min (sint (WO_remaining w)) (max 0 (sint vol - ahead fm w))"

lemma trade_order_other:
  "\<not> matches side units w \<or> sint vol \<le> 0 \<Longrightarrow> trade_order cm side units vol ts w e = (Some w, e)"
  by (auto simp: trade_order_def matches_def Let_def)

lemma trade_order_matches:
  assumes "matches side units w" "0 < sint vol" "0 < sint (WO_remaining w)"
    and t: "trade_order cm side units vol ts w e = (w', e')"
  shows "worked w w' e e' \<and>
    (case w' of
       None \<Rightarrow> taken (FE_fm e) vol w = sint (WO_remaining w) \<and> traded (FE_fills e') = traded (FE_fills e) + sint (WO_remaining w)
     | Some v \<Rightarrow> sint (WO_remaining v) = sint (WO_remaining w) - taken (FE_fm e) vol w \<and>
         ahead (FE_fm e) v = max 0 (ahead (FE_fm e) w - sint vol) \<and> WO_active v)"
proof -
  let ?queued = "FM_QueuePosition (FE_fm e) \<and> 0 < sint (WO_queueAhead w)"
  show ?thesis
  proof (cases "?queued \<and> sint vol \<le> sint (WO_queueAhead w)")
    case True
    have s: "sint (WO_queueAhead w - vol) = sint (WO_queueAhead w) - sint vol"
      using True assms by (intro sint_diff) simp_all
    have "w' = Some (w\<lparr>WO_queueAhead := WO_queueAhead w - vol\<rparr>)" "e' = e"
      using t True assms(1-3) by (auto simp: trade_order_def matches_def Let_def)
    then show ?thesis using True assms s by (auto simp: worked_kept taken_def ahead_def matches_def)
  next
    case False
    define q0 where "q0 = (if ?queued then vol - WO_queueAhead w else vol)"
    define q where "q = (if sint (WO_remaining w) < sint q0 then WO_remaining w else q0)"
    define v where "v = (if ?queued then w\<lparr>WO_queueAhead := 0\<rparr> else w)"
    define f where "f = \<lparr>Fill_OrderID = WO_id w, Fill_TS = ts, Fill_Side = LO_Side (WO_order w),
      Fill_Type = OrderLimit, Fill_Price = decimalPrice units, Fill_Qty = q, Fill_Fee = fee cm e (decimalPrice units) q\<rparr>"
    have q0: "sint q0 = sint vol - ahead (FE_fm e) w" "0 < sint q0"
      using False assms by (auto simp: q0_def ahead_def sint_diff)
    have q: "sint q = taken (FE_fm e) vol w" "0 < sint q" "sint q \<le> sint (WO_remaining w)"
      using q0 assms(3) by (auto simp: q_def taken_def)
    have s: "sint (WO_remaining w - q) = sint (WO_remaining w) - sint q" by (rule sint_diff) (use q(2) assms(3) in simp_all)
    have v: "WO_id v = WO_id w" "WO_order v = WO_order w" "WO_remaining v = WO_remaining w" "WO_active v = WO_active w"
      "ahead (FE_fm e) v = 0" by (auto simp: v_def ahead_def)
    have "trade_order cm side units vol ts w e = limit_fill cm units ts v q e"
      using False assms(1-3) unfolding q_def q0_def v_def
      by (cases ?queued) (auto simp: trade_order_def matches_def Let_def not_le simp del: if_cancel)
    then have res: "(w', e') = (if WO_remaining w - q = 0 then (None, (recordFill f e)\<lparr>FE_filled := FE_filled (recordFill f e) + 1\<rparr>)
        else (Some (v\<lparr>WO_remaining := WO_remaining w - q\<rparr>), recordFill f e))"
      using q(2) v by (simp add: t limit_fill_def f_def Let_def)
    have z: "WO_remaining w - q = 0 \<longleftrightarrow> sint q = sint (WO_remaining w)" using s sint_eq_0 [of "WO_remaining w - q"] by linarith
    have f: "Fill_OrderID f = WO_id w" "fill_qty f = sint q" "Fill_Side f = LO_Side (WO_order w)"
      by (simp_all add: f_def fill_qty_def)
    have a: "ahead (FE_fm e) (v\<lparr>WO_remaining := WO_remaining w - q\<rparr>) = max 0 (ahead (FE_fm e) w - sint vol)"
    proof -
      have "ahead (FE_fm e) (v\<lparr>WO_remaining := WO_remaining w - q\<rparr>) = ahead (FE_fm e) v" by (simp add: ahead_def)
      then show ?thesis using v(5) q0 by simp
    qed
    have act: "WO_active w" using assms(1) by (simp add: matches_def)
    have fq: "0 < fill_qty f" using q(2) by (simp only: f(2))
    show ?thesis
    proof (cases "WO_remaining w - q = 0")
      case True
      with res have r: "w' = None" "e' = (recordFill f e)\<lparr>FE_filled := FE_filled (recordFill f e) + 1\<rparr>" by simp_all
      have "fill_qty f = sint (WO_remaining w)" using True z by (simp only: f(2))
      then show ?thesis
        using worked_fill(1) [OF f(1) fq f(3)] q(1) f(2) unfolding r by (simp add: recordFill_def)
    next
      case False
      let ?v = "v\<lparr>WO_remaining := WO_remaining w - q\<rparr>"
      from False res have r: "w' = Some ?v" "e' = recordFill f e" by simp_all
      have "sint (WO_remaining w - q) \<noteq> 0" using False by simp
      with q s have "0 < sint (WO_remaining ?v)" by simp
      moreover have "fill_qty f + sint (WO_remaining ?v) = sint (WO_remaining w)" using f(2) s by simp
      ultimately have "worked w (Some ?v) e (recordFill f e)"
        using worked_fill(2) [OF f(1) fq f(3), of ?v] v by simp
      then show ?thesis using s q(1) a act v(4) unfolding r by simp
    qed
  qed
qed

lemma trade_order_worked:
  assumes "trade_order cm side units vol ts w e = (w', e')" "0 < sint (WO_remaining w)"
  shows "worked w w' e e'"
  using trade_order_matches [OF _ _ assms(2,1)] trade_order_other [of side units w vol cm ts e] assms
  by (cases "matches side units w \<and> 0 < sint vol") (auto simp: worked_kept not_less)

end
