(* ===== verification/Lob_Properties.thy ===== *)
theory Lob_Properties
  imports Lob_Orders "HOL-Library.Sublist"
begin

text \<open>
  The replay as a whole: no order is filled beyond its size, the counters of the result account for every
  order, the portfolio is that of the fills, and a resting order is filled by exactly the traded volume
  that exceeds the queue it joined.
\<close>

subsection \<open>All working orders\<close>

inductive worked_all :: "workingOrder list \<Rightarrow> workingOrder list \<Rightarrow> fillEngine \<Rightarrow> fillEngine \<Rightarrow> bool" where
  no_order: "worked_all [] [] e e"
| next_order: "worked w w' e e1 \<Longrightarrow> worked_all ws ws' e1 e2 \<Longrightarrow>
    worked_all (w # ws) (case w' of None \<Rightarrow> ws' | Some v \<Rightarrow> v # ws') e e2"

inductive_cases worked_all_ConsE: "worked_all (w # ws) ws' e e'"

lemma activate_loop_worked:
  "activate_loop cm now ws (e, b) = (ws', e', b') \<Longrightarrow> \<forall>w \<in> set ws. 0 < sint (WO_remaining w) \<Longrightarrow> worked_all ws ws' e e'"
proof (induction ws arbitrary: e b ws' e' b')
  case (Cons w ws)
  obtain w1 e1 b1 where a: "activate_order cm now w (e, b) = (w1, e1, b1)" by (metis prod_cases3)
  obtain ws2 e2 b2 where l: "activate_loop cm now ws (e1, b1) = (ws2, e2, b2)" by (metis prod_cases3)
  have "worked w w1 e e1" using activate_order_worked [OF a] Cons.prems(2) by simp
  moreover have "worked_all ws ws2 e1 e2" using Cons.IH [OF l] Cons.prems(2) by simp
  ultimately have "worked_all (w # ws) (case w1 of None \<Rightarrow> ws2 | Some v \<Rightarrow> v # ws2) e e2" by (rule next_order)
  with Cons.prems(1) show ?case by (simp add: a l)
qed (simp add: no_order)

lemma trade_loop_worked:
  "trade_loop cm side units vol ts ws e = (ws', e') \<Longrightarrow> \<forall>w \<in> set ws. 0 < sint (WO_remaining w) \<Longrightarrow> worked_all ws ws' e e'"
proof (induction ws arbitrary: e ws' e')
  case (Cons w ws)
  obtain w1 e1 where a: "trade_order cm side units vol ts w e = (w1, e1)" by fastforce
  obtain ws2 e2 where l: "trade_loop cm side units vol ts ws e1 = (ws2, e2)" by fastforce
  have "worked w w1 e e1" using trade_order_worked [OF a] Cons.prems(2) by simp
  moreover have "worked_all ws ws2 e1 e2" using Cons.IH [OF l] Cons.prems(2) by simp
  ultimately have "worked_all (w # ws) (case w1 of None \<Rightarrow> ws2 | Some v \<Rightarrow> v # ws2) e e2" by (rule next_order)
  with Cons.prems(1) show ?case by (simp add: a l)
qed (simp add: no_order)

text \<open>What an order has been filled.\<close>

definition filled_in :: "i64 \<Rightarrow> Fill list \<Rightarrow> int" where
  "filled_in i fs = (\<Sum>f\<leftarrow>fs. if Fill_OrderID f = i then fill_qty f else 0)"

abbreviation filled_of :: "i64 \<Rightarrow> fillEngine \<Rightarrow> int" where
  "filled_of i e \<equiv> filled_in i (FE_fills e)"

lemma filled_in_append [simp]: "filled_in i (fs @ gs) = filled_in i fs + filled_in i gs"
  by (simp add: filled_in_def)

lemma filled_in_all: "\<forall>f \<in> set fs. Fill_OrderID f = i \<Longrightarrow> filled_in i fs = traded fs"
  by (induction fs) (simp_all add: filled_in_def)

lemma filled_in_none: "\<forall>f \<in> set fs. Fill_OrderID f \<noteq> i \<Longrightarrow> filled_in i fs = 0"
  by (induction fs) (simp_all add: filled_in_def)

lemma worked_same:
  assumes "worked w w' e e'"
  shows "FE_fm e' = FE_fm e" "FE_nextOrderID e' = FE_nextOrderID e" "FE_orders e' = FE_orders e" "FE_cancelled e' = FE_cancelled e"
    "FE_filled e \<le> FE_filled e'" "FE_filled e' \<le> FE_filled e + (if w' = None then 1 else 0)"
  using assms by (simp_all add: worked_def)

lemma worked_filled:
  assumes "worked w w' e e'"
  shows "case w' of None \<Rightarrow> filled_of (WO_id w) e' \<le> filled_of (WO_id w) e + sint (WO_remaining w)
    | Some v \<Rightarrow> WO_id v = WO_id w \<and> WO_order v = WO_order w \<and> 0 < sint (WO_remaining v) \<and>
        filled_of (WO_id w) e' + sint (WO_remaining v) = filled_of (WO_id w) e + sint (WO_remaining w)"
    and "i \<noteq> WO_id w \<Longrightarrow> filled_of i e' = filled_of i e"
proof -
  from assms obtain added where a: "FE_fills e' = FE_fills e @ added" "\<forall>f \<in> set added. Fill_OrderID f = WO_id w"
      "case w' of None \<Rightarrow> traded added \<le> sint (WO_remaining w)
       | Some v \<Rightarrow> WO_id v = WO_id w \<and> WO_order v = WO_order w \<and> 0 < sint (WO_remaining v) \<and>
           traded added + sint (WO_remaining v) = sint (WO_remaining w)"
    by (auto simp: worked_def)
  show "i \<noteq> WO_id w \<Longrightarrow> filled_of i e' = filled_of i e" using a by (auto simp: filled_in_none)
  show "case w' of None \<Rightarrow> filled_of (WO_id w) e' \<le> filled_of (WO_id w) e + sint (WO_remaining w)
    | Some v \<Rightarrow> WO_id v = WO_id w \<and> WO_order v = WO_order w \<and> 0 < sint (WO_remaining v) \<and>
        filled_of (WO_id w) e' + sint (WO_remaining v) = filled_of (WO_id w) e + sint (WO_remaining w)"
    using a by (cases w') (simp_all add: filled_in_all)
qed

lemma worked_traded:
  "worked w w' e e' \<Longrightarrow> filled_of (WO_id w) e' = filled_of (WO_id w) e + (traded (FE_fills e') - traded (FE_fills e))"
  by (auto simp: worked_def filled_in_all)

lemma worked_all_same:
  assumes "worked_all ws ws' e e'"
  shows "FE_fm e' = FE_fm e \<and> FE_nextOrderID e' = FE_nextOrderID e \<and> FE_orders e' = FE_orders e \<and> FE_cancelled e' = FE_cancelled e \<and>
    FE_filled e \<le> FE_filled e' \<and> FE_filled e' + int (length ws') \<le> FE_filled e + int (length ws)"
  using assms
proof (induction rule: worked_all.induct)
  case (next_order w w' e e1 ws ws' e2)
  with worked_same [OF next_order.hyps(1)] show ?case by (cases w') simp_all
qed simp

lemma worked_all_fills:
  assumes "worked_all ws ws' e e'"
  shows "\<exists>added. FE_fills e' = FE_fills e @ added \<and> FE_portfolio e' = apply_fills (FE_portfolio e) added \<and>
    (\<forall>f \<in> set added. 0 < fill_qty f \<and> (\<exists>w \<in> set ws. Fill_OrderID f = WO_id w \<and> Fill_Side f = LO_Side (WO_order w)))"
  using assms
proof (induction rule: worked_all.induct)
  case (next_order w w' e e1 ws ws' e2)
  from next_order.hyps(1) obtain a1 where "FE_fills e1 = FE_fills e @ a1" "FE_portfolio e1 = apply_fills (FE_portfolio e) a1"
    "\<forall>f \<in> set a1. Fill_OrderID f = WO_id w \<and> 0 < fill_qty f \<and> Fill_Side f = LO_Side (WO_order w)"
    by (auto simp: worked_def)
  with next_order.IH show ?case
    by (elim exE conjE) (rule_tac x = "a1 @ added" in exI, auto)
qed (simp add: exI [of _ "[]"])

lemma worked_all_ids:
  assumes "worked_all ws ws' e e'"
  shows "subseq (map (\<lambda>w. (WO_id w, WO_order w)) ws') (map (\<lambda>w. (WO_id w, WO_order w)) ws)"
  using assms
proof (induction rule: worked_all.induct)
  case (next_order w w' e e1 ws ws' e2)
  with worked_filled(1) [OF next_order.hyps(1)] show ?case by (cases w') auto
qed simp

lemma worked_all_subset:
  "worked_all ws ws' e e' \<Longrightarrow> (\<lambda>w. (WO_id w, WO_order w)) ` set ws' \<subseteq> (\<lambda>w. (WO_id w, WO_order w)) ` set ws"
proof -
  assume "worked_all ws ws' e e'"
  from worked_all_ids [OF this] obtain N where n: "map (\<lambda>w. (WO_id w, WO_order w)) ws' = nths (map (\<lambda>w. (WO_id w, WO_order w)) ws) N"
    unfolding subseq_conv_nths by blast
  have "set (map (\<lambda>w. (WO_id w, WO_order w)) ws') \<subseteq> set (map (\<lambda>w. (WO_id w, WO_order w)) ws)"
    unfolding n by (rule set_nths_subset)
  then show ?thesis by (simp only: set_map)
qed

lemma worked_all_pos:
  assumes "worked_all ws ws' e e'" shows "\<forall>w \<in> set ws'. 0 < sint (WO_remaining w)"
  using assms
proof (induction rule: worked_all.induct)
  case (next_order w w' e e1 ws ws' e2)
  with worked_filled(1) [OF next_order.hyps(1)] show ?case by (cases w') simp_all
qed simp

lemma worked_all_other:
  "worked_all ws ws' e e' \<Longrightarrow> i \<notin> WO_id ` set ws \<Longrightarrow> filled_of i e' = filled_of i e"
  by (induction rule: worked_all.induct) (simp_all add: worked_filled(2))

text \<open>With distinct numbers every order is accounted for on its own.\<close>

lemma worked_all_order:
  assumes "worked_all ws ws' e e'" "distinct (map WO_id ws)" "w \<in> set ws"
  shows "(\<exists>v \<in> set ws'. WO_id v = WO_id w \<and> WO_order v = WO_order w \<and>
      filled_of (WO_id w) e' + sint (WO_remaining v) = filled_of (WO_id w) e + sint (WO_remaining w)) \<or>
    (WO_id w \<notin> WO_id ` set ws' \<and> filled_of (WO_id w) e' \<le> filled_of (WO_id w) e + sint (WO_remaining w))"
  using assms
proof (induction rule: worked_all.induct)
  case (next_order w1 w1' e e1 ws ws' e2)
  have ids: "WO_id ` set ws' \<subseteq> WO_id ` set ws"
    using worked_all_subset [OF next_order.hyps(2)] by fastforce
  show ?case
  proof (cases "w = w1")
    case True
    then have out: "WO_id w \<notin> WO_id ` set ws" using next_order.prems(1) by auto
    then have "filled_of (WO_id w) e2 = filled_of (WO_id w) e1" by (rule worked_all_other [OF next_order.hyps(2)])
    with worked_filled(1) [OF next_order.hyps(1)] True out ids show ?thesis by (cases w1') auto
  next
    case False
    then have w: "w \<in> set ws" using next_order.prems by simp
    then have "WO_id w \<noteq> WO_id w1" using next_order.prems(1) by (metis distinct.simps(2) image_eqI list.set_map list.simps(9))
    note w = w this
    then have "filled_of (WO_id w) e1 = filled_of (WO_id w) e" using worked_filled(2) [OF next_order.hyps(1)] by blast
    moreover have "\<forall>v. w1' = Some v \<longrightarrow> WO_id v \<noteq> WO_id w" using worked_filled(1) [OF next_order.hyps(1)] w(2) by auto
    ultimately show ?thesis using next_order.IH w next_order.prems(1) by (cases w1') auto
  qed
qed simp

subsection \<open>The engine\<close>

definition engine_ok :: "LobOrder list \<Rightarrow> fillEngine \<Rightarrow> bool" where
  "engine_ok os e \<longleftrightarrow>
     FE_portfolio e = portfolio_of (FE_fills e) \<and> (\<forall>f \<in> set (FE_fills e). 0 < fill_qty f) \<and>
     (\<forall>w \<in> set (FE_working e). 0 < sint (WO_remaining w)) \<and>
     FE_orders e = int (length os) \<and> FE_nextOrderID e = word_of_int (int (length os)) \<and>
     0 \<le> FE_filled e \<and> 0 \<le> FE_cancelled e \<and> FE_filled e + FE_cancelled e + int (length (FE_working e)) \<le> FE_orders e"

text \<open>Number \<open>i\<close> is the \<open>i\<close>-th order; numbers do not wrap below \<open>2^63\<close> orders.\<close>

definition order_no :: "LobOrder list \<Rightarrow> i64 \<Rightarrow> LobOrder option" where
  "order_no os i = (if 0 < sint i \<and> sint i \<le> int (length os) then Some (os ! nat (sint i - 1)) else None)"

definition numbered :: "LobOrder list \<Rightarrow> fillEngine \<Rightarrow> bool" where
  "numbered os e \<longleftrightarrow>
     sorted_wrt (<) (map (\<lambda>w. sint (WO_id w)) (FE_working e)) \<and>
     (\<forall>w \<in> set (FE_working e). order_no os (WO_id w) = Some (WO_order w) \<and>
        filled_of (WO_id w) e + sint (WO_remaining w) = sint (LO_Qty (WO_order w))) \<and>
     (\<forall>f \<in> set (FE_fills e). \<exists>ord. order_no os (Fill_OrderID f) = Some ord \<and> Fill_Side f = LO_Side ord) \<and>
     (\<forall>i ord. order_no os i = Some ord \<longrightarrow> filled_of i e \<le> sint (LO_Qty ord))"

lemma engine_ok_new: "engine_ok [] (newFillEngine fm)" "numbered [] (newFillEngine fm)"
  by (simp_all add: engine_ok_def numbered_def newFillEngine_def portfolio_of_def order_no_def)

lemma engine_ok_worked:
  assumes "engine_ok os e" "worked_all (FE_working e) kept e e'"
  shows "engine_ok os (e'\<lparr>FE_working := kept\<rparr>)"
proof -
  from worked_all_fills [OF assms(2)] obtain added where a: "FE_fills e' = FE_fills e @ added"
      "FE_portfolio e' = apply_fills (FE_portfolio e) added" "\<forall>f \<in> set added. 0 < fill_qty f" by blast
  have "FE_portfolio e' = portfolio_of (FE_fills e')" using assms(1) a by (simp add: engine_ok_def portfolio_of_def)
  with worked_all_same [OF assms(2)] worked_all_pos [OF assms(2)] assms(1) a show ?thesis
    by (auto simp: engine_ok_def)
qed

lemma sorted_ids_distinct: "sorted_wrt (<) (map (\<lambda>w. sint (WO_id w)) ws) \<Longrightarrow> distinct (map WO_id ws)"
  by (induction ws) auto

lemma same_id: "distinct (map WO_id ws) \<Longrightarrow> v \<in> set ws \<Longrightarrow> w \<in> set ws \<Longrightarrow> WO_id v = WO_id w \<Longrightarrow> v = w"
  by (induction ws) (auto simp: image_iff)

lemma subseq_strict_sorted:
  assumes "subseq xs ys" "sorted_wrt (<) (ys :: int list)" shows "sorted_wrt (<) xs"
proof -
  from assms(1) obtain N where "xs = nths ys N" unfolding subseq_conv_nths by blast
  with assms(2) show ?thesis by (simp add: strict_sorted_iff sorted_nths distinct_nthsI)
qed

lemma numbered_worked:
  assumes "numbered os e" and w: "worked_all (FE_working e) kept e e'"
  shows "numbered os (e'\<lparr>FE_working := kept\<rparr>)"
proof -
  note n = assms(1) [unfolded numbered_def]
  have ids: "distinct (map WO_id (FE_working e))" using n sorted_ids_distinct by blast
  have "subseq (map sint (map fst (map (\<lambda>w. (WO_id w, WO_order w)) kept))) (map sint (map fst (map (\<lambda>w. (WO_id w, WO_order w)) (FE_working e))))"
    by (intro subseq_map worked_all_ids [OF w])
  then have "subseq (map (\<lambda>w. sint (WO_id w)) kept) (map (\<lambda>w. sint (WO_id w)) (FE_working e))" by (simp add: comp_def)
  then have sorted: "sorted_wrt (<) (map (\<lambda>w. sint (WO_id w)) kept)" using n subseq_strict_sorted by blast
  note kept_ids = sorted_ids_distinct [OF this]
  from worked_all_fills [OF w] obtain added where a: "FE_fills e' = FE_fills e @ added"
      "\<forall>f \<in> set added. \<exists>w \<in> set (FE_working e). Fill_OrderID f = WO_id w \<and> Fill_Side f = LO_Side (WO_order w)" by blast
  have "order_no os (WO_id v) = Some (WO_order v) \<and> filled_of (WO_id v) e' + sint (WO_remaining v) = sint (LO_Qty (WO_order v))"
    if v: "v \<in> set kept" for v
  proof -
    from worked_all_subset [OF w] v obtain u where u: "u \<in> set (FE_working e)" "WO_id u = WO_id v" "WO_order u = WO_order v" by force
    from worked_all_order [OF w ids u(1)] v u(2) obtain x where x: "x \<in> set kept" "WO_id x = WO_id u"
        "filled_of (WO_id u) e' + sint (WO_remaining x) = filled_of (WO_id u) e + sint (WO_remaining u)" by auto
    have "x = v" using same_id [OF kept_ids x(1) v] x(2) u(2) by simp
    with x u n show ?thesis by auto
  qed
  moreover have "\<exists>ord. order_no os (Fill_OrderID f) = Some ord \<and> Fill_Side f = LO_Side ord" if "f \<in> set (FE_fills e')" for f
    using that a n by auto
  moreover have "filled_of i e' \<le> sint (LO_Qty ord)" if i: "order_no os i = Some ord" for i ord
  proof (cases "i \<in> WO_id ` set (FE_working e)")
    case True
    then obtain u where u: "u \<in> set (FE_working e)" "WO_id u = i" by blast
    with n i have q: "filled_of i e + sint (WO_remaining u) = sint (LO_Qty ord)" by auto
    from worked_all_order [OF w ids u(1)] show ?thesis
      using q u(2) worked_all_pos [OF w] by fastforce
  next
    case False
    with worked_all_other [OF w False] i n show ?thesis by auto
  qed
  ultimately show ?thesis using sorted by (simp add: numbered_def)
qed

lemma sint_number: "int n < 2 ^ 63 \<Longrightarrow> sint (word_of_int (int n) :: i64) = int n"
  by (intro sint_of_fits) (simp add: fits_def)

lemma normalizeOrder_qty: "normalizeOrder ord = Inr ord' \<Longrightarrow> 0 < sint (LO_Qty ord')"
  by (auto simp: normalizeOrder_def Let_def split: if_splits option.splits)

lemma engine_ok_enqueue:
  "engine_ok os e \<Longrightarrow> 0 < sint (LO_Qty ord) \<Longrightarrow> engine_ok (os @ [ord]) (enqueue t ord e)"
  by (auto simp: engine_ok_def enqueue_def)

lemma numbered_enqueue:
  assumes "numbered os e" "engine_ok os e" "int (length os) + 1 < 2 ^ 63" "0 < sint (LO_Qty ord)"
  shows "numbered (os @ [ord]) (enqueue t ord e)"
proof -
  let ?i = "FE_nextOrderID e + 1"
  note n = assms(1) [unfolded numbered_def]
  have i: "sint ?i = int (length os) + 1"
    using sint_number [of "length os + 1"] assms(2,3) by (simp add: engine_ok_def add.commute)
  have old: "order_no (os @ [ord]) i = Some x" if "order_no os i = Some x" for i x
    using that by (auto simp: order_no_def nth_append split: if_splits)
  have new: "order_no (os @ [ord]) ?i = Some ord" "order_no os ?i = None" by (simp_all add: order_no_def i)
  have cases: "order_no os k = Some x \<or> (k = ?i \<and> x = ord)" if "order_no (os @ [ord]) k = Some x" for k x
  proof (cases "sint k = int (length os) + 1")
    case True
    then have "sint k = sint ?i" using i by simp
    then have "k = ?i" by (rule signed_word_eqI)
    with that new show ?thesis by simp
  next
    case False
    with that show ?thesis by (auto simp: order_no_def nth_append nat_less_iff split: if_splits)
  qed
  have ids: "sint (WO_id w) < sint ?i" if "w \<in> set (FE_working e)" for w
    using n that unfolding i by (auto simp: order_no_def split: if_splits)
  have none: "filled_of ?i e = 0" by (rule filled_in_none) (use n new(2) in force)
  show ?thesis
    unfolding numbered_def
  proof (intro conjI ballI allI impI)
    show "sorted_wrt (<) (map (\<lambda>w. sint (WO_id w)) (FE_working (enqueue t ord e)))"
      using n ids by (simp add: enqueue_def sorted_wrt_append)
  next
    fix w assume "w \<in> set (FE_working (enqueue t ord e))"
    then show "order_no (os @ [ord]) (WO_id w) = Some (WO_order w)"
        "filled_of (WO_id w) (enqueue t ord e) + sint (WO_remaining w) = sint (LO_Qty (WO_order w))"
      using n old new none by (auto simp: enqueue_def)
  next
    fix f assume "f \<in> set (FE_fills (enqueue t ord e))"
    then show "\<exists>x. order_no (os @ [ord]) (Fill_OrderID f) = Some x \<and> Fill_Side f = LO_Side x"
      using n old by (fastforce simp: enqueue_def)
  next
    fix k x assume k: "order_no (os @ [ord]) k = Some x"
    show "filled_of k (enqueue t ord e) \<le> sint (LO_Qty x)"
      using cases [OF k] n none assms(4) by (auto simp: enqueue_def)
  qed
qed

lemma submit_loop_ok:
  assumes "submit_loop t ords e = Inr e'" "engine_ok os e"
  obtains new where "map normalizeOrder ords = map Inr new" "engine_ok (os @ new) e'"
    "numbered os e \<and> int (length (os @ new)) < 2 ^ 63 \<longrightarrow> numbered (os @ new) e'"
    "FE_fills e' = FE_fills e" "FE_fm e' = FE_fm e" "\<exists>ws. FE_working e' = FE_working e @ ws"
  using assms
proof (induction ords arbitrary: e os thesis)
  case Nil
  then show ?case by (intro Nil.prems(1) [of "[]"]) simp_all
next
  case (Cons ord ords)
  from Cons.prems(2) obtain ord' where o: "normalizeOrder ord = Inr ord'" "submit_loop t ords (enqueue t ord' e) = Inr e'"
    by (auto split: sum.splits)
  note q = normalizeOrder_qty [OF o(1)]
  obtain new where new: "map normalizeOrder ords = map Inr new" "engine_ok ((os @ [ord']) @ new) e'"
    "numbered (os @ [ord']) (enqueue t ord' e) \<and> int (length ((os @ [ord']) @ new)) < 2 ^ 63 \<longrightarrow> numbered ((os @ [ord']) @ new) e'"
    "FE_fills e' = FE_fills (enqueue t ord' e)" "FE_fm e' = FE_fm (enqueue t ord' e)"
    "\<exists>ws. FE_working e' = FE_working (enqueue t ord' e) @ ws"
    using Cons.IH [OF _ o(2) engine_ok_enqueue [OF Cons.prems(3) q]] by metis
  show ?case
  proof (rule Cons.prems(1) [of "ord' # new"])
    show "numbered os e \<and> int (length (os @ ord' # new)) < 2 ^ 63 \<longrightarrow> numbered (os @ ord' # new) e'"
      using new(3) numbered_enqueue [OF _ Cons.prems(3) _ q] by simp
  qed (use o new in \<open>auto simp: enqueue_def\<close>)
qed

lemma cancelAll_ok: "engine_ok os e \<Longrightarrow> engine_ok os (cancelAll e)"
  using length_filter_le [of "\<lambda>w. 0 < sint (WO_remaining w)" "FE_working e"]
  by (auto simp: engine_ok_def cancelAll_def)

lemma cancelAll_numbered: "numbered os e \<Longrightarrow> numbered os (cancelAll e)"
  by (simp add: numbered_def cancelAll_def)

lemma activate_ok:
  assumes "activate cm b now e = (e', b')" "engine_ok os e"
  shows "\<exists>kept e1. worked_all (FE_working e) kept e e1 \<and> e' = e1\<lparr>FE_working := kept\<rparr>"
proof -
  obtain kept e1 b1 where l: "activate_loop cm now (FE_working e) (e, b) = (kept, e1, b1)" by (metis prod_cases3)
  have "worked_all (FE_working e) kept e e1"
    by (rule activate_loop_worked [OF l]) (use assms(2) in \<open>simp add: engine_ok_def\<close>)
  with assms(1) l show ?thesis by (auto simp: activate_def)
qed

lemma onTrade_ok:
  assumes "engine_ok os e"
  shows "\<exists>kept e1. worked_all (FE_working e) kept e e1 \<and> onTrade cm side price vol ts e = e1\<lparr>FE_working := kept\<rparr> \<or>
    onTrade cm side price vol ts e = e"
proof (cases "side \<noteq> SideBuy \<and> side \<noteq> SideSell")
  case False
  obtain kept e1 where l: "trade_loop cm side (priceUnits price) vol ts (FE_working e) e = (kept, e1)" by fastforce
  have "worked_all (FE_working e) kept e e1"
    by (rule trade_loop_worked [OF l]) (use assms in \<open>simp add: engine_ok_def\<close>)
  with False l show ?thesis by (auto simp: onTrade_def)
qed (simp add: onTrade_def)

subsection \<open>The orders of a run\<close>

definition step_orders :: "(float64 \<Rightarrow> i64 \<Rightarrow> i64) \<Rightarrow> 's strategy \<Rightarrow> LobEvent \<Rightarrow> 's replayer \<Rightarrow> LobOrder list" where
  "step_orders cm strategy ev r =
     (case replay_apply ev r of
        (Inr True, r) \<Rightarrow> fst (strategy (R_state (replay_fills cm ev r)) (R_book (replay_fills cm ev r)) ev)
      | _ \<Rightarrow> [])"

primrec submitted :: "(float64 \<Rightarrow> i64 \<Rightarrow> i64) \<Rightarrow> 's strategy \<Rightarrow> LobEvent list \<Rightarrow> 's replayer \<Rightarrow> LobOrder list" where
  "submitted cm strategy [] r = []"
| "submitted cm strategy (ev # evs) r =
     step_orders cm strategy ev r @
       (case replay_step cm strategy ev r of Inl er \<Rightarrow> [] | Inr r \<Rightarrow> submitted cm strategy evs r)"

lemma submitted_append:
  "replay_steps cm strategy xs r = Inr q \<Longrightarrow>
    submitted cm strategy (xs @ ys) r = submitted cm strategy xs r @ submitted cm strategy ys q"
  by (induction xs arbitrary: r) (auto split: sum.splits)

definition tracked :: "LobOrder list \<Rightarrow> fillEngine \<Rightarrow> bool" where
  "tracked os e \<longleftrightarrow> engine_ok os e \<and> (int (length os) < 2 ^ 63 \<longrightarrow> numbered os e)"

lemma tracked_worked:
  "tracked os e \<Longrightarrow> worked_all (FE_working e) kept e e' \<Longrightarrow> tracked os (e'\<lparr>FE_working := kept\<rparr>)"
  by (auto simp: tracked_def engine_ok_worked numbered_worked)

lemma tracked_cancelAll: "tracked os e \<Longrightarrow> tracked os (cancelAll e)"
  by (simp add: tracked_def cancelAll_ok cancelAll_numbered)

lemma tracked_activate: "tracked os e \<Longrightarrow> activate cm b now e = (e', b') \<Longrightarrow> tracked os e'"
  using activate_ok tracked_worked unfolding tracked_def by blast

lemma tracked_replay_activate: "tracked os (R_fill r) \<Longrightarrow> tracked os (R_fill (replay_activate cm ev r))"
  by (auto simp: replay_activate_def split: prod.splits intro: tracked_activate)

lemma tracked_onTrade: "tracked os e \<Longrightarrow> tracked os (onTrade cm side price vol ts e)"
  using onTrade_ok [of os e cm side price vol ts] tracked_worked unfolding tracked_def by metis

lemma tracked_replay_fills: "tracked os (R_fill r) \<Longrightarrow> tracked os (R_fill (replay_fills cm ev r))"
  using tracked_replay_activate [of os r cm ev] tracked_onTrade by (auto simp: replay_fills_def Let_def)

lemma R_fill_replay_apply:
  "R_fill (snd (replay_apply ev r)) = (if LE_Kind ev = KindGap then cancelAll (R_fill r) else R_fill r)"
  by (auto simp: replay_apply_def set_level_def Let_def kind_defs split: option.splits)

lemma tracked_submit:
  assumes "tracked os e" "submit ords now e = Inr e'"
  obtains new where "map normalizeOrder ords = map Inr new" "tracked (os @ new) e'"
proof -
  have "engine_ok os e" using assms(1) by (simp add: tracked_def)
  from submit_loop_ok [OF assms(2) [unfolded submit_def] this] obtain new where
    "map normalizeOrder ords = map Inr new" "engine_ok (os @ new) e'"
    "numbered os e \<and> int (length (os @ new)) < 2 ^ 63 \<longrightarrow> numbered (os @ new) e'" by metis
  with that [of new] assms(1) show thesis by (auto simp: tracked_def)
qed

lemma tracked_step:
  assumes "tracked os (R_fill r)" "replay_step cm strategy ev r = Inr r'"
  obtains new where "map normalizeOrder (step_orders cm strategy ev r) = map Inr new" "tracked (os @ new) (R_fill r')"
  using assms(2)
proof (cases rule: replay_stepE)
  case skip
  then have "R_fill r' = (if LE_Kind ev = KindGap then cancelAll (R_fill r) else R_fill r)" using R_fill_replay_apply [of ev r] by simp
  then have "tracked os (R_fill r')" using assms(1) by (simp add: tracked_cancelAll)
  with skip show thesis by (intro that [of "[]"]) (simp_all add: step_orders_def)
next
  case (full r1 orders b s e)
  have "R_fill r1 = (if LE_Kind ev = KindGap then cancelAll (R_fill r) else R_fill r)" using R_fill_replay_apply [of ev r] full(2) by simp
  then have "tracked os (R_fill r1)" using assms(1) by (simp add: tracked_cancelAll)
  then have "tracked os (R_fill (replay_fills cm ev r1))" by (rule tracked_replay_fills)
  from tracked_submit [OF this full(4)] obtain new where new: "map normalizeOrder orders = map Inr new" "tracked (os @ new) e" by blast
  have "tracked (os @ new) (R_fill r')"
    unfolding full(5) replay_record_keeps by (rule tracked_replay_activate) (simp add: new(2))
  with new(1) full(2,3) show thesis by (intro that [of new]) (simp_all add: step_orders_def)
qed

lemma tracked_steps:
  assumes "tracked os (R_fill r)" "replay_steps cm strategy evs r = Inr r'"
  obtains new where "map normalizeOrder (submitted cm strategy evs r) = map Inr new" "tracked (os @ new) (R_fill r')"
  using assms
proof (induction evs arbitrary: r os thesis)
  case Nil
  then show ?case by (intro Nil.prems(1) [of "[]"]) simp_all
next
  case (Cons ev evs)
  from Cons.prems(3) obtain q where q: "replay_step cm strategy ev r = Inr q" "replay_steps cm strategy evs q = Inr r'"
    by (auto split: sum.splits)
  from tracked_step [OF Cons.prems(2) q(1)] obtain n1 where
    n1: "map normalizeOrder (step_orders cm strategy ev r) = map Inr n1" "tracked (os @ n1) (R_fill q)" by blast
  from Cons.IH [OF _ n1(2) q(2)] obtain n2 where
    "map normalizeOrder (submitted cm strategy evs q) = map Inr n2" "tracked ((os @ n1) @ n2) (R_fill r')" by blast
  with n1 q show ?case by (intro Cons.prems(1) [of "n1 @ n2"]) simp_all
qed


end
