(* ===== verification/Lob_Queue.thy ===== *)
theory Lob_Queue
  imports Lob_Properties
begin

text \<open>
  The queue of a resting order, in closed form. \<open>resting\<close> is what the engine holds of one visible limit
  order: what it has been filled, what is left of it and the volume ahead of it. Every step of the
  replay other than a gap changes this by the traded volume that hits the order, and by nothing else.
\<close>

subsection \<open>One trade\<close>

definition resting :: "i64 \<Rightarrow> LobOrder \<Rightarrow> int \<Rightarrow> int \<Rightarrow> int \<Rightarrow> fillEngine \<Rightarrow> bool" where
  "resting i ord left front done e \<longleftrightarrow>
     filled_of i e = done \<and>
     (if left = 0 then i \<notin> WO_id ` set (FE_working e)
      else \<exists>w \<in> set (FE_working e). WO_id w = i \<and> WO_order w = ord \<and> WO_active w \<and> sint (WO_remaining w) = left \<and>
        ahead (FE_fm e) w = front)"

text \<open>Of \<open>vol\<close> traded lots, those beyond the \<open>front\<close> lots ahead fill the order, up to \<open>left\<close>.\<close>

definition share :: "int \<Rightarrow> int \<Rightarrow> int \<Rightarrow> int" where
  "share left front vol = min left (max 0 (vol - front))"

lemma share_add:
  "0 \<le> left \<Longrightarrow> 0 \<le> front \<Longrightarrow> 0 \<le> v1 \<Longrightarrow> 0 \<le> v2 \<Longrightarrow>
    share left front (v1 + v2) = share left front v1 + share (left - share left front v1) (max 0 (front - v1)) v2"
  by (auto simp: share_def)

lemma ahead_nonneg: "0 \<le> ahead fm w"
  by (simp add: ahead_def)

lemma trade_loop_order:
  assumes "trade_loop cm side units vol ts ws e = (ws', e')" "distinct (map WO_id ws)" "w \<in> set ws"
    "\<forall>w \<in> set ws. 0 < sint (WO_remaining w)" "WO_active w" "LO_Type (WO_order w) = OrderLimit"
  defines "v \<equiv> if matches side units w then max 0 (sint vol) else 0"
  defines "t \<equiv> share (sint (WO_remaining w)) (ahead (FE_fm e) w) v"
  shows "filled_of (WO_id w) e' = filled_of (WO_id w) e + t \<and>
    (if t = sint (WO_remaining w) then WO_id w \<notin> WO_id ` set ws'
     else \<exists>u \<in> set ws'. WO_id u = WO_id w \<and> WO_order u = WO_order w \<and> WO_active u \<and>
       sint (WO_remaining u) = sint (WO_remaining w) - t \<and> ahead (FE_fm e) u = max 0 (ahead (FE_fm e) w - v))"
  using assms(1-4) unfolding t_def
proof (induction ws arbitrary: e ws')
  case (Cons x xs)
  obtain x1 e1 where a: "trade_order cm side units vol ts x e = (x1, e1)" by fastforce
  obtain xs2 where l: "trade_loop cm side units vol ts xs e1 = (xs2, e')" and ws': "ws' = (case x1 of None \<Rightarrow> xs2 | Some u \<Rightarrow> u # xs2)"
    using Cons.prems(1) a by (auto split: prod.splits)
  have pos: "0 < sint (WO_remaining x)" "\<forall>w \<in> set xs. 0 < sint (WO_remaining w)" using Cons.prems(4) by simp_all
  note wk = trade_order_worked [OF a pos(1)] and all = trade_loop_worked [OF l pos(2)]
  have ids: "WO_id ` set xs2 \<subseteq> WO_id ` set xs" using worked_all_subset [OF all] by fastforce
  show ?case
  proof (cases "w = x")
    case True
    have out: "WO_id w \<notin> WO_id ` set xs" "WO_id w \<notin> WO_id ` set xs2" using Cons.prems(2) True ids by auto
    have f: "filled_of (WO_id w) e' = filled_of (WO_id w) e1" by (rule worked_all_other [OF all out(1)])
    show ?thesis
    proof (cases "matches side units w \<and> 0 < sint vol")
      case m: True
      then have "share (sint (WO_remaining w)) (ahead (FE_fm e) w) v = taken (FE_fm e) vol w" "v = sint vol"
        by (simp_all add: v_def share_def taken_def)
      moreover have "worked w x1 e e1 \<and> (case x1 of
          None \<Rightarrow> taken (FE_fm e) vol w = sint (WO_remaining w) \<and> traded (FE_fills e1) = traded (FE_fills e) + sint (WO_remaining w)
        | Some u \<Rightarrow> sint (WO_remaining u) = sint (WO_remaining w) - taken (FE_fm e) vol w \<and>
            ahead (FE_fm e) u = max 0 (ahead (FE_fm e) w - sint vol) \<and> WO_active u)"
        using trade_order_matches [of side units w vol cm ts e x1 e1] m pos(1) a True by simp
      ultimately show ?thesis
        using f out worked_filled(1) [OF wk] worked_traded [OF wk] True by (cases x1) (auto simp: ws')
    next
      case m: False
      then have "x1 = Some w" "e1 = e" using a True trade_order_other [of side units w vol cm ts e] by auto
      moreover have "v = 0" using m by (auto simp: v_def)
      ultimately show ?thesis
        using f pos(1) True ahead_nonneg [of "FE_fm e" w] assms(5) by (auto simp: ws' share_def)
    qed
  next
    case False
    then have w: "w \<in> set xs" using Cons.prems(3) by simp
    then have ne: "WO_id w \<noteq> WO_id x" using Cons.prems(2) by (metis distinct.simps(2) image_eqI list.set_map list.simps(9))
    have "filled_of (WO_id w) e1 = filled_of (WO_id w) e" using worked_filled(2) [OF wk] ne by blast
    moreover have "FE_fm e1 = FE_fm e" using worked_same [OF wk] by blast
    moreover have "\<forall>u. x1 = Some u \<longrightarrow> WO_id u \<noteq> WO_id w" using worked_filled(1) [OF wk] ne by auto
    ultimately show ?thesis
      using Cons.IH [OF l _ w pos(2)] Cons.prems(2) by (cases x1) (auto simp: ws')
  qed
qed simp

text \<open>The volume of a trade that hits an order.\<close>

definition hit :: "LobOrder \<Rightarrow> string \<Rightarrow> Decimal \<Rightarrow> i64 \<Rightarrow> int" where
  "hit ord side price vol =
     (if LO_Side ord = (if side = SideBuy then SideSell else SideBuy) \<and> priceUnits (LO_Price ord) = priceUnits price
      then max 0 (sint vol) else 0)"

lemma resting_onTrade:
  assumes "resting i ord left front done e" "tracked os e" "int (length os) < 2 ^ 63" "0 \<le> left" "0 \<le> front"
    "LO_Type ord = OrderLimit" "side = SideBuy \<or> side = SideSell"
  shows "resting i ord (left - share left front (hit ord side price vol)) (max 0 (front - hit ord side price vol))
    (done + share left front (hit ord side price vol)) (onTrade cm side price vol ts e)"
proof -
  have n: "numbered os e" "engine_ok os e" using assms(2,3) by (simp_all add: tracked_def)
  then have ids: "distinct (map WO_id (FE_working e))" and pos: "\<forall>w \<in> set (FE_working e). 0 < sint (WO_remaining w)"
    using sorted_ids_distinct by (auto simp: numbered_def engine_ok_def)
  obtain kept e1 where l: "trade_loop cm side (priceUnits price) vol ts (FE_working e) e = (kept, e1)" by fastforce
  then have e': "onTrade cm side price vol ts e = e1\<lparr>FE_working := kept\<rparr>" using assms(7) by (auto simp: onTrade_def)
  note all = trade_loop_worked [OF l pos]
  have fm: "FE_fm e1 = FE_fm e" using worked_all_same [OF all] by blast
  show ?thesis
  proof (cases "left = 0")
    case True
    then have i: "i \<notin> WO_id ` set (FE_working e)" "filled_of i e = done" using assms(1) by (simp_all add: resting_def)
    then have "i \<notin> WO_id ` set kept" using worked_all_subset [OF all] by fastforce
    with i worked_all_other [OF all i(1)] True assms(5) show ?thesis by (simp add: resting_def e' share_def)
  next
    case False
    then obtain w where w: "w \<in> set (FE_working e)" "WO_id w = i" "WO_order w = ord" "WO_active w" "sint (WO_remaining w) = left"
        "ahead (FE_fm e) w = front" "filled_of i e = done" using assms(1) by (auto simp: resting_def)
    have "matches side (priceUnits price) w \<longleftrightarrow>
        LO_Side ord = (if side = SideBuy then SideSell else SideBuy) \<and> priceUnits (LO_Price ord) = priceUnits price"
      using w assms(6) by (simp add: matches_def)
    then show ?thesis
      using trade_loop_order [OF l ids w(1) pos w(4)] w(2-7) assms(6)
      by (auto simp: resting_def e' hit_def fm)
  qed
qed

subsection \<open>One step\<close>

lemma activate_loop_active:
  "activate_loop cm now ws (e, b) = (ws', e', b') \<Longrightarrow> w \<in> set ws \<Longrightarrow> WO_active w \<Longrightarrow> w \<in> set ws'"
proof (induction ws arbitrary: e b ws' e' b')
  case (Cons x xs)
  obtain x1 e1 b1 where a: "activate_order cm now x (e, b) = (x1, e1, b1)" by (metis prod_cases3)
  obtain xs2 e2 b2 where l: "activate_loop cm now xs (e1, b1) = (xs2, e2, b2)" by (metis prod_cases3)
  have ws': "ws' = (case x1 of None \<Rightarrow> xs2 | Some u \<Rightarrow> u # xs2)" using Cons.prems(1) by (simp add: a l)
  show ?case
  proof (cases "w = x")
    case True
    then have "x1 = Some w" using a Cons.prems(3) by (simp add: activate_order_def)
    then show ?thesis by (simp add: ws')
  next
    case False
    then show ?thesis using Cons.IH [OF l _ Cons.prems(3)] Cons.prems(2) by (cases x1) (simp_all add: ws')
  qed
qed simp

lemma resting_activate:
  assumes "resting i ord left front done e" "tracked os e" "int (length os) < 2 ^ 63" "activate cm b now e = (e', b')"
  shows "resting i ord left front done e'"
proof -
  have n: "numbered os e" "engine_ok os e" using assms(2,3) by (simp_all add: tracked_def)
  then have ids: "distinct (map WO_id (FE_working e))" and pos: "\<forall>w \<in> set (FE_working e). 0 < sint (WO_remaining w)"
    using sorted_ids_distinct by (auto simp: numbered_def engine_ok_def)
  obtain kept e1 b1 where l: "activate_loop cm now (FE_working e) (e, b) = (kept, e1, b1)" by (metis prod_cases3)
  then have e': "e' = e1\<lparr>FE_working := kept\<rparr>" using assms(4) by (simp add: activate_def)
  note all = activate_loop_worked [OF l pos]
  have fm: "FE_fm e1 = FE_fm e" using worked_all_same [OF all] by blast
  show ?thesis
  proof (cases "left = 0")
    case True
    then have i: "i \<notin> WO_id ` set (FE_working e)" "filled_of i e = done" using assms(1) by (simp_all add: resting_def)
    then have "i \<notin> WO_id ` set kept" using worked_all_subset [OF all] by fastforce
    with i worked_all_other [OF all i(1)] True show ?thesis by (simp add: resting_def e')
  next
    case False
    then obtain w where w: "w \<in> set (FE_working e)" "WO_id w = i" "WO_order w = ord" "WO_active w" "sint (WO_remaining w) = left"
        "ahead (FE_fm e) w = front" "filled_of i e = done" using assms(1) by (auto simp: resting_def)
    have k: "w \<in> set kept" by (rule activate_loop_active [OF l w(1,4)])
    have k_ids: "distinct (map WO_id kept)"
      using numbered_worked [OF n(1) all] sorted_ids_distinct by (auto simp: numbered_def)
    from worked_all_order [OF all ids w(1)] k obtain v where v: "v \<in> set kept" "WO_id v = WO_id w"
        "filled_of (WO_id w) e1 + sint (WO_remaining v) = filled_of (WO_id w) e + sint (WO_remaining w)" by auto
    have "v = w" by (rule same_id [OF k_ids v(1) k v(2)])
    with v have "filled_of i e1 = done" using w by simp
    with k w False show ?thesis by (auto simp: resting_def e' fm)
  qed
qed

lemma submit_loop_working:
  assumes "submit_loop t ords e = Inr e'" "sint (FE_nextOrderID e) + int (length ords) < 2 ^ 63" "0 \<le> sint (FE_nextOrderID e)"
  shows "FE_fills e' = FE_fills e \<and> FE_fm e' = FE_fm e \<and>
    (\<exists>ws. FE_working e' = FE_working e @ ws \<and> (\<forall>w \<in> set ws. sint (FE_nextOrderID e) < sint (WO_id w)))"
  using assms
proof (induction ords arbitrary: e)
  case (Cons ord ords)
  from Cons.prems(1) obtain ord' where o: "submit_loop t ords (enqueue t ord' e) = Inr e'" by (auto split: sum.splits)
  have s: "sint (FE_nextOrderID e + 1) = sint (FE_nextOrderID e) + 1"
    using Cons.prems(2,3) by (subst sint_exact(1)) (simp_all add: fits_def)
  have "sint (FE_nextOrderID (enqueue t ord' e)) = sint (FE_nextOrderID e) + 1" by (simp add: enqueue_def s)
  with Cons.IH [OF o] Cons.prems obtain ws where
    "FE_fills e' = FE_fills (enqueue t ord' e)" "FE_fm e' = FE_fm (enqueue t ord' e)"
    "FE_working e' = FE_working (enqueue t ord' e) @ ws" "\<forall>w \<in> set ws. sint (FE_nextOrderID e) + 1 < sint (WO_id w)" by auto
  then show ?case by (fastforce simp: enqueue_def s)
qed simp

lemma resting_submit:
  assumes "resting i ord left front done e" "engine_ok os e" "int (length os) + int (length ords) < 2 ^ 63" "submit ords now e = Inr e'"
    "sint i \<le> int (length os)"
  shows "resting i ord left front done e'"
proof -
  have s: "sint (FE_nextOrderID e) = int (length os)"
    using assms(2,3) sint_number [of "length os"] by (simp add: engine_ok_def)
  have "FE_fills e' = FE_fills e \<and> FE_fm e' = FE_fm e \<and>
    (\<exists>ws. FE_working e' = FE_working e @ ws \<and> (\<forall>w \<in> set ws. sint (FE_nextOrderID e) < sint (WO_id w)))"
    using assms(3) by (intro submit_loop_working [OF assms(4) [unfolded submit_def]]) (simp_all add: s)
  then show ?thesis using assms(1,5) s by (fastforce simp: resting_def split: if_splits)
qed

definition trade_no :: "LobEvent \<Rightarrow> i64" where
  "trade_no ev = (case LE_Trade ev of None \<Rightarrow> 0 | Some t \<Rightarrow> LT_TradeNo t)"

definition event_hit :: "LobOrder \<Rightarrow> i64 set \<Rightarrow> LobEvent \<Rightarrow> int" where
  "event_hit ord seen ev =
     (if LE_Kind ev = KindTrade \<and> \<not> (trade_no ev \<noteq> 0 \<and> trade_no ev \<in> seen) \<and> (LE_Side ev = SideBuy \<or> LE_Side ev = SideSell)
      then hit ord (LE_Side ev) (LE_Price ev) (LE_Qty ev) else 0)"

definition seen_after :: "LobEvent \<Rightarrow> i64 set \<Rightarrow> i64 set" where
  "seen_after ev seen = (if LE_Kind ev = KindTrade \<and> trade_no ev \<noteq> 0 then insert (trade_no ev) seen else seen)"

lemma R_seenTrades_replay_apply: "R_seenTrades (snd (replay_apply ev r)) = seen_after ev (R_seenTrades r)"
  by (auto simp: replay_apply_def seen_after_def trade_no_def set_level_def Let_def kind_defs split: option.splits)

lemma replay_apply_skip:
  "replay_apply ev r = (Inr False, r1) \<Longrightarrow> LE_Kind ev = KindTrade \<and> trade_no ev \<noteq> 0 \<and> trade_no ev \<in> R_seenTrades r"
  by (auto simp: replay_apply_def trade_no_def set_level_def Let_def split: if_splits option.splits)

lemma replay_apply_full:
  "replay_apply ev r = (Inr True, r1) \<Longrightarrow> \<not> (LE_Kind ev = KindTrade \<and> trade_no ev \<noteq> 0 \<and> trade_no ev \<in> R_seenTrades r)"
  by (auto simp: replay_apply_def trade_no_def set_level_def Let_def kind_defs split: if_splits option.splits)

lemma resting_none: "resting i ord left front done e \<Longrightarrow> 0 \<le> left \<Longrightarrow> 0 \<le> front \<Longrightarrow>
    resting i ord (left - share left front 0) (max 0 (front - 0)) (done + share left front 0) e"
  by (auto simp: resting_def share_def split: if_splits)

lemma resting_replay_activate:
  "resting i ord left front done (R_fill r) \<Longrightarrow> tracked os (R_fill r) \<Longrightarrow> int (length os) < 2 ^ 63 \<Longrightarrow>
    resting i ord left front done (R_fill (replay_activate cm ev r))"
  by (auto simp: replay_activate_def split: prod.splits intro: resting_activate)

lemma resting_step:
  assumes rest: "resting i ord left front done (R_fill r)" and tr: "tracked os (R_fill r)" and st: "replay_step cm strategy ev r = Inr r'"
    and "LE_Kind ev \<noteq> KindGap" "0 \<le> left" "0 \<le> front" "LO_Type ord = OrderLimit" "sint i \<le> int (length os)"
    and bound: "int (length os) + int (length (step_orders cm strategy ev r)) < 2 ^ 63"
  defines "v \<equiv> event_hit ord (R_seenTrades r) ev"
  shows "resting i ord (left - share left front v) (max 0 (front - v)) (done + share left front v) (R_fill r')"
  using st
proof (cases rule: replay_stepE)
  case skip
  then have "v = 0" using replay_apply_skip by (simp add: v_def event_hit_def) blast
  moreover have "R_fill r' = R_fill r" using R_fill_replay_apply [of ev r] skip assms(4) by simp
  ultimately show ?thesis using resting_none [OF rest assms(5,6)] by simp
next
  case (full r1 orders b s e)
  have r1: "R_fill r1 = R_fill r" using R_fill_replay_apply [of ev r] full(2) assms(4) by simp
  have len: "int (length os) < 2 ^ 63" using bound by simp
  let ?a = "replay_activate cm ev r1"
  have a: "resting i ord left front done (R_fill ?a)" "tracked os (R_fill ?a)"
    using rest tr len by (simp_all add: r1 resting_replay_activate tracked_replay_activate)
  have f: "resting i ord (left - share left front v) (max 0 (front - v)) (done + share left front v) (R_fill (replay_fills cm ev r1))"
  proof (cases "LE_Kind ev = KindTrade \<and> (LE_Side ev = SideBuy \<or> LE_Side ev = SideSell)")
    case True
    then have "v = hit ord (LE_Side ev) (LE_Price ev) (LE_Qty ev)"
      using replay_apply_full [OF full(2)] by (auto simp: v_def event_hit_def)
    with resting_onTrade [OF a len assms(5-7)] True show ?thesis by (simp add: replay_fills_def Let_def)
  next
    case False
    then have "v = 0" by (auto simp: v_def event_hit_def)
    moreover have "R_fill (replay_fills cm ev r1) = R_fill ?a" using False by (auto simp: replay_fills_def Let_def onTrade_def)
    ultimately show ?thesis using resting_none [OF a(1) assms(5,6)] by simp
  qed
  have tf: "tracked os (R_fill (replay_fills cm ev r1))" using tr by (simp add: r1 tracked_replay_fills)
  have o: "step_orders cm strategy ev r = orders" using full(2,3) by (simp add: step_orders_def)
  have sub: "resting i ord (left - share left front v) (max 0 (front - v)) (done + share left front v) e"
    using tf bound o assms(8) by (intro resting_submit [OF f _ _ full(4)]) (simp_all add: tracked_def)
  from tracked_submit [OF tf full(4)] obtain new where new: "map normalizeOrder orders = map Inr new" "tracked (os @ new) e" by blast
  have "length new = length orders" using arg_cong [OF new(1), of length] by simp
  then have "int (length (os @ new)) < 2 ^ 63" using bound o by simp
  with resting_replay_activate [of i ord _ _ _ "(replay_fills cm ev r1)\<lparr>R_fill := e, R_book := b, R_state := s\<rparr>" "os @ new"] sub new(2)
  show ?thesis unfolding full(5) replay_record_keeps by simp
qed

subsection \<open>The queue\<close>

text \<open>The volume that hits an order in a list of events, each trade number once.\<close>

primrec hitting :: "LobOrder \<Rightarrow> i64 set \<Rightarrow> LobEvent list \<Rightarrow> int" where
  "hitting ord seen [] = 0"
| "hitting ord seen (ev # evs) = event_hit ord seen ev + hitting ord (seen_after ev seen) evs"

lemma hitting_nonneg: "0 \<le> hitting ord seen evs"
  by (induction evs arbitrary: seen) (simp_all add: event_hit_def hit_def)

lemma resting_steps:
  assumes "resting i ord left front done (R_fill r)" "tracked os (R_fill r)" "replay_steps cm strategy evs r = Inr r'"
    "KindGap \<notin> LE_Kind ` set evs" "0 \<le> left" "0 \<le> front" "LO_Type ord = OrderLimit" "sint i \<le> int (length os)"
    "int (length os) + int (length (submitted cm strategy evs r)) < 2 ^ 63"
  shows "filled_of i (R_fill r') = done + share left front (hitting ord (R_seenTrades r) evs)"
  using assms
proof (induction evs arbitrary: left front "done" r os)
  case Nil
  then show ?case by (simp add: resting_def share_def)
next
  case (Cons ev evs)
  from Cons.prems(3) obtain q where q: "replay_step cm strategy ev r = Inr q" "replay_steps cm strategy evs q = Inr r'"
    by (auto split: sum.splits)
  let ?v = "event_hit ord (R_seenTrades r) ev"
  from tracked_step [OF Cons.prems(2) q(1)] obtain new where
    new: "map normalizeOrder (step_orders cm strategy ev r) = map Inr new" "tracked (os @ new) (R_fill q)" by blast
  have len: "length new = length (step_orders cm strategy ev r)" using arg_cong [OF new(1), of length] by simp
  have v: "0 \<le> ?v" by (simp add: event_hit_def hit_def)
  have seen: "R_seenTrades q = seen_after ev (R_seenTrades r)"
    using replay_step_flags(2) [OF q(1)] R_seenTrades_replay_apply by metis
  have "resting i ord (left - share left front ?v) (max 0 (front - ?v)) (done + share left front ?v) (R_fill q)"
    using Cons.prems q by (intro resting_step [OF Cons.prems(1,2) q(1)]) auto
  from Cons.IH [OF this new(2) q(2)]
  have "filled_of i (R_fill r') = done + share left front ?v
      + share (left - share left front ?v) (max 0 (front - ?v)) (hitting ord (R_seenTrades q) evs)"
    using Cons.prems q(1) len by (simp add: share_def)
  also have "\<dots> = done + share left front (?v + hitting ord (R_seenTrades q) evs)"
    using share_add [OF Cons.prems(5,6) v hitting_nonneg] by simp
  finally show ?case by (simp add: seen)
qed

text \<open>
  C35: queue-aware fills in closed form. Take an order that rests visibly at some point of a replay, with
  \<open>WO_remaining\<close> lots left and \<open>ahead\<close> lots before it in the queue (none in the optimistic model). Until
  the next recording gap, whatever the strategy does and whatever else is in the stream, it has been
  filled by the volume of the trades that hit it, each trade number counted once, less the volume ahead,
  and never by more than what is left of it.
\<close>

theorem queue_closed_form:
  assumes "replay_steps cm strategy before (newReplayer fm s) = Inr r" "replay_steps cm strategy evs r = Inr r'"
    and "KindGap \<notin> LE_Kind ` set evs"
    and "w \<in> set (FE_working (R_fill r))" "WO_active w" "LO_Type (WO_order w) = OrderLimit"
    and "int (length (submitted cm strategy (before @ evs) (newReplayer fm s))) < 2 ^ 63"
  shows "filled_of (WO_id w) (R_fill r') - filled_of (WO_id w) (R_fill r) =
    min (sint (WO_remaining w)) (max 0 (hitting (WO_order w) (R_seenTrades r) evs - ahead (FE_fm (R_fill r)) w))"
proof -
  have "tracked [] (R_fill (newReplayer fm s))" by (simp add: tracked_def engine_ok_new newReplayer_def)
  from tracked_steps [OF this assms(1)] obtain os where
    os: "map normalizeOrder (submitted cm strategy before (newReplayer fm s)) = map Inr os" "tracked os (R_fill r)" by auto
  have len: "length os = length (submitted cm strategy before (newReplayer fm s))" using arg_cong [OF os(1), of length] by simp
  have sub: "submitted cm strategy (before @ evs) (newReplayer fm s) =
      submitted cm strategy before (newReplayer fm s) @ submitted cm strategy evs r"
    using assms(1) by (rule submitted_append)
  have bound: "int (length os) + int (length (submitted cm strategy evs r)) < 2 ^ 63" using assms(7) by (simp add: sub len)
  then have ok: "numbered os (R_fill r)" "engine_ok os (R_fill r)" using os(2) by (simp_all add: tracked_def)
  have "order_no os (WO_id w) = Some (WO_order w)" using ok(1) assms(4) by (auto simp: numbered_def)
  then have i: "sint (WO_id w) \<le> int (length os)" by (simp add: order_no_def split: if_splits)
  have pos: "0 < sint (WO_remaining w)" using ok(2) assms(4) by (auto simp: engine_ok_def)
  have "resting (WO_id w) (WO_order w) (sint (WO_remaining w)) (ahead (FE_fm (R_fill r)) w) (filled_of (WO_id w) (R_fill r)) (R_fill r)"
    using assms(4,5) pos by (auto simp: resting_def)
  from resting_steps [OF this os(2) assms(2,3) _ ahead_nonneg assms(6) i bound] pos show ?thesis by (simp add: share_def)
qed

definition queue_order :: LobOrder where
  "queue_order = \<lparr>LO_Side = SideBuy, LO_Type = OrderLimit, LO_Price = decimalPrice 100, LO_Qty = 10\<rparr>"

definition queueing :: "unit strategy" where
  "queueing s b ev = (if LE_Side ev = SideAsk then [queue_order] else [], b, s)"

definition sell_trade :: "int \<Rightarrow> i64 \<Rightarrow> i64 \<Rightarrow> LobEvent" where
  "sell_trade t qty n = (book_event t KindTrade SideSell 100 qty)\<lparr>LE_Trade := Some \<lparr>LT_TradeNo = n, LT_OpenInterest = 0\<rparr>\<rparr>"

definition quotes_before :: "LobEvent list" where
  "quotes_before = [book_event 0 KindSnapshot SideBid 100 100, book_event 0 KindSnapshot SideAsk 101 100]"

definition sell_trades :: "LobEvent list" where
  "sell_trades = [sell_trade 1 60 1, sell_trade 1 60 1, sell_trade 2 45 2]"

lemmas fill_evals = activate_order_def enqueue_def normalizeOrder_def activeAt_def Time_Add_def addSec_def Time_Before_def
  qtyAt_def orderBookSide_def queue_order_def queueing_def quotes_before_def ahead_def step_orders_def

lemma queue_before:
  "case replay_steps (\<lambda>_ _. 0) queueing quotes_before (newReplayer flat_model ()) of
     Inl e \<Rightarrow> False
   | Inr r \<Rightarrow> \<exists>w. FE_working (R_fill r) = [w] \<and> WO_id w = 1 \<and> WO_active w \<and> WO_order w = queue_order \<and> sint (WO_remaining w) = 10 \<and>
       ahead (FE_fm (R_fill r)) w = 100 \<and> FE_fills (R_fill r) = [] \<and> R_seenTrades r = {}"
  by (simp add: replay_evals fill_evals)

lemma valid_kind:
  "validateEvent ev = None \<Longrightarrow>
    LE_Kind ev = KindSnapshot \<or> LE_Kind ev = KindLevel \<or> LE_Kind ev = KindGap \<or> LE_Kind ev = KindTrade"
  by (auto simp add: validateEvent_def split: if_splits)

lemma quiet_step:
  assumes "validateEvent ev = None" "\<And>s b. fst (strategy s b ev) = []"
  shows "\<exists>r'. replay_step cm strategy ev r = Inr r'" "step_orders cm strategy ev r = []"
proof -
  have "isl (fst (replay_apply ev r)) = False"
    using valid_kind [OF assms(1)] by (elim disjE) (simp_all add: replay_apply_def kind_defs Let_def)
  then have "\<exists>k. fst (replay_apply ev r) = Inr k" by (cases "fst (replay_apply ev r)") simp_all
  then obtain k r1 where a: "replay_apply ev r = (Inr k, r1)" by (metis prod.collapse)
  show "step_orders cm strategy ev r = []" using assms(2) by (cases k) (simp_all add: step_orders_def a)
  obtain b s where st: "strategy (R_state (replay_fills cm ev r1)) (R_book (replay_fills cm ev r1)) ev = ([], b, s)"
    using assms(2) by (metis prod.collapse)
  show "\<exists>r'. replay_step cm strategy ev r = Inr r'"
    by (cases k) (simp_all add: replay_step_def Let_def assms(1) a st submit_def del: replay_fills_keeps)
qed

lemma quiet_steps:
  assumes "\<forall>ev \<in> set evs. validateEvent ev = None \<and> (\<forall>s b. fst (strategy s b ev) = [])"
  shows "(\<exists>r'. replay_steps cm strategy evs r = Inr r') \<and> submitted cm strategy evs r = []"
  using assms
proof (induction evs arbitrary: r)
  case (Cons ev evs)
  have ev: "validateEvent ev = None" "\<And>s b. fst (strategy s b ev) = []" using Cons.prems by auto
  obtain q where "replay_step cm strategy ev r = Inr q" using quiet_step(1) [of ev strategy cm r] ev by blast
  with Cons quiet_step(2) [of ev strategy cm r] ev show ?case by simp
qed simp

lemma queue_submitted: "length (submitted (\<lambda>_ _. 0) queueing quotes_before (newReplayer flat_model ())) = 1"
  by (simp add: replay_evals fill_evals)

lemma sell_trades_quiet: "\<forall>ev \<in> set sell_trades. validateEvent ev = None \<and> (\<forall>s b. fst (queueing s b ev) = [])"
  by (simp add: sell_trades_def sell_trade_def book_event_def validateEvent_def queueing_def Time_IsZero_def kind_defs name_defs)

theorem queue_closed_form_witness: "\<exists>r' :: unit replayer. filled_of 1 (R_fill r') = 5"
proof -
  obtain r w where r: "replay_steps (\<lambda>_ _. 0) queueing quotes_before (newReplayer flat_model ()) = Inr r" "FE_working (R_fill r) = [w]"
      "WO_id w = 1" "WO_active w" "WO_order w = queue_order" "sint (WO_remaining w) = 10" "ahead (FE_fm (R_fill r)) w = 100"
      "FE_fills (R_fill r) = []" "R_seenTrades r = {}"
    using queue_before by (auto split: sum.splits)
  obtain r' where r': "replay_steps (\<lambda>_ _. 0) queueing sell_trades r = Inr r'"
    using quiet_steps [OF sell_trades_quiet, of "\<lambda>_ _. 0" r] by blast
  have "submitted (\<lambda>_ _. 0) queueing (quotes_before @ sell_trades) (newReplayer flat_model ()) =
      submitted (\<lambda>_ _. 0) queueing quotes_before (newReplayer flat_model ())"
    using submitted_append [OF r(1)] quiet_steps [OF sell_trades_quiet] by simp
  then have n: "int (length (submitted (\<lambda>_ _. 0) queueing (quotes_before @ sell_trades) (newReplayer flat_model ()))) < 2 ^ 63"
    using queue_submitted by simp
  have "hitting queue_order {} sell_trades = 105"
    by (simp add: sell_trades_def sell_trade_def event_hit_def seen_after_def trade_no_def hit_def book_event_def queue_order_def kind_defs name_defs)
  moreover have "KindGap \<notin> LE_Kind ` set sell_trades" by (simp add: sell_trades_def sell_trade_def book_event_def kind_defs)
  moreover have "LO_Type queue_order = OrderLimit" by (simp add: queue_order_def)
  ultimately have "filled_of 1 (R_fill r') = 5"
    using queue_closed_form [OF r(1) r', of w] n r(2-9) by (simp add: filled_in_def)
  then show ?thesis ..
qed


end
