(* ===== verification/Broker.thy ===== *)
theory Broker
  imports Prelude "HOL-Library.Sublist"
begin

text \<open>
  The fan-out of connector messages to gRPC clients, \<open>server/broker.go\<close>, and the receiving end of
  \<open>FetchResponseData\<close> (\<open>server/service.go\<close>). A channel with a buffer is the list of the messages in it; a
  send in a \<open>select\<close> with a default branch succeeds exactly when there is room. The mutex makes each
  operation one step. A subscription lives on after the broker has forgotten it, so all of them are in
  the store \<open>B_objs\<close>, and \<open>B_live\<close> are the keys of the map \<open>subscribers\<close> in the order Go visits them.
\<close>

subsection \<open>State and operations\<close>

record subscription =
  Sub_cap :: nat
  Sub_messages :: "string list"
  Sub_done :: bool
  Sub_err :: bool

record broker =
  B_nextID :: u64
  B_closed :: bool
  B_objs :: "u64 \<rightharpoonup> subscription"
  B_live :: "u64 list"

definition newBroker :: broker where
  "newBroker = \<lparr>B_nextID = 0, B_closed = False, B_objs = Map.empty, B_live = []\<rparr>"

definition subscribe :: "int \<Rightarrow> broker \<Rightarrow> u64 \<times> broker" where
  "subscribe buffer b =
     (let buffer = (if buffer < 1 then 1 else buffer); i = B_nextID b + 1;
          sub = \<lparr>Sub_cap = nat buffer, Sub_messages = [], Sub_done = B_closed b, Sub_err = False\<rparr>
      in (i, b\<lparr>B_nextID := i, B_objs := (B_objs b)(i \<mapsto> sub), B_live := (if B_closed b \<or> i \<in> set (B_live b) then B_live b else B_live b @ [i])\<rparr>))"

text \<open>One turn of the loop of \<open>publish\<close>: the message is buffered, or the subscriber is detached.\<close>

definition offer :: "string \<Rightarrow> broker \<Rightarrow> u64 \<Rightarrow> broker" where
  "offer m b i =
     (case B_objs b i of
        None \<Rightarrow> b
      | Some sub \<Rightarrow>
          if length (Sub_messages sub) < Sub_cap sub
          then b\<lparr>B_objs := (B_objs b)(i \<mapsto> sub\<lparr>Sub_messages := Sub_messages sub @ [m]\<rparr>)\<rparr>
          else b\<lparr>B_objs := (B_objs b)(i \<mapsto> sub\<lparr>Sub_err := True, Sub_done := True\<rparr>), B_live := remove1 i (B_live b)\<rparr>)"

definition publish :: "string \<Rightarrow> broker \<Rightarrow> broker" where
  "publish m b = (if B_closed b then b else foldl (offer m) b (B_live b))"

definition detach_sub :: "broker \<Rightarrow> u64 \<Rightarrow> broker" where
  "detach_sub b i =
     b\<lparr>B_objs := (case B_objs b i of None \<Rightarrow> B_objs b | Some sub \<Rightarrow> (B_objs b)(i \<mapsto> sub\<lparr>Sub_done := True\<rparr>)),
       B_live := remove1 i (B_live b)\<rparr>"

definition broker_close :: "broker \<Rightarrow> broker" where
  "broker_close b = (if B_closed b then b else foldl detach_sub (b\<lparr>B_closed := True\<rparr>) (B_live b))"

definition subscription_close :: "u64 \<Rightarrow> broker \<Rightarrow> broker" where
  "subscription_close i b = (if i \<notin> set (B_live b) then b else detach_sub b i)"

definition subscription_error :: "u64 \<Rightarrow> broker \<Rightarrow> bool" where
  "subscription_error i b = (case B_objs b i of None \<Rightarrow> False | Some sub \<Rightarrow> Sub_err sub)"

text \<open>\<open>message := <-sub.messages\<close>, ready when there is a message.\<close>

definition receive :: "u64 \<Rightarrow> broker \<Rightarrow> (string \<times> broker) option" where
  "receive i b =
     (case B_objs b i of
        None \<Rightarrow> None
      | Some sub \<Rightarrow>
          (case Sub_messages sub of
             [] \<Rightarrow> None
           | m # ms \<Rightarrow> Some (m, b\<lparr>B_objs := (B_objs b)(i \<mapsto> sub\<lparr>Sub_messages := ms\<rparr>)\<rparr>)))"

text \<open>What \<open>FetchResponseData\<close> returns once it takes the branch of \<open>sub.done\<close>.\<close>

datatype stream_end = Finished | ResourceExhausted

definition fetch_done :: "u64 \<Rightarrow> broker \<Rightarrow> stream_end" where
  "fetch_done i b = (if subscription_error i b then ResourceExhausted else Finished)"

subsection \<open>Runs\<close>

datatype action = Subscribed u64 | Published string | Received u64 string | Closed | Unsubscribed u64

inductive broker_run :: "action list \<Rightarrow> broker \<Rightarrow> bool" where
  start: "broker_run [] newBroker"
| subscribing: "broker_run as b \<Longrightarrow> subscribe n b = (i, b') \<Longrightarrow> broker_run (as @ [Subscribed i]) b'"
| publishing: "broker_run as b \<Longrightarrow> broker_run (as @ [Published m]) (publish m b)"
| receiving: "broker_run as b \<Longrightarrow> receive i b = Some (m, b') \<Longrightarrow> broker_run (as @ [Received i m]) b'"
| closing: "broker_run as b \<Longrightarrow> broker_run (as @ [Closed]) (broker_close b)"
| unsubscribing: "broker_run as b \<Longrightarrow> broker_run (as @ [Unsubscribed i]) (subscription_close i b)"

definition subscriptions :: "action list \<Rightarrow> nat" where
  "subscriptions as = length (filter (\<lambda>a. case a of Subscribed i \<Rightarrow> True | _ \<Rightarrow> False) as)"

text \<open>What was published after the subscription \<open>i\<close>, and what it received.\<close>

fun since_step :: "u64 \<Rightarrow> string list option \<Rightarrow> action \<Rightarrow> string list option" where
  "since_step i ms (Subscribed j) = (if j = i then Some [] else ms)"
| "since_step i ms (Published m) = map_option (\<lambda>ms. ms @ [m]) ms"
| "since_step i ms _ = ms"

definition published_since :: "u64 \<Rightarrow> action list \<Rightarrow> string list option" where
  "published_since i as = foldl (since_step i) None as"

definition received :: "u64 \<Rightarrow> action list \<Rightarrow> string list" where
  "received i as = List.map_filter (\<lambda>a. case a of Received j m \<Rightarrow> if j = i then Some m else None | _ \<Rightarrow> None) as"

lemma snoc_simps [simp]:
  "published_since i [] = None" "received i [] = []" "subscriptions [] = 0"
  "published_since i (as @ [a]) = since_step i (published_since i as) a"
  "received i (as @ [a]) = received i as @ (case a of Received j m \<Rightarrow> if j = i then [m] else [] | _ \<Rightarrow> [])"
  "subscriptions (as @ [a]) = subscriptions as + (case a of Subscribed i \<Rightarrow> 1 | _ \<Rightarrow> 0)"
  by (simp_all add: published_since_def received_def subscriptions_def map_filter_def split: action.split)

subsection \<open>The loops, subscriber by subscriber\<close>

definition has_room :: "subscription \<Rightarrow> bool" where
  "has_room sub \<longleftrightarrow> length (Sub_messages sub) < Sub_cap sub"

definition offered :: "string \<Rightarrow> subscription \<Rightarrow> subscription" where
  "offered m sub = (if has_room sub then sub\<lparr>Sub_messages := Sub_messages sub @ [m]\<rparr> else sub\<lparr>Sub_err := True, Sub_done := True\<rparr>)"

lemma foldl_offer:
  assumes "distinct is" "set is \<subseteq> dom (B_objs b)" "distinct (B_live b)"
  shows "B_closed (foldl (offer m) b is) = B_closed b \<and> B_nextID (foldl (offer m) b is) = B_nextID b \<and>
    B_objs (foldl (offer m) b is) i = (if i \<in> set is then map_option (offered m) (B_objs b i) else B_objs b i) \<and>
    set (B_live (foldl (offer m) b is)) = {j \<in> set (B_live b). j \<in> set is \<longrightarrow> (\<exists>sub. B_objs b j = Some sub \<and> has_room sub)} \<and>
    distinct (B_live (foldl (offer m) b is))"
  using assms
proof (induction "is" arbitrary: b)
  case (Cons j "is")
  then obtain sub where sub: "B_objs b j = Some sub" by auto
  let ?b = "offer m b j"
  have b: "B_closed ?b = B_closed b" "B_nextID ?b = B_nextID b" "B_objs ?b = (B_objs b)(j \<mapsto> offered m sub)"
    "set (B_live ?b) = {k \<in> set (B_live b). k = j \<longrightarrow> has_room sub}" "distinct (B_live ?b)"
    using sub Cons.prems(3) by (auto simp: offer_def offered_def has_room_def)
  have "set is \<subseteq> dom (B_objs ?b)" using Cons.prems(2) b(3) by auto
  note IH = Cons.IH [OF _ this b(5)]
  have j: "j \<notin> set is" and d: "distinct is" using Cons.prems(1) by auto
  from IH [OF d] have "B_closed (foldl (offer m) ?b is) = B_closed b" "B_nextID (foldl (offer m) ?b is) = B_nextID b"
    "B_objs (foldl (offer m) ?b is) i = (if i \<in> set is then map_option (offered m) (B_objs ?b i) else B_objs ?b i)"
    "set (B_live (foldl (offer m) ?b is)) = {k \<in> set (B_live ?b). k \<in> set is \<longrightarrow> (\<exists>sub. B_objs ?b k = Some sub \<and> has_room sub)}"
    "distinct (B_live (foldl (offer m) ?b is))" unfolding b(1,2) by blast+
  note ih = this
  have "B_objs (foldl (offer m) ?b is) i = (if i \<in> set (j # is) then map_option (offered m) (B_objs b i) else B_objs b i)"
    unfolding ih(3) b(3) using j sub by auto
  moreover have "set (B_live (foldl (offer m) ?b is)) =
      {k \<in> set (B_live b). k \<in> set (j # is) \<longrightarrow> (\<exists>sub. B_objs b k = Some sub \<and> has_room sub)}"
    unfolding ih(4) b(3,4) using j sub by auto
  ultimately show ?case using ih(1,2,5) by simp
qed auto

lemma foldl_detach:
  assumes "distinct (B_live b)"
  shows "B_closed (foldl detach_sub b is) = B_closed b \<and> B_nextID (foldl detach_sub b is) = B_nextID b \<and>
    B_objs (foldl detach_sub b is) i = (if i \<in> set is then map_option (\<lambda>sub. sub\<lparr>Sub_done := True\<rparr>) (B_objs b i) else B_objs b i) \<and>
    set (B_live (foldl detach_sub b is)) = set (B_live b) - set is \<and> distinct (B_live (foldl detach_sub b is))"
  using assms
proof (induction "is" arbitrary: b)
  case (Cons j "is")
  let ?b = "detach_sub b j"
  have b: "B_closed ?b = B_closed b" "B_nextID ?b = B_nextID b"
    "B_objs ?b i = (if i = j then map_option (\<lambda>sub. sub\<lparr>Sub_done := True\<rparr>) (B_objs b i) else B_objs b i)"
    "set (B_live ?b) = set (B_live b) - {j}" "distinct (B_live ?b)"
    using Cons.prems by (auto simp: detach_sub_def split: option.split)
  note ih = Cons.IH [OF b(5)]
  have "B_objs (foldl detach_sub ?b is) i =
      (if i \<in> set (j # is) then map_option (\<lambda>sub. sub\<lparr>Sub_done := True\<rparr>) (B_objs b i) else B_objs b i)"
    using ih b(3) by (cases "i = j"; cases "B_objs b i") auto
  moreover have "set (B_live (foldl detach_sub ?b is)) = set (B_live b) - set (j # is)" using ih b(4) by auto
  ultimately show ?case using ih b(1,2) by simp
qed simp

text \<open>The operations on one subscription.\<close>

definition broker_ok :: "broker \<Rightarrow> bool" where
  "broker_ok b \<longleftrightarrow> distinct (B_live b) \<and> set (B_live b) \<subseteq> dom (B_objs b) \<and> (B_closed b \<longrightarrow> B_live b = [])"

lemma publish_objs:
  assumes "broker_ok b"
  shows "B_objs (publish m b) i = (if i \<in> set (B_live b) then map_option (offered m) (B_objs b i) else B_objs b i)"
    and "set (B_live (publish m b)) = {j \<in> set (B_live b). \<exists>sub. B_objs b j = Some sub \<and> has_room sub}"
    and "broker_ok (publish m b)" "B_closed (publish m b) = B_closed b" "B_nextID (publish m b) = B_nextID b"
proof -
  have b: "distinct (B_live b)" "set (B_live b) \<subseteq> dom (B_objs b)" "B_closed b \<Longrightarrow> B_live b = []"
    using assms by (simp_all add: broker_ok_def)
  note f = foldl_offer [OF b(1,2,1), of m]
  show objs: "B_objs (publish m b) i = (if i \<in> set (B_live b) then map_option (offered m) (B_objs b i) else B_objs b i)" for i
    using f [of i] b(3) by (simp add: publish_def)
  show live: "set (B_live (publish m b)) = {j \<in> set (B_live b). \<exists>sub. B_objs b j = Some sub \<and> has_room sub}"
    using f b(3) by (auto simp: publish_def)
  show c: "B_closed (publish m b) = B_closed b" "B_nextID (publish m b) = B_nextID b" using f by (simp_all add: publish_def)
  have "set (B_live (publish m b)) \<subseteq> dom (B_objs (publish m b))" unfolding live by (auto simp: objs)
  moreover have "distinct (B_live (publish m b))" using f b(1) by (simp add: publish_def)
  moreover have "B_closed b \<Longrightarrow> B_live (publish m b) = []" using b(3) by (simp add: publish_def)
  ultimately show "broker_ok (publish m b)" unfolding broker_ok_def c by blast
qed

lemma close_objs:
  assumes "broker_ok b"
  shows "B_objs (broker_close b) i = (if i \<in> set (B_live b) then map_option (\<lambda>sub. sub\<lparr>Sub_done := True\<rparr>) (B_objs b i) else B_objs b i)"
    and "B_live (broker_close b) = []" "broker_ok (broker_close b)" "B_nextID (broker_close b) = B_nextID b"
proof -
  have b: "distinct (B_live b)" "B_closed b \<Longrightarrow> B_live b = []" using assms by (simp_all add: broker_ok_def)
  note f = foldl_detach [of "b\<lparr>B_closed := True\<rparr>" "B_live b" i, simplified, OF b(1)]
  show "B_objs (broker_close b) i = (if i \<in> set (B_live b) then map_option (\<lambda>sub. sub\<lparr>Sub_done := True\<rparr>) (B_objs b i) else B_objs b i)"
    using f b(2) by (simp add: broker_close_def)
  show l: "B_live (broker_close b) = []" "B_nextID (broker_close b) = B_nextID b" using f b(2) by (simp_all add: broker_close_def)
  show "broker_ok (broker_close b)" by (simp add: broker_ok_def l)
qed

lemma detach_ok: "broker_ok b \<Longrightarrow> broker_ok (detach_sub b i)"
  by (auto simp: broker_ok_def detach_sub_def dest: notin_set_remove1 set_remove1_subset [THEN subsetD] split: option.split)

subsection \<open>Every subscriber reads a part of the stream\<close>

text \<open>What holds of a subscription, given what it received and whether the broker still knows it.\<close>

definition reads :: "string list option \<Rightarrow> string list \<Rightarrow> bool \<Rightarrow> subscription \<Rightarrow> bool" where
  "reads since got live sub \<longleftrightarrow> length (Sub_messages sub) \<le> Sub_cap sub \<and> Sub_done sub = (\<not> live) \<and>
     (\<exists>ms. since = Some ms \<and> prefix (got @ Sub_messages sub) ms \<and> (live \<longrightarrow> got @ Sub_messages sub = ms) \<and>
        (Sub_err sub \<longrightarrow> \<not> live \<and> Sub_cap sub < length ms))"

lemma reads_published:
  assumes "reads since got live sub"
  shows "reads (map_option (\<lambda>ms. ms @ [m]) since) got (live \<and> has_room sub) (if live then offered m sub else sub)"
  using assms by (auto simp: reads_def offered_def has_room_def not_less prefix_def)

lemma reads_done: "reads since got live sub \<Longrightarrow> reads since got False (sub\<lparr>Sub_done := True\<rparr>)"
  by (auto simp: reads_def)

lemma reads_received:
  "reads since got live sub \<Longrightarrow> Sub_messages sub = m # ms \<Longrightarrow> reads since (got @ [m]) live (sub\<lparr>Sub_messages := ms\<rparr>)"
  by (auto simp: reads_def)

definition in_step :: "action list \<Rightarrow> broker \<Rightarrow> bool" where
  "in_step as b \<longleftrightarrow> broker_ok b \<and> B_nextID b = of_nat (subscriptions as) \<and>
     (subscriptions as < 2 ^ 64 \<longrightarrow>
       (\<forall>i. case B_objs b i of
              None \<Rightarrow> received i as = []
            | Some sub \<Rightarrow> unat i \<le> subscriptions as \<and> reads (published_since i as) (received i as) (i \<in> set (B_live b)) sub))"

lemma broker_run_in_step: "broker_run as b \<Longrightarrow> in_step as b"
proof (induction rule: broker_run.induct)
  case start
  show ?case by (simp add: in_step_def broker_ok_def newBroker_def)
next
  case (subscribing as b n i b')
  let ?sub = "\<lparr>Sub_cap = nat (if n < 1 then 1 else n), Sub_messages = [], Sub_done = B_closed b, Sub_err = False\<rparr>"
  from subscribing.hyps(2) have i: "i = B_nextID b + 1" and
    b': "b' = b\<lparr>B_nextID := i, B_objs := (B_objs b)(i \<mapsto> ?sub), B_live := (if B_closed b \<or> i \<in> set (B_live b) then B_live b else B_live b @ [i])\<rparr>"
    by (auto simp: subscribe_def Let_def)
  have ok: "broker_ok b" and next_id: "B_nextID b = of_nat (subscriptions as)" using subscribing.IH by (simp_all add: in_step_def)
  have i': "i = of_nat (Suc (subscriptions as))" by (simp add: i next_id)
  show ?case
    unfolding in_step_def
  proof (intro conjI impI allI)
    show "B_nextID b' = of_nat (subscriptions (as @ [Subscribed i]))" by (simp add: b' i')
    fix j assume n: "subscriptions (as @ [Subscribed i]) < 2 ^ 64"
    then have ui: "unat i = Suc (subscriptions as)" unfolding i' by (intro unat_of_nat_eq_small) simp
    have IH: "case B_objs b k of None \<Rightarrow> received k as = []
        | Some sub \<Rightarrow> unat k \<le> subscriptions as \<and> reads (published_since k as) (received k as) (k \<in> set (B_live b)) sub" for k
      using subscribing.IH n by (simp add: in_step_def)
    have new: "B_objs b i = None" using IH [of i] ui by (cases "B_objs b i") simp_all
    then have "i \<notin> set (B_live b)" "received i as = []" using ok IH [of i] by (auto simp: broker_ok_def)
    then show "case B_objs b' j of None \<Rightarrow> received j (as @ [Subscribed i]) = []
        | Some sub \<Rightarrow> unat j \<le> subscriptions (as @ [Subscribed i]) \<and>
            reads (published_since j (as @ [Subscribed i])) (received j (as @ [Subscribed i])) (j \<in> set (B_live b')) sub"
      using IH [of j] ui by (auto simp: b' reads_def split: option.splits)
  next
    show "broker_ok b'" using ok by (auto simp: broker_ok_def b')
  qed
next
  case (publishing as b m)
  note p = publish_objs [of b m]
  have ok: "broker_ok b" using publishing.IH by (simp add: in_step_def)
  show ?case
    unfolding in_step_def
  proof (intro conjI impI allI)
    fix i assume "subscriptions (as @ [Published m]) < 2 ^ 64"
    then have IH: "case B_objs b i of None \<Rightarrow> received i as = []
        | Some sub \<Rightarrow> unat i \<le> subscriptions as \<and> reads (published_since i as) (received i as) (i \<in> set (B_live b)) sub"
      using publishing.IH by (simp add: in_step_def)
    show "case B_objs (publish m b) i of None \<Rightarrow> received i (as @ [Published m]) = []
        | Some sub \<Rightarrow> unat i \<le> subscriptions (as @ [Published m]) \<and>
            reads (published_since i (as @ [Published m])) (received i (as @ [Published m])) (i \<in> set (B_live (publish m b))) sub"
      using IH reads_published [of "published_since i as" "received i as" "i \<in> set (B_live b)" _ m]
      by (auto simp: p(1,2) [OF ok] split: option.splits)
  qed (use publishing.IH p [OF ok] in \<open>simp_all add: in_step_def\<close>)
next
  case (receiving as b i m b')
  then obtain sub ms where sub: "B_objs b i = Some sub" "Sub_messages sub = m # ms"
      and b': "b' = b\<lparr>B_objs := (B_objs b)(i \<mapsto> sub\<lparr>Sub_messages := ms\<rparr>)\<rparr>"
    by (auto simp: receive_def split: option.splits list.splits)
  have ok: "broker_ok b'" using receiving.IH sub by (auto simp: in_step_def broker_ok_def b')
  show ?case
    unfolding in_step_def
  proof (intro conjI impI allI ok)
    fix j assume "subscriptions (as @ [Received i m]) < 2 ^ 64"
    then have IH: "case B_objs b j of None \<Rightarrow> received j as = []
        | Some sub \<Rightarrow> unat j \<le> subscriptions as \<and> reads (published_since j as) (received j as) (j \<in> set (B_live b)) sub"
      using receiving.IH by (simp add: in_step_def)
    show "case B_objs b' j of None \<Rightarrow> received j (as @ [Received i m]) = []
        | Some sub \<Rightarrow> unat j \<le> subscriptions (as @ [Received i m]) \<and>
            reads (published_since j (as @ [Received i m])) (received j (as @ [Received i m])) (j \<in> set (B_live b')) sub"
      using IH sub reads_received [OF _ sub(2)] by (cases "j = i") (simp_all add: b' split: option.splits)
  qed (use receiving.IH in \<open>simp add: in_step_def b'\<close>)
next
  case (closing as b)
  have ok: "broker_ok b" using closing.IH by (simp add: in_step_def)
  note c = close_objs [OF ok]
  show ?case
    unfolding in_step_def
  proof (intro conjI impI allI c(3))
    fix j assume "subscriptions (as @ [Closed]) < 2 ^ 64"
    then have IH: "case B_objs b j of None \<Rightarrow> received j as = []
        | Some sub \<Rightarrow> unat j \<le> subscriptions as \<and> reads (published_since j as) (received j as) (j \<in> set (B_live b)) sub"
      using closing.IH by (simp add: in_step_def)
    then show "case B_objs (broker_close b) j of None \<Rightarrow> received j (as @ [Closed]) = []
        | Some sub \<Rightarrow> unat j \<le> subscriptions (as @ [Closed]) \<and>
            reads (published_since j (as @ [Closed])) (received j (as @ [Closed])) (j \<in> set (B_live (broker_close b))) sub"
      by (cases "j \<in> set (B_live b)") (auto simp: c(1,2) reads_done split: option.splits)
  qed (use closing.IH in \<open>simp add: in_step_def c\<close>)
next
  case (unsubscribing as b i)
  have ok: "broker_ok b" using unsubscribing.IH by (simp add: in_step_def)
  then have live: "set (B_live (subscription_close i b)) = set (B_live b) - {i}"
    by (auto simp: subscription_close_def detach_sub_def broker_ok_def)
  show ?case
    unfolding in_step_def
  proof (intro conjI impI allI)
    fix j assume "subscriptions (as @ [Unsubscribed i]) < 2 ^ 64"
    then have IH: "case B_objs b j of None \<Rightarrow> received j as = []
        | Some sub \<Rightarrow> unat j \<le> subscriptions as \<and> reads (published_since j as) (received j as) (j \<in> set (B_live b)) sub"
      using unsubscribing.IH by (simp add: in_step_def)
    then show "case B_objs (subscription_close i b) j of None \<Rightarrow> received j (as @ [Unsubscribed i]) = []
        | Some sub \<Rightarrow> unat j \<le> subscriptions (as @ [Unsubscribed i]) \<and>
            reads (published_since j (as @ [Unsubscribed i])) (received j (as @ [Unsubscribed i])) (j \<in> set (B_live (subscription_close i b))) sub"
      unfolding live by (cases "j = i") (auto simp: subscription_close_def detach_sub_def reads_done split: option.splits)
  qed (use unsubscribing.IH ok detach_ok [OF ok] in \<open>simp_all add: in_step_def subscription_close_def detach_sub_def\<close>)
qed


text \<open>Two clients, one of which reads nothing and is detached by the second message.\<close>

lemma slow_client:
  "\<exists>b sub. broker_run [Subscribed 1, Subscribed 2, Published ''a'', Received 2 ''a'', Published ''b''] b \<and>
     B_objs b 2 = Some sub \<and> Sub_messages sub = [''b''] \<and> \<not> Sub_done sub \<and> B_live b = [2]"
proof -
  let ?b1 = "snd (subscribe 1 newBroker)" let ?b2 = "snd (subscribe 1 ?b1)" let ?b3 = "publish ''a'' ?b2"
  have r2: "broker_run [Subscribed 1, Subscribed 2] ?b2"
    using broker_run.subscribing [OF broker_run.subscribing [OF broker_run.start, of 1 1 ?b1], of 1 2 ?b2]
    by (simp add: subscribe_def newBroker_def)
  then have r3: "broker_run [Subscribed 1, Subscribed 2, Published ''a''] ?b3"
    using broker_run.publishing [OF r2, of "''a''"] by simp
  obtain b4 where b4: "receive 2 ?b3 = Some (''a'', b4)"
    by (simp add: subscribe_def newBroker_def publish_def offer_def receive_def)
  from broker_run.publishing [OF broker_run.receiving [OF r3 b4], of "''b''"]
  have "broker_run [Subscribed 1, Subscribed 2, Published ''a'', Received 2 ''a'', Published ''b''] (publish ''b'' b4)" by simp
  moreover have "\<exists>sub. B_objs (publish ''b'' b4) 2 = Some sub \<and> Sub_messages sub = [''b''] \<and> \<not> Sub_done sub" "B_live (publish ''b'' b4) = [2]"
    using b4 by (auto simp: subscribe_def newBroker_def publish_def offer_def receive_def)
  ultimately show ?thesis by blast
qed


end
