(* ===== verification/Grpc_Client.thy ===== *)
theory Grpc_Client
  imports Prelude "HOL-Library.Signed_Division"
begin

text \<open>
  Two parts of the gRPC client that decide when something happens: the queue between the receive loop
  and the consumers (\<open>client/response_queue.go\<close>), with the steps of producer and consumer interleaved as
  the scheduler likes, and the supervisor that recreates the client (\<open>client/reconnect.go\<close>).
\<close>

subsection \<open>The response queue\<close>

text \<open>\<open>push\<close> and \<open>close\<close> release the mutex before they signal: \<open>Q_signals\<close> counts the calls between the two.
  \<open>notify\<close> is a channel of capacity one, so it is a flag; a send into a full channel is dropped. \<open>pop\<close> is
  in one of three places: not called, about to look, or blocked on \<open>notify\<close>.\<close>

datatype consumer = Outside | Looking | Waiting

record responseQueue =
  Q_messages :: "string list"
  Q_closed :: bool
  Q_notify :: bool
  Q_signals :: nat
  Q_consumer :: consumer

definition newResponseQueue :: responseQueue where
  "newResponseQueue = \<lparr>Q_messages = [], Q_closed = False, Q_notify = False, Q_signals = 0, Q_consumer = Outside\<rparr>"

text \<open>The critical section of \<open>push\<close>; \<open>False\<close> is the result of a push into a closed queue.\<close>

definition push_section :: "string \<Rightarrow> responseQueue \<Rightarrow> bool \<times> responseQueue" where
  "push_section m q =
     (if Q_closed q then (False, q)
      else (True, q\<lparr>Q_messages := Q_messages q @ [m], Q_signals := Q_signals q + 1\<rparr>))"

definition close_section :: "responseQueue \<Rightarrow> responseQueue" where
  "close_section q = q\<lparr>Q_closed := True, Q_signals := Q_signals q + 1\<rparr>"

definition queue_signal :: "responseQueue \<Rightarrow> responseQueue" where
  "queue_signal q = q\<lparr>Q_notify := True, Q_signals := Q_signals q - 1\<rparr>"

text \<open>The critical section of \<open>pop\<close>: a message, the end of a closed queue, or nothing yet.\<close>

datatype look = Took string | AtEnd | Nothing

definition pop_section :: "responseQueue \<Rightarrow> look \<times> responseQueue" where
  "pop_section q =
     (case Q_messages q of
        m # ms \<Rightarrow> (Took m, q\<lparr>Q_messages := ms, Q_consumer := Outside\<rparr>)
      | [] \<Rightarrow> if Q_closed q then (AtEnd, q\<lparr>Q_consumer := Outside\<rparr>) else (Nothing, q\<lparr>Q_consumer := Waiting\<rparr>))"

datatype queue_action = Pushed string | Refused string | ClosedQueue | Signalled | Popped string | Ended | Silent

inductive queue_step :: "responseQueue \<Rightarrow> queue_action \<Rightarrow> responseQueue \<Rightarrow> bool" where
  push_ok: "push_section m q = (True, q') \<Longrightarrow> queue_step q (Pushed m) q'"
| push_refused: "push_section m q = (False, q') \<Longrightarrow> queue_step q (Refused m) q'"
| close_it: "queue_step q ClosedQueue (close_section q)"
| signal_it: "0 < Q_signals q \<Longrightarrow> queue_step q Signalled (queue_signal q)"
| pop_call: "Q_consumer q = Outside \<Longrightarrow> queue_step q Silent (q\<lparr>Q_consumer := Looking\<rparr>)"
| pop_took: "Q_consumer q = Looking \<Longrightarrow> pop_section q = (Took m, q') \<Longrightarrow> queue_step q (Popped m) q'"
| pop_end: "Q_consumer q = Looking \<Longrightarrow> pop_section q = (AtEnd, q') \<Longrightarrow> queue_step q Ended q'"
| pop_wait: "Q_consumer q = Looking \<Longrightarrow> pop_section q = (Nothing, q') \<Longrightarrow> queue_step q Silent q'"
| pop_wake: "Q_consumer q = Waiting \<Longrightarrow> Q_notify q \<Longrightarrow> queue_step q Silent (q\<lparr>Q_notify := False, Q_consumer := Looking\<rparr>)"
| pop_done: "Q_consumer q \<noteq> Outside \<Longrightarrow> queue_step q Silent (q\<lparr>Q_consumer := Outside\<rparr>)"

inductive queue_run :: "queue_action list \<Rightarrow> responseQueue \<Rightarrow> bool" where
  new_queue: "queue_run [] newResponseQueue"
| queue_go: "queue_run as q \<Longrightarrow> queue_step q a q' \<Longrightarrow> queue_run (as @ [a]) q'"

definition pushed :: "queue_action list \<Rightarrow> string list" where
  "pushed as = List.map_filter (\<lambda>a. case a of Pushed m \<Rightarrow> Some m | _ \<Rightarrow> None) as"

definition popped :: "queue_action list \<Rightarrow> string list" where
  "popped as = List.map_filter (\<lambda>a. case a of Popped m \<Rightarrow> Some m | _ \<Rightarrow> None) as"

lemma queue_snoc [simp]:
  "pushed [] = []" "popped [] = []"
  "pushed (as @ [a]) = pushed as @ (case a of Pushed m \<Rightarrow> [m] | _ \<Rightarrow> [])"
  "popped (as @ [a]) = popped as @ (case a of Popped m \<Rightarrow> [m] | _ \<Rightarrow> [])"
  by (simp_all add: pushed_def popped_def map_filter_def split: queue_action.split)

definition queue_ok :: "queue_action list \<Rightarrow> responseQueue \<Rightarrow> bool" where
  "queue_ok as q \<longleftrightarrow> popped as @ Q_messages q = pushed as \<and>
     (Q_consumer q = Waiting \<and> (Q_messages q \<noteq> [] \<or> Q_closed q) \<longrightarrow> Q_notify q \<or> 0 < Q_signals q) \<and>
     (Ended \<in> set as \<longrightarrow> Q_closed q \<and> popped as = pushed as)"

lemma queue_step_ok:
  assumes "queue_step q a q'" "queue_ok as q" shows "queue_ok (as @ [a]) q'"
  using assms
proof (cases rule: queue_step.cases)
  case (push_ok m)
  then show ?thesis using assms(2) by (auto simp: queue_ok_def push_section_def split: if_splits)
next
  case (push_refused m)
  then show ?thesis using assms(2) by (auto simp: queue_ok_def push_section_def split: if_splits)
next
  case (pop_took m)
  then show ?thesis using assms(2) by (auto simp: queue_ok_def pop_section_def split: list.splits if_splits)
next
  case pop_end
  then show ?thesis using assms(2) by (auto simp: queue_ok_def pop_section_def split: list.splits if_splits)
next
  case pop_wait
  then show ?thesis using assms(2) by (auto simp: queue_ok_def pop_section_def split: list.splits if_splits)
qed (use assms(2) in \<open>auto simp: queue_ok_def close_section_def queue_signal_def\<close>)

lemma queue_run_ok: "queue_run as q \<Longrightarrow> queue_ok as q"
proof (induction rule: queue_run.induct)
  case new_queue
  show ?case by (simp add: queue_ok_def newResponseQueue_def)
qed (rule queue_step_ok)

text \<open>
  C39: the response queue loses no message and no wake-up. Under every interleaving, what was popped
  followed by what is queued is what was pushed, in order; a consumer that is told the end has popped
  everything ever accepted; and a consumer blocked on \<open>notify\<close> while there is something to do can be woken:
  the flag is set, or a producer is about to set it, after which the consumer looks again.
\<close>

theorem queue_no_lost_wakeup:
  assumes "queue_run as q"
  shows "popped as @ Q_messages q = pushed as \<and> (Ended \<in> set as \<longrightarrow> popped as = pushed as) \<and>
    (Q_consumer q = Waiting \<and> (Q_messages q \<noteq> [] \<or> Q_closed q) \<longrightarrow>
      (\<exists>q1 q2. (q1 = q \<or> queue_step q Signalled q1) \<and> queue_step q1 Silent q2 \<and> Q_consumer q2 = Looking \<and>
        Q_messages q2 = Q_messages q \<and> Q_closed q2 = Q_closed q))"
proof -
  note ok = queue_run_ok [OF assms, unfolded queue_ok_def]
  have "\<exists>q1 q2. (q1 = q \<or> queue_step q Signalled q1) \<and> queue_step q1 Silent q2 \<and> Q_consumer q2 = Looking \<and>
        Q_messages q2 = Q_messages q \<and> Q_closed q2 = Q_closed q"
    if w: "Q_consumer q = Waiting" "Q_messages q \<noteq> [] \<or> Q_closed q"
  proof (cases "Q_notify q")
    case True
    with pop_wake [OF w(1)] show ?thesis by (intro exI [of _ q] exI [of _ "q\<lparr>Q_notify := False, Q_consumer := Looking\<rparr>"]) simp
  next
    case False
    with ok w have s: "0 < Q_signals q" by blast
    let ?q1 = "queue_signal q"
    have "queue_step ?q1 Silent (?q1\<lparr>Q_notify := False, Q_consumer := Looking\<rparr>)"
      by (rule pop_wake) (simp_all add: queue_signal_def w)
    with signal_it [OF s] show ?thesis
      by (intro exI [of _ ?q1] exI [of _ "?q1\<lparr>Q_notify := False, Q_consumer := Looking\<rparr>"]) (simp add: queue_signal_def)
  qed
  with ok show ?thesis by blast
qed

lemma waiting_run: "\<exists>q. queue_run [Silent, Silent, Pushed ''m''] q \<and> Q_consumer q = Waiting \<and> Q_messages q = [''m'']"
proof -
  let ?q1 = "newResponseQueue\<lparr>Q_consumer := Looking\<rparr>" let ?q2 = "newResponseQueue\<lparr>Q_consumer := Waiting\<rparr>"
  have "queue_step newResponseQueue Silent ?q1" by (rule pop_call) (simp add: newResponseQueue_def)
  from queue_go [OF new_queue this] have r1: "queue_run [Silent] ?q1" by simp
  have "queue_step ?q1 Silent ?q2" by (rule pop_wait) (simp_all add: newResponseQueue_def pop_section_def)
  from queue_go [OF r1 this] have r2: "queue_run [Silent, Silent] ?q2" by simp
  have "queue_step ?q2 (Pushed ''m'') (snd (push_section ''m'' ?q2))"
    by (rule push_ok) (simp add: newResponseQueue_def push_section_def)
  from queue_go [OF r2 this] show ?thesis
    by (intro exI [of _ "snd (push_section ''m'' ?q2)"]) (simp add: newResponseQueue_def push_section_def)
qed

theorem queue_no_lost_wakeup_witness:
  "\<exists>q2 :: responseQueue. Q_consumer q2 = Looking \<and> Q_messages q2 = [''m''] \<and> pushed [Silent, Silent, Pushed ''m''] = [''m'']"
proof -
  obtain q where q: "queue_run [Silent, Silent, Pushed ''m''] q" "Q_consumer q = Waiting" "Q_messages q = [''m'']"
    using waiting_run by blast
  from queue_no_lost_wakeup [OF q(1)] q(2,3) show ?thesis by (auto simp: popped_def map_filter_simps)
qed

subsection \<open>The supervisor\<close>

text \<open>Durations are \<open>int64\<close> nanoseconds.\<close>

record ReconnectConfig =
  RC_RetryMin :: i64
  RC_RetryMax :: i64
  RC_SessionStableAfter :: i64
  RC_DisconnectTimeout :: i64

definition DefaultReconnectConfig :: ReconnectConfig where
  "DefaultReconnectConfig = \<lparr>RC_RetryMin = 1000000000, RC_RetryMax = 30 * 1000000000, RC_SessionStableAfter = 60 * 1000000000,
     RC_DisconnectTimeout = 2 * 1000000000\<rparr>"

definition normalizeReconnectConfig :: "ReconnectConfig \<Rightarrow> ReconnectConfig" where
  "normalizeReconnectConfig c =
     (let d = DefaultReconnectConfig;
          lo = (if sint (RC_RetryMin c) \<le> 0 then RC_RetryMin d else RC_RetryMin c);
          hi = (if sint (RC_RetryMax c) \<le> 0 then RC_RetryMax d else RC_RetryMax c)
      in \<lparr>RC_RetryMin = lo, RC_RetryMax = (if sint hi < sint lo then lo else hi),
          RC_SessionStableAfter = (if sint (RC_SessionStableAfter c) \<le> 0 then RC_SessionStableAfter d else RC_SessionStableAfter c),
          RC_DisconnectTimeout = (if RC_DisconnectTimeout c = 0 then RC_DisconnectTimeout d else RC_DisconnectTimeout c)\<rparr>)"

definition nextRetryDelay :: "i64 \<Rightarrow> i64 \<Rightarrow> i64" where
  "nextRetryDelay current maximum = (if sint maximum sdiv 2 \<le> sint current then maximum else current * 2)"

text \<open>One round of the supervisor as the environment makes it: the factory (\<open>A_client\<close>: it returned a client,
  \<open>A_err\<close>: an error), the session (\<open>A_failed\<close>, and how long it ran), \<open>ctx.Err()\<close> before the round and after
  the session, and whether the wait was interrupted.\<close>

record round =
  A_ctx :: bool
  A_client :: bool
  A_err :: bool
  A_failed :: bool
  A_ran :: i64
  A_ctx2 :: bool
  A_interrupted :: bool

datatype super_action = Created | Session | ClosedClient | Waited i64

text \<open>\<open>closeReconnectClient\<close> always ends with \<open>Close\<close>; \<open>Disconnect\<close> runs beside it for at most its timeout.\<close>

definition round_start :: "ReconnectConfig \<Rightarrow> round \<Rightarrow> i64 \<Rightarrow> super_action list \<times> i64 option" where
  "round_start c r delay =
     (if A_ctx r then ([], None)
      else if A_err r then (if A_client r then [Created, ClosedClient] else [], Some delay)
      else if \<not> A_client r then ([], Some delay)
      else ([Created, Session, ClosedClient],
            if A_ctx2 r \<or> \<not> A_failed r then None
            else Some (if sint (RC_SessionStableAfter c) \<le> sint (A_ran r) then RC_RetryMin c else delay)))"

text \<open>The loop over a list of rounds: what it did, and whether it has returned. An interrupted wait is
  reported as well.\<close>

primrec supervise :: "ReconnectConfig \<Rightarrow> round list \<Rightarrow> i64 \<Rightarrow> super_action list \<times> bool" where
  "supervise c [] delay = ([], False)"
| "supervise c (r # rs) delay =
     (case round_start c r delay of
        (as, None) \<Rightarrow> (as, True)
      | (as, Some delay) \<Rightarrow>
          if A_interrupted r then (as @ [Waited delay], True)
          else (case supervise c rs (nextRetryDelay delay (RC_RetryMax c)) of (bs, returned) \<Rightarrow> (as @ Waited delay # bs, returned)))"

definition RunWithReconnect :: "ReconnectConfig \<Rightarrow> round list \<Rightarrow> super_action list \<times> bool" where
  "RunWithReconnect c rs = (let c = normalizeReconnectConfig c in supervise c rs (RC_RetryMin c))"

text \<open>No wait leaves the configured range.\<close>

definition sane :: "ReconnectConfig \<Rightarrow> bool" where
  "sane c \<longleftrightarrow> 0 < sint (RC_RetryMin c) \<and> sint (RC_RetryMin c) \<le> sint (RC_RetryMax c)"

lemma normalize_sane: "sane (normalizeReconnectConfig c)"
  by (auto simp: sane_def normalizeReconnectConfig_def DefaultReconnectConfig_def Let_def)

lemma nextRetryDelay_range:
  assumes "0 < sint d" "sint d \<le> sint m"
  shows "sint d \<le> sint (nextRetryDelay d m)" "sint (nextRetryDelay d m) \<le> sint m"
    and "sint (nextRetryDelay d m) < sint m \<Longrightarrow> sint (nextRetryDelay d m) = 2 * sint d"
proof -
  have half: "sint m sdiv 2 = sint m div 2" using assms by (simp add: signed_divide_int_def)
  have "sint (d * 2) = 2 * sint d" if "sint d < sint m div 2"
  proof -
    have "sint m < 2 ^ 63" using sint_less [of m] by simp
    then have r: "2 * sint d < 2 ^ 63" "- (2 ^ 63) \<le> 2 * sint d" using that assms by simp_all
    have "d * 2 = word_of_int (2 * sint d)" by simp
    also have "sint (word_of_int (2 * sint d) :: i64) = 2 * sint d" using r by (intro sint_i64_exact)
    finally show ?thesis .
  qed
  then show "sint d \<le> sint (nextRetryDelay d m)" "sint (nextRetryDelay d m) \<le> sint m"
      "sint (nextRetryDelay d m) < sint m \<Longrightarrow> sint (nextRetryDelay d m) = 2 * sint d"
    using assms by (auto simp: nextRetryDelay_def half not_le)
qed

definition open_clients :: "super_action list \<Rightarrow> int" where
  "open_clients as = int (length (filter (\<lambda>a. a = Created) as)) - int (length (filter (\<lambda>a. a = ClosedClient) as))"

definition waits :: "super_action list \<Rightarrow> i64 list" where
  "waits as = List.map_filter (\<lambda>a. case a of Waited d \<Rightarrow> Some d | _ \<Rightarrow> None) as"

lemma action_simps [simp]:
  "open_clients [] = 0" "waits [] = []"
  "open_clients (as @ bs) = open_clients as + open_clients bs"
  "open_clients (a # as) = (case a of Created \<Rightarrow> 1 | ClosedClient \<Rightarrow> - 1 | _ \<Rightarrow> 0) + open_clients as"
  "waits (a # as) = (case a of Waited d \<Rightarrow> [d] | _ \<Rightarrow> []) @ waits as" "waits (as @ bs) = waits as @ waits bs"
  by (simp_all add: open_clients_def waits_def map_filter_def split: super_action.split)

lemma round_start_facts:
  assumes "round_start c r delay = (as, next)" "sane c" "sint (RC_RetryMin c) \<le> sint delay" "sint delay \<le> sint (RC_RetryMax c)"
  shows "open_clients as = 0 \<and> waits as = [] \<and>
    (\<forall>d. next = Some d \<longrightarrow> sint (RC_RetryMin c) \<le> sint d \<and> sint d \<le> sint (RC_RetryMax c))"
  using assms by (auto simp: round_start_def sane_def split: if_splits)

lemma supervise_facts:
  assumes "sane c" "sint (RC_RetryMin c) \<le> sint delay" "sint delay \<le> sint (RC_RetryMax c)"
  shows "open_clients (fst (supervise c rs delay)) = 0 \<and>
    (\<forall>d \<in> set (waits (fst (supervise c rs delay))). sint (RC_RetryMin c) \<le> sint d \<and> sint d \<le> sint (RC_RetryMax c))"
  using assms(2,3)
proof (induction rs arbitrary: delay)
  case (Cons r rs)
  obtain as "next" where s: "round_start c r delay = (as, next)" by fastforce
  note f = round_start_facts [OF s assms(1) Cons.prems]
  show ?case
  proof (cases "next")
    case (Some d)
    with f have d: "0 < sint d" "sint (RC_RetryMin c) \<le> sint d" "sint d \<le> sint (RC_RetryMax c)" using assms(1) by (auto simp: sane_def)
    note n = nextRetryDelay_range(1,2) [OF d(1,3)]
    then have "sint (RC_RetryMin c) \<le> sint (nextRetryDelay d (RC_RetryMax c))" using d(2) by linarith
    from Cons.IH [OF this n(2)] f d show ?thesis by (auto simp: s Some split: prod.split)
  qed (use f in \<open>simp add: s\<close>)
qed simp

text \<open>
  C40: whatever configuration the supervisor is given and whatever factory, sessions and contexts do, it
  never waits longer than \<open>RetryMax\<close> or shorter than \<open>RetryMin\<close> of the normalised configuration, which are
  positive, and every client it was given is closed again before the next one is asked for and before
  the supervisor returns.
\<close>

theorem reconnect_bounds:
  "0 < sint (RC_RetryMin (normalizeReconnectConfig c)) \<and>
   list_all (\<lambda>d. sint (RC_RetryMin (normalizeReconnectConfig c)) \<le> sint d \<and> sint d \<le> sint (RC_RetryMax (normalizeReconnectConfig c)))
     (waits (fst (RunWithReconnect c rs))) \<and>
   open_clients (fst (RunWithReconnect c rs)) = 0"
proof -
  have s: "0 < sint (RC_RetryMin (normalizeReconnectConfig c))"
    "sint (RC_RetryMin (normalizeReconnectConfig c)) \<le> sint (RC_RetryMax (normalizeReconnectConfig c))"
    using normalize_sane [of c] by (simp_all add: sane_def)
  from supervise_facts [OF normalize_sane order_refl s(2)] s(1) show ?thesis
    unfolding RunWithReconnect_def Let_def list_all_iff by blast
qed

end
